(* ===== verification/Prelude.thy ===== *)
theory Prelude
  imports Main "HOL-Library.AList" "HOL-Library.List_Lexorder" "HOL-Library.Char_ord"
    "HOL-Library.Sublist"
begin

text \<open>
  The vocabulary every component of the development shares.

  \<^item> \<^bold>\<open>Errors.\<close> A Python function that may raise is a function into \<open>exn + 'a\<close>
    (the component theories instantiate \<open>'e\<close>); \<open>bindR\<close> sequences two such calls and
    \<open>mapM\<close> is the loop that stops at the first error.
  \<^item> \<^bold>\<open>Strings.\<close> A Python \<open>str\<close> is a \<^typ>\<open>string\<close>, a list of code points below 256.
    The methods the sources use are defined here with Python's rules: \<open>strip\<close>,
    \<open>splitlines\<close>, \<open>split\<close>, \<open>join\<close>, \<open>rstrip\<close>, \<open>find\<close>-like tests, \<open>count\<close>,
    \<open>lower\<close>, \<open>upper\<close>, \<open>str(int)\<close> and \<open>int(str)\<close>.
  \<^item> \<^bold>\<open>Dicts.\<close> A Python \<open>dict\<close> is an association list in insertion order with distinct
    keys; assignment is \<^const>\<open>AList.update\<close>, which replaces in place and otherwise appends.
  The named collections \<open>result_simps\<close>, \<open>str_simps\<close> and \<open>dict_simps\<close> carry the
  component proofs.
\<close>

named_theorems result_simps "unfolding the error monad"
named_theorems str_simps "facts on Python string operations"
named_theorems dict_simps "facts on Python dicts"

section \<open>Results\<close>

fun bindR :: "'e + 'a \<Rightarrow> ('a \<Rightarrow> 'e + 'b) \<Rightarrow> 'e + 'b" where
  "bindR (Inl e) f = Inl e"
| "bindR (Inr x) f = f x"

lemma bindR_Inr_iff [result_simps]:
  "bindR r f = Inr y \<longleftrightarrow> (\<exists>x. r = Inr x \<and> f x = Inr y)"
  by (cases r) auto

lemma bindR_Inl_iff [result_simps]:
  "bindR r f = Inl e \<longleftrightarrow> r = Inl e \<or> (\<exists>x. r = Inr x \<and> f x = Inl e)"
  by (cases r) auto

lemma bindR_assoc: "bindR (bindR r f) g = bindR r (\<lambda>x. bindR (f x) g)"
  by (cases r) auto

text \<open>A Python loop that builds a list and lets the first exception escape.\<close>

fun mapM :: "('a \<Rightarrow> 'e + 'b) \<Rightarrow> 'a list \<Rightarrow> 'e + 'b list" where
  "mapM f [] = Inr []"
| "mapM f (x # xs) = bindR (f x) (\<lambda>y. bindR (mapM f xs) (\<lambda>ys. Inr (y # ys)))"

lemma mapM_Inr_iff: "mapM f xs = Inr ys \<longleftrightarrow> list_all2 (\<lambda>x y. f x = Inr y) xs ys"
  by (induction xs arbitrary: ys) (auto simp: bindR_Inr_iff list_all2_Cons1)

lemma mapM_Inr_length: "mapM f xs = Inr ys \<Longrightarrow> length ys = length xs"
  by (simp add: mapM_Inr_iff list_all2_lengthD)

lemma mapM_Inl_iff:
  "mapM f xs = Inl e \<longleftrightarrow>
     (\<exists>us x vs. xs = us @ x # vs \<and> (\<forall>u \<in> set us. \<exists>y. f u = Inr y) \<and> f x = Inl e)"
proof (induction xs)
  case Nil
  then show ?case by simp
next
  case (Cons a xs)
  show ?case
  proof (cases "f a")
    case (Inl e')
    then have "(\<exists>us x vs. a # xs = us @ x # vs \<and> (\<forall>u \<in> set us. \<exists>y. f u = Inr y) \<and> f x = Inl e)
        \<longleftrightarrow> e' = e"
      by (fastforce simp: Cons_eq_append_conv)
    with Inl show ?thesis by simp
  next
    case (Inr y)
    then have "(\<exists>us x vs. a # xs = us @ x # vs \<and> (\<forall>u \<in> set us. \<exists>y. f u = Inr y) \<and> f x = Inl e)
        \<longleftrightarrow> (\<exists>us x vs. xs = us @ x # vs \<and> (\<forall>u \<in> set us. \<exists>y. f u = Inr y) \<and> f x = Inl e)"
      by (fastforce simp: Cons_eq_append_conv intro: exI [of _ "a # us" for us])
    with Inr Cons.IH show ?thesis by (auto simp: bindR_Inl_iff)
  qed
qed

lemma mapM_total: "(\<And>x. x \<in> set xs \<Longrightarrow> f x = Inr (g x)) \<Longrightarrow> mapM f xs = Inr (map g xs)"
  by (induction xs) auto

lemma mapM_append:
  "mapM f (xs @ ys) = bindR (mapM f xs) (\<lambda>us. bindR (mapM f ys) (\<lambda>vs. Inr (us @ vs)))"
proof (induction xs)
  case Nil
  then show ?case by (cases "mapM f ys") auto
next
  case (Cons x xs)
  then show ?case by (simp add: bindR_assoc)
qed

fun the_default :: "'a \<Rightarrow> 'a option \<Rightarrow> 'a" where
  "the_default d None = d"
| "the_default d (Some x) = x"

lemma in_map_filter: "w \<in> set (List.map_filter f xs) \<longleftrightarrow> (\<exists>x \<in> set xs. f x = Some w)"
  by (induction xs) (auto simp: List.map_filter_simps split: option.splits)

section \<open>Python strings\<close>

text \<open>\<open>str.isspace\<close> on code points below 256: what \<open>strip\<close> removes and what
  \<open>\s\<close> matches.\<close>

definition is_ws :: "char \<Rightarrow> bool" where
  "is_ws c = (let n = (of_char c :: nat)
     in (9 \<le> n \<and> n \<le> 13) \<or> (28 \<le> n \<and> n \<le> 32) \<or> n = 133 \<or> n = 160)"

definition is_digit :: "char \<Rightarrow> bool" where
  "is_digit c = (let n = (of_char c :: nat) in 48 \<le> n \<and> n \<le> 57)"

definition rstrip_by :: "(char \<Rightarrow> bool) \<Rightarrow> string \<Rightarrow> string" where
  "rstrip_by P s = rev (dropWhile P (rev s))"

definition strip_by :: "(char \<Rightarrow> bool) \<Rightarrow> string \<Rightarrow> string" where
  "strip_by P s = rstrip_by P (dropWhile P s)"

abbreviation strip :: "string \<Rightarrow> string" where
  "strip s \<equiv> strip_by is_ws s"

definition lstrip_char :: "char \<Rightarrow> string \<Rightarrow> string" where
  "lstrip_char c s = dropWhile (\<lambda>d. d = c) s"

definition rstrip_char :: "char \<Rightarrow> string \<Rightarrow> string" where
  "rstrip_char c s = rstrip_by (\<lambda>d. d = c) s"

abbreviation startswith :: "string \<Rightarrow> string \<Rightarrow> bool" where
  "startswith s p \<equiv> prefix p s"

abbreviation endswith :: "string \<Rightarrow> string \<Rightarrow> bool" where
  "endswith s p \<equiv> suffix p s"

text \<open>\<open>p in s\<close> for strings.\<close>

fun contains :: "string \<Rightarrow> string \<Rightarrow> bool" where
  "contains p [] = (p = [])"
| "contains p (c # s) = (startswith (c # s) p \<or> contains p s)"

text \<open>\<open>s.replace(a, b)\<close> for one-character strings.\<close>

definition replace_char :: "char \<Rightarrow> char \<Rightarrow> string \<Rightarrow> string" where
  "replace_char a b s = map (\<lambda>c. if c = a then b else c) s"

text \<open>\<open>s.split(sep)\<close> for a one-character separator: never the empty list.\<close>

fun split_on :: "char \<Rightarrow> string \<Rightarrow> string list" where
  "split_on sep [] = [[]]"
| "split_on sep (c # s) =
     (if c = sep then [] # split_on sep s
      else (case split_on sep s of [] \<Rightarrow> [[c]] | l # ls \<Rightarrow> (c # l) # ls))"

fun join :: "string \<Rightarrow> string list \<Rightarrow> string" where
  "join sep [] = []"
| "join sep [x] = x"
| "join sep (x # y # xs) = x @ sep @ join sep (y # xs)"

text \<open>The line boundaries of \<open>str.splitlines\<close> below code point 256.\<close>

definition is_newline :: "char \<Rightarrow> bool" where
  "is_newline c = (let n = (of_char c :: nat)
     in (10 \<le> n \<and> n \<le> 13) \<or> (28 \<le> n \<and> n \<le> 30) \<or> n = 133)"

fun splitlines :: "string \<Rightarrow> string list" where
  "splitlines [] = []"
| "splitlines [c] = (if is_newline c then [[]] else [[c]])"
| "splitlines (c # d # s) =
     (if c = CHR 0x0D \<and> d = CHR 0x0A then [] # splitlines s
      else if is_newline c then [] # splitlines (d # s)
      else (case splitlines (d # s) of [] \<Rightarrow> [[c]] | l # ls \<Rightarrow> (c # l) # ls))"

text \<open>\<open>s.count(p)\<close>: non-overlapping occurrences, left to right (\<open>p\<close> non-empty).\<close>

function count_sub :: "string \<Rightarrow> string \<Rightarrow> nat" where
  "count_sub p s =
     (if p = [] \<or> s = [] then 0
      else if startswith s p then Suc (count_sub p (drop (length p) s))
      else count_sub p (tl s))"
  by pat_completeness auto
termination
  by (relation "measure (\<lambda>(p, s). length s)") (auto simp: less_diff_conv)

declare count_sub.simps [simp del]

text \<open>ASCII case conversion.\<close>

definition lower_char :: "char \<Rightarrow> char" where
  "lower_char c = (let n = (of_char c :: nat)
     in if 65 \<le> n \<and> n \<le> 90 then char_of (n + 32) else c)"

definition upper_char :: "char \<Rightarrow> char" where
  "upper_char c = (let n = (of_char c :: nat)
     in if 97 \<le> n \<and> n \<le> 122 then char_of (n - 32) else c)"

definition lower :: "string \<Rightarrow> string" where "lower s = map lower_char s"
definition upper :: "string \<Rightarrow> string" where "upper s = map upper_char s"

text \<open>\<open>s.encode("utf-8")\<close>.\<close>

definition utf8_char :: "char \<Rightarrow> string" where
  "utf8_char c = (let n = (of_char c :: nat) in
     if n < 128 then [c] else [char_of (192 + n div 64), char_of (128 + n mod 64)])"

definition utf8 :: "string \<Rightarrow> string" where
  "utf8 s = concat (map utf8_char s)"

text \<open>\<open>str(n)\<close>: decimal digits without leading zeros, a minus sign for negatives.\<close>

definition digit_char :: "nat \<Rightarrow> char" where
  "digit_char d = char_of (48 + d)"

definition digit_val :: "char \<Rightarrow> nat" where
  "digit_val c = of_char c - 48"

fun show_nat :: "nat \<Rightarrow> string" where
  "show_nat n = (if n < 10 then [digit_char n] else show_nat (n div 10) @ [digit_char (n mod 10)])"

declare show_nat.simps [simp del]

definition show_int :: "int \<Rightarrow> string" where
  "show_int i = (if i < 0 then CHR ''-'' # show_nat (nat (- i)) else show_nat (nat i))"

text \<open>The digit part of \<open>int(s)\<close>: digits, with single underscores between digits.\<close>

fun read_digits :: "nat \<Rightarrow> string \<Rightarrow> nat option" where
  "read_digits acc [] = Some acc"
| "read_digits acc (c # s) =
     (if is_digit c then read_digits (10 * acc + digit_val c) s
      else if c = CHR ''_'' then
        (case s of [] \<Rightarrow> None
         | d # _ \<Rightarrow> if is_digit d then read_digits acc s else None)
      else None)"

definition read_nat :: "string \<Rightarrow> nat option" where
  "read_nat s = (case s of [] \<Rightarrow> None | c # _ \<Rightarrow> if is_digit c then read_digits 0 s else None)"

text \<open>\<open>int(s)\<close>; \<open>None\<close> is the \<open>ValueError\<close>.\<close>

definition py_int :: "string \<Rightarrow> int option" where
  "py_int s = (case strip s of
       [] \<Rightarrow> None
     | c # t \<Rightarrow>
         if c = CHR ''-'' then map_option (\<lambda>n. - int n) (read_nat t)
         else if c = CHR ''+'' then map_option int (read_nat t)
         else map_option int (read_nat (c # t)))"

subsection \<open>Facts on strings\<close>

lemma strip_by_Nil [simp]: "strip_by P [] = []"
  by (simp add: strip_by_def rstrip_by_def)

lemma rstrip_by_id: "s = [] \<or> \<not> P (last s) \<Longrightarrow> rstrip_by P s = s"
  by (cases s rule: rev_cases) (auto simp: rstrip_by_def)

lemma strip_by_id: "s = [] \<or> (\<not> P (hd s) \<and> \<not> P (last s)) \<Longrightarrow> strip_by P s = s"
  by (cases s) (auto simp: strip_by_def rstrip_by_id)

lemma strip_by_no: "\<forall>c \<in> set s. \<not> P c \<Longrightarrow> strip_by P s = s"
  by (rule strip_by_id) (cases "s = []", auto)

lemma rstrip_by_decomp: "\<exists>t. s = rstrip_by P s @ t \<and> (\<forall>c \<in> set t. P c)"
proof -
  have "rev s = takeWhile P (rev s) @ dropWhile P (rev s)" by simp
  then have "s = rev (dropWhile P (rev s)) @ rev (takeWhile P (rev s))"
    by (metis rev_append rev_rev_ident)
  moreover have "\<forall>c \<in> set (rev (takeWhile P (rev s))). P c"
    by (auto dest: set_takeWhileD)
  ultimately show ?thesis by (auto simp: rstrip_by_def)
qed

lemma strip_by_last: "strip_by P s \<noteq> [] \<Longrightarrow> \<not> P (last (strip_by P s))"
  by (simp add: strip_by_def rstrip_by_def last_rev hd_dropWhile)

lemma strip_by_hd: "strip_by P s \<noteq> [] \<Longrightarrow> \<not> P (hd (strip_by P s))"
proof -
  assume ne: "strip_by P s \<noteq> []"
  obtain t where t: "dropWhile P s = strip_by P s @ t"
    using rstrip_by_decomp [of "dropWhile P s" P] by (auto simp: strip_by_def)
  with ne have "hd (dropWhile P s) = hd (strip_by P s)" by (simp add: hd_append)
  moreover from t ne have "dropWhile P s \<noteq> []" by auto
  ultimately show ?thesis using hd_dropWhile [of P s] by simp
qed

lemma strip_by_idem [simp]: "strip_by P (strip_by P s) = strip_by P s"
  by (rule strip_by_id) (use strip_by_hd strip_by_last in blast)

lemma split_on_not_Nil [simp]: "split_on sep s \<noteq> []"
  by (induction s) (auto split: list.splits)

lemma split_on_free: "l \<in> set (split_on sep s) \<Longrightarrow> sep \<notin> set l"
  by (induction s arbitrary: l) (auto split: list.splits if_splits)

lemma split_on_noop: "sep \<notin> set s \<Longrightarrow> split_on sep s = [s]"
  by (induction s) auto

lemma split_on_append: "sep \<notin> set s \<Longrightarrow> split_on sep (s @ sep # t) = s # split_on sep t"
  by (induction s) auto

lemma join_Cons: "xs \<noteq> [] \<Longrightarrow> join sep (x # xs) = x @ sep @ join sep xs"
  by (cases xs) auto

lemma join_append:
  "xs \<noteq> [] \<Longrightarrow> ys \<noteq> [] \<Longrightarrow> join sep (xs @ ys) = join sep xs @ sep @ join sep ys"
  by (induction xs rule: list_nonempty_induct) (auto simp: join_Cons)

lemma join_split_on [simp]: "join [sep] (split_on sep s) = s"
proof (induction s)
  case Nil
  then show ?case by simp
next
  case (Cons c s)
  obtain l ls where l: "split_on sep s = l # ls" by (cases "split_on sep s") auto
  with Cons.IH show ?case
    by (cases ls) (auto simp: join_Cons)
qed

lemma split_on_join:
  "xs \<noteq> [] \<Longrightarrow> \<forall>x \<in> set xs. sep \<notin> set x \<Longrightarrow> split_on sep (join [sep] xs) = xs"
  by (induction xs rule: list_nonempty_induct) (auto simp: join_Cons split_on_noop split_on_append)

lemma contains_iff: "contains p s \<longleftrightarrow> (\<exists>u v. s = u @ p @ v)"
proof (induction s)
  case Nil
  then show ?case by auto
next
  case (Cons c s)
  have "(\<exists>u v. c # s = u @ p @ v) \<longleftrightarrow> startswith (c # s) p \<or> (\<exists>u v. s = u @ p @ v)"
    by (auto simp: prefix_def Cons_eq_append_conv)
  with Cons.IH show ?case by simp
qed

lemma replace_char_length [simp]: "length (replace_char a b s) = length s"
  by (simp add: replace_char_def)

lemma replace_char_free: "a \<noteq> b \<Longrightarrow> a \<notin> set (replace_char a b s)"
  by (auto simp: replace_char_def)

lemma replace_char_noop: "a \<notin> set s \<Longrightarrow> replace_char a b s = s"
  by (auto simp: replace_char_def intro: map_idI)

subsection \<open>Decimal numerals\<close>

lemma of_char_digit_char [simp]: "d < 10 \<Longrightarrow> (of_char (digit_char d) :: nat) = 48 + d"
  by (simp add: digit_char_def)

lemma digit_val_char [simp]: "d < 10 \<Longrightarrow> digit_val (digit_char d) = d"
  by (simp add: digit_val_def)

lemma is_digit_char [simp]: "d < 10 \<Longrightarrow> is_digit (digit_char d)"
  by (simp add: is_digit_def)

lemma is_digit_not_ws: "is_digit c \<Longrightarrow> \<not> is_ws c"
  by (auto simp: is_digit_def is_ws_def Let_def)

lemma show_nat_not_Nil [simp]: "show_nat n \<noteq> []"
  by (subst show_nat.simps) simp

lemma show_nat_digits: "\<forall>c \<in> set (show_nat n). is_digit c"
proof (induction n rule: show_nat.induct)
  case (1 n)
  then show ?case by (subst show_nat.simps) auto
qed

lemma read_digits_append:
  "\<forall>c \<in> set s. is_digit c \<Longrightarrow>
     read_digits acc (s @ t) = read_digits (foldl (\<lambda>a c. 10 * a + digit_val c) acc s) t"
  by (induction s arbitrary: acc) auto

lemma foldl_show_nat: "foldl (\<lambda>a c. 10 * a + digit_val c) 0 (show_nat n) = n"
proof (induction n rule: show_nat.induct)
  case (1 n)
  then show ?case by (cases "n < 10") (subst show_nat.simps, simp)+
qed

lemma read_nat_show_nat [simp]: "read_nat (show_nat n) = Some n"
proof -
  obtain c s where s: "show_nat n = c # s" by (cases "show_nat n") auto
  have "read_digits 0 (show_nat n @ []) = Some n"
    by (subst read_digits_append) (simp_all add: show_nat_digits foldl_show_nat)
  with s show_nat_digits [of n] show ?thesis by (simp add: read_nat_def)
qed

lemma show_nat_hd: "show_nat n = c # s \<Longrightarrow> is_digit c"
  using show_nat_digits [of n] by simp

lemma is_digit_neq:
  "is_digit c \<Longrightarrow> c \<noteq> CHR ''-''" "is_digit c \<Longrightarrow> c \<noteq> CHR ''+''" "is_digit c \<Longrightarrow> c \<noteq> CHR ''.''"
  by (auto simp: is_digit_def)

lemma strip_digits: "\<forall>c \<in> set s. is_digit c \<Longrightarrow> strip s = s"
  by (rule strip_by_no) (auto simp: is_digit_not_ws)

lemma show_int_not_ws: "c \<in> set (show_int i) \<Longrightarrow> \<not> is_ws c"
  using show_nat_digits is_digit_not_ws by (auto simp: show_int_def is_ws_def split: if_splits)

lemma show_int_not_Nil [simp]: "show_int i \<noteq> []"
  by (simp add: show_int_def)

lemma py_int_show_int [simp]: "py_int (show_int i) = Some i"
proof -
  have st: "strip (show_int i) = show_int i"
    by (rule strip_by_no) (auto simp: show_int_not_ws)
  show ?thesis
  proof (cases "i < 0")
    case True
    then show ?thesis using st by (simp add: py_int_def show_int_def)
  next
    case False
    obtain c s where s: "show_nat (nat i) = c # s" by (cases "show_nat (nat i)") auto
    moreover have "is_digit c" using s by (rule show_nat_hd)
    ultimately show ?thesis
      using False st read_nat_show_nat [of "nat i"]
      by (simp add: py_int_def show_int_def is_digit_neq)
  qed
qed

lemma show_int_inj: "show_int i = show_int j \<longleftrightarrow> i = j"
  by (metis option.inject py_int_show_int)

section \<open>Python dicts\<close>

type_synonym ('k, 'v) dict = "('k \<times> 'v) list"

abbreviation dict_wf :: "('k, 'v) dict \<Rightarrow> bool" where
  "dict_wf d \<equiv> distinct (map fst d)"

text \<open>\<open>d.setdefault(k, v)\<close>.\<close>

definition setdefault :: "'k \<Rightarrow> 'v \<Rightarrow> ('k, 'v) dict \<Rightarrow> ('k, 'v) dict" where
  "setdefault k v d = (if map_of d k = None then d @ [(k, v)] else d)"

text \<open>\<open>d.setdefault(k, []).append(x)\<close>.\<close>

definition dict_append :: "'k \<Rightarrow> 'v \<Rightarrow> ('k, 'v list) dict \<Rightarrow> ('k, 'v list) dict" where
  "dict_append k x d = (case map_of d k of
      None \<Rightarrow> d @ [(k, [x])] | Some xs \<Rightarrow> AList.update k (xs @ [x]) d)"

definition dict_keys :: "('k, 'v) dict \<Rightarrow> 'k list" where
  "dict_keys d = map fst d"

lemma map_of_None_fst: "map_of d k = None \<longleftrightarrow> k \<notin> fst ` set d"
  by (simp add: map_of_eq_None_iff)

lemma AList_update_present [dict_simps]:
  "map fst (AList.update k v d) = (if k \<in> fst ` set d then map fst d else map fst d @ [k])"
  by (simp add: update_keys)

lemma dict_wf_update [dict_simps]: "dict_wf d \<Longrightarrow> dict_wf (AList.update k v d)"
  by (rule distinct_update)

lemma setdefault_lookup [dict_simps]:
  "map_of (setdefault k v d) = (if map_of d k = None then (map_of d)(k \<mapsto> v) else map_of d)"
  by (auto simp: setdefault_def map_add_def fun_eq_iff split: option.splits)

lemma dict_wf_setdefault [dict_simps]: "dict_wf d \<Longrightarrow> dict_wf (setdefault k v d)"
  by (auto simp: setdefault_def map_of_None_fst)

lemma setdefault_keys [dict_simps]:
  "map fst (setdefault k v d) = (if k \<in> fst ` set d then map fst d else map fst d @ [k])"
  by (auto simp: setdefault_def map_of_None_fst)

lemma dict_append_lookup [dict_simps]:
  "map_of (dict_append k x d) =
     (map_of d)(k \<mapsto> (case map_of d k of None \<Rightarrow> [] | Some xs \<Rightarrow> xs) @ [x])"
  by (auto simp: dict_append_def update_conv map_add_def fun_eq_iff split: option.splits)

lemma dict_append_keys [dict_simps]:
  "map fst (dict_append k x d) = (if k \<in> fst ` set d then map fst d else map fst d @ [k])"
  by (auto simp: dict_append_def update_keys map_of_None_fst dest: map_of_SomeD
        split: option.splits)

lemma dict_wf_append [dict_simps]: "dict_wf d \<Longrightarrow> dict_wf (dict_append k x d)"
  by (simp add: dict_append_keys)

text \<open>Grouping a list by a key, the loop \<open>for x in xs: d.setdefault(key(x), []).append(x)\<close>.\<close>

definition group_by :: "('a \<Rightarrow> 'k) \<Rightarrow> 'a list \<Rightarrow> ('k, 'a list) dict" where
  "group_by key xs = fold (\<lambda>x d. dict_append (key x) x d) xs []"

lemma group_by_fold_lookup:
  "map_of (fold (\<lambda>x d. dict_append (key x) x d) xs d) k =
     (if filter (\<lambda>x. key x = k) xs = [] then map_of d k
      else Some ((case map_of d k of None \<Rightarrow> [] | Some ys \<Rightarrow> ys) @ filter (\<lambda>x. key x = k) xs))"
  by (induction xs arbitrary: d) (auto simp: dict_append_lookup split: option.splits)

lemma group_by_lookup:
  "map_of (group_by key xs) k =
     (if k \<in> key ` set xs then Some (filter (\<lambda>x. key x = k) xs) else None)"
proof -
  have "filter (\<lambda>x. key x = k) xs = [] \<longleftrightarrow> k \<notin> key ` set xs"
    by (auto simp: filter_empty_conv)
  then show ?thesis by (simp add: group_by_def group_by_fold_lookup)
qed

lemma group_by_fold_wf: "dict_wf d \<Longrightarrow> dict_wf (fold (\<lambda>x d. dict_append (key x) x d) xs d)"
  by (induction xs arbitrary: d) (auto simp: dict_wf_append)

lemma group_by_wf: "dict_wf (group_by key xs)"
  unfolding group_by_def by (rule group_by_fold_wf) simp

lemma group_by_keys: "fst ` set (group_by key xs) = key ` set xs"
proof -
  have "k \<in> fst ` set (group_by key xs) \<longleftrightarrow> k \<in> key ` set xs" for k
    using group_by_lookup [of key xs k] map_of_eq_None_iff [of "group_by key xs" k]
    by (metis option.distinct(1))
  then show ?thesis by blast
qed

section \<open>Sorted lists without duplicates\<close>

text \<open>\<open>sorted(S)\<close> of a Python set given as a list of its elements.\<close>

lemma sorted_list_of_set_set [simp]: "sorted_list_of_set (set xs) = sort (remdups xs)"
  by (rule sorted_list_of_set_sort_remdups)

lemma sort_remdups_perm: "set xs = set ys \<Longrightarrow> sort (remdups xs) = sort (remdups ys)"
  by (metis sorted_list_of_set_sort_remdups)

text \<open>\<open>s.split()\<close>: the runs of visible characters.\<close>

definition words_of :: "string \<Rightarrow> string list" where
  "words_of z = filter (\<lambda>w. w \<noteq> []) (split_on (CHR '' '') (map (\<lambda>c. if is_ws c then CHR '' '' else c) z))"

end
