(* ===== verification/Json.thy ===== *)
theory Json
  imports Prelude
begin

text \<open>
  The part of Python's \<open>json\<close> module the sources call: the values, \<open>json.dumps\<close>
  (with its \<open>separators\<close> and \<open>ensure_ascii\<close> options) and \<open>json.loads\<close>.
  A \<open>float\<close> is kept as its literal, so the encoder prints it back as it was read; a
  \<open>\u\<close> escape beyond code point 255 is outside the modelled strings and is a decode error.
  The parser is recursive with fuel: \<open>loads\<close> starts it with \<open>2 * length + 2\<close>, and
  \<open>pvalue_stable\<close> shows that more fuel never changes the outcome, so \<open>None\<close> is always a
  syntax error and never exhaustion. \<open>loads_dumps\<close> is the round trip the components that
  exchange JSON text rest on.
\<close>

datatype json =
    JNull
  | JBool bool
  | JInt int
  | JFloat string
  | JStr string
  | JList "json list"
  | JObj "(string \<times> json) list"

abbreviation is_dict :: "json \<Rightarrow> bool" where
  "is_dict v \<equiv> (case v of JObj _ \<Rightarrow> True | _ \<Rightarrow> False)"

abbreviation is_list :: "json \<Rightarrow> bool" where
  "is_list v \<equiv> (case v of JList _ \<Rightarrow> True | _ \<Rightarrow> False)"

abbreviation is_str :: "json \<Rightarrow> bool" where
  "is_str v \<equiv> (case v of JStr _ \<Rightarrow> True | _ \<Rightarrow> False)"

text \<open>\<open>bool(v)\<close>. The false floats are the literals whose digits before any exponent
  are all zero.\<close>

definition float_is_zero :: "string \<Rightarrow> bool" where
  "float_is_zero l =
     (\<forall>c \<in> set (takeWhile (\<lambda>c. c \<noteq> CHR ''e'' \<and> c \<noteq> CHR ''E'') l).
        c = CHR ''0'' \<or> c = CHR ''.'' \<or> c = CHR ''-'')"

fun truthy :: "json \<Rightarrow> bool" where
  "truthy JNull = False"
| "truthy (JBool b) = b"
| "truthy (JInt i) = (i \<noteq> 0)"
| "truthy (JFloat l) = (\<not> float_is_zero l)"
| "truthy (JStr s) = (s \<noteq> [])"
| "truthy (JList xs) = (xs \<noteq> [])"
| "truthy (JObj kvs) = (kvs \<noteq> [])"

subsection \<open>Python's repr and str of a decoded value\<close>

definition hex_char :: "nat \<Rightarrow> char" where
  "hex_char d = (if d < 10 then char_of (48 + d) else char_of (87 + d))"

definition repr_char :: "char \<Rightarrow> char \<Rightarrow> string" where
  "repr_char q c = (let n = (of_char c :: nat) in
     if c = CHR 0x5C then [CHR 0x5C, CHR 0x5C]
     else if c = q then [CHR 0x5C, q]
     else if n = 10 then [CHR 0x5C, CHR ''n'']
     else if n = 13 then [CHR 0x5C, CHR ''r'']
     else if n = 9 then [CHR 0x5C, CHR ''t'']
     else if n < 32 \<or> (127 \<le> n \<and> n \<le> 160) \<or> n = 173
       then [CHR 0x5C, CHR ''x'', hex_char (n div 16), hex_char (n mod 16)]
     else [c])"

definition repr_str :: "string \<Rightarrow> string" where
  "repr_str s = (let q = (if CHR 0x27 \<in> set s \<and> CHR 0x22 \<notin> set s then CHR 0x22 else CHR 0x27)
     in q # concat (map (repr_char q) s) @ [q])"

fun py_repr :: "json \<Rightarrow> string" where
  "py_repr JNull = ''None''"
| "py_repr (JBool b) = (if b then ''True'' else ''False'')"
| "py_repr (JInt i) = show_int i"
| "py_repr (JFloat l) = l"
| "py_repr (JStr s) = repr_str s"
| "py_repr (JList xs) = ''['' @ join '', '' (map py_repr xs) @ '']''"
| "py_repr (JObj kvs) =
     ''{'' @ join '', '' (map (\<lambda>(k, v). repr_str k @ '': '' @ py_repr v) kvs) @ ''}''"

definition py_str :: "json \<Rightarrow> string" where
  "py_str v = (case v of JStr s \<Rightarrow> s | _ \<Rightarrow> py_repr v)"

section \<open>Encoding\<close>

definition esc_char :: "bool \<Rightarrow> char \<Rightarrow> string" where
  "esc_char ascii c = (let n = (of_char c :: nat) in
     if c = CHR 0x22 then [CHR 0x5C, CHR 0x22]
     else if c = CHR 0x5C then [CHR 0x5C, CHR 0x5C]
     else if n = 8 then [CHR 0x5C, CHR ''b'']
     else if n = 12 then [CHR 0x5C, CHR ''f'']
     else if n = 10 then [CHR 0x5C, CHR ''n'']
     else if n = 13 then [CHR 0x5C, CHR ''r'']
     else if n = 9 then [CHR 0x5C, CHR ''t'']
     else if n < 32 \<or> (ascii \<and> 126 < n)
       then [CHR 0x5C, CHR ''u'', CHR ''0'', CHR ''0'', hex_char (n div 16), hex_char (n mod 16)]
     else [c])"

definition dump_str :: "bool \<Rightarrow> string \<Rightarrow> string" where
  "dump_str ascii s = CHR 0x22 # concat (map (esc_char ascii) s) @ [CHR 0x22]"

record dump_opts =
  ensure_ascii :: bool
  item_sep :: string
  key_sep :: string

text \<open>\<open>json.dumps(v)\<close> and \<open>json.dumps(v, ensure_ascii=False, separators=(",", ":"))\<close>.\<close>

definition dflt_opts :: dump_opts where
  "dflt_opts = \<lparr>ensure_ascii = True, item_sep = '', '', key_sep = '': ''\<rparr>"

definition compact_opts :: dump_opts where
  "compact_opts = \<lparr>ensure_ascii = False, item_sep = '','', key_sep = '':''\<rparr>"

fun dumps :: "dump_opts \<Rightarrow> json \<Rightarrow> string" where
  "dumps po JNull = ''null''"
| "dumps po (JBool b) = (if b then ''true'' else ''false'')"
| "dumps po (JInt i) = show_int i"
| "dumps po (JFloat l) = l"
| "dumps po (JStr s) = dump_str (ensure_ascii po) s"
| "dumps po (JList xs) = ''['' @ join (item_sep po) (map (dumps po) xs) @ '']''"
| "dumps po (JObj kvs) =
     ''{'' @ join (item_sep po)
       (map (\<lambda>(k, v). dump_str (ensure_ascii po) k @ key_sep po @ dumps po v) kvs) @ ''}''"

section \<open>Decoding\<close>

definition json_ws :: "char \<Rightarrow> bool" where
  "json_ws c = (c = CHR '' '' \<or> c = CHR 0x09 \<or> c = CHR 0x0A \<or> c = CHR 0x0D)"

definition skip_ws :: "string \<Rightarrow> string" where
  "skip_ws s = dropWhile json_ws s"

definition hex_val :: "char \<Rightarrow> nat option" where
  "hex_val c = (let n = (of_char c :: nat) in
     if 48 \<le> n \<and> n \<le> 57 then Some (n - 48)
     else if 97 \<le> n \<and> n \<le> 102 then Some (n - 87)
     else if 65 \<le> n \<and> n \<le> 70 then Some (n - 55)
     else None)"

definition simple_esc :: "char \<Rightarrow> char option" where
  "simple_esc c =
     (if c = CHR 0x22 \<or> c = CHR 0x5C \<or> c = CHR ''/'' then Some c
      else if c = CHR ''b'' then Some (CHR 0x08)
      else if c = CHR ''f'' then Some (CHR 0x0C)
      else if c = CHR ''n'' then Some (CHR 0x0A)
      else if c = CHR ''r'' then Some (CHR 0x0D)
      else if c = CHR ''t'' then Some (CHR 0x09)
      else None)"

definition hex4 :: "char \<Rightarrow> char \<Rightarrow> char \<Rightarrow> char \<Rightarrow> nat option" where
  "hex4 a b c d = (case (hex_val a, hex_val b, hex_val c, hex_val d) of
      (Some w, Some x, Some y, Some z) \<Rightarrow> Some (4096 * w + 256 * x + 16 * y + z)
    | _ \<Rightarrow> None)"

text \<open>The body of a string literal, after the opening quote.\<close>

fun pstr :: "string \<Rightarrow> (string \<times> string) option" where
  "pstr [] = None"
| "pstr (c # s) =
     (if c = CHR 0x22 then Some ([], s)
      else if c = CHR 0x5C then
        (case s of
           [] \<Rightarrow> None
         | e # t \<Rightarrow>
             if e = CHR ''u'' then
               (case t of
                  h1 # h2 # h3 # h4 # r \<Rightarrow>
                    (case hex4 h1 h2 h3 h4 of
                       None \<Rightarrow> None
                     | Some n \<Rightarrow>
                         if n < 256 then map_option (\<lambda>(x, y). (char_of n # x, y)) (pstr r)
                         else None)
                | _ \<Rightarrow> None)
             else (case simple_esc e of
                 None \<Rightarrow> None
               | Some d \<Rightarrow> map_option (\<lambda>(x, y). (d # x, y)) (pstr t)))
      else if (of_char c :: nat) < 32 then None
      else map_option (\<lambda>(x, y). (c # x, y)) (pstr s))"

text \<open>The number syntax of \<open>json.scanner.NUMBER_RE\<close>.\<close>

definition digits_of :: "string \<Rightarrow> string" where
  "digits_of s = takeWhile is_digit s"

definition nat_of_digits :: "string \<Rightarrow> nat" where
  "nat_of_digits s = foldl (\<lambda>a c. 10 * a + digit_val c) 0 s"

definition pint :: "string \<Rightarrow> (string \<times> string) option" where
  "pint s = (case s of
      [] \<Rightarrow> None
    | c # t \<Rightarrow> if c = CHR ''0'' then Some (''0'', t)
              else if is_digit c then Some (digits_of s, drop (length (digits_of s)) s)
              else None)"

definition pfrac :: "string \<Rightarrow> string \<times> string" where
  "pfrac s = (case s of
      c # t \<Rightarrow> if c = CHR ''.'' \<and> digits_of t \<noteq> []
              then (c # digits_of t, drop (length (digits_of t)) t) else ([], s)
    | [] \<Rightarrow> ([], s))"

definition pexp :: "string \<Rightarrow> string \<times> string" where
  "pexp s = (case s of
      c # t \<Rightarrow>
        if c = CHR ''e'' \<or> c = CHR ''E'' then
          (let (sg, u) = (case t of d # v \<Rightarrow>
                 if d = CHR ''-'' \<or> d = CHR ''+'' then ([d], v) else ([], t) | [] \<Rightarrow> ([], t))
           in if digits_of u \<noteq> [] then (c # sg @ digits_of u, drop (length (digits_of u)) u)
              else ([], s))
        else ([], s)
    | [] \<Rightarrow> ([], s))"

definition pnumber :: "string \<Rightarrow> (json \<times> string) option" where
  "pnumber s =
     (let (sg, s1) = (case s of c # t \<Rightarrow> if c = CHR ''-'' then (''-'', t) else ([], s) | [] \<Rightarrow> ([], s))
      in case pint s1 of
           None \<Rightarrow> None
         | Some (ds, s2) \<Rightarrow>
             (let (fr, s3) = pfrac s2; (ex, s4) = pexp s3 in
              if fr = [] \<and> ex = []
              then Some (JInt ((if sg = [] then 1 else -1) * int (nat_of_digits ds)), s4)
              else Some (JFloat (sg @ ds @ fr @ ex), s4)))"

definition plit :: "string \<Rightarrow> json \<Rightarrow> string \<Rightarrow> (json \<times> string) option" where
  "plit l v s = (if startswith s l then Some (v, drop (length l) s) else None)"

text \<open>Strings, literals and numbers: the values without recursion.\<close>

definition pscalar :: "string \<Rightarrow> (json \<times> string) option" where
  "pscalar s = (case s of
      [] \<Rightarrow> None
    | c # t \<Rightarrow>
        if c = CHR 0x22 then map_option (\<lambda>(x, r). (JStr x, r)) (pstr t)
        else if c = CHR ''n'' then plit ''null'' JNull s
        else if c = CHR ''t'' then plit ''true'' (JBool True) s
        else if c = CHR ''f'' then plit ''false'' (JBool False) s
        else if c = CHR ''N'' then plit ''NaN'' (JFloat ''NaN'') s
        else if c = CHR ''I'' then plit ''Infinity'' (JFloat ''Infinity'') s
        else if startswith s ''-Infinity'' then plit ''-Infinity'' (JFloat ''-Infinity'') s
        else pnumber s)"

fun pvalue :: "nat \<Rightarrow> string \<Rightarrow> (json \<times> string) option"
  and pelems :: "nat \<Rightarrow> string \<Rightarrow> (json list \<times> string) option"
  and pmembers :: "nat \<Rightarrow> string \<Rightarrow> ((string \<times> json) list \<times> string) option"
where
  "pvalue 0 s = None"
| "pvalue (Suc f) s = (case s of
      [] \<Rightarrow> None
    | c # t \<Rightarrow>
        if c = CHR ''{'' then
          (case skip_ws t of
             d # r \<Rightarrow> if d = CHR ''}'' then Some (JObj [], r)
                      else map_option (\<lambda>(kvs, r). (JObj (fold (\<lambda>(k, v). AList.update k v) kvs []), r))
                             (pmembers f (skip_ws t))
           | [] \<Rightarrow> None)
        else if c = CHR ''['' then
          (case skip_ws t of
             d # r \<Rightarrow> if d = CHR '']'' then Some (JList [], r)
                      else map_option (\<lambda>(vs, r). (JList vs, r)) (pelems f (skip_ws t))
           | [] \<Rightarrow> None)
        else pscalar s)"
| "pelems 0 s = None"
| "pelems (Suc f) s = (case pvalue f s of
      None \<Rightarrow> None
    | Some (v, r) \<Rightarrow> (case skip_ws r of
          d # r' \<Rightarrow>
            if d = CHR '']'' then Some ([v], r')
            else if d = CHR '','' then
              map_option (\<lambda>(vs, q). (v # vs, q)) (pelems f (skip_ws r'))
            else None
        | [] \<Rightarrow> None))"
| "pmembers 0 s = None"
| "pmembers (Suc f) s = (case s of
      c # t \<Rightarrow>
        if c = CHR 0x22 then
          (case pstr t of
             None \<Rightarrow> None
           | Some (k, r) \<Rightarrow> (case skip_ws r of
                 d # r' \<Rightarrow>
                   if d = CHR '':'' then
                     (case pvalue f (skip_ws r') of
                        None \<Rightarrow> None
                      | Some (v, q) \<Rightarrow> (case skip_ws q of
                            e # q' \<Rightarrow>
                              if e = CHR ''}'' then Some ([(k, v)], q')
                              else if e = CHR '','' then
                                map_option (\<lambda>(kvs, w). ((k, v) # kvs, w)) (pmembers f (skip_ws q'))
                              else None
                          | [] \<Rightarrow> None))
                   else None
               | [] \<Rightarrow> None))
        else None
    | [] \<Rightarrow> None)"

declare pvalue.simps(2) [simp del] pelems.simps(2) [simp del] pmembers.simps(2) [simp del]

definition loads :: "string \<Rightarrow> json option" where
  "loads s = (case pvalue (2 * length s + 2) (skip_ws s) of
      None \<Rightarrow> None
    | Some (v, r) \<Rightarrow> if skip_ws r = [] then Some v else None)"

section \<open>The fuel is enough\<close>

lemma length_skip_ws: "length (skip_ws s) \<le> length s"
  by (simp add: skip_ws_def length_dropWhile_le)

lemma skip_ws_Cons_length: "skip_ws s = c # t \<Longrightarrow> length t < length s"
  using length_skip_ws [of s] by simp

lemma pstr_length: "pstr s = Some (x, r) \<Longrightarrow> length r < length s"
proof (induction s arbitrary: x r rule: length_induct)
  case (1 s)
  have IH: "pstr t = Some (y, q) \<Longrightarrow> length t < length s \<Longrightarrow> length q < length t" for t y q
    using "1.IH" by blast
  show ?case
  proof (cases s)
    case Nil
    with "1.prems" show ?thesis by simp
  next
    case (Cons c t)
    with "1.prems" show ?thesis
      by (auto split: if_splits list.splits option.splits dest!: IH)
  qed
qed

lemma pint_length: "pint s = Some (d, r) \<Longrightarrow> length r < length s \<and> d \<noteq> []"
  by (auto simp: pint_def digits_of_def split: list.splits if_splits)

lemma pfrac_length: "pfrac s = (d, r) \<Longrightarrow> length r \<le> length s"
  by (auto simp: pfrac_def split: list.splits if_splits)

lemma pexp_length: "pexp s = (d, r) \<Longrightarrow> length r \<le> length s"
  by (auto simp: pexp_def Let_def split: list.splits if_splits prod.splits)

lemma pnumber_length: "pnumber s = Some (v, r) \<Longrightarrow> length r < length s"
  unfolding pnumber_def
  by (auto simp: Let_def split: list.splits if_splits option.splits prod.splits
        dest!: pint_length pfrac_length pexp_length)

lemma plit_length: "plit (a # l) v s = Some (x, r) \<Longrightarrow> length r < length s"
  by (auto simp: plit_def prefix_def split: if_splits)

lemma pscalar_length: "pscalar s = Some (v, r) \<Longrightarrow> length r < length s"
  unfolding pscalar_def
  by (cases s) (simp, simp only: list.case split: if_splits,
      auto dest: pstr_length plit_length pnumber_length)

lemma parser_length_step:
  assumes v: "\<And>s v r. pvalue f s = Some (v, r) \<Longrightarrow> length r < length s"
    and e: "\<And>s vs r. pelems f s = Some (vs, r) \<Longrightarrow> length r < length s"
    and m: "\<And>s kvs r. pmembers f s = Some (kvs, r) \<Longrightarrow> length r < length s"
  shows "pvalue (Suc f) s = Some (v, r) \<Longrightarrow> length r < length s"
    and "pelems (Suc f) s = Some (vs, r) \<Longrightarrow> length r < length s"
    and "pmembers (Suc f) s = Some (kvs, r) \<Longrightarrow> length r < length s"
proof -
  show "length r < length s" if "pvalue (Suc f) s = Some (v, r)"
  proof (cases s)
    case Nil
    with that show ?thesis by (simp add: pvalue.simps(2))
  next
    case (Cons c t)
    from that Cons consider (empty) d where "skip_ws t = d # r"
      | (members) kvs where "pmembers f (skip_ws t) = Some (kvs, r)"
      | (elems) vs where "pelems f (skip_ws t) = Some (vs, r)"
      | (scalar) "pscalar s = Some (v, r)"
      by (auto simp: pvalue.simps(2) split: list.splits if_splits)
    then show ?thesis
      using Cons length_skip_ws [of t]
      by cases (auto dest!: skip_ws_Cons_length e m pscalar_length)
  qed
  show "length r < length s" if "pelems (Suc f) s = Some (vs, r)"
  proof -
    from that obtain v q d q' where q: "pvalue f s = Some (v, q)" "skip_ws q = d # q'"
      and c: "r = q' \<or> (\<exists>us. pelems f (skip_ws q') = Some (us, r))"
      by (auto simp: pelems.simps(2) split: option.splits prod.splits list.splits if_splits)
    from q have "length q' < length s"
      using v [OF q(1)] skip_ws_Cons_length [OF q(2)] by simp
    with c length_skip_ws [of q'] show ?thesis
      by (auto dest!: e)
  qed
  show "length r < length s" if "pmembers (Suc f) s = Some (kvs, r)"
  proof -
    from that obtain c t k q d q' w x e' x' where
      q: "s = c # t" "pstr t = Some (k, q)" "skip_ws q = d # q'"
        "pvalue f (skip_ws q') = Some (w, x)" "skip_ws x = e' # x'"
      and c: "r = x' \<or> (\<exists>us. pmembers f (skip_ws x') = Some (us, r))"
      by (auto simp: pmembers.simps(2) split: option.splits prod.splits list.splits if_splits)
    from q have "length x' < length s"
      using pstr_length [OF q(2)] skip_ws_Cons_length [OF q(3)] v [OF q(4)]
        skip_ws_Cons_length [OF q(5)] length_skip_ws [of q'] by simp
    with c length_skip_ws [of x'] show ?thesis
      by (auto dest!: m)
  qed
qed

lemma parser_length:
  "(\<forall>s v r. pvalue f s = Some (v, r) \<longrightarrow> length r < length s) \<and>
   (\<forall>s vs r. pelems f s = Some (vs, r) \<longrightarrow> length r < length s) \<and>
   (\<forall>s kvs r. pmembers f s = Some (kvs, r) \<longrightarrow> length r < length s)"
proof (induction f)
  case 0
  then show ?case by simp
next
  case (Suc f)
  then show ?case using parser_length_step [of f] by blast
qed

lemmas pvalue_length = parser_length [THEN conjunct1, rule_format]
lemmas pelems_length = parser_length [THEN conjunct2, THEN conjunct1, rule_format]
lemmas pmembers_length = parser_length [THEN conjunct2, THEN conjunct2, rule_format]

lemma parser_stable_step:
  assumes v: "\<And>s. 2 * length s + 1 \<le> f \<Longrightarrow> pvalue (Suc f) s = pvalue f s"
    and e: "\<And>s. 2 * length s + 2 \<le> f \<Longrightarrow> pelems (Suc f) s = pelems f s"
    and m: "\<And>s. 2 * length s + 2 \<le> f \<Longrightarrow> pmembers (Suc f) s = pmembers f s"
  shows "2 * length s + 1 \<le> Suc f \<Longrightarrow> pvalue (Suc (Suc f)) s = pvalue (Suc f) s"
    and "2 * length s + 2 \<le> Suc f \<Longrightarrow> pelems (Suc (Suc f)) s = pelems (Suc f) s"
    and "2 * length s + 2 \<le> Suc f \<Longrightarrow> pmembers (Suc (Suc f)) s = pmembers (Suc f) s"
proof -
  show "pvalue (Suc (Suc f)) s = pvalue (Suc f) s" if b: "2 * length s + 1 \<le> Suc f"
  proof (cases s)
    case Nil
    then show ?thesis by (simp add: pvalue.simps(2))
  next
    case (Cons c t)
    have "2 * length (skip_ws t) + 2 \<le> f" using b Cons length_skip_ws [of t] by simp
    from e [OF this] m [OF this] show ?thesis
      unfolding pvalue.simps(2) [of "Suc f"] pvalue.simps(2) [of f] Cons
      by (simp only: list.case)
  qed
  show "pelems (Suc (Suc f)) s = pelems (Suc f) s" if b: "2 * length s + 2 \<le> Suc f"
  proof -
    have ve: "pvalue (Suc f) s = pvalue f s" using b by (intro v) simp
    show ?thesis
    proof (cases "pvalue f s")
      case None
      then show ?thesis
        unfolding pelems.simps(2) [of "Suc f" s] pelems.simps(2) [of f s] ve by simp
    next
      case (Some p)
      obtain w r where p: "p = (w, r)" by force
      have "pelems (Suc f) (skip_ws r') = pelems f (skip_ws r')" if "skip_ws r = d # r'" for d r'
        using b pvalue_length [OF Some [unfolded p]] skip_ws_Cons_length [OF that]
          length_skip_ws [of r'] by (intro e) simp
      then show ?thesis
        unfolding pelems.simps(2) [of "Suc f" s] pelems.simps(2) [of f s] ve Some p
        by (cases "skip_ws r") simp_all
    qed
  qed
  show "pmembers (Suc (Suc f)) s = pmembers (Suc f) s" if b: "2 * length s + 2 \<le> Suc f"
  proof (cases s)
    case Nil
    then show ?thesis by (simp add: pmembers.simps(2))
  next
    case (Cons c t)
    show ?thesis
    proof (cases "pstr t")
      case None
      then show ?thesis using Cons by (simp add: pmembers.simps(2))
    next
      case (Some p)
      obtain k r where p: "p = (k, r)" by force
      have ve: "pvalue (Suc f) (skip_ws r') = pvalue f (skip_ws r')" if "skip_ws r = d # r'" for d r'
        using b Cons pstr_length [OF Some [unfolded p]] skip_ws_Cons_length [OF that]
          length_skip_ws [of r'] by (intro v) simp
      have me: "pmembers (Suc f) (skip_ws q') = pmembers f (skip_ws q')"
        if "skip_ws r = d # r'" "pvalue f (skip_ws r') = Some (w, q)" "skip_ws q = x # q'"
        for d r' w q x q'
        using b Cons pstr_length [OF Some [unfolded p]] skip_ws_Cons_length [OF that(1)]
          length_skip_ws [of r'] pvalue_length [OF that(2)] skip_ws_Cons_length [OF that(3)]
          length_skip_ws [of q'] by (intro m) simp
      show ?thesis
      proof (cases "skip_ws r")
        case Nil
        then show ?thesis
          unfolding Cons pmembers.simps(2) [of "Suc f" "c # t"] pmembers.simps(2) [of f "c # t"]
          by (simp add: Some p)
      next
        case r: (Cons d r')
        note ve' = ve [OF r]
        show ?thesis
        proof (cases "pvalue f (skip_ws r')")
          case None
          then show ?thesis
            unfolding Cons pmembers.simps(2) [of "Suc f" "c # t"] pmembers.simps(2) [of f "c # t"]
            by (simp add: Some p r ve')
        next
          case v: (Some q)
          obtain w q' where q: "q = (w, q')" by force
          note me' = me [OF r v [unfolded q]]
          show ?thesis
            unfolding Cons pmembers.simps(2) [of "Suc f" "c # t"] pmembers.simps(2) [of f "c # t"]
            by (cases "skip_ws q'") (simp_all add: Some p r ve' v q me')
        qed
      qed
    qed
  qed
qed

lemma parser_stable:
  "(\<forall>s. 2 * length s + 1 \<le> f \<longrightarrow> pvalue (Suc f) s = pvalue f s) \<and>
   (\<forall>s. 2 * length s + 2 \<le> f \<longrightarrow> pelems (Suc f) s = pelems f s) \<and>
   (\<forall>s. 2 * length s + 2 \<le> f \<longrightarrow> pmembers (Suc f) s = pmembers f s)"
proof (induction f)
  case 0
  then show ?case by simp
next
  case (Suc f)
  then show ?case using parser_stable_step [of f] by blast
qed

lemma pvalue_stable:
  assumes "2 * length s + 1 \<le> f" and "f \<le> g"
  shows "pvalue g s = pvalue f s"
  using assms(2)
proof (induction g rule: dec_induct)
  case base
  then show ?case by simp
next
  case (step n)
  with assms(1) have "pvalue (Suc n) s = pvalue n s"
    using parser_stable [of n] by simp
  with step.IH show ?case by simp
qed

section \<open>Round trip\<close>

lemma hex_val_hex_char [simp]: "d < 16 \<Longrightarrow> hex_val (hex_char d) = Some d"
  by (auto simp: hex_val_def hex_char_def Let_def)

lemma hex4_byte:
  "n < 256 \<Longrightarrow> hex4 (CHR ''0'') (CHR ''0'') (hex_char (n div 16)) (hex_char (n mod 16)) = Some n"
  by (simp add: hex4_def) (simp add: hex_val_def)

lemma of_char_ctrl:
  "(of_char c :: nat) = 8 \<longleftrightarrow> c = CHR 0x08" "(of_char c :: nat) = 9 \<longleftrightarrow> c = CHR 0x09"
  "(of_char c :: nat) = 10 \<longleftrightarrow> c = CHR 0x0A" "(of_char c :: nat) = 12 \<longleftrightarrow> c = CHR 0x0C"
  "(of_char c :: nat) = 13 \<longleftrightarrow> c = CHR 0x0D"
  using of_char_eq_iff [of c "CHR 0x08", where 'a = nat]
    of_char_eq_iff [of c "CHR 0x09", where 'a = nat] of_char_eq_iff [of c "CHR 0x0A", where 'a = nat]
    of_char_eq_iff [of c "CHR 0x0C", where 'a = nat] of_char_eq_iff [of c "CHR 0x0D", where 'a = nat]
  by simp_all

lemma pstr_esc_char: "pstr (esc_char a c @ t) = map_option (\<lambda>(x, y). (c # x, y)) (pstr t)"
proof -
  have h: "hex4 (CHR ''0'') (CHR ''0'') (hex_char (of_char c div 16)) (hex_char (of_char c mod 16))
      = Some (of_char c)"
    by (rule hex4_byte) simp
  consider "c = CHR 0x22" | "c = CHR 0x5C" | "c = CHR 0x08" | "c = CHR 0x0C" | "c = CHR 0x0A"
    | "c = CHR 0x0D" | "c = CHR 0x09"
    | "c \<notin> {CHR 0x22, CHR 0x5C, CHR 0x08, CHR 0x0C, CHR 0x0A, CHR 0x0D, CHR 0x09}" by blast
  then show ?thesis
  proof cases
    case 8
    then show ?thesis
      by (cases "(of_char c :: nat) < 32 \<or> (a \<and> 126 < (of_char c :: nat))")
        (simp_all add: esc_char_def Let_def h of_char_ctrl)
  qed (simp_all add: esc_char_def simple_esc_def)
qed

lemma pstr_dump: "pstr (concat (map (esc_char a) s) @ CHR 0x22 # rest) = Some (s, rest)"
  by (induction s) (simp_all add: pstr_esc_char)

definition delim :: "string \<Rightarrow> bool" where
  "delim s = (case s of [] \<Rightarrow> True
     | c # _ \<Rightarrow> \<not> is_digit c \<and> c \<notin> set ''.eE+-'')"

lemma digits_of_append: "delim rest \<Longrightarrow> digits_of (s @ rest) = digits_of s"
  by (cases rest) (auto simp: digits_of_def delim_def takeWhile_append takeWhile_eq_all_conv
      intro: takeWhile_eq_all_conv [THEN iffD2, symmetric])

lemma digits_of_delim: "delim rest \<Longrightarrow> digits_of rest = []"
  by (cases rest) (auto simp: digits_of_def delim_def)

lemma length_digits_of: "length (digits_of s) \<le> length s"
  by (simp add: digits_of_def length_takeWhile_le)

lemma drop_digits_append:
  "delim rest \<Longrightarrow> drop (length (digits_of s)) (s @ rest) = drop (length (digits_of s)) s @ rest"
  using length_digits_of [of s] by simp

lemma pint_append:
  assumes "pint s = Some (d, r)" and de: "delim rest"
  shows "pint (s @ rest) = Some (d, r @ rest)"
proof -
  obtain c t where s: "s = c # t" using assms(1) by (cases s) (auto simp: pint_def)
  show ?thesis
    using assms(1) digits_of_append [OF de, of "c # t"] drop_digits_append [OF de, of "c # t"]
    by (auto simp: pint_def s split: if_splits simp del: drop_append)
qed

lemma pfrac_append: "pfrac s = (d, r) \<Longrightarrow> delim rest \<Longrightarrow> pfrac (s @ rest) = (d, r @ rest)"
proof (cases s)
  case Nil
  moreover assume "pfrac s = (d, r)" "delim rest"
  ultimately show ?thesis by (cases rest) (auto simp: pfrac_def delim_def)
next
  case (Cons c t)
  moreover assume "pfrac s = (d, r)" "delim rest"
  ultimately show ?thesis
    using digits_of_append [of rest t] length_digits_of [of t]
    by (auto simp: pfrac_def split: if_splits)
qed

lemma pexp_append: "pexp s = (d, r) \<Longrightarrow> delim rest \<Longrightarrow> pexp (s @ rest) = (d, r @ rest)"
proof -
  assume p: "pexp s = (d, r)" and de: "delim rest"
  show ?thesis
  proof (cases s)
    case Nil
    with p de show ?thesis by (cases rest) (auto simp: pexp_def delim_def)
  next
    case (Cons c t)
    show ?thesis
    proof (cases t)
      case Nil
      with p de Cons show ?thesis
        by (cases rest) (auto simp: pexp_def delim_def digits_of_def split: if_splits)
    next
      case t: (Cons e u)
      with p de Cons show ?thesis
        using digits_of_append [OF de, of "e # u"] digits_of_append [OF de, of u]
          drop_digits_append [OF de, of "e # u"] drop_digits_append [OF de, of u]
        by (auto simp: pexp_def split: if_splits simp del: drop_append)
    qed
  qed
qed

lemma pnumber_append:
  assumes "pnumber s = Some (v, [])" and de: "delim rest"
  shows "pnumber (s @ rest) = Some (v, rest)"
proof -
  obtain c t where s: "s = c # t" using assms(1) by (cases s) (auto simp: pnumber_def pint_def)
  define sg where "sg = (if c = CHR ''-'' then ''-'' else [])"
  define s1 where "s1 = (if c = CHR ''-'' then t else s)"
  obtain ds s2 where i: "pint s1 = Some (ds, s2)"
    using assms(1) by (auto simp: pnumber_def s s1_def split: option.splits if_splits)
  obtain fr s3 where f: "pfrac s2 = (fr, s3)" by force
  obtain ex s4 where e: "pexp s3 = (ex, s4)" by force
  have "s4 = []" using assms(1) i f e by (auto simp: pnumber_def s s1_def split: if_splits)
  then show ?thesis
    using assms(1) i f e pint_append [OF i de] pfrac_append [OF f de] pexp_append [OF e de]
    by (auto simp: pnumber_def s s1_def split: if_splits)
qed

lemma show_nat_hd_zero: "show_nat n = CHR ''0'' # s \<Longrightarrow> n = 0 \<and> s = []"
proof (induction n arbitrary: s rule: show_nat.induct)
  case (1 n)
  show ?case
  proof (cases "n < 10")
    case True
    with 1(2) have "digit_char n = CHR ''0''" "s = []" by (subst (asm) show_nat.simps, simp)+
    with True of_char_digit_char [of n] show ?thesis by simp
  next
    case False
    obtain c u where u: "show_nat (n div 10) = c # u" by (cases "show_nat (n div 10)") auto
    have "show_nat n = show_nat (n div 10) @ [digit_char (n mod 10)]"
      using False by (subst show_nat.simps) simp
    with u 1(2) have "c = CHR ''0''" by simp
    with u 1(1) [OF False] have "n div 10 = 0" by simp
    with False show ?thesis by simp
  qed
qed

lemma pint_show_nat: "pint (show_nat n) = Some (show_nat n, [])"
proof -
  obtain c s where s: "show_nat n = c # s" by (cases "show_nat n") auto
  have d: "digits_of (show_nat n) = show_nat n"
    using show_nat_digits [of n] by (simp add: digits_of_def takeWhile_eq_all_conv)
  show ?thesis
  proof (cases "c = CHR ''0''")
    case True
    with s show_nat_hd_zero [of n s] show ?thesis by (simp add: pint_def)
  next
    case False
    with s d show_nat_hd [OF s] show ?thesis by (simp add: pint_def)
  qed
qed

lemma pnumber_show_int: "pnumber (show_int i) = Some (JInt i, [])"
proof -
  obtain c s where s: "show_nat (nat i) = c # s" by (cases "show_nat (nat i)") auto
  have "c \<noteq> CHR ''-''" using show_nat_hd [OF s] by (auto simp: is_digit_def)
  then show ?thesis
    using pint_show_nat [of "nat i"] pint_show_nat [of "nat (- i)"] s
      foldl_show_nat [of "nat i"] foldl_show_nat [of "nat (- i)"]
    by (cases "i < 0") (auto simp: pnumber_def show_int_def pfrac_def pexp_def nat_of_digits_def)
qed

lemma pnumber_hd: "pnumber (c # t) = Some x \<Longrightarrow> is_digit c \<or> c = CHR ''-'' \<and> (t \<noteq> [] \<longrightarrow> is_digit (hd t))"
  by (auto simp: pnumber_def pint_def is_digit_def split: if_splits option.splits list.splits)

lemma pscalar_pnumber:
  assumes "pnumber s = Some (v, r)"
  shows "pscalar s = Some (v, r)"
proof -
  obtain c t where s: "s = c # t" using assms by (cases s) (auto simp: pnumber_def pint_def)
  from pnumber_hd [OF assms [unfolded s]] have
    "c \<noteq> CHR 0x22" "c \<noteq> CHR ''n''" "c \<noteq> CHR ''t''" "c \<noteq> CHR ''f''" "c \<noteq> CHR ''N''" "c \<noteq> CHR ''I''"
    "\<not> startswith s ''-Infinity''"
    by (auto simp: is_digit_def s prefix_def)
  with assms show ?thesis by (auto simp: pscalar_def s)
qed

text \<open>The values \<open>json.dumps\<close> prints back to themselves: keys are distinct, floats are number
  literals with a fraction or an exponent.\<close>

fun wf_json :: "json \<Rightarrow> bool" where
  "wf_json (JFloat l) = (pnumber l = Some (JFloat l, []))"
| "wf_json (JList xs) = (\<forall>x \<in> set xs. wf_json x)"
| "wf_json (JObj kvs) = (dict_wf kvs \<and> (\<forall>(k, v) \<in> set kvs. wf_json v))"
| "wf_json v = True"

definition opts_ok :: "dump_opts \<Rightarrow> bool" where
  "opts_ok po = (case (item_sep po, key_sep po) of
      (c # s, d # t) \<Rightarrow> c = CHR '','' \<and> d = CHR '':'' \<and> skip_ws s = [] \<and> skip_ws t = []
    | _ \<Rightarrow> False)"

lemma opts_ok_dflt [simp]: "opts_ok dflt_opts" and opts_ok_compact [simp]: "opts_ok compact_opts"
  by (simp_all add: opts_ok_def dflt_opts_def compact_opts_def skip_ws_def json_ws_def)

lemma opts_okE:
  assumes "opts_ok po"
  obtains s t where "item_sep po = CHR '','' # s" "key_sep po = CHR '':'' # t"
    "skip_ws s = []" "skip_ws t = []"
  using assms by (auto simp: opts_ok_def split: list.splits)

lemma skip_ws_append: "skip_ws s = [] \<Longrightarrow> skip_ws (s @ t) = skip_ws t"
  by (simp add: skip_ws_def)

lemma skip_ws_hd: "\<not> json_ws c \<Longrightarrow> skip_ws (c # s) = c # s"
  by (simp add: skip_ws_def)

lemma is_digit_not_json_ws: "is_digit c \<Longrightarrow> \<not> json_ws c"
  by (auto simp: is_digit_def json_ws_def)

lemma dumps_hd:
  assumes "wf_json v"
  shows "\<exists>c t. dumps po v = c # t \<and> \<not> json_ws c \<and> c \<noteq> CHR '']'' \<and> c \<noteq> CHR ''}''"
proof -
  have num: "\<exists>c t. l = c # t \<and> \<not> json_ws c \<and> c \<noteq> CHR '']'' \<and> c \<noteq> CHR ''}''"
    if p: "pnumber l = Some x" for l x
  proof (cases l)
    case Nil
    with p show ?thesis by (simp add: pnumber_def pint_def)
  next
    case (Cons c t)
    from pnumber_hd [OF p [unfolded Cons]] show ?thesis
      by (auto simp: Cons json_ws_def is_digit_def)
  qed
  show ?thesis
    using assms num pnumber_show_int
    by (cases v) (auto simp: dump_str_def json_ws_def)
qed

lemma skip_ws_dumps: "wf_json v \<Longrightarrow> skip_ws (dumps po v @ r) = dumps po v @ r"
  using dumps_hd [of v po] by (auto simp: skip_ws_hd)

definition reads_back :: "dump_opts \<Rightarrow> json \<Rightarrow> bool" where
  "reads_back po v = (\<forall>f rest. delim rest \<longrightarrow> 2 * length (dumps po v) + 1 \<le> f \<longrightarrow>
     pvalue f (dumps po v @ rest) = Some (v, rest))"

lemma reads_backD:
  "reads_back po v \<Longrightarrow> delim rest \<Longrightarrow> 2 * length (dumps po v) + 1 \<le> f \<Longrightarrow>
     pvalue f (dumps po v @ rest) = Some (v, rest)"
  by (simp add: reads_back_def)

lemma delim_punct [simp]:
  "delim (CHR '','' # r)" "delim (CHR '']'' # r)" "delim (CHR ''}'' # r)"
  by (simp_all add: delim_def is_digit_def)

lemma not_json_ws [simp]:
  "\<not> json_ws (CHR '','')" "\<not> json_ws (CHR '']'')" "\<not> json_ws (CHR ''}'')" "\<not> json_ws (CHR '':'')"
  "\<not> json_ws (CHR 0x22)"
  by (simp_all add: json_ws_def)

lemma pelems_dumps:
  assumes po: "opts_ok po" and "xs \<noteq> []"
    and "\<forall>x \<in> set xs. wf_json x \<and> reads_back po x"
    and "2 * length (join (item_sep po) (map (dumps po) xs)) + 2 \<le> f"
  shows "pelems f (join (item_sep po) (map (dumps po) xs) @ CHR '']'' # rest) = Some (xs, rest)"
  using assms(2-)
proof (induction xs arbitrary: f rule: list_nonempty_induct)
  case (single x)
  then obtain g where f: "f = Suc g" "2 * length (dumps po x) + 1 \<le> g" by (cases f) auto
  with single reads_backD [of po x "CHR '']'' # rest" g] show ?case
    by (simp add: pelems.simps(2) skip_ws_hd)
next
  case (cons x xs)
  obtain s where s: "item_sep po = CHR '','' # s" "skip_ws s = []" using po by (rule opts_okE)
  let ?j = "join (item_sep po) (map (dumps po) xs) @ CHR '']'' # rest"
  have j: "join (item_sep po) (map (dumps po) (x # xs)) @ CHR '']'' # rest
      = dumps po x @ CHR '','' # s @ ?j"
    using cons.hyps s by (simp add: join_Cons)
  from cons.prems(2) cons.hyps s obtain g where f: "f = Suc g" "2 * length (dumps po x) + 1 \<le> g"
    "2 * length (join (item_sep po) (map (dumps po) xs)) + 2 \<le> g"
    by (cases f) (auto simp: join_Cons)
  have v: "pvalue g (dumps po x @ CHR '','' # s @ ?j) = Some (x, CHR '','' # s @ ?j)"
    using cons.prems f by (intro reads_backD) auto
  obtain y ys where xs: "xs = y # ys" using cons.hyps by (cases xs) auto
  have "skip_ws ?j = ?j"
    using cons.prems(1) skip_ws_dumps [of y po] by (cases ys) (auto simp: xs)
  then have k: "skip_ws (s @ ?j) = ?j" using s by (simp add: skip_ws_append)
  have "pelems g ?j = Some (xs, rest)" using cons f by (intro cons.IH) auto
  then show ?case unfolding j f(1) pelems.simps(2) v by (simp add: skip_ws_hd k)
qed

definition dump_member :: "dump_opts \<Rightarrow> string \<times> json \<Rightarrow> string" where
  "dump_member po = (\<lambda>(k, v). dump_str (ensure_ascii po) k @ key_sep po @ dumps po v)"

lemma dump_member_hd: "dump_member po kv = CHR 0x22 # tl (dump_member po kv)"
  by (simp add: dump_member_def dump_str_def split: prod.split)

lemma pmembers_one:
  assumes po: "opts_ok po" and "wf_json v" "reads_back po v" "delim r" "2 * length (dumps po v) + 1 \<le> g"
  shows "pmembers (Suc g) (dump_member po (k, v) @ r) =
    (case skip_ws r of
        e # q' \<Rightarrow>
          if e = CHR ''}'' then Some ([(k, v)], q')
          else if e = CHR '','' then
            map_option (\<lambda>(kvs, w). ((k, v) # kvs, w)) (pmembers g (skip_ws q'))
          else None
      | [] \<Rightarrow> None)"
proof -
  obtain t where t: "key_sep po = CHR '':'' # t" "skip_ws t = []" using po by (rule opts_okE)
  have e: "dump_member po (k, v) @ r =
      CHR 0x22 # concat (map (esc_char (ensure_ascii po)) k) @ CHR 0x22 # CHR '':'' # t @ dumps po v @ r"
    by (simp add: dump_member_def dump_str_def t)
  have "skip_ws (t @ dumps po v @ r) = dumps po v @ r"
    using t assms(2) by (simp add: skip_ws_append skip_ws_dumps)
  moreover have "pvalue g (dumps po v @ r) = Some (v, r)" using assms by (intro reads_backD) auto
  ultimately show ?thesis
    unfolding e pmembers.simps(2) by (simp add: pstr_dump skip_ws_hd cong: list.case_cong)
qed

lemma pmembers_dumps:
  assumes po: "opts_ok po" and "kvs \<noteq> []"
    and "\<forall>(k, v) \<in> set kvs. wf_json v \<and> reads_back po v"
    and "2 * length (join (item_sep po) (map (dump_member po) kvs)) + 2 \<le> f"
  shows "pmembers f (join (item_sep po) (map (dump_member po) kvs) @ CHR ''}'' # rest) = Some (kvs, rest)"
  using assms(2-)
proof (induction kvs arbitrary: f rule: list_nonempty_induct)
  case (single x)
  obtain k v where x: "x = (k, v)" by force
  with single obtain g where f: "f = Suc g" "2 * length (dumps po v) + 1 \<le> g"
    by (cases f) (auto simp: dump_member_def)
  with single x po show ?case by (simp add: pmembers_one skip_ws_hd)
next
  case (cons x xs)
  obtain k v where x: "x = (k, v)" by force
  obtain s where s: "item_sep po = CHR '','' # s" "skip_ws s = []" using po by (rule opts_okE)
  let ?j = "join (item_sep po) (map (dump_member po) xs) @ CHR ''}'' # rest"
  have j: "join (item_sep po) (map (dump_member po) (x # xs)) @ CHR ''}'' # rest
      = dump_member po (k, v) @ CHR '','' # s @ ?j"
    using cons.hyps s by (simp add: join_Cons x)
  from cons.prems(2) cons.hyps s x obtain g where f: "f = Suc g" "2 * length (dumps po v) + 1 \<le> g"
    "2 * length (join (item_sep po) (map (dump_member po) xs)) + 2 \<le> g"
    by (cases f) (auto simp: join_Cons dump_member_def)
  obtain y ys where xs: "xs = y # ys" using cons.hyps by (cases xs) auto
  have "skip_ws ?j = ?j"
  proof -
    obtain m where "dump_member po y = CHR 0x22 # m" using dump_member_hd by blast
    then show ?thesis by (cases ys) (simp_all add: xs skip_ws_hd)
  qed
  then have n: "skip_ws (s @ ?j) = ?j" using s by (simp add: skip_ws_append)
  have "pmembers g ?j = Some (xs, rest)" using cons f by (intro cons.IH) auto
  then show ?case
    unfolding j f(1) using cons.prems(1) x f by (simp add: pmembers_one po skip_ws_hd n)
qed

lemma fold_update_distinct:
  "dict_wf kvs \<Longrightarrow> fst ` set kvs \<inter> fst ` set acc = {} \<Longrightarrow>
     fold (\<lambda>(k, v). AList.update k v) kvs acc = acc @ kvs"
proof (induction kvs arbitrary: acc)
  case (Cons kv kvs)
  obtain k v where kv: "kv = (k, v)" by force
  have "k \<notin> fst ` set acc" using Cons.prems(2) kv by auto
  then have "AList.update k v acc = acc @ [(k, v)]" by (induction acc) auto
  with Cons kv show ?case by auto
qed simp

lemma reads_backI:
  assumes "\<And>g rest. delim rest \<Longrightarrow> 2 * length (dumps po v) \<le> g \<Longrightarrow>
     pvalue (Suc g) (dumps po v @ rest) = Some (v, rest)"
  shows "reads_back po v"
  unfolding reads_back_def
proof (intro allI impI)
  fix f rest
  assume "delim rest" "2 * length (dumps po v) + 1 \<le> f"
  with assms [of rest "f - 1"] show "pvalue f (dumps po v @ rest) = Some (v, rest)"
    by (cases f) auto
qed

lemma reads_back_number:
  assumes "pnumber (dumps po v) = Some (v, [])"
  shows "reads_back po v"
proof (rule reads_backI)
  fix g rest
  assume d: "delim rest"
  obtain c t where s: "dumps po v = c # t"
    using assms by (cases "dumps po v") (auto simp: pnumber_def pint_def)
  have n: "pnumber (c # t @ rest) = Some (v, rest)"
    using pnumber_append [OF assms d] s by simp
  have "c \<noteq> CHR ''{''" "c \<noteq> CHR ''[''"
    using pnumber_hd [OF n] by (auto simp: is_digit_def)
  then show "pvalue (Suc g) (dumps po v @ rest) = Some (v, rest)"
    using pscalar_pnumber [OF n] by (simp add: pvalue.simps(2) s)
qed

lemma reads_back_list:
  assumes po: "opts_ok po" and xs: "\<forall>x \<in> set xs. wf_json x \<and> reads_back po x"
  shows "reads_back po (JList xs)"
proof (rule reads_backI)
  fix g rest
  assume g: "2 * length (dumps po (JList xs)) \<le> g"
  show "pvalue (Suc g) (dumps po (JList xs) @ rest) = Some (JList xs, rest)"
  proof (cases xs)
    case Nil
    then show ?thesis by (simp add: pvalue.simps(2) skip_ws_hd)
  next
    case (Cons y ys)
    let ?j = "join (item_sep po) (map (dumps po) xs) @ CHR '']'' # rest"
    obtain c t where c: "dumps po y = c # t" "\<not> json_ws c" "c \<noteq> CHR '']''"
      using dumps_hd [of y po] xs Cons by auto
    obtain u where u: "?j = c # u" using c Cons by (cases ys) auto
    have "pelems g ?j = Some (xs, rest)"
      by (rule pelems_dumps) (use po xs Cons g in auto)
    then show ?thesis
      using u c by (simp add: pvalue.simps(2) skip_ws_hd)
  qed
qed

lemma reads_back_obj:
  assumes po: "opts_ok po" and wf: "dict_wf kvs"
    and kvs: "\<forall>(k, v) \<in> set kvs. wf_json v \<and> reads_back po v"
  shows "reads_back po (JObj kvs)"
proof (rule reads_backI)
  fix g rest
  assume g: "2 * length (dumps po (JObj kvs)) \<le> g"
  have d: "dumps po (JObj kvs) = CHR ''{'' # join (item_sep po) (map (dump_member po) kvs) @ ''}''"
    by (simp add: dump_member_def)
  show "pvalue (Suc g) (dumps po (JObj kvs) @ rest) = Some (JObj kvs, rest)"
  proof (cases kvs)
    case Nil
    then show ?thesis by (simp add: pvalue.simps(2) skip_ws_hd)
  next
    case (Cons y ys)
    let ?j = "join (item_sep po) (map (dump_member po) kvs) @ CHR ''}'' # rest"
    obtain m where m: "dump_member po y = CHR 0x22 # m" using dump_member_hd by blast
    obtain u where u: "?j = CHR 0x22 # u" using m Cons by (cases ys) auto
    have "2 * length (join (item_sep po) (map (dump_member po) kvs)) + 2 \<le> g"
      using g unfolding d by simp
    then have p: "pmembers g ?j = Some (kvs, rest)"
      by (intro pmembers_dumps po kvs) (use Cons in simp)
    have "dumps po (JObj kvs) @ rest = CHR ''{'' # ?j" unfolding d by simp
    then show ?thesis
      unfolding pvalue.simps(2) using u p fold_update_distinct [OF wf, of "[]"]
      by (simp add: skip_ws_hd)
  qed
qed

lemma dumps_reads_back: "opts_ok po \<Longrightarrow> wf_json v \<Longrightarrow> reads_back po v"
proof (induction v)
  case (JStr s)
  show ?case
    by (rule reads_backI) (simp add: pvalue.simps(2) pscalar_def dump_str_def pstr_dump)
next
  case (JList xs)
  then show ?case by (intro reads_back_list) auto
next
  case (JObj kvs)
  then have "\<forall>(k, v) \<in> set kvs. wf_json v \<and> reads_back po v" by fastforce
  with JObj.prems show ?case by (intro reads_back_obj) auto
next
  case JNull
  show ?case by (rule reads_backI) (simp add: pvalue.simps(2) pscalar_def plit_def)
next
  case (JBool b)
  show ?case by (rule reads_backI) (simp add: pvalue.simps(2) pscalar_def plit_def)
qed (simp_all add: reads_back_number pnumber_show_int)

lemma loads_dumps:
  assumes "opts_ok po" and "wf_json v"
  shows "loads (dumps po v) = Some v"
proof -
  have "pvalue (2 * length (dumps po v) + 2) (dumps po v @ []) = Some (v, [])"
    using dumps_reads_back [OF assms] by (intro reads_backD) (auto simp: delim_def)
  then show ?thesis
    using skip_ws_dumps [OF assms(2), of po "[]"] by (simp add: loads_def skip_ws_def)
qed

lemma loads_not_exhausted:
  assumes "2 * length s + 2 \<le> f"
  shows "loads s = (case pvalue f (skip_ws s) of
      None \<Rightarrow> None | Some (v, r) \<Rightarrow> if skip_ws r = [] then Some v else None)"
proof -
  have "pvalue f (skip_ws s) = pvalue (2 * length s + 2) (skip_ws s)"
    by (rule pvalue_stable) (use length_skip_ws [of s] assms in auto)
  then show ?thesis by (simp add: loads_def)
qed

end
