(* ===== verification/Runtime.thy ===== *)
theory Runtime
  imports Complex_Main Json
begin

text \<open>
  What the scripts see of the machine they run on: exceptions, \<open>pathlib\<close> paths, the files of
  the checkout, the process environment, standard output and the external commands
  (\<open>git\<close>, \<open>gh\<close>, \<open>terragrunt\<close>) they start with \<open>subprocess.run\<close>.

  A script step is a value of \<open>('w, 'a) ci\<close>: it takes the machine state and returns an
  exception or a result together with the new state. The external commands are not part of
  the repository, so every operation that starts one takes a \<open>runner\<close>, an arbitrary function
  that answers a command in the outside world \<open>'w\<close>. The state records every command in
  \<open>cmds\<close>, in the order they were started, so a property of a script can speak about what it
  did and in which order, whatever the outside world answered.

  The text of an error message is not modelled; an exception is its class, with the payload
  where the sources read one.
\<close>

section \<open>Exceptions\<close>

datatype exn =
    ValueError
  | JSONDecodeError
  | KeyError
  | TypeError
  | AttributeError
  | IndexError
  | AssertionError
  | OSError
  | FileNotFoundError
  | RuntimeError
  | CalledProcessError
  | SystemExit int
  | ConfigurationError
  | AuthorizationError
  | MergedPrLookupError
  | AggregationError "string list" "string list"
  | ModuleTypeError
  | D43ViolationError
  | EvidenceVerifyError
  | EmptyUnitScopeError
  | ForbiddenTokenError
  | PathParseError
  | AccountNotFoundError
  | AccountResolutionError
  | CIDeployForbiddenError
  | MixedAccountScopeError
  | PartitionError
  | SelectRowError
  | RenderError
  | StateCheckError
  | ClientError string
  | WaiterError
  | TimeoutError
  | WafUsageError
  | WafAllowlistError
  | DefaultSecurityGroupSkipError
  | VersionFloorError
  | UnpinnedSourceError
  | MissingToggleError
  | UnresolvableDependencyError
  | CoverageError
  | TagsContractError
  | HardcodedIdentityError
  | StateKmsKeyNotFoundError
  | StateKmsKeyNotEnabledError
  | BucketNameCollisionError
  | BucketNameTooLongError
  | EmptyOutputValueError
  | UsageError
  | ForbiddenTargetError
  | OidcProviderWrongAudienceError
  | CredentialError
  | AthenaCleanupUsageError
  | ProvisioningError
  | TimeoutExpired
  | GoCommandError
  | OpaCommandError
  | ModuleValidateError
  | TerraformCommandError int
  | TerraformDocsCommandError int
  | TerragruntCommandError
  | TrivyCommandError int
  | ActionlintError
  | E2EUsageError
  | E2EError
  | EndpointResolutionError
  | ReadinessUsageError
  | ProbeError
  | CopyabilityError
  | OtherError
  | Diverges

text \<open>\<open>isinstance\<close> for the exception classes the sources catch, following the declared base
  classes (\<open>JSONDecodeError\<close> is a \<open>ValueError\<close>, and so on).\<close>

fun is_value_error :: "exn \<Rightarrow> bool" where
  "is_value_error e = (e \<in> {ValueError, JSONDecodeError, PathParseError, AccountResolutionError,
     CIDeployForbiddenError, MixedAccountScopeError, PartitionError, SelectRowError, WafUsageError, AthenaCleanupUsageError, ReadinessUsageError})"

fun is_runtime_error :: "exn \<Rightarrow> bool" where
  "is_runtime_error e = (e \<in> {RuntimeError, ConfigurationError, EvidenceVerifyError,
     EmptyUnitScopeError, ForbiddenTokenError, RenderError, StateCheckError, WafAllowlistError,
     VersionFloorError, UnpinnedSourceError, MissingToggleError, UnresolvableDependencyError, CoverageError,
     TagsContractError, HardcodedIdentityError, StateKmsKeyNotFoundError, StateKmsKeyNotEnabledError, BucketNameCollisionError,
     BucketNameTooLongError, EmptyOutputValueError, CopyabilityError})"

fun is_os_error :: "exn \<Rightarrow> bool" where
  "is_os_error e = (e \<in> {OSError, FileNotFoundError, TimeoutError})"

text \<open>Everything but \<open>SystemExit\<close> derives from \<open>Exception\<close>. \<open>Diverges\<close> is no exception of Python: it
  marks a loop that was cut off because its fuel ran out, and nothing catches it.\<close>

fun is_exception :: "exn \<Rightarrow> bool" where
  "is_exception (SystemExit n) = False"
| "is_exception Diverges = False"
| "is_exception e = True"

section \<open>Paths\<close>

text \<open>A \<open>PurePosixPath\<close>: whether it is anchored at the root, and its parts. Empty and \<open>.\<close>
  parts vanish when a path is built; \<open>..\<close> stays until \<open>resolve\<close>.\<close>

datatype path = Path (anchored: bool) (parts: "string list")

definition path_of :: "string \<Rightarrow> path" where
  "path_of s = Path (startswith s ''/'') (filter (\<lambda>p. p \<noteq> [] \<and> p \<noteq> ''.'') (split_on (CHR ''/'') s))"

definition path_str :: "path \<Rightarrow> string" where
  "path_str p = (if anchored p then CHR ''/'' # join ''/'' (parts p)
     else if parts p = [] then ''.'' else join ''/'' (parts p))"

definition path_join :: "path \<Rightarrow> path \<Rightarrow> path" where
  "path_join p q = (if anchored q then q else Path (anchored p) (parts p @ parts q))"

abbreviation path_div :: "path \<Rightarrow> string \<Rightarrow> path" where
  "path_div p s \<equiv> path_join p (path_of s)"

definition path_parent :: "path \<Rightarrow> path" where
  "path_parent p = Path (anchored p) (butlast (parts p))"

definition path_name :: "path \<Rightarrow> string" where
  "path_name p = (if parts p = [] then [] else last (parts p))"

text \<open>\<open>Path.resolve()\<close> on a tree without symbolic links.\<close>

fun resolve_parts :: "string list \<Rightarrow> string list \<Rightarrow> string list" where
  "resolve_parts acc [] = rev acc"
| "resolve_parts acc (x # xs) =
     (if x = ''..'' then resolve_parts (tl acc) xs else resolve_parts (x # acc) xs)"

definition path_resolve :: "path \<Rightarrow> path \<Rightarrow> path" where
  "path_resolve cwd p = Path True (resolve_parts [] (parts (path_join cwd p)))"

text \<open>\<open>p.relative_to(base)\<close>; \<open>None\<close> is the \<open>ValueError\<close>.\<close>

definition relative_to :: "path \<Rightarrow> path \<Rightarrow> path option" where
  "relative_to p base = (if anchored p = anchored base \<and> prefix (parts base) (parts p)
     then Some (Path False (drop (length (parts base)) (parts p))) else None)"

definition clean_part :: "string \<Rightarrow> bool" where
  "clean_part s = (s \<noteq> [] \<and> s \<noteq> ''.'' \<and> CHR ''/'' \<notin> set s)"

definition clean_path :: "path \<Rightarrow> bool" where
  "clean_path p = (\<forall>x \<in> set (parts p). clean_part x)"

lemma path_of_clean: "clean_path (path_of s)"
  by (auto simp: clean_path_def path_of_def clean_part_def dest: split_on_free)

lemma join_hd:
  assumes "xs \<noteq> []" "\<forall>x \<in> set xs. clean_part x"
  shows "\<exists>c t. join ''/'' xs = c # t \<and> c \<noteq> CHR ''/''"
proof (cases xs)
  case (Cons x ys)
  moreover obtain c t where "x = c # t" "c \<noteq> CHR ''/''"
    using assms Cons by (cases x) (auto simp: clean_part_def)
  ultimately show ?thesis by (cases ys) auto
qed (use assms in simp)

lemma split_on_join_clean:
  assumes "xs \<noteq> []" "\<forall>x \<in> set xs. clean_part x"
  shows "split_on (CHR ''/'') (join ''/'' xs) = xs"
  by (rule split_on_join) (use assms in \<open>auto simp: clean_part_def\<close>)

lemma filter_clean: "\<forall>x \<in> set xs. clean_part x \<Longrightarrow> filter (\<lambda>p. p \<noteq> [] \<and> p \<noteq> ''.'') xs = xs"
  by (auto simp: clean_part_def intro: filter_True)

lemma path_of_path_str:
  assumes "clean_path p"
  shows "path_of (path_str p) = p"
proof (cases p)
  case (Path a xs)
  have xs: "\<forall>x \<in> set xs. clean_part x" using assms Path by (simp add: clean_path_def)
  show ?thesis
  proof (cases "xs = []")
    case True
    then show ?thesis by (cases a) (simp_all add: Path path_of_def path_str_def)
  next
    case False
    obtain c t where c: "join ''/'' xs = c # t" "c \<noteq> CHR ''/''" using join_hd [OF False xs] by blast
    show ?thesis
      using False c split_on_join_clean [OF False xs] filter_clean [OF xs]
      by (cases a) (simp_all add: Path path_of_def path_str_def)
  qed
qed

section \<open>The machine\<close>

datatype command = Command (argv: "string list") (stdin: "string option")

record completed =
  returncode :: int
  stdout :: string
  stderr :: string

record 'w ci_state =
  world :: 'w
  cmds :: "command list"
  environ :: "(string, string) dict"
  files :: "(path, string) dict"
  readonly :: "path list"
  printed :: "string list"

type_synonym ('w, 'a) ci = "'w ci_state \<Rightarrow> (exn + 'a) \<times> 'w ci_state"
type_synonym 'w runner = "command \<Rightarrow> 'w \<Rightarrow> completed option \<times> 'w"

definition ret :: "'a \<Rightarrow> ('w, 'a) ci" where
  "ret x = (\<lambda>s. (Inr x, s))"

definition raise :: "exn \<Rightarrow> ('w, 'a) ci" where
  "raise e = (\<lambda>s. (Inl e, s))"

definition bindC :: "('w, 'a) ci \<Rightarrow> ('a \<Rightarrow> ('w, 'b) ci) \<Rightarrow> ('w, 'b) ci" where
  "bindC m k = (\<lambda>s. case m s of (Inl e, s') \<Rightarrow> (Inl e, s') | (Inr x, s') \<Rightarrow> k x s')"

definition thenC :: "('w, 'a) ci \<Rightarrow> ('w, 'b) ci \<Rightarrow> ('w, 'b) ci" where
  "thenC m k = bindC m (\<lambda>_. k)"

definition lift :: "exn + 'a \<Rightarrow> ('w, 'a) ci" where
  "lift r = (\<lambda>s. (r, s))"

text \<open>A loop that collects the results of its steps.\<close>

fun mapC :: "('a \<Rightarrow> ('w, 'b) ci) \<Rightarrow> 'a list \<Rightarrow> ('w, 'b list) ci" where
  "mapC f [] = ret []"
| "mapC f (x # xs) = bindC (f x) (\<lambda>y. bindC (mapC f xs) (\<lambda>ys. ret (y # ys)))"

text \<open>\<open>try: m except <classes satisfying p>: h\<close>.\<close>

definition try_except :: "('w, 'a) ci \<Rightarrow> (exn \<Rightarrow> bool) \<Rightarrow> ('w, 'a) ci \<Rightarrow> ('w, 'a) ci" where
  "try_except m p h = (\<lambda>s. case m s of (Inl e, s') \<Rightarrow> if p e then h s' else (Inl e, s')
     | (Inr x, s') \<Rightarrow> (Inr x, s'))"

text \<open>\<open>print(..., file=sys.stderr); sys.exit(1)\<close>: the message is not modelled.\<close>

definition die :: "('w, 'a) ci" where
  "die = raise (SystemExit 1)"

definition getenv :: "string \<Rightarrow> ('w, string option) ci" where
  "getenv n = (\<lambda>s. (Inr (map_of (environ s) n), s))"

definition put_line :: "string \<Rightarrow> ('w, unit) ci" where
  "put_line l = (\<lambda>s. (Inr (), s\<lparr>printed := printed s @ [l]\<rparr>))"

text \<open>\<open>subprocess.run(cmd, capture_output=True, text=True, input=...)\<close>: the answer \<open>None\<close> is an
  executable that cannot be started.\<close>

definition run_cmd :: "'w runner \<Rightarrow> command \<Rightarrow> ('w, completed) ci" where
  "run_cmd runner c = (\<lambda>s.
     let (r, w) = runner c (world s)
     in (case r of None \<Rightarrow> Inl FileNotFoundError | Some x \<Rightarrow> Inr x, s\<lparr>world := w, cmds := cmds s @ [c]\<rparr>))"

abbreviation run :: "'w runner \<Rightarrow> string list \<Rightarrow> ('w, completed) ci" where
  "run runner a \<equiv> run_cmd runner (Command a None)"

section \<open>Files\<close>

text \<open>Directories are not stored: one exists when a file lies below it.\<close>

definition is_file :: "(path, string) dict \<Rightarrow> path \<Rightarrow> bool" where
  "is_file fs p = (map_of fs p \<noteq> None)"

definition is_dir :: "(path, string) dict \<Rightarrow> path \<Rightarrow> bool" where
  "is_dir fs p = (\<exists>q \<in> fst ` set fs. anchored q = anchored p \<and> strict_prefix (parts p) (parts q))"

definition path_exists :: "(path, string) dict \<Rightarrow> path \<Rightarrow> bool" where
  "path_exists fs p = (is_file fs p \<or> is_dir fs p)"

text \<open>\<open>p.iterdir()\<close>: the names directly below a directory.\<close>

definition list_dir :: "(path, string) dict \<Rightarrow> path \<Rightarrow> string list" where
  "list_dir fs p = remdups (map (\<lambda>q. parts q ! length (parts p))
     (filter (\<lambda>q. anchored q = anchored p \<and> strict_prefix (parts p) (parts q)) (map fst fs)))"

definition get_files :: "('w, (path, string) dict) ci" where
  "get_files = (\<lambda>s. (Inr (files s), s))"

text \<open>\<open>p.read_text()\<close>.\<close>

definition read_text :: "path \<Rightarrow> ('w, string) ci" where
  "read_text p = (\<lambda>s. case map_of (files s) p of
      Some t \<Rightarrow> (Inr t, s)
    | None \<Rightarrow> (Inl (if is_dir (files s) p then OSError else FileNotFoundError), s))"

text \<open>\<open>p.write_text(t)\<close>; a path listed as read-only, or a directory, raises.\<close>

definition write_text :: "path \<Rightarrow> string \<Rightarrow> ('w, unit) ci" where
  "write_text p t = (\<lambda>s.
     if p \<in> set (readonly s) \<or> is_dir (files s) p then (Inl OSError, s)
     else (Inr (), s\<lparr>files := AList.update p t (files s)\<rparr>))"

definition append_text :: "path \<Rightarrow> string \<Rightarrow> ('w, unit) ci" where
  "append_text p t = (\<lambda>s.
     if p \<in> set (readonly s) \<or> is_dir (files s) p then (Inl OSError, s)
     else (Inr (), s\<lparr>files := AList.update p
       ((case map_of (files s) p of None \<Rightarrow> [] | Some u \<Rightarrow> u) @ t) (files s)\<rparr>))"

text \<open>\<open>constants.write_output\<close>: append \<open>key=value\<close> to the step's output file.\<close>

definition write_output :: "string \<Rightarrow> string \<Rightarrow> string \<Rightarrow> ('w, unit) ci" where
  "write_output output_path key val = append_text (path_of output_path) (key @ ''='' @ val @ [CHR 0x0A])"

text \<open>\<open>json.loads(t)\<close> and \<open>json.load(fh)\<close>.\<close>

definition json_loads :: "string \<Rightarrow> exn + json" where
  "json_loads t = (case loads t of None \<Rightarrow> Inl JSONDecodeError | Some v \<Rightarrow> Inr v)"

text \<open>\<open>d.get(k)\<close> on a decoded value: only a dict has the method.\<close>

definition json_get :: "json \<Rightarrow> string \<Rightarrow> exn + json" where
  "json_get v k = (case v of
      JObj kvs \<Rightarrow> Inr (case map_of kvs k of None \<Rightarrow> JNull | Some x \<Rightarrow> x)
    | _ \<Rightarrow> Inl AttributeError)"

definition json_get_default :: "json \<Rightarrow> string \<Rightarrow> json \<Rightarrow> exn + json" where
  "json_get_default v k d = (case v of
      JObj kvs \<Rightarrow> Inr (case map_of kvs k of None \<Rightarrow> d | Some x \<Rightarrow> x)
    | _ \<Rightarrow> Inl AttributeError)"

text \<open>\<open>d[k]\<close> with a string key.\<close>

definition json_index :: "json \<Rightarrow> string \<Rightarrow> exn + json" where
  "json_index v k = (case v of
      JObj kvs \<Rightarrow> (case map_of kvs k of None \<Rightarrow> Inl KeyError | Some x \<Rightarrow> Inr x)
    | _ \<Rightarrow> Inl TypeError)"

section \<open>Facts\<close>

lemma bindC_simps [simp]:
  "bindC (ret x) k = k x"
  "bindC (raise e) k = raise e"
  by (simp_all add: bindC_def ret_def raise_def)

lemma thenC_simps [simp]:
  "thenC (ret x) k = k"
  "thenC (raise e) k = raise e"
  by (simp_all add: thenC_def)

lemmas ci_defs = ret_def raise_def bindC_def thenC_def lift_def try_except_def die_def getenv_def
  put_line_def get_files_def

lemma ret_apply [simp]: "ret x s = (Inr x, s)"
  and raise_apply [simp]: "raise e s = (Inl e, s)"
  and lift_apply [simp]: "lift r s = (r, s)"
  and die_apply [simp]: "die s = (Inl (SystemExit 1), s)"
  and getenv_apply [simp]: "getenv n s = (Inr (map_of (environ s) n), s)"
  and put_line_apply [simp]: "put_line l s = (Inr (), s\<lparr>printed := printed s @ [l]\<rparr>)"
  and get_files_apply [simp]: "get_files s = (Inr (files s), s)"
  by (simp_all add: ci_defs)

lemma bindC_Inr_iff:
  "bindC m k s = (Inr y, s') \<longleftrightarrow> (\<exists>x t. m s = (Inr x, t) \<and> k x t = (Inr y, s'))"
  by (auto simp: bindC_def split: prod.splits sum.splits)

lemma bindC_Inl_iff:
  "bindC m k s = (Inl e, s') \<longleftrightarrow>
     m s = (Inl e, s') \<or> (\<exists>x t. m s = (Inr x, t) \<and> k x t = (Inl e, s'))"
  by (auto simp: bindC_def split: prod.splits sum.splits)

lemma thenC_Inr_iff:
  "thenC m k s = (Inr y, s') \<longleftrightarrow> (\<exists>x t. m s = (Inr x, t) \<and> k t = (Inr y, s'))"
  by (auto simp: thenC_def bindC_Inr_iff)

lemma thenC_Inl_iff:
  "thenC m k s = (Inl e, s') \<longleftrightarrow>
     m s = (Inl e, s') \<or> (\<exists>x t. m s = (Inr x, t) \<and> k t = (Inl e, s'))"
  by (auto simp: thenC_def bindC_Inl_iff)

lemma try_except_Inr_iff:
  "try_except m p h s = (Inr y, s') \<longleftrightarrow>
     m s = (Inr y, s') \<or> (\<exists>e t. m s = (Inl e, t) \<and> p e \<and> h t = (Inr y, s'))"
  by (auto simp: try_except_def split: prod.splits sum.splits if_splits)

lemma try_except_Inl_iff:
  "try_except m p h s = (Inl e, s') \<longleftrightarrow>
     (\<exists>e' t. m s = (Inl e', t) \<and> (if p e' then h t = (Inl e, s') else e' = e \<and> t = s'))"
  by (auto simp: try_except_def split: prod.splits sum.splits if_splits)

lemmas ci_Inr_iffs = bindC_Inr_iff thenC_Inr_iff try_except_Inr_iff
lemmas ci_Inl_iffs = bindC_Inl_iff thenC_Inl_iff try_except_Inl_iff

lemma try_die_Inr_iff [simp]: "try_except m p die s = (Inr y, s') \<longleftrightarrow> m s = (Inr y, s')"
  by (auto simp: try_except_Inr_iff)

lemma run_cmd_Inr_iff:
  "run_cmd runner c s = (Inr r, s') \<longleftrightarrow>
     (\<exists>w. runner c (world s) = (Some r, w) \<and> s' = s\<lparr>world := w, cmds := cmds s @ [c]\<rparr>)"
  by (auto simp: run_cmd_def split: prod.splits option.splits)

lemma run_cmd_Inl_iff:
  "run_cmd runner c s = (Inl e, s') \<longleftrightarrow>
     (\<exists>w. runner c (world s) = (None, w) \<and> e = FileNotFoundError \<and> s' = s\<lparr>world := w, cmds := cmds s @ [c]\<rparr>)"
  by (auto simp: run_cmd_def split: prod.splits option.splits)

subsection \<open>Parts of the state a step leaves alone\<close>

definition preserves :: "('w ci_state \<Rightarrow> 'b) \<Rightarrow> ('w, 'a) ci \<Rightarrow> bool" where
  "preserves f m = (\<forall>s. f (snd (m s)) = f s)"

named_theorems preserves_intros "closure of preserves under the step combinators"

lemma preservesD: "preserves f m \<Longrightarrow> m s = (r, s') \<Longrightarrow> f s' = f s"
  unfolding preserves_def by (metis snd_conv)

lemma preserves_bind [preserves_intros]:
  "preserves f m \<Longrightarrow> (\<And>x. preserves f (k x)) \<Longrightarrow> preserves f (bindC m k)"
  unfolding preserves_def by (auto simp: bindC_def split: prod.splits sum.splits) (metis snd_conv)+

lemma preserves_then [preserves_intros]:
  "preserves f m \<Longrightarrow> preserves f k \<Longrightarrow> preserves f (thenC m k)"
  unfolding thenC_def by (rule preserves_bind)

lemma preserves_try [preserves_intros]:
  "preserves f m \<Longrightarrow> preserves f h \<Longrightarrow> preserves f (try_except m p h)"
  unfolding preserves_def by (auto simp: try_except_def split: prod.splits sum.splits) (metis snd_conv)+

lemma preserves_none [preserves_intros]:
  "preserves f (ret x)" "preserves f (raise e)" "preserves f (lift r)" "preserves f die"
  "preserves f (getenv n)" "preserves f get_files" "preserves f (read_text p)"
  by (auto simp: preserves_def read_text_def split: option.splits)

lemma preserves_if [preserves_intros]:
  "(b \<Longrightarrow> preserves f m) \<Longrightarrow> (\<not> b \<Longrightarrow> preserves f k) \<Longrightarrow> preserves f (if b then m else k)"
  by simp

lemma preserves_run [preserves_intros]:
  "preserves files (run_cmd runner c)" "preserves environ (run_cmd runner c)"
  "preserves printed (run_cmd runner c)" "preserves readonly (run_cmd runner c)"
  by (auto simp: preserves_def run_cmd_def split: prod.splits)

lemma preserves_put_line [preserves_intros]:
  "preserves files (put_line l)" "preserves environ (put_line l)" "preserves cmds (put_line l)"
  "preserves world (put_line l)" "preserves readonly (put_line l)"
  by (auto simp: preserves_def)

lemma preserves_write [preserves_intros]:
  "preserves environ (append_text p t)" "preserves cmds (append_text p t)"
  "preserves world (append_text p t)" "preserves readonly (append_text p t)"
  "preserves environ (write_text p t)" "preserves cmds (write_text p t)"
  "preserves world (write_text p t)" "preserves readonly (write_text p t)"
  by (auto simp: preserves_def append_text_def write_text_def)

subsection \<open>Commands issued by a step\<close>

text \<open>\<open>issues P m\<close>: whatever happens, every command \<open>m\<close> starts satisfies \<open>P\<close>, and \<open>m\<close>
  never rewrites the record of the earlier ones.\<close>

definition issues :: "(command \<Rightarrow> bool) \<Rightarrow> ('w, 'a) ci \<Rightarrow> bool" where
  "issues P m = (\<forall>s. \<exists>cs. cmds (snd (m s)) = cmds s @ cs \<and> list_all P cs)"

named_theorems issues_intros "closure of issues under the step combinators"

lemma issuesI:
  assumes "\<And>s. \<exists>cs. cmds (snd (m s)) = cmds s @ cs \<and> list_all P cs"
  shows "issues P m"
  using assms by (simp add: issues_def)

lemma issues_bind [issues_intros]:
  assumes "issues P m" and "\<And>x. issues P (k x)"
  shows "issues P (bindC m k)"
proof (rule issuesI)
  fix s
  obtain r t where m: "m s = (r, t)" by force
  obtain cs where cs: "cmds t = cmds s @ cs" "list_all P cs"
    using assms(1) m by (metis issues_def snd_conv)
  show "\<exists>cs. cmds (snd (bindC m k s)) = cmds s @ cs \<and> list_all P cs"
  proof (cases r)
    case (Inl e)
    with m cs show ?thesis by (auto simp: bindC_def)
  next
    case (Inr x)
    obtain ds where "cmds (snd (k x t)) = cmds t @ ds" "list_all P ds"
      using assms(2) by (metis issues_def)
    with m cs Inr show ?thesis by (auto simp: bindC_def)
  qed
qed

lemma issues_then [issues_intros]: "issues P m \<Longrightarrow> issues P k \<Longrightarrow> issues P (thenC m k)"
  unfolding thenC_def by (rule issues_bind)

lemma issues_try [issues_intros]:
  assumes "issues P m" and "issues P h"
  shows "issues P (try_except m p h)"
proof (rule issuesI)
  fix s
  obtain r t where m: "m s = (r, t)" by force
  obtain cs where cs: "cmds t = cmds s @ cs" "list_all P cs"
    using assms(1) m by (metis issues_def snd_conv)
  obtain ds where "cmds (snd (h t)) = cmds t @ ds" "list_all P ds"
    using assms(2) by (metis issues_def)
  with m cs show "\<exists>cs. cmds (snd (try_except m p h s)) = cmds s @ cs \<and> list_all P cs"
    by (cases r) (auto simp: try_except_def)
qed

lemma issues_run [issues_intros]: "P c \<Longrightarrow> issues P (run_cmd runner c)"
  by (auto simp: issues_def run_cmd_def split: prod.splits)

lemma issues_none [issues_intros]:
  "issues P (ret x)" "issues P (raise e)" "issues P (lift r)" "issues P die"
  "issues P (getenv n)" "issues P (put_line l)" "issues P get_files"
  "issues P (read_text p)" "issues P (write_text p t)" "issues P (append_text p t)"
  "issues P (write_output out k v)"
  by (auto simp: issues_def read_text_def write_text_def append_text_def write_output_def
        split: option.splits)

lemma issues_if [issues_intros]:
  "(b \<Longrightarrow> issues P m) \<Longrightarrow> (\<not> b \<Longrightarrow> issues P k) \<Longrightarrow> issues P (if b then m else k)"
  by simp

lemma issues_option [issues_intros]:
  "issues P m \<Longrightarrow> (\<And>x. issues P (k x)) \<Longrightarrow> issues P (case r of None \<Rightarrow> m | Some x \<Rightarrow> k x)"
  by (cases r) auto

lemma issuesD: "issues P m \<Longrightarrow> \<exists>cs. cmds (snd (m s)) = cmds s @ cs \<and> list_all P cs"
  by (simp add: issues_def)

text \<open>The commands a step starts in a state.\<close>

definition started :: "('w, 'a) ci \<Rightarrow> 'w ci_state \<Rightarrow> command list" where
  "started m s = drop (length (cmds s)) (cmds (snd (m s)))"

abbreviation tracing :: "('w, 'a) ci \<Rightarrow> bool" where
  "tracing m \<equiv> issues (\<lambda>_. True) m"

lemma started_cmds: "issues P m \<Longrightarrow> m s = (r, s') \<Longrightarrow> cmds s' = cmds s @ started m s"
  using issuesD [of P m s] by (auto simp: started_def)

lemma issues_started: "issues P m \<Longrightarrow> c \<in> set (started m s) \<Longrightarrow> P c"
  using issuesD [of P m s] by (auto simp: started_def list_all_iff)

lemma started_bind:
  assumes "tracing m" and "\<And>x. tracing (k x)"
  shows "started (bindC m k) s =
     started m s @ (case m s of (Inl e, t) \<Rightarrow> [] | (Inr x, t) \<Rightarrow> started (k x) t)"
proof -
  obtain r t where m: "m s = (r, t)" by force
  have t: "cmds t = cmds s @ started m s" using started_cmds [OF assms(1) m] .
  show ?thesis
  proof (cases r)
    case (Inl e)
    with m show ?thesis by (simp add: started_def bindC_def)
  next
    case (Inr x)
    obtain q u where k: "k x t = (q, u)" by force
    have "cmds u = cmds t @ started (k x) t" using started_cmds [OF assms(2) k] .
    then have "drop (length (cmds s)) (cmds u) = started m s @ started (k x) t" using t by simp
    moreover have "snd (bindC m k s) = u" using m Inr k by (simp add: bindC_def)
    ultimately show ?thesis using m Inr unfolding started_def by simp
  qed
qed

lemma started_try_die: "started (try_except m p die) s = started m s"
  by (auto simp: started_def try_except_def split: prod.splits sum.splits)

lemma started_simps [simp]:
  "started (ret x) s = []" "started (raise e) s = []" "started (lift r) s = []" "started die s = []"
  "started (put_line l) s = []" "started (getenv n) s = []" "started get_files s = []"
  "started (run_cmd runner c) s = [c]"
  by (simp_all add: started_def run_cmd_def split: prod.splits)

subsection \<open>Directories\<close>

lemma is_file_iff: "is_file fs p \<longleftrightarrow> p \<in> fst ` set fs"
  by (simp add: is_file_def map_of_eq_None_iff)

lemma list_dir_iff:
  "n \<in> set (list_dir fs p) \<longleftrightarrow>
     (\<exists>rest. Path (anchored p) (parts p @ n # rest) \<in> fst ` set fs)"
proof
  assume "n \<in> set (list_dir fs p)"
  then obtain q where q: "q \<in> fst ` set fs" "anchored q = anchored p"
    "strict_prefix (parts p) (parts q)" "n = parts q ! length (parts p)"
    by (auto simp: list_dir_def)
  from q(3) obtain x xs where "parts q = parts p @ x # xs" by (auto elim: strict_prefixE')
  with q show "\<exists>rest. Path (anchored p) (parts p @ n # rest) \<in> fst ` set fs"
    by (cases q) (auto intro!: exI [of _ xs])
next
  assume "\<exists>rest. Path (anchored p) (parts p @ n # rest) \<in> fst ` set fs"
  then obtain rest where r: "Path (anchored p) (parts p @ n # rest) \<in> fst ` set fs" by blast
  have "strict_prefix (parts p) (parts p @ n # rest)" by (simp add: strict_prefix_def)
  with r show "n \<in> set (list_dir fs p)" by (force simp: list_dir_def)
qed

subsection \<open>The output file\<close>

lemma append_text_lookup:
  "append_text p t s = (Inr (), s') \<Longrightarrow>
     map_of (files s') p = Some ((case map_of (files s) p of None \<Rightarrow> [] | Some u \<Rightarrow> u) @ t)"
  by (auto simp: append_text_def update_conv' split: if_splits)

lemma append_text_other:
  "append_text p t s = (r, s') \<Longrightarrow> q \<noteq> p \<Longrightarrow> map_of (files s') q = map_of (files s) q"
  by (auto simp: append_text_def update_conv' split: if_splits)

end
