(* ===== verification/Patterns.thy ===== *)
theory Patterns
  imports Prelude
begin

text \<open>
  The two pattern languages the sources use. \<open>rx\<close> is the part of Python's \<open>re\<close> syntax that
  occurs in them; \<open>rmatch\<close> returns the successes of the backtracking matcher in the order it
  tries them, so its first element is what \<open>re.match\<close> finds (greedy loops try the longest
  iteration first, lazy ones the shortest). \<open>fnmatch\<close> is the shell glob of the module of
  that name. The lemmas give closed forms for greedy loops over character classes, which is
  how the component theories read off what a pattern accepts.
\<close>

section \<open>Regular expressions\<close>

datatype rx =
    Cls "char \<Rightarrow> bool"
  | Seq rx rx
  | Alt rx rx
  | Eps
  | Star bool rx
  | Grp string rx
  | EndD
  | AtEnd
  | Peek "string \<Rightarrow> bool"

text \<open>The matcher state: what is left of the subject and the groups captured so far.\<close>

type_synonym caps = "(string \<times> string) list"
type_synonym mstate = "string \<times> caps"

text \<open>Greedy (\<open>True\<close>) and lazy loops; an iteration that consumes nothing is not repeated.\<close>

fun iterate :: "bool \<Rightarrow> nat \<Rightarrow> (mstate \<Rightarrow> mstate list) \<Rightarrow> mstate \<Rightarrow> mstate list" where
  "iterate greedy 0 m st = [st]"
| "iterate greedy (Suc n) m st =
     (let more = concat (map (iterate greedy n m)
                   (filter (\<lambda>st'. length (fst st') < length (fst st)) (m st)))
      in if greedy then more @ [st] else st # more)"

primrec rmatch :: "rx \<Rightarrow> mstate \<Rightarrow> mstate list" where
  "rmatch (Cls P) = (\<lambda>(s, c). (case s of [] \<Rightarrow> [] | x # t \<Rightarrow> if P x then [(t, c)] else []))"
| "rmatch (Seq a b) = (\<lambda>st. concat (map (rmatch b) (rmatch a st)))"
| "rmatch (Alt a b) = (\<lambda>st. rmatch a st @ rmatch b st)"
| "rmatch Eps = (\<lambda>st. [st])"
| "rmatch (Star g a) = (\<lambda>st. iterate g (length (fst st)) (rmatch a) st)"
| "rmatch (Grp n a) = (\<lambda>(s, c).
     map (\<lambda>(t, c'). (t, AList.update n (take (length s - length t) s) c')) (rmatch a (s, c)))"
| "rmatch EndD = (\<lambda>(s, c). if s = [] \<or> s = [CHR 0x0A] then [(s, c)] else [])"
| "rmatch AtEnd = (\<lambda>(s, c). if s = [] then [(s, c)] else [])"
| "rmatch (Peek P) = (\<lambda>(s, c). if P s then [(s, c)] else [])"

abbreviation Plus :: "bool \<Rightarrow> rx \<Rightarrow> rx" where
  "Plus g a \<equiv> Seq a (Star g a)"

abbreviation Opt :: "rx \<Rightarrow> rx" where
  "Opt a \<equiv> Alt a Eps"

abbreviation Ch :: "char \<Rightarrow> rx" where
  "Ch c \<equiv> Cls (\<lambda>x. x = c)"

fun Lit :: "string \<Rightarrow> rx" where
  "Lit [] = Eps"
| "Lit (c # s) = Seq (Ch c) (Lit s)"

definition between :: "char \<Rightarrow> char \<Rightarrow> char \<Rightarrow> bool" where
  "between a b c = (of_char a \<le> (of_char c :: nat) \<and> of_char c \<le> (of_char b :: nat))"

definition dot :: "char \<Rightarrow> bool" where
  "dot c = (c \<noteq> CHR 0x0A)"

definition re_match :: "rx \<Rightarrow> string \<Rightarrow> mstate option" where
  "re_match r s = (case rmatch r (s, []) of [] \<Rightarrow> None | st # _ \<Rightarrow> Some st)"

fun re_search :: "rx \<Rightarrow> string \<Rightarrow> mstate option" where
  "re_search r [] = re_match r []"
| "re_search r (c # s) = (case re_match r (c # s) of None \<Rightarrow> re_search r s | Some st \<Rightarrow> Some st)"

text \<open>\<open>re.findall\<close> and \<open>re.finditer\<close> for patterns that never match the empty string: the
  captures of the successive non-overlapping matches.\<close>

function re_findall :: "rx \<Rightarrow> string \<Rightarrow> caps list" where
  "re_findall r s = (case s of
      [] \<Rightarrow> []
    | c # t \<Rightarrow> (case re_match r s of
          None \<Rightarrow> re_findall r t
        | Some (u, cs) \<Rightarrow>
            if length u < length s then cs # re_findall r u else re_findall r t))"
  by pat_completeness auto
termination
  by (relation "measure (\<lambda>(r, s). length s)") auto

declare re_findall.simps [simp del]

text \<open>Patterns that look at the character before a match (\<open>^\<close> of a multi-line pattern, a leading word
  boundary): \<open>A\<close> tests it, \<open>None\<close> at the start of the text. A match is what is left of the text where it
  starts, together with its final state.\<close>

fun search_from :: "(char option \<Rightarrow> bool) \<Rightarrow> rx \<Rightarrow> char option \<Rightarrow> string \<Rightarrow> (string \<times> mstate) option" where
  "search_from A r p [] = (if A p then map_option (Pair []) (re_match r []) else None)"
| "search_from A r p (c # s) = (case (if A p then re_match r (c # s) else None) of
      None \<Rightarrow> search_from A r (Some c) s
    | Some st \<Rightarrow> Some (c # s, st))"

function find_from :: "(char option \<Rightarrow> bool) \<Rightarrow> rx \<Rightarrow> char option \<Rightarrow> string \<Rightarrow> (string \<times> mstate) list" where
  "find_from A r p s = (case s of
      [] \<Rightarrow> []
    | c # t \<Rightarrow> (case (if A p then re_match r s else None) of
          None \<Rightarrow> find_from A r (Some c) t
        | Some (u, cs) \<Rightarrow>
            if length u < length s then (s, u, cs) # find_from A r (Some (s ! (length s - Suc (length u)))) u
            else find_from A r (Some c) t))"
  by pat_completeness auto
termination
  by (relation "measure (\<lambda>(A, r, p, s). length s)") auto

declare find_from.simps [simp del]

definition line_start :: "char option \<Rightarrow> bool" where
  "line_start p = (p = None \<or> p = Some (CHR 0x0A))"

definition word_char :: "char \<Rightarrow> bool" where
  "word_char c = (is_digit c \<or> c = CHR ''_'' \<or> between (CHR ''a'') (CHR ''z'') c \<or> between (CHR ''A'') (CHR ''Z'') c
     \<or> 192 \<le> (of_char c :: nat) \<and> of_char c \<noteq> (215 :: nat) \<and> of_char c \<noteq> (247 :: nat)
     \<or> (of_char c :: nat) \<in> {170, 178, 179, 181, 185, 186, 188, 189, 190})"

definition word_start :: "char option \<Rightarrow> bool" where
  "word_start p = (case p of None \<Rightarrow> True | Some c \<Rightarrow> \<not> word_char c)"

text \<open>\<open>$\<close> of a multi-line pattern, and \<open>\b\<close> after a word character.\<close>

abbreviation LineEnd :: rx where "LineEnd \<equiv> Peek (\<lambda>s. s = [] \<or> hd s = CHR 0x0A)"
abbreviation WordEnd :: rx where "WordEnd \<equiv> Peek (\<lambda>s. s = [] \<or> \<not> word_char (hd s))"

text \<open>\<open>m.group(name)\<close>.\<close>

definition cap_of :: "string \<Rightarrow> caps \<Rightarrow> string option" where
  "cap_of n cs = map_of cs n"

subsection \<open>Loops over a character class\<close>

lemma iterate_class:
  "length s \<le> n \<Longrightarrow> iterate True n (rmatch (Cls P)) (s, c) =
     map (\<lambda>k. (drop k s, c)) (rev [0..<Suc (length (takeWhile P s))])"
proof (induction n arbitrary: s)
  case 0
  then show ?case by simp
next
  case (Suc n)
  show ?case
  proof (cases s)
    case Nil
    then show ?thesis by simp
  next
    case (Cons x t)
    have e: "rev [0..<Suc (Suc m)] = map Suc (rev [0..<Suc m]) @ [0]" for m
      by (simp add: map_Suc_upt rev_map [symmetric] upt_conv_Cons del: upt_Suc)
    show ?thesis
    proof (cases "P x")
      case True
      then show ?thesis
        using Suc Cons e [of "length (takeWhile P t)"] by (simp del: upt_Suc add: comp_def)
    next
      case False
      with Cons show ?thesis by simp
    qed
  qed
qed

lemma rmatch_star_class:
  "rmatch (Star True (Cls P)) (s, c) =
     map (\<lambda>k. (drop k s, c)) (rev [0..<Suc (length (takeWhile P s))])"
  using iterate_class [of s "length s"] by (simp del: upt_Suc)

lemma rmatch_plus_class:
  "rmatch (Plus True (Cls P)) (s, c) =
     map (\<lambda>k. (drop k s, c)) (rev [1..<Suc (length (takeWhile P s))])"
proof (cases s)
  case (Cons x t)
  have "map (\<lambda>k. (drop k t, c)) (rev [0..<Suc m]) =
      map (\<lambda>k. (drop k (x # t), c)) (rev [1..<Suc (Suc m)])" for m
    by (simp add: map_Suc_upt [symmetric] rev_map [symmetric] comp_def del: upt_Suc)
  with Cons show ?thesis
    using rmatch_star_class [of P t c] by (simp del: upt_Suc rmatch.simps(5))
qed simp

text \<open>When what follows a greedy loop cannot start with a character of the class, only the
  longest iteration survives.\<close>

lemma concat_rev_upt:
  assumes "\<And>k. a \<le> k \<Longrightarrow> k < n \<Longrightarrow> f k = []"
  shows "concat (map f (rev [a..<Suc n])) = (if a \<le> n then f n else [])"
proof (cases "a \<le> n")
  case True
  moreover have "concat (map f (rev [a..<n])) = []" using assms by auto
  ultimately show ?thesis by simp
qed simp

lemma hd_drop_takeWhile:
  assumes "k < length (takeWhile P s)"
  shows "\<exists>x t. drop k s = x # t \<and> P x"
proof -
  have "k < length s" using assms length_takeWhile_le [of P s] by simp
  then have "drop k s = s ! k # drop (Suc k) s" by (rule Cons_nth_drop_Suc [symmetric])
  moreover have "P (s ! k)"
    using assms by (metis nth_mem set_takeWhileD takeWhile_nth)
  ultimately show ?thesis by blast
qed

lemma drop_takeWhile_length: "drop (length (takeWhile P s)) s = dropWhile P s"
  by (simp add: dropWhile_eq_drop)

lemma star_class_then:
  assumes "\<And>x t. P x \<Longrightarrow> k (x # t, c) = []"
  shows "concat (map k (rmatch (Star True (Cls P)) (s, c))) = k (dropWhile P s, c)"
proof -
  have "k (drop i s, c) = []" if "i < length (takeWhile P s)" for i
    using hd_drop_takeWhile [OF that] assms by auto
  then have "concat (map (\<lambda>i. k (drop i s, c)) (rev [0..<Suc (length (takeWhile P s))]))
      = k (drop (length (takeWhile P s)) s, c)"
    by (subst concat_rev_upt) auto
  then show ?thesis
    unfolding rmatch_star_class map_map comp_def drop_takeWhile_length .
qed

lemma plus_class_then:
  assumes "\<And>x t. P x \<Longrightarrow> k (x # t, c) = []"
  shows "concat (map k (rmatch (Plus True (Cls P)) (s, c))) =
     (if s \<noteq> [] \<and> P (hd s) then k (dropWhile P s, c) else [])"
proof -
  have "k (drop i s, c) = []" if "i < length (takeWhile P s)" for i
    using hd_drop_takeWhile [OF that] assms by auto
  then have "concat (map (\<lambda>i. k (drop i s, c)) (rev [1..<Suc (length (takeWhile P s))]))
      = (if 1 \<le> length (takeWhile P s) then k (drop (length (takeWhile P s)) s, c) else [])"
    by (intro concat_rev_upt) auto
  moreover have "1 \<le> length (takeWhile P s) \<longleftrightarrow> s \<noteq> [] \<and> P (hd s)"
    by (cases s) auto
  ultimately show ?thesis
    unfolding rmatch_plus_class map_map comp_def drop_takeWhile_length by simp
qed

text \<open>The same for a captured loop: the group holds exactly the longest run.\<close>

lemma take_length_dropWhile: "take (length s - length (dropWhile P s)) s = takeWhile P s"
proof -
  have "length s = length (takeWhile P s) + length (dropWhile P s)"
    by (metis length_append takeWhile_dropWhile_id)
  then show ?thesis by (metis add_diff_cancel_right' takeWhile_eq_take)
qed

lemma grp_plus_class_then:
  assumes "\<And>x t cs. P x \<Longrightarrow> k (x # t, cs) = []"
  shows "concat (map k (rmatch (Grp n (Plus True (Cls P))) (s, c))) =
     (if s \<noteq> [] \<and> P (hd s) then k (dropWhile P s, AList.update n (takeWhile P s) c) else [])"
proof -
  let ?k = "\<lambda>(t, c'). k (t, AList.update n (take (length s - length t) s) c')"
  have "concat (map k (rmatch (Grp n (Plus True (Cls P))) (s, c))) =
      concat (map ?k (rmatch (Plus True (Cls P)) (s, c)))"
    by (simp add: comp_def case_prod_unfold del: rmatch.simps(2,5))
  also have "\<dots> = (if s \<noteq> [] \<and> P (hd s) then ?k (dropWhile P s, c) else [])"
    by (rule plus_class_then) (simp add: assms)
  finally show ?thesis by (simp add: take_length_dropWhile)
qed

lemma rmatch_lit:
  "rmatch (Lit l) (s, c) = (if prefix l s then [(drop (length l) s, c)] else [])"
  by (induction l arbitrary: s) (auto split: list.splits)

text \<open>A pattern without groups captures nothing.\<close>

primrec group_free :: "rx \<Rightarrow> bool" where
  "group_free (Cls P) = True"
| "group_free (Seq a b) = (group_free a \<and> group_free b)"
| "group_free (Alt a b) = (group_free a \<and> group_free b)"
| "group_free Eps = True"
| "group_free (Star g a) = group_free a"
| "group_free (Grp n a) = False"
| "group_free EndD = True"
| "group_free AtEnd = True"
| "group_free (Peek P) = True"

lemma iterate_caps:
  assumes "\<And>st0 st. st \<in> set (m st0) \<Longrightarrow> snd st = snd st0"
  shows "st \<in> set (iterate g n m st0) \<Longrightarrow> snd st = snd st0"
  using assms by (induction n arbitrary: st0) (auto simp: Let_def split: if_splits)

lemma group_free_caps: "group_free r \<Longrightarrow> st \<in> set (rmatch r st0) \<Longrightarrow> snd st = snd st0"
proof (induction r arbitrary: st st0)
  case (Cls P)
  then show ?case by (cases st0) (auto split: list.splits if_splits)
next
  case (Seq a b)
  then obtain st1 where "st1 \<in> set (rmatch a st0)" "st \<in> set (rmatch b st1)" by auto
  with Seq show ?case by (metis group_free.simps(2))
next
  case (Star g a)
  then show ?case using iterate_caps [of "rmatch a" st g "length (fst st0)" st0] by auto
next
  case EndD
  then show ?case by (cases st0) (auto split: if_splits)
next
  case AtEnd
  then show ?case by (cases st0) (auto split: if_splits)
next
  case (Peek P)
  then show ?case by (cases st0) (auto split: if_splits)
qed auto

named_theorems matches "what a pattern can consume"
named_theorems then_matches "what the head of a sequence can consume"

subsection \<open>What a pattern can consume\<close>

lemma in_Cls [matches]: "(t, c') \<in> set (rmatch (Cls P) (s, c)) \<longleftrightarrow> c' = c \<and> (\<exists>x. P x \<and> s = x # t)"
  by (cases s) auto

lemma in_Seq [matches]: "st' \<in> set (rmatch (Seq a b) st) \<longleftrightarrow> (\<exists>t c. (t, c) \<in> set (rmatch a st) \<and> st' \<in> set (rmatch b (t, c)))"
  by auto

lemma in_Alt [matches]: "st' \<in> set (rmatch (Alt a b) st) \<longleftrightarrow> st' \<in> set (rmatch a st) \<or> st' \<in> set (rmatch b st)"
  by auto

lemma in_Eps [matches]: "st' \<in> set (rmatch Eps st) \<longleftrightarrow> st' = st"
  by auto

lemma in_Lit [matches]: "(t, c') \<in> set (rmatch (Lit l) (s, c)) \<longleftrightarrow> c' = c \<and> s = l @ t"
  by (auto simp: rmatch_lit prefix_def)

lemma in_asserts [matches]:
  "(t, c') \<in> set (rmatch (Peek P) (s, c)) \<longleftrightarrow> (t, c') = (s, c) \<and> P s"
  "(t, c') \<in> set (rmatch AtEnd (s, c)) \<longleftrightarrow> (t, c') = (s, c) \<and> s = []"
  "(t, c') \<in> set (rmatch EndD (s, c)) \<longleftrightarrow> (t, c') = (s, c) \<and> (s = [] \<or> s = [CHR 0x0A])"
  by auto

lemma iterate_class_in:
  "length s \<le> n \<Longrightarrow> (t, c') \<in> set (iterate g n (rmatch (Cls P)) (s, c)) \<longleftrightarrow> c' = c \<and> (\<exists>u. list_all P u \<and> s = u @ t)"
proof (induction n arbitrary: s)
  case 0
  then show ?case by auto
next
  case (Suc n)
  have step: "(t, c') \<in> set (iterate g (Suc n) (rmatch (Cls P)) (s, c)) \<longleftrightarrow>
      (t, c') = (s, c) \<or> (\<exists>x r. s = x # r \<and> P x \<and> (t, c') \<in> set (iterate g n (rmatch (Cls P)) (r, c)))"
    by (cases s) (auto simp: Let_def)
  also have "\<dots> \<longleftrightarrow> c' = c \<and> (\<exists>u. list_all P u \<and> s = u @ t)"
  proof (cases s)
    case (Cons x r)
    then show ?thesis using Suc by (auto simp: Cons_eq_append_conv)
  qed auto
  finally show ?case .
qed

lemma in_star_class [matches]:
  "(t, c') \<in> set (rmatch (Star g (Cls P)) (s, c)) \<longleftrightarrow> c' = c \<and> (\<exists>u. list_all P u \<and> s = u @ t)"
  using iterate_class_in [of s "length s"] by simp

lemma iterate_suffix:
  assumes "\<And>st0 st. st \<in> set (m st0) \<Longrightarrow> suffix (fst st) (fst st0)"
  shows "st \<in> set (iterate g n m st0) \<Longrightarrow> suffix (fst st) (fst st0)"
proof (induction n arbitrary: st0)
  case (Suc n)
  then consider "st = st0" | st1 where "st1 \<in> set (m st0)" "st \<in> set (iterate g n m st1)" by (auto simp: Let_def split: if_splits)
  then show ?case
  proof cases
    case 2
    then show ?thesis using Suc.IH [of st1] assms [of st1 st0] suffix_order.trans by blast
  qed simp
qed simp

lemma rmatch_suffix: "st \<in> set (rmatch r st0) \<Longrightarrow> suffix (fst st) (fst st0)"
proof (induction r arbitrary: st st0)
  case (Cls P)
  then show ?case by (cases st0) (auto simp: suffix_def split: list.splits if_splits)
next
  case (Seq a b)
  then obtain st1 where "st1 \<in> set (rmatch a st0)" "st \<in> set (rmatch b st1)" by auto
  then show ?case using Seq.IH suffix_order.trans by blast
next
  case (Star g a)
  then show ?case using iterate_suffix [of "rmatch a" st g "length (fst st0)" st0] by auto
next
  case (Grp n a)
  then show ?case by (cases st0) force
qed (auto split: if_splits)

lemma in_Grp [matches]:
  "(t, c') \<in> set (rmatch (Grp n a) (s, c)) \<longleftrightarrow> (\<exists>u c1. s = u @ t \<and> (t, c1) \<in> set (rmatch a (s, c)) \<and> c' = AList.update n u c1)"
proof
  assume "(t, c') \<in> set (rmatch (Grp n a) (s, c))"
  then obtain c1 where c: "(t, c1) \<in> set (rmatch a (s, c))" "c' = AList.update n (take (length s - length t) s) c1" by auto
  from rmatch_suffix [OF c(1)] obtain u where "s = u @ t" by (auto simp: suffix_def)
  with c show "\<exists>u c1. s = u @ t \<and> (t, c1) \<in> set (rmatch a (s, c)) \<and> c' = AList.update n u c1" by auto
qed force

text \<open>The same for the head of a sequence, so that the positions in between disappear.\<close>

lemma seq_Lit [then_matches]: "st \<in> set (rmatch (Seq (Lit l) b) (s, c)) \<longleftrightarrow> (\<exists>t. s = l @ t \<and> st \<in> set (rmatch b (t, c)))"
  unfolding in_Seq in_Lit by blast

lemma seq_Cls [then_matches]: "st \<in> set (rmatch (Seq (Cls P) b) (s, c)) \<longleftrightarrow> (\<exists>x t. P x \<and> s = x # t \<and> st \<in> set (rmatch b (t, c)))"
  unfolding in_Seq in_Cls by blast

lemma seq_star [then_matches]:
  "st \<in> set (rmatch (Seq (Star g (Cls P)) b) (s, c)) \<longleftrightarrow> (\<exists>u t. list_all P u \<and> s = u @ t \<and> st \<in> set (rmatch b (t, c)))"
  unfolding in_Seq in_star_class by blast

lemma in_plus_class [then_matches]:
  "(t, c') \<in> set (rmatch (Plus g (Cls P)) (s, c)) \<longleftrightarrow> c' = c \<and> (\<exists>u. u \<noteq> [] \<and> list_all P u \<and> s = u @ t)"
  unfolding in_Seq in_Cls in_star_class by (auto simp: neq_Nil_conv)

lemma seq_plus [then_matches]:
  "st \<in> set (rmatch (Seq (Plus g (Cls P)) b) (s, c)) \<longleftrightarrow> (\<exists>u t. u \<noteq> [] \<and> list_all P u \<and> s = u @ t \<and> st \<in> set (rmatch b (t, c)))"
  unfolding in_Seq [of st] in_plus_class by blast

lemma seq_Grp_plus [then_matches]:
  "st \<in> set (rmatch (Seq (Grp n (Plus g (Cls P))) b) (s, c)) \<longleftrightarrow>
     (\<exists>u t. u \<noteq> [] \<and> list_all P u \<and> s = u @ t \<and> st \<in> set (rmatch b (t, AList.update n u c)))"
  unfolding in_Seq [of st] in_Grp in_plus_class by auto

text \<open>Searching: a match that is found starts somewhere, and when none is found nothing matches anywhere.\<close>

lemma re_match_in: "re_match r s = Some st \<Longrightarrow> st \<in> set (rmatch r (s, []))"
  by (auto simp: re_match_def split: list.splits)

lemma re_match_None: "re_match r s = None \<longleftrightarrow> rmatch r (s, []) = []"
  by (auto simp: re_match_def split: list.splits)

lemma re_search_in: "re_search r s = Some st \<Longrightarrow> \<exists>p q. s = p @ q \<and> st \<in> set (rmatch r (q, []))"
proof (induction r s rule: re_search.induct)
  case (1 r)
  then show ?case by (auto dest: re_match_in)
next
  case (2 r c s)
  show ?case
  proof (cases "re_match r (c # s)")
    case None
    with 2 obtain p q where "s = p @ q" "st \<in> set (rmatch r (q, []))" by auto
    then show ?thesis by (intro exI [of _ "c # p"] exI [of _ q]) simp
  next
    case (Some st')
    with 2 have "st \<in> set (rmatch r (c # s, []))" by (auto dest: re_match_in)
    then show ?thesis by (intro exI [of _ "[]"] exI [of _ "c # s"]) simp
  qed
qed

lemma re_search_None: "re_search r s = None \<longleftrightarrow> (\<forall>p q. s = p @ q \<longrightarrow> rmatch r (q, []) = [])"
proof (induction r s rule: re_search.induct)
  case (1 r)
  then show ?case by (simp add: re_match_None)
next
  case (2 r c s)
  show ?case
  proof (cases "re_match r (c # s)")
    case None
    then have "rmatch r (c # s, []) = []" by (simp add: re_match_None)
    moreover have "re_search r s = None \<longleftrightarrow> (\<forall>p q. s = p @ q \<longrightarrow> rmatch r (q, []) = [])" using "2.IH" [OF None] .
    ultimately show ?thesis using None by (simp add: Cons_eq_append_conv) blast
  next
    case (Some st)
    then have "rmatch r (c # s, []) \<noteq> []" using re_match_None [of r "c # s"] by simp
    then show ?thesis using Some by (metis append_Nil option.distinct(1) option.simps(5) re_search.simps(2))
  qed
qed

lemma re_search_complete: "st \<in> set (rmatch r (q, [])) \<Longrightarrow> re_search r (p @ q) \<noteq> None"
  using re_search_None [of r "p @ q"] by (metis empty_iff empty_set)

lemma re_search_iff: "re_search r s \<noteq> None \<longleftrightarrow> (\<exists>p q st. s = p @ q \<and> st \<in> set (rmatch r (q, [])))"
  using re_search_in re_search_complete by blast

lemma search_from_iff:
  "search_from A r p s \<noteq> None \<longleftrightarrow> (\<exists>pre q. s = pre @ q \<and> A (if pre = [] then p else Some (last pre)) \<and> rmatch r (q, []) \<noteq> [])"
proof (induction A r p s rule: search_from.induct)
  case (1 A r p)
  show ?case using re_match_None [of r "[]"] by (cases "re_match r []") auto
next
  case (2 A r p c s)
  show ?case
  proof (cases "if A p then re_match r (c # s) else None")
    case (Some st)
    then have "A p" "rmatch r (c # s, []) \<noteq> []" using re_match_None [of r "c # s"] by (auto split: if_splits)
    then show ?thesis using Some by (auto intro!: exI [of _ "[]"] split: if_splits)
  next
    case None
    then have n: "\<not> (A p \<and> rmatch r (c # s, []) \<noteq> [])" by (auto simp: re_match_None split: if_splits)
    have "search_from A r p (c # s) \<noteq> None \<longleftrightarrow> (\<exists>pre q. s = pre @ q \<and> A (if pre = [] then Some c else Some (last pre)) \<and> rmatch r (q, []) \<noteq> [])"
      using None 2 by simp
    also have "\<dots> \<longleftrightarrow> (\<exists>pre q. c # s = pre @ q \<and> A (if pre = [] then p else Some (last pre)) \<and> rmatch r (q, []) \<noteq> [])"
    proof
      assume "\<exists>pre q. s = pre @ q \<and> A (if pre = [] then Some c else Some (last pre)) \<and> rmatch r (q, []) \<noteq> []"
      then obtain pre q where "s = pre @ q" "A (if pre = [] then Some c else Some (last pre))" "rmatch r (q, []) \<noteq> []" by blast
      then show "\<exists>pre q. c # s = pre @ q \<and> A (if pre = [] then p else Some (last pre)) \<and> rmatch r (q, []) \<noteq> []"
        by (intro exI [of _ "c # pre"] exI [of _ q]) (auto split: if_splits)
    next
      assume "\<exists>pre q. c # s = pre @ q \<and> A (if pre = [] then p else Some (last pre)) \<and> rmatch r (q, []) \<noteq> []"
      then obtain pre q where h: "c # s = pre @ q" "A (if pre = [] then p else Some (last pre))" "rmatch r (q, []) \<noteq> []" by blast
      then obtain pre' where "pre = c # pre'" using n by (cases pre) auto
      then show "\<exists>pre q. s = pre @ q \<and> A (if pre = [] then Some c else Some (last pre)) \<and> rmatch r (q, []) \<noteq> []"
        using h by (intro exI [of _ pre'] exI [of _ q]) (auto split: if_splits)
    qed
    finally show ?thesis .
  qed
qed

lemma find_from_in:
  "(a, st) \<in> set (find_from A r p s) \<Longrightarrow> \<exists>pre. s = pre @ a \<and> st \<in> set (rmatch r (a, []))"
proof (induction A r p s rule: find_from.induct)
  case (1 A r p s)
  show ?case
  proof (cases s)
    case Nil
    then show ?thesis using "1.prems" by (simp add: find_from.simps)
  next
    case (Cons c t)
    show ?thesis
    proof (cases "if A p then re_match r s else None")
      case None
      then have "(a, st) \<in> set (find_from A r (Some c) t)" using "1.prems" Cons by (simp add: find_from.simps [of A r p "c # t"] split: if_splits)
      then obtain pre where "t = pre @ a" "st \<in> set (rmatch r (a, []))" using "1.IH"(1) [OF Cons] None Cons by blast
      then show ?thesis using Cons by (intro exI [of _ "c # pre"]) simp
    next
      case (Some ucs)
      obtain u cs where ucs: "ucs = (u, cs)" by (cases ucs)
      show ?thesis
      proof (cases "length u < length s")
        case True
        have m: "(u, cs) \<in> set (rmatch r (s, []))" using Some ucs by (auto split: if_splits dest: re_match_in)
        then obtain v where v: "s = v @ u" using rmatch_suffix [OF m] by (auto simp: suffix_def)
        have "(a, st) = (s, u, cs) \<or> (a, st) \<in> set (find_from A r (Some (s ! (length s - Suc (length u)))) u)"
          using "1.prems" Cons Some ucs True by (auto simp: find_from.simps [of A r p "c # t"] split: if_splits)
        then show ?thesis
        proof
          assume "(a, st) = (s, u, cs)"
          then show ?thesis using m by auto
        next
          assume "(a, st) \<in> set (find_from A r (Some (s ! (length s - Suc (length u)))) u)"
          then obtain pre where "u = pre @ a" "st \<in> set (rmatch r (a, []))" using "1.IH"(2) [OF Cons Some ucs [symmetric] True] by blast
          then show ?thesis using v by (intro exI [of _ "v @ pre"]) simp
        qed
      next
        case False
        then have "(a, st) \<in> set (find_from A r (Some c) t)" using "1.prems" Cons Some ucs False by (auto simp: find_from.simps [of A r p "c # t"] split: if_splits)
        then obtain pre where "t = pre @ a" "st \<in> set (rmatch r (a, []))" using "1.IH"(3) [OF Cons Some ucs [symmetric] False] by blast
        then show ?thesis using Cons by (intro exI [of _ "c # pre"]) simp
      qed
    qed
  qed
qed

section \<open>Shell globs\<close>

datatype gtok = GLit char | GAny | GSeq | GSet bool "(char \<times> char) list"

text \<open>The body of a bracket expression: ranges \<open>a-b\<close> and single characters.\<close>

fun gset :: "string \<Rightarrow> (char \<times> char) list" where
  "gset [] = []"
| "gset [a] = [(a, a)]"
| "gset [a, b] = [(a, a), (b, b)]"
| "gset (a # b # c # s) = (if b = CHR ''-'' then (a, c) # gset s else (a, a) # gset (b # c # s))"

text \<open>Where a bracket expression ends: a leading \<open>!\<close> and a \<open>]\<close> right after the opening
  belong to it.\<close>

definition gbracket :: "string \<Rightarrow> (gtok \<times> string) option" where
  "gbracket s =
     (let (neg, s1) = (case s of c # t \<Rightarrow> if c = CHR ''!'' then (True, t) else (False, s) | [] \<Rightarrow> (False, s));
          (pre, s2) = (case s1 of c # t \<Rightarrow> if c = CHR '']'' then ([c], t) else ([], s1) | [] \<Rightarrow> ([], s1));
          body = takeWhile (\<lambda>c. c \<noteq> CHR '']'') s2;
          rest = dropWhile (\<lambda>c. c \<noteq> CHR '']'') s2
      in case rest of [] \<Rightarrow> None | _ # r \<Rightarrow> Some (GSet neg (gset (pre @ body)), r))"

lemma dropWhile_Cons_length: "dropWhile P x = c # r \<Longrightarrow> length r < length x"
  using length_dropWhile_le [of P x] by simp

lemma gbracket_length: "gbracket s = Some (t, r) \<Longrightarrow> length r < length s"
  unfolding gbracket_def
  by (auto simp: Let_def split: list.splits if_splits prod.splits dest!: dropWhile_Cons_length)

function glob_tokens :: "string \<Rightarrow> gtok list" where
  "glob_tokens [] = []"
| "glob_tokens (c # s) =
     (if c = CHR ''*'' then GSeq # glob_tokens s
      else if c = CHR ''?'' then GAny # glob_tokens s
      else if c = CHR ''['' then
        (case gbracket s of None \<Rightarrow> GLit c # glob_tokens s | Some (t, r) \<Rightarrow> t # glob_tokens r)
      else GLit c # glob_tokens s)"
  by pat_completeness auto
termination
  by (relation "measure length") (auto dest!: gbracket_length)

fun glob_match :: "gtok list \<Rightarrow> string \<Rightarrow> bool" where
  "glob_match [] s = (s = [])"
| "glob_match (GSeq # ts) [] = glob_match ts []"
| "glob_match (GSeq # ts) (c # s) = (glob_match ts (c # s) \<or> glob_match (GSeq # ts) s)"
| "glob_match (GAny # ts) s = (case s of [] \<Rightarrow> False | c # r \<Rightarrow> glob_match ts r)"
| "glob_match (GLit a # ts) s = (case s of [] \<Rightarrow> False | c # r \<Rightarrow> c = a \<and> glob_match ts r)"
| "glob_match (GSet neg rs # ts) s = (case s of [] \<Rightarrow> False
     | c # r \<Rightarrow> (list_ex (\<lambda>(a, b). between a b c) rs \<noteq> neg) \<and> glob_match ts r)"

definition fnmatch :: "string \<Rightarrow> string \<Rightarrow> bool" where
  "fnmatch name pat = glob_match (glob_tokens pat) name"

text \<open>A pattern without metacharacters matches itself only.\<close>

definition glob_free :: "string \<Rightarrow> bool" where
  "glob_free s = (\<forall>c \<in> set s. c \<notin> set ''*?['')"

lemma glob_tokens_free_append:
  "glob_free p \<Longrightarrow> glob_tokens (p @ q) = map GLit p @ glob_tokens q"
  by (induction p) (auto simp: glob_free_def)

lemma glob_match_lits:
  "glob_match (map GLit p @ ts) s \<longleftrightarrow> (\<exists>r. s = p @ r \<and> glob_match ts r)"
proof (induction p arbitrary: s)
  case Nil
  then show ?case by simp
next
  case (Cons a p)
  then show ?case by (cases s) auto
qed

lemma glob_match_seq_all: "glob_match [GSeq] s"
  by (induction s) auto

lemma fnmatch_free: "glob_free p \<Longrightarrow> fnmatch s p \<longleftrightarrow> s = p"
  using glob_tokens_free_append [of p "[]"] glob_match_lits [of p "[]" s]
  by (simp add: fnmatch_def)

lemma fnmatch_free_star: "glob_free p \<Longrightarrow> fnmatch s (p @ ''*'') \<longleftrightarrow> startswith s p"
  by (auto simp: fnmatch_def glob_tokens_free_append glob_match_lits glob_match_seq_all prefix_def)

lemma fnmatch_prefix_digit:
  assumes "glob_free p"
  shows "fnmatch s (p @ ''[0-9]*'') \<longleftrightarrow> (\<exists>d r. s = p @ d # r \<and> is_digit d)"
proof -
  have t: "glob_tokens ''[0-9]*'' = [GSet False [(CHR ''0'', CHR ''9'')], GSeq]"
    by (simp add: gbracket_def)
  have "glob_match [GSet False [(CHR ''0'', CHR ''9'')], GSeq] r \<longleftrightarrow> (\<exists>d u. r = d # u \<and> is_digit d)" for r
    by (cases r) (auto simp: glob_match_seq_all between_def is_digit_def Let_def)
  then show ?thesis
    unfolding fnmatch_def glob_tokens_free_append [OF assms] glob_match_lits t by auto
qed

end
