(* ===== verification/Titles.thy ===== *)
theory Titles
  imports Runtime Patterns
begin

text \<open>
  \<open>scripts/validate_pr_title.py\<close>: parsing a conventional-commit title and deriving the
  semantic-version bump from it, with the type tables of \<open>scripts/constants.py\<close>. The
  pattern is written as the source writes it and matched by the backtracking matcher;
  \<open>re_match_cc\<close> gives its closed form, from which the exact set of accepted titles follows.
\<close>

section \<open>Constants\<close>

definition SCOPE_MODULE :: string where "SCOPE_MODULE = ''module''"
definition SCOPE_TERRAGRUNT :: string where "SCOPE_TERRAGRUNT = ''terragrunt''"
definition SCOPE_CONFIG :: string where "SCOPE_CONFIG = ''config''"
definition SCOPE_MULTI_MODULE :: string where "SCOPE_MULTI_MODULE = ''multi-module''"
definition SCOPE_MIXED :: string where "SCOPE_MIXED = ''mixed''"
definition SCOPE_ALL :: string where "SCOPE_ALL = ''all''"

definition MINOR_TYPES :: "string list" where
  "MINOR_TYPES = [''feat'', ''perf'', ''build'', ''ci'', ''revert'', ''release'', ''meta'', ''module'']"

definition PATCH_TYPES :: "string list" where
  "PATCH_TYPES = [''fix'', ''chore'', ''docs'', ''style'', ''refactor'', ''test'']"

definition VALID_COMMIT_TYPES :: "string list" where
  "VALID_COMMIT_TYPES = MINOR_TYPES @ PATCH_TYPES"

lemmas scope_defs = SCOPE_MODULE_def SCOPE_TERRAGRUNT_def SCOPE_CONFIG_def SCOPE_MULTI_MODULE_def
  SCOPE_MIXED_def SCOPE_ALL_def

section \<open>Parsing\<close>

datatype bump_type = MAJOR | MINOR | PATCH

fun bump_value :: "bump_type \<Rightarrow> string" where
  "bump_value MAJOR = ''major''"
| "bump_value MINOR = ''minor''"
| "bump_value PATCH = ''patch''"

record parsed_title =
  commit_type :: string
  scope :: "string option"
  breaking :: bool
  description :: string
  bump :: bump_type

definition lower_alpha :: "char \<Rightarrow> bool" where
  "lower_alpha = between (CHR ''a'') (CHR ''z'')"

definition cc_description :: rx where
  "cc_description = Seq (Grp ''description'' (Plus True (Cls dot))) EndD"

definition cc_colon :: rx where
  "cc_colon = Seq (Ch (CHR '':'')) (Seq (Plus True (Cls is_ws)) cc_description)"

definition cc_breaking :: rx where
  "cc_breaking = Seq (Opt (Grp ''breaking'' (Ch (CHR ''!'')))) cc_colon"

definition cc_scope :: rx where
  "cc_scope = Opt (Seq (Ch (CHR ''('')) (Seq (Grp ''scope'' (Plus True (Cls (\<lambda>c. c \<noteq> CHR '')''))))
     (Ch (CHR '')''))))"

text \<open>\<open>^(?P<type>[a-z]+)(?:\((?P<scope>[^)]+)\))?(?P<breaking>!)?:\s+(?P<description>.+)$\<close>.\<close>

definition CC_PATTERN :: rx where
  "CC_PATTERN = Seq (Grp ''type'' (Plus True (Cls lower_alpha))) (Seq cc_scope cc_breaking)"

definition derive_bump :: "string \<Rightarrow> bool \<Rightarrow> bump_type" where
  "derive_bump ct br = (if br then MAJOR else if ct \<in> set MINOR_TYPES then MINOR else PATCH)"

definition parse_pr_title :: "string \<Rightarrow> exn + parsed_title" where
  "parse_pr_title title =
     (if title = [] \<or> strip title = [] then Inl ValueError
      else (case re_match CC_PATTERN (strip title) of
          None \<Rightarrow> Inl ValueError
        | Some (_, cs) \<Rightarrow>
            (let ct = the_default [] (cap_of ''type'' cs);
                 br = (cap_of ''breaking'' cs = Some ''!'')
             in if ct \<notin> set VALID_COMMIT_TYPES then Inl ValueError
                else Inr \<lparr>commit_type = ct, scope = cap_of ''scope'' cs, breaking = br,
                          description = the_default [] (cap_of ''description'' cs),
                          bump = derive_bump ct br\<rparr>)))"

text \<open>The command line: the fields are printed one per line, an invalid title exits 1.\<close>

definition validate_pr_title_main :: "string \<Rightarrow> ('w, unit) ci" where
  "validate_pr_title_main title = (case parse_pr_title title of
      Inl e \<Rightarrow> if is_value_error e then die else raise e
    | Inr r \<Rightarrow>
        thenC (put_line (''bump='' @ bump_value (bump r)))
       (thenC (put_line (''type='' @ commit_type r))
       (thenC (case scope r of Some (c # s) \<Rightarrow> put_line (''scope='' @ c # s) | _ \<Rightarrow> ret ())
       (thenC (put_line (''breaking='' @ (if breaking r then ''true'' else ''false'')))
              (put_line (''description='' @ description r))))))"

section \<open>What the pattern accepts\<close>

definition first :: "'a list \<Rightarrow> 'a option" where
  "first xs = (case xs of [] \<Rightarrow> None | x # _ \<Rightarrow> Some x)"

lemma first_simps [simp]: "first [] = None" "first (x # xs) = Some x"
  by (simp_all add: first_def)

lemma first_append: "first (xs @ ys) = (case first xs of None \<Rightarrow> first ys | Some x \<Rightarrow> Some x)"
  by (cases xs) auto

lemma first_None [simp]: "first xs = None \<longleftrightarrow> xs = []"
  by (cases xs) auto

lemma first_plus_class:
  assumes "\<And>i. k (dropWhile P s, c) = [] \<Longrightarrow> i \<le> length (takeWhile P s) \<Longrightarrow> k (drop i s, c) = []"
  shows "first (concat (map k (rmatch (Plus True (Cls P)) (s, c)))) =
     (if s \<noteq> [] \<and> P (hd s) then first (k (dropWhile P s, c)) else None)"
proof -
  let ?n = "length (takeWhile P s)"
  have ne: "1 \<le> ?n \<longleftrightarrow> s \<noteq> [] \<and> P (hd s)" by (cases s) auto
  have e: "concat (map k (rmatch (Plus True (Cls P)) (s, c))) =
      concat (map (\<lambda>i. k (drop i s, c)) (rev [1..<Suc ?n]))"
    unfolding rmatch_plus_class map_map comp_def ..
  show ?thesis
  proof (cases "1 \<le> ?n")
    case True
    then have "concat (map (\<lambda>i. k (drop i s, c)) (rev [1..<Suc ?n])) =
        k (dropWhile P s, c) @ concat (map (\<lambda>i. k (drop i s, c)) (rev [1..<?n]))"
      by (simp add: drop_takeWhile_length)
    moreover have "concat (map (\<lambda>i. k (drop i s, c)) (rev [1..<?n])) = []" if "k (dropWhile P s, c) = []"
      using assms that by auto
    ultimately show ?thesis
      unfolding e using True ne by (cases "k (dropWhile P s, c)") auto
  next
    case False
    then have "[1..<Suc ?n] = []" by simp
    then show ?thesis unfolding e using ne False by (auto simp del: upt_Suc)
  qed
qed

text \<open>A stripped text that is not empty ends in a character that is no white space.\<close>

definition tidy_end :: "string \<Rightarrow> bool" where
  "tidy_end s = (s = [] \<or> \<not> is_ws (last s))"

lemma is_ws_newline [simp]: "is_ws (CHR 0x0A)"
  by (simp add: is_ws_def)

lemma tidy_end_drop: "tidy_end s \<Longrightarrow> tidy_end (drop i s)"
  by (cases "i < length s") (auto simp: tidy_end_def last_drop)

lemma tidy_end_dropWhile: "tidy_end s \<Longrightarrow> tidy_end (dropWhile P s)"
  by (simp add: dropWhile_eq_drop tidy_end_drop)

lemma tidy_end_Cons: "tidy_end (x # s) \<Longrightarrow> tidy_end s"
  by (auto simp: tidy_end_def split: if_splits)

lemma dropWhile_dot_newline: "CHR 0x0A \<in> set s \<Longrightarrow> \<exists>t. dropWhile dot s = CHR 0x0A # t"
  by (induction s) (auto simp: dot_def)

lemma dot_all: "CHR 0x0A \<notin> set s \<Longrightarrow> takeWhile dot s = s \<and> dropWhile dot s = []"
  by (induction s) (auto simp: dot_def)

lemma rmatch_description:
  assumes "tidy_end s"
  shows "rmatch cc_description (s, c) =
     (if s \<noteq> [] \<and> CHR 0x0A \<notin> set s then [([], AList.update ''description'' s c)] else [])"
proof -
  have k: "rmatch EndD (x # t, cs) = []" if "dot x" for x t cs
    using that by (auto simp: dot_def)
  have e: "rmatch cc_description (s, c) = (if s \<noteq> [] \<and> dot (hd s)
      then rmatch EndD (dropWhile dot s, AList.update ''description'' (takeWhile dot s) c) else [])"
    unfolding cc_description_def rmatch.simps(2) [of "Grp _ _"]
    by (rule grp_plus_class_then) (rule k)
  show ?thesis
  proof (cases "CHR 0x0A \<in> set s")
    case True
    then obtain t where t: "dropWhile dot s = CHR 0x0A # t" using dropWhile_dot_newline by blast
    have "tidy_end (CHR 0x0A # t)" using tidy_end_dropWhile [OF assms, of dot] t by simp
    then have "t \<noteq> []" by (auto simp: tidy_end_def)
    with e t True show ?thesis by simp
  next
    case False
    then have "s \<noteq> [] \<Longrightarrow> dot (hd s)" by (cases s) (auto simp: dot_def)
    with e False dot_all [OF False] show ?thesis by (simp del: takeWhile_eq_all_conv)
  qed
qed

lemma newline_drop:
  assumes "CHR 0x0A \<in> set (dropWhile P s)" "i \<le> length (takeWhile P s)"
  shows "CHR 0x0A \<in> set (drop i s)"
proof -
  have "dropWhile P s = drop (length (takeWhile P s) - i) (drop i s)"
    using assms(2) by (simp add: dropWhile_eq_drop)
  with assms(1) show ?thesis by (metis in_set_dropD)
qed

text \<open>The closed form of the pattern on a stripped title, one function per suffix of it.\<close>

definition colon_cf :: "string \<Rightarrow> caps \<Rightarrow> caps option" where
  "colon_cf s c = (case s of [] \<Rightarrow> None
    | x # t \<Rightarrow> if x = CHR '':'' \<and> t \<noteq> [] \<and> is_ws (hd t) \<and> CHR 0x0A \<notin> set (dropWhile is_ws t)
        then Some (AList.update ''description'' (dropWhile is_ws t) c) else None)"

definition breaking_cf :: "string \<Rightarrow> caps \<Rightarrow> caps option" where
  "breaking_cf s c = (case s of [] \<Rightarrow> None
    | x # t \<Rightarrow> if x = CHR ''!'' then colon_cf t (AList.update ''breaking'' ''!'' c) else colon_cf s c)"

definition scope_cf :: "string \<Rightarrow> caps \<Rightarrow> caps option" where
  "scope_cf s c = (case s of [] \<Rightarrow> None
    | x # t \<Rightarrow> if x = CHR ''('' then
        (if t \<noteq> [] \<and> hd t \<noteq> CHR '')'' then
           (case dropWhile (\<lambda>c. c \<noteq> CHR '')'') t of [] \<Rightarrow> None
            | _ # u \<Rightarrow> breaking_cf u (AList.update ''scope'' (takeWhile (\<lambda>c. c \<noteq> CHR '')'') t) c))
         else None)
      else breaking_cf s c)"

definition type_cf :: "string \<Rightarrow> caps option" where
  "type_cf s = (if s \<noteq> [] \<and> lower_alpha (hd s)
     then scope_cf (dropWhile lower_alpha s) [(''type'', takeWhile lower_alpha s)] else None)"

lemma first_colon:
  assumes "tidy_end s"
  shows "map_option snd (first (rmatch cc_colon (s, c))) = colon_cf s c"
proof (cases "\<exists>t. s = CHR '':'' # t")
  case False
  then show ?thesis by (cases s) (auto simp: cc_colon_def colon_cf_def)
next
  case True
  then obtain t where s: "s = CHR '':'' # t" by blast
  have tt: "tidy_end t" using assms s tidy_end_Cons by blast
  have d: "rmatch cc_description (drop i t, c) = (if drop i t \<noteq> [] \<and> CHR 0x0A \<notin> set (drop i t)
      then [([], AList.update ''description'' (drop i t) c)] else [])" for i
    by (rule rmatch_description) (rule tidy_end_drop [OF tt])
  have dw: "dropWhile is_ws t \<noteq> []" if "t \<noteq> []"
    using tt that last_in_set [OF that] by (auto simp: tidy_end_def dropWhile_eq_Nil_conv)
  have dd: "rmatch cc_description (dropWhile is_ws t, c) =
      (if t \<noteq> [] \<and> CHR 0x0A \<notin> set (dropWhile is_ws t)
       then [([], AList.update ''description'' (dropWhile is_ws t) c)] else [])"
    using d [of "length (takeWhile is_ws t)"] dw by (cases "t = []") (auto simp: drop_takeWhile_length)
  have "first (concat (map (rmatch cc_description) (rmatch (Plus True (Cls is_ws)) (t, c)))) =
      (if t \<noteq> [] \<and> is_ws (hd t) then first (rmatch cc_description (dropWhile is_ws t, c)) else None)"
  proof (rule first_plus_class)
    fix i
    assume "rmatch cc_description (dropWhile is_ws t, c) = []" "i \<le> length (takeWhile is_ws t)"
    with dd have "t = [] \<or> CHR 0x0A \<in> set (drop i t)"
      using newline_drop by (auto split: if_splits)
    with d [of i] show "rmatch cc_description (drop i t, c) = []" by auto
  qed
  then show ?thesis
    using dd by (simp add: cc_colon_def colon_cf_def s)
qed

lemma colon_not_bang: "rmatch cc_colon (CHR ''!'' # t, c) = []"
  by (simp add: cc_colon_def)

lemma first_breaking:
  assumes "tidy_end s"
  shows "map_option snd (first (rmatch cc_breaking (s, c))) = breaking_cf s c"
proof (cases "\<exists>t. s = CHR ''!'' # t")
  case True
  then obtain t where s: "s = CHR ''!'' # t" by blast
  then have "tidy_end t" using assms tidy_end_Cons by blast
  from first_colon [OF this, of "AList.update ''breaking'' ''!'' c"] s show ?thesis
    by (simp add: cc_breaking_def breaking_cf_def colon_not_bang)
next
  case False
  then show ?thesis
    using first_colon [OF assms, of c]
    by (cases s) (auto simp: cc_breaking_def breaking_cf_def colon_cf_def)
qed

lemma breaking_hd: "x \<noteq> CHR ''!'' \<Longrightarrow> x \<noteq> CHR '':'' \<Longrightarrow> rmatch cc_breaking (x # t, c) = []"
  by (simp add: cc_breaking_def cc_colon_def)

lemma concat_map_concat:
  "concat (map f (concat (map g xs))) = concat (map (\<lambda>x. concat (map f (g x))) xs)"
  by (induction xs) auto

lemma first_scope:
  assumes "tidy_end s"
  shows "map_option snd (first (rmatch (Seq cc_scope cc_breaking) (s, c))) = scope_cf s c"
proof (cases "\<exists>t. s = CHR ''('' # t")
  case False
  then show ?thesis
    using first_breaking [OF assms, of c]
    by (cases s) (auto simp: cc_scope_def scope_cf_def breaking_cf_def)
next
  case True
  then obtain t where s: "s = CHR ''('' # t" by blast
  let ?P = "\<lambda>c. c \<noteq> CHR '')''"
  have k: "concat (map (rmatch cc_breaking) (rmatch (Ch (CHR '')'')) (x # u, cs))) = []"
    if "x \<noteq> CHR '')''" for x u cs using that by simp
  have e: "rmatch (Seq cc_scope cc_breaking) (s, c) =
      concat (map (\<lambda>st. concat (map (rmatch cc_breaking) (rmatch (Ch (CHR '')'')) st)))
        (rmatch (Grp ''scope'' (Plus True (Cls ?P))) (t, c)))"
    unfolding cc_scope_def rmatch.simps(2) [of "Opt _"] rmatch.simps(3)
    using breaking_hd [of "CHR ''(''" t c]
    by (simp add: s concat_map_concat del: rmatch.simps(6))
  also have "\<dots> = (if t \<noteq> [] \<and> hd t \<noteq> CHR '')'' then
      concat (map (rmatch cc_breaking) (rmatch (Ch (CHR '')''))
        (dropWhile ?P t, AList.update ''scope'' (takeWhile ?P t) c))) else [])"
    by (rule grp_plus_class_then) (rule k)
  finally have e: "rmatch (Seq cc_scope cc_breaking) (s, c) = \<dots>" .
  show ?thesis
  proof (cases "dropWhile ?P t")
    case Nil
    with e s show ?thesis by (simp add: scope_cf_def del: dropWhile_eq_Nil_conv)
  next
    case (Cons y u)
    have "tidy_end (y # u)" using assms s Cons tidy_end_Cons tidy_end_dropWhile by metis
    then have "tidy_end u" by (rule tidy_end_Cons)
    moreover have "y = CHR '')''" using Cons hd_dropWhile [of ?P t] by force
    ultimately show ?thesis
      using e s Cons first_breaking [of u "AList.update ''scope'' (takeWhile ?P t) c"]
      by (simp add: scope_cf_def)
  qed
qed

lemma lower_alpha_neq: "lower_alpha x \<Longrightarrow> x \<noteq> CHR ''('' \<and> x \<noteq> CHR ''!'' \<and> x \<noteq> CHR '':''"
  by (auto simp: lower_alpha_def between_def)

lemma re_match_cc:
  assumes "tidy_end s"
  shows "map_option snd (re_match CC_PATTERN s) = type_cf s"
proof -
  have k: "rmatch (Seq cc_scope cc_breaking) (x # t, cs) = []" if "lower_alpha x" for x t cs
    using lower_alpha_neq [OF that] by (simp add: cc_scope_def breaking_hd)
  have e: "rmatch CC_PATTERN (s, []) = (if s \<noteq> [] \<and> lower_alpha (hd s)
      then rmatch (Seq cc_scope cc_breaking)
        (dropWhile lower_alpha s, AList.update ''type'' (takeWhile lower_alpha s) []) else [])"
    unfolding CC_PATTERN_def rmatch.simps(2) [of "Grp _ _"]
    by (rule grp_plus_class_then) (rule k)
  have "re_match CC_PATTERN s = first (rmatch CC_PATTERN (s, []))"
    by (simp add: re_match_def first_def)
  then show ?thesis
    using e first_scope [OF tidy_end_dropWhile [OF assms, of lower_alpha],
        of "[(''type'', takeWhile lower_alpha s)]"]
    by (simp add: type_cf_def)
qed

section \<open>Rendering and parsing\<close>

text \<open>The title a parsed value stands for, with \<open>ws\<close> between the colon and the description.\<close>

definition render_title :: "parsed_title \<Rightarrow> string \<Rightarrow> string" where
  "render_title p ws = commit_type p @ (case scope p of None \<Rightarrow> [] | Some sc \<Rightarrow> ''('' @ sc @ '')'')
     @ (if breaking p then ''!'' else []) @ '':'' @ ws @ description p"

text \<open>The values \<open>parse_pr_title\<close> produces.\<close>

definition title_wf :: "parsed_title \<Rightarrow> bool" where
  "title_wf p = (commit_type p \<in> set VALID_COMMIT_TYPES \<and>
     (case scope p of None \<Rightarrow> True | Some sc \<Rightarrow> sc \<noteq> [] \<and> CHR '')'' \<notin> set sc) \<and>
     description p \<noteq> [] \<and> \<not> is_ws (hd (description p)) \<and> \<not> is_ws (last (description p)) \<and>
     CHR 0x0A \<notin> set (description p) \<and>
     bump p = derive_bump (commit_type p) (breaking p))"

lemma valid_types_alpha: "ct \<in> set VALID_COMMIT_TYPES \<Longrightarrow> ct \<noteq> [] \<and> (\<forall>c \<in> set ct. lower_alpha c)"
  by (auto simp: VALID_COMMIT_TYPES_def MINOR_TYPES_def PATCH_TYPES_def lower_alpha_def between_def)

lemma takeWhile_run:
  assumes "\<forall>c \<in> set u. P c" "v = [] \<or> \<not> P (hd v)"
  shows "takeWhile P (u @ v) = u" "dropWhile P (u @ v) = v"
  using assms by (cases v; simp)+

lemma colon_cf_iff:
  "colon_cf s c = Some cs \<longleftrightarrow> (\<exists>ws d. s = CHR '':'' # ws @ d \<and> ws \<noteq> [] \<and> (\<forall>x \<in> set ws. is_ws x) \<and>
     (d = [] \<or> \<not> is_ws (hd d)) \<and> CHR 0x0A \<notin> set d \<and> cs = AList.update ''description'' d c)"
  (is "_ \<longleftrightarrow> (\<exists>ws d. ?Q ws d)")
proof
  assume "colon_cf s c = Some cs"
  then obtain t where t: "s = CHR '':'' # t" "t \<noteq> []" "is_ws (hd t)"
      "CHR 0x0A \<notin> set (dropWhile is_ws t)" "cs = AList.update ''description'' (dropWhile is_ws t) c"
    by (auto simp: colon_cf_def split: list.splits if_splits)
  have "?Q (takeWhile is_ws t) (dropWhile is_ws t)"
    using t hd_dropWhile [of is_ws t] by (cases t) (auto dest: set_takeWhileD)
  then show "\<exists>ws d. ?Q ws d" by blast
next
  assume "\<exists>ws d. ?Q ws d"
  then obtain ws d where q: "?Q ws d" by blast
  then have "takeWhile is_ws (ws @ d) = ws" "dropWhile is_ws (ws @ d) = d"
    using takeWhile_run [of ws is_ws d] by auto
  moreover have "is_ws (hd (ws @ d))" using q by (cases ws) auto
  ultimately show "colon_cf s c = Some cs" using q by (simp add: colon_cf_def)
qed

lemma breaking_cf_iff:
  "breaking_cf s c = Some cs \<longleftrightarrow>
     (\<exists>br t. s = (if br then ''!'' else []) @ t \<and>
        colon_cf t (if br then AList.update ''breaking'' ''!'' c else c) = Some cs)"
proof
  assume "breaking_cf s c = Some cs"
  then show "\<exists>br t. s = (if br then ''!'' else []) @ t \<and>
      colon_cf t (if br then AList.update ''breaking'' ''!'' c else c) = Some cs"
    by (auto simp: breaking_cf_def split: list.splits if_splits
        intro: exI [of _ True] exI [of _ False])
next
  assume "\<exists>br t. s = (if br then ''!'' else []) @ t \<and>
      colon_cf t (if br then AList.update ''breaking'' ''!'' c else c) = Some cs"
  then obtain br t where b: "s = (if br then ''!'' else []) @ t"
    "colon_cf t (if br then AList.update ''breaking'' ''!'' c else c) = Some cs" by blast
  then show "breaking_cf s c = Some cs"
    by (cases br; cases t) (auto simp: breaking_cf_def colon_cf_def split: if_splits)
qed

text \<open>The optional scope part of a title.\<close>

definition scope_str :: "string option \<Rightarrow> string" where
  "scope_str sc = (case sc of None \<Rightarrow> [] | Some x \<Rightarrow> ''('' @ x @ '')'')"

lemma scope_cf_iff:
  "scope_cf s c = Some cs \<longleftrightarrow>
     (\<exists>sc t. s = scope_str sc @ t \<and>
        (case sc of None \<Rightarrow> True | Some x \<Rightarrow> x \<noteq> [] \<and> CHR '')'' \<notin> set x) \<and>
        breaking_cf t (case sc of None \<Rightarrow> c | Some x \<Rightarrow> AList.update ''scope'' x c) = Some cs)"
  (is "_ \<longleftrightarrow> (\<exists>sc t. ?Q sc t)")
proof
  assume a: "scope_cf s c = Some cs"
  let ?P = "\<lambda>c. c \<noteq> CHR '')''"
  show "\<exists>sc t. ?Q sc t"
  proof (cases "\<exists>t. s = CHR ''('' # t")
    case False
    with a have "?Q None s" by (auto simp: scope_cf_def scope_str_def split: list.splits if_splits)
    then show ?thesis by blast
  next
    case True
    then obtain t where t: "s = CHR ''('' # t" by blast
    with a obtain y u where u: "t \<noteq> []" "hd t \<noteq> CHR '')''" "dropWhile ?P t = y # u"
      "breaking_cf u (AList.update ''scope'' (takeWhile ?P t) c) = Some cs"
      by (auto simp: scope_cf_def split: if_splits list.splits)
    have "y = CHR '')''" using u hd_dropWhile [of ?P t] by force
    then have "t = takeWhile ?P t @ CHR '')'' # u" using u takeWhile_dropWhile_id [of ?P t] by simp
    moreover have "CHR '')'' \<notin> set (takeWhile ?P t)" by (auto dest: set_takeWhileD)
    moreover have "takeWhile ?P t \<noteq> []" using u by (cases t) auto
    ultimately have "?Q (Some (takeWhile ?P t)) u" using t u by (simp add: scope_str_def)
    then show ?thesis by blast
  qed
next
  assume "\<exists>sc t. ?Q sc t"
  then obtain sc t where q: "?Q sc t" by blast
  show "scope_cf s c = Some cs"
  proof (cases sc)
    case None
    with q show ?thesis
      by (cases t) (auto simp: scope_cf_def scope_str_def breaking_cf_def colon_cf_def split: if_splits)
  next
    case (Some x)
    then have "takeWhile (\<lambda>c. c \<noteq> CHR '')'') (x @ CHR '')'' # t) = x"
      "dropWhile (\<lambda>c. c \<noteq> CHR '')'') (x @ CHR '')'' # t) = CHR '')'' # t"
      using takeWhile_run [of x "\<lambda>c. c \<noteq> CHR '')''" "CHR '')'' # t"] q by (metis (no_types, lifting) list.sel(1) option.simps(5))+
    with q Some show ?thesis
      by (cases x) (auto simp: scope_cf_def scope_str_def)
  qed
qed

lemma breaking_cf_hd: "breaking_cf (x # t) c = Some cs \<Longrightarrow> x = CHR ''!'' \<or> x = CHR '':''"
  by (auto simp: breaking_cf_def colon_cf_def split: if_splits)

lemma scope_cf_hd: "scope_cf (x # t) c = Some cs \<Longrightarrow> \<not> lower_alpha x"
  using lower_alpha_neq breaking_cf_hd [of x t c cs]
  by (auto simp: scope_cf_def split: if_splits)

lemma type_cf_iff:
  "type_cf s = Some cs \<longleftrightarrow>
     (\<exists>ct t. s = ct @ t \<and> ct \<noteq> [] \<and> (\<forall>c \<in> set ct. lower_alpha c) \<and> scope_cf t [(''type'', ct)] = Some cs)"
  (is "_ \<longleftrightarrow> (\<exists>ct t. ?Q ct t)")
proof
  assume a: "type_cf s = Some cs"
  have "?Q (takeWhile lower_alpha s) (dropWhile lower_alpha s)"
    using a by (cases s) (auto simp: type_cf_def split: if_splits dest: set_takeWhileD)
  then show "\<exists>ct t. ?Q ct t" by blast
next
  assume "\<exists>ct t. ?Q ct t"
  then obtain ct t where q: "?Q ct t" by blast
  have "t = [] \<or> \<not> lower_alpha (hd t)" using q scope_cf_hd by (cases t) auto
  with q have "takeWhile lower_alpha (ct @ t) = ct" "dropWhile lower_alpha (ct @ t) = t"
    using takeWhile_run [of ct lower_alpha t] by auto
  moreover have "lower_alpha (hd (ct @ t))" using q by (cases ct) auto
  ultimately show "type_cf s = Some cs" using q by (simp add: type_cf_def)
qed

definition cc_caps :: "string \<Rightarrow> string option \<Rightarrow> bool \<Rightarrow> string \<Rightarrow> caps" where
  "cc_caps ct sc br d = [(''type'', ct)] @ (case sc of None \<Rightarrow> [] | Some x \<Rightarrow> [(''scope'', x)])
     @ (if br then [(''breaking'', ''!'')] else []) @ [(''description'', d)]"

lemma re_match_cc_iff:
  assumes "tidy_end s"
  shows "(\<exists>r. re_match CC_PATTERN s = Some (r, cs)) \<longleftrightarrow>
     (\<exists>ct sc br ws d. s = ct @ scope_str sc @ (if br then ''!'' else []) @ '':'' @ ws @ d \<and>
        ct \<noteq> [] \<and> (\<forall>c \<in> set ct. lower_alpha c) \<and>
        (case sc of None \<Rightarrow> True | Some x \<Rightarrow> x \<noteq> [] \<and> CHR '')'' \<notin> set x) \<and>
        ws \<noteq> [] \<and> (\<forall>x \<in> set ws. is_ws x) \<and> (d = [] \<or> \<not> is_ws (hd d)) \<and> CHR 0x0A \<notin> set d \<and>
        cs = cc_caps ct sc br d)"
proof -
  have u: "AList.update ''description'' d (if br then AList.update ''breaking'' ''!''
      (case sc of None \<Rightarrow> [(''type'', ct)] | Some x \<Rightarrow> AList.update ''scope'' x [(''type'', ct)])
      else (case sc of None \<Rightarrow> [(''type'', ct)] | Some x \<Rightarrow> AList.update ''scope'' x [(''type'', ct)]))
      = cc_caps ct sc br d" for d br sc ct
    by (cases sc; cases br) (simp_all add: cc_caps_def)
  have tc: "(\<exists>r. re_match CC_PATTERN s = Some (r, cs)) \<longleftrightarrow> type_cf s = Some cs"
    using re_match_cc [OF assms] by (cases "re_match CC_PATTERN s") auto
  show ?thesis (is "?L \<longleftrightarrow> (\<exists>ct sc br ws d. ?Q ct sc br ws d)")
  proof
    assume ?L
    then obtain ct t where "s = ct @ t" "ct \<noteq> []" "\<forall>c \<in> set ct. lower_alpha c"
      "scope_cf t [(''type'', ct)] = Some cs"
      unfolding tc type_cf_iff by blast
    moreover from this(4) obtain sc t' where "t = scope_str sc @ t'"
      "case sc of None \<Rightarrow> True | Some x \<Rightarrow> x \<noteq> [] \<and> CHR '')'' \<notin> set x"
      "breaking_cf t' (case sc of None \<Rightarrow> [(''type'', ct)] | Some x \<Rightarrow> AList.update ''scope'' x [(''type'', ct)]) = Some cs"
      unfolding scope_cf_iff by blast
    moreover from this(3) obtain br t'' ws d where "t' = (if br then ''!'' else []) @ t''"
      "t'' = CHR '':'' # ws @ d" "ws \<noteq> []" "\<forall>x \<in> set ws. is_ws x" "d = [] \<or> \<not> is_ws (hd d)"
      "CHR 0x0A \<notin> set d" "cs = cc_caps ct sc br d"
      unfolding breaking_cf_iff colon_cf_iff u by blast
    ultimately have "?Q ct sc br ws d" by simp
    then show "\<exists>ct sc br ws d. ?Q ct sc br ws d" by blast
  next
    assume "\<exists>ct sc br ws d. ?Q ct sc br ws d"
    then obtain ct sc br ws d where q: "?Q ct sc br ws d" by blast
    let ?c = "case sc of None \<Rightarrow> [(''type'', ct)] | Some x \<Rightarrow> AList.update ''scope'' x [(''type'', ct)]"
    have "breaking_cf ((if br then ''!'' else []) @ CHR '':'' # ws @ d) ?c = Some cs"
      unfolding breaking_cf_iff colon_cf_iff u using q by blast
    then have "scope_cf (scope_str sc @ (if br then ''!'' else []) @ CHR '':'' # ws @ d) [(''type'', ct)] = Some cs"
      unfolding scope_cf_iff using q by blast
    moreover have "s = ct @ scope_str sc @ (if br then ''!'' else []) @ CHR '':'' # ws @ d"
      using q by simp
    ultimately have "type_cf s = Some cs" unfolding type_cf_iff using q by blast
    then show ?L using tc by simp
  qed
qed

lemma strip_tidy: "tidy_end (strip s)"
  using strip_by_last [of is_ws s] by (auto simp: tidy_end_def)

lemma last_append_ne: "d \<noteq> [] \<Longrightarrow> last (a @ d) = last d"
  by simp

lemma cc_caps_lookup:
  "cap_of ''type'' (cc_caps ct sc br d) = Some ct"
  "cap_of ''scope'' (cc_caps ct sc br d) = sc"
  "cap_of ''breaking'' (cc_caps ct sc br d) = Some ''!'' \<longleftrightarrow> br"
  "cap_of ''description'' (cc_caps ct sc br d) = Some d"
  by (cases sc; cases br; simp add: cap_of_def cc_caps_def)+

lemma render_title_split:
  "render_title p ws = commit_type p @ scope_str (scope p) @ (if breaking p then ''!'' else []) @ '':'' @ ws @ description p"
  by (simp add: render_title_def scope_str_def)

lemma parse_pr_title_iff:
  "parse_pr_title title = Inr p \<longleftrightarrow>
     title_wf p \<and> (\<exists>ws. ws \<noteq> [] \<and> (\<forall>c \<in> set ws. is_ws c) \<and> strip title = render_title p ws)"
proof
  assume a: "parse_pr_title title = Inr p"
  then obtain r cs where m: "re_match CC_PATTERN (strip title) = Some (r, cs)"
    by (auto simp: parse_pr_title_def split: if_splits option.splits)
  then obtain ct sc br ws d where q:
    "strip title = ct @ scope_str sc @ (if br then ''!'' else []) @ '':'' @ ws @ d"
    "case sc of None \<Rightarrow> True | Some x \<Rightarrow> x \<noteq> [] \<and> CHR '')'' \<notin> set x"
    "ws \<noteq> []" "\<forall>x \<in> set ws. is_ws x" "d = [] \<or> \<not> is_ws (hd d)" "CHR 0x0A \<notin> set d"
    "cs = cc_caps ct sc br d"
    using re_match_cc_iff [OF strip_tidy, of title cs] by blast
  have d: "d \<noteq> []"
  proof
    assume "d = []"
    then have "last (strip title) = last ws" "strip title \<noteq> []" using q(1,3) by auto
    then show False using q(3,4) strip_by_last [of is_ws title] by auto
  qed
  then have "last (strip title) = last d" "strip title \<noteq> []" using q(1) by auto
  then have l: "\<not> is_ws (last d)" using strip_by_last [of is_ws title] by auto
  from a m q(7) have p: "ct \<in> set VALID_COMMIT_TYPES"
    "p = \<lparr>commit_type = ct, scope = sc, breaking = br, description = d, bump = derive_bump ct br\<rparr>"
    by (auto simp: parse_pr_title_def cc_caps_lookup split: if_splits)
  with q d l show "title_wf p \<and> (\<exists>ws. ws \<noteq> [] \<and> (\<forall>c \<in> set ws. is_ws c) \<and> strip title = render_title p ws)"
    by (auto simp: title_wf_def render_title_split)
next
  assume "title_wf p \<and> (\<exists>ws. ws \<noteq> [] \<and> (\<forall>c \<in> set ws. is_ws c) \<and> strip title = render_title p ws)"
  then obtain ws where p: "title_wf p" and ws: "ws \<noteq> []" "\<forall>c \<in> set ws. is_ws c"
    "strip title = render_title p ws" by blast
  have ct: "commit_type p \<in> set VALID_COMMIT_TYPES" using p by (simp add: title_wf_def)
  have "\<exists>r. re_match CC_PATTERN (strip title) =
      Some (r, cc_caps (commit_type p) (scope p) (breaking p) (description p))"
    unfolding re_match_cc_iff [OF strip_tidy]
    using p ws valid_types_alpha [OF ct] unfolding render_title_split title_wf_def by blast
  then obtain r where "re_match CC_PATTERN (strip title) =
      Some (r, cc_caps (commit_type p) (scope p) (breaking p) (description p))" by blast
  moreover have "strip title \<noteq> []" "title \<noteq> []"
    using ws valid_types_alpha [OF ct] by (auto simp: render_title_split)
  ultimately show "parse_pr_title title = Inr p"
    using p ct by (cases p) (simp add: parse_pr_title_def cc_caps_lookup title_wf_def)
qed

lemma parse_pr_title_error: "parse_pr_title title = Inl e \<Longrightarrow> e = ValueError"
  by (auto simp: parse_pr_title_def Let_def split: if_splits option.splits)

section \<open>Properties\<close>

text \<open>C18. The exact language of \<open>parse_pr_title\<close>: a title is accepted with result \<open>p\<close> if and
  only if \<open>p\<close> is well formed (a known type, a non-empty scope without a closing parenthesis if
  there is one, a one-line description) with the bump that its type and breaking mark give, and
  the stripped title is the rendering of \<open>p\<close>, with some white space after the colon.\<close>

theorem pr_title_accepted_iff:
  "parse_pr_title title = Inr p \<longleftrightarrow>
     title_wf p \<and> (\<exists>ws. ws \<noteq> [] \<and> (\<forall>c \<in> set ws. is_ws c) \<and> strip title = render_title p ws)"
  by (rule parse_pr_title_iff)

theorem pr_title_accepted_iff_witness:
  "parse_pr_title '' feat(kms-key)!: add rotation '' = Inr \<lparr>commit_type = ''feat'',
     scope = Some ''kms-key'', breaking = True, description = ''add rotation'', bump = MAJOR\<rparr>"
proof -
  have "title_wf \<lparr>commit_type = ''feat'', scope = Some ''kms-key'', breaking = True,
      description = ''add rotation'', bump = MAJOR\<rparr>"
    by code_simp
  moreover have "strip '' feat(kms-key)!: add rotation '' = render_title \<lparr>commit_type = ''feat'',
      scope = Some ''kms-key'', breaking = True, description = ''add rotation'', bump = MAJOR\<rparr> '' ''"
    by code_simp
  moreover have "\<forall>c \<in> set '' ''. is_ws c" by code_simp
  ultimately show ?thesis
    using pr_title_accepted_iff [of "'' feat(kms-key)!: add rotation ''" "\<lparr>commit_type = ''feat'',
      scope = Some ''kms-key'', breaking = True, description = ''add rotation'', bump = MAJOR\<rparr>"]
    by blast
qed

end
