(* ===== verification/Versions.thy ===== *)
theory Versions
  imports Titles "HOL-Library.Product_Lexorder"
begin

text \<open>
  \<open>scripts/calculate_version.py\<close> and its entry point \<open>scripts/ci_calculate_version.py\<close>: the
  next version of a module is derived from the tags that carry its prefix, and the bump from
  the pull-request title the GitHub API returns (D17). A version is a triple compared
  lexicographically, as the Python tuples are.
\<close>

section \<open>Deriving a version\<close>

type_synonym semver = "int \<times> int \<times> int"

record version_result =
  next_version :: string
  full_tag :: string
  tag_prefix :: string
  vbump :: bump_type
  is_initial :: bool

definition build_tag_prefix :: "string \<Rightarrow> string \<Rightarrow> string \<Rightarrow> exn + string" where
  "build_tag_prefix scp module_path config_tag_prefix =
     (if scp = SCOPE_MODULE then
        (if module_path = [] then Inl ValueError else Inr (module_path @ ''/v''))
      else if scp = SCOPE_CONFIG then
        (if config_tag_prefix = [] then Inl ValueError else Inr (config_tag_prefix @ ''/v''))
      else Inl ValueError)"

definition parse_semver :: "string \<Rightarrow> semver option" where
  "parse_semver s = (case split_on (CHR ''.'') s of
      [a, b, c] \<Rightarrow> (case (py_int a, py_int b, py_int c) of
          (Some x, Some y, Some z) \<Rightarrow> Some (x, y, z) | _ \<Rightarrow> None)
    | _ \<Rightarrow> None)"

definition show_semver :: "semver \<Rightarrow> string" where
  "show_semver v = (case v of (x, y, z) \<Rightarrow>
     show_int x @ ''.'' @ show_int y @ ''.'' @ show_int z)"

definition tag_versions :: "string list \<Rightarrow> string \<Rightarrow> semver list" where
  "tag_versions tags pre =
     List.map_filter (\<lambda>t. parse_semver (drop (length pre) t))
       (filter (\<lambda>t. fnmatch t (pre @ ''[0-9]*'')) tags)"

definition find_latest_version :: "string list \<Rightarrow> string \<Rightarrow> string option" where
  "find_latest_version tags pre = (case tag_versions tags pre of
      [] \<Rightarrow> None | v # vs \<Rightarrow> Some (show_semver (fold max vs v)))"

definition apply_bump :: "semver \<Rightarrow> bump_type \<Rightarrow> semver" where
  "apply_bump v b = (case v of (major, minor, patch) \<Rightarrow>
     (case b of MAJOR \<Rightarrow> (major + 1, 0, 0) | MINOR \<Rightarrow> (major, minor + 1, 0)
      | PATCH \<Rightarrow> (major, minor, patch + 1)))"

definition calculate_next_version :: "string list \<Rightarrow> string \<Rightarrow> bump_type \<Rightarrow> exn + version_result" where
  "calculate_next_version existing_tags pre b =
     (let latest = find_latest_version existing_tags pre in
      bindR (case latest of None \<Rightarrow> Inr (0, 0, 0)
             | Some l \<Rightarrow> (case parse_semver l of None \<Rightarrow> Inl ValueError | Some v \<Rightarrow> Inr v))
        (\<lambda>cur. let nv = show_semver (apply_bump cur b); ft = pre @ nv in
           if ft \<in> set existing_tags then Inl ValueError
           else Inr \<lparr>next_version = nv, full_tag = ft, tag_prefix = pre, vbump = b,
                     is_initial = (latest = None)\<rparr>))"

definition validate_bump_agreement :: "bump_type \<Rightarrow> bump_type \<Rightarrow> exn + unit" where
  "validate_bump_agreement api_bump squash_bump =
     (if api_bump \<noteq> squash_bump then Inl ValueError else Inr ())"

definition derive_bump_from_api_result :: "string option \<Rightarrow> exn + bump_type" where
  "derive_bump_from_api_result api_pr_title = (case api_pr_title of
      None \<Rightarrow> Inl ValueError
    | Some t \<Rightarrow> bindR (parse_pr_title t) (\<lambda>p. Inr (bump p)))"

section \<open>The CI entry point\<close>

definition pr_title_cmd :: "string \<Rightarrow> string \<Rightarrow> string list" where
  "pr_title_cmd repo sha =
     [''gh'', ''api'', ''repos/'' @ repo @ ''/commits/'' @ sha @ ''/pulls'', ''--jq'', ''.[0].title'']"

definition fetch_pr_title_from_api :: "'w runner \<Rightarrow> string \<Rightarrow> string \<Rightarrow> ('w, string option) ci" where
  "fetch_pr_title_from_api runner repo sha =
     bindC (run runner (pr_title_cmd repo sha)) (\<lambda>r.
       if returncode r \<noteq> 0 then raise RuntimeError
       else let title = strip (stdout r) in
         ret (if title = [] \<or> title = ''null'' then None else Some title))"

definition tag_lines :: "string \<Rightarrow> string list" where
  "tag_lines out = map strip (filter (\<lambda>l. strip l \<noteq> []) (splitlines out))"

definition fetch_git_tags :: "'w runner \<Rightarrow> ('w, string list) ci" where
  "fetch_git_tags runner =
     bindC (run runner [''git'', ''tag'', ''-l'']) (\<lambda>r.
       if returncode r \<noteq> 0 then raise RuntimeError else ret (tag_lines (stdout r)))"

text \<open>\<open>_require_env\<close>: absent, empty and blank variables all end the process.\<close>

definition require_env :: "string \<Rightarrow> ('w, string) ci" where
  "require_env n = bindC (getenv n) (\<lambda>v.
     let x = strip (the_default [] v) in if x = [] then die else ret x)"

definition load_config_tag_prefix :: "('w, string) ci" where
  "load_config_tag_prefix =
     bindC get_files (\<lambda>fs.
       if \<not> path_exists fs (path_of ''monorepo-config.json'') then die
       else bindC (try_except
                (bindC (read_text (path_of ''monorepo-config.json'')) (\<lambda>t. lift (json_loads t)))
                (\<lambda>e. e = JSONDecodeError) die)
         (\<lambda>config. bindC (lift (json_get config ''config_tag_prefix'')) (\<lambda>p.
            case p of JStr (c # s) \<Rightarrow> ret (c # s) | _ \<Rightarrow> die)))"

text \<open>The first non-blank line of the squash message.\<close>

definition squash_subject :: "string \<Rightarrow> string" where
  "squash_subject msg = (case filter (\<lambda>l. strip l \<noteq> []) (splitlines msg) of
      [] \<Rightarrow> msg | l # _ \<Rightarrow> l)"

definition show_bool :: "bool \<Rightarrow> string" where
  "show_bool b = (if b then ''true'' else ''false'')"

definition version_lines :: "version_result \<Rightarrow> (string \<times> string) list" where
  "version_lines r = [(''next_version'', next_version r), (''bump_type'', bump_value (vbump r)),
     (''tag_prefix'', tag_prefix r), (''full_tag'', full_tag r), (''is_initial'', show_bool (is_initial r))]"

fun write_outputs :: "string \<Rightarrow> (string \<times> string) list \<Rightarrow> ('w, unit) ci" where
  "write_outputs out [] = ret ()"
| "write_outputs out ((k, v) # kvs) = thenC (write_output out k v) (write_outputs out kvs)"

fun print_outputs :: "(string \<times> string) list \<Rightarrow> ('w, unit) ci" where
  "print_outputs [] = ret ()"
| "print_outputs ((k, v) # kvs) = thenC (put_line (k @ ''='' @ v)) (print_outputs kvs)"

text \<open>\<open>main\<close> up to the point where the version is known: the environment, D17 and the tags.\<close>

definition ci_decide_version :: "'w runner \<Rightarrow> ('w, string \<times> version_result) ci" where
  "ci_decide_version runner =
     bindC (require_env ''SCOPE'') (\<lambda>scp.
     bindC (require_env ''OUTPUT'') (\<lambda>output_path.
     if scp = SCOPE_TERRAGRUNT then raise (SystemExit 0) else
     bindC (require_env ''COMMIT_SHA'') (\<lambda>commit_sha.
     bindC (require_env ''COMMIT_MSG'') (\<lambda>commit_msg.
     bindC (require_env ''REPO'') (\<lambda>repo.
     bindC (getenv ''MODULE_PATH'') (\<lambda>mp.
     bindC load_config_tag_prefix (\<lambda>config_tag_prefix.
     bindC (try_except (fetch_pr_title_from_api runner repo commit_sha) is_runtime_error die)
       (\<lambda>api_pr_title.
     bindC (try_except (lift (derive_bump_from_api_result api_pr_title)) is_value_error die) (\<lambda>api_bump.
     thenC (try_except
        (lift (bindR (parse_pr_title (squash_subject commit_msg))
           (\<lambda>squash_parsed. validate_bump_agreement api_bump (bump squash_parsed))))
        is_value_error die)
    (bindC (try_except
        (lift (build_tag_prefix scp (strip (the_default [] mp)) config_tag_prefix)) is_value_error die)
       (\<lambda>pre.
     bindC (try_except
        (bindC (fetch_git_tags runner) (\<lambda>tags. lift (calculate_next_version tags pre api_bump)))
        (\<lambda>e. is_value_error e \<or> is_runtime_error e) die)
       (\<lambda>r. ret (output_path, r)))))))))))))"

text \<open>\<open>main\<close>: decide, then append the five outputs and print them.\<close>

definition ci_calculate_version_main :: "'w runner \<Rightarrow> ('w, unit) ci" where
  "ci_calculate_version_main runner =
     bindC (ci_decide_version runner) (\<lambda>(output_path, r).
       thenC (write_outputs output_path (version_lines r)) (print_outputs (version_lines r)))"

section \<open>Version order\<close>

lemma digit_chars: "is_digit c \<Longrightarrow> c \<noteq> CHR ''.''"
  by (auto simp: is_digit_def)

lemma show_int_no_dot: "CHR ''.'' \<notin> set (show_int i)"
  using show_nat_digits by (auto simp: show_int_def dest!: digit_chars)

lemma parse_show_semver [simp]: "parse_semver (show_semver v) = Some v"
proof (cases v)
  case (fields x y z)
  have "split_on (CHR ''.'') (join ''.'' [show_int x, show_int y, show_int z]) =
      [show_int x, show_int y, show_int z]"
    by (rule split_on_join) (simp_all add: show_int_no_dot)
  then show ?thesis by (simp add: parse_semver_def show_semver_def fields)
qed

lemma apply_bump_greater: "v < apply_bump v b"
  by (cases v; cases b) (auto simp: apply_bump_def less_prod_def)

lemma fold_max_ge: "w \<in> set (v # vs) \<Longrightarrow> w \<le> fold max vs (v :: 'a :: linorder)"
proof (induction vs arbitrary: v w)
  case (Cons u vs)
  have "max u v \<le> fold max vs (max u v)" by (rule Cons.IH) simp
  with Cons.IH [of w "max u v"] Cons.prems show ?case by auto
qed simp

lemma fold_max_in: "fold max vs v \<in> set ((v :: 'a :: linorder) # vs)"
proof (induction vs arbitrary: v)
  case (Cons u vs)
  from Cons.IH [of "max u v"] show ?case by (auto simp: max_def split: if_splits)
qed simp

text \<open>The version the next bump starts from.\<close>

definition latest_semver :: "string list \<Rightarrow> string \<Rightarrow> semver" where
  "latest_semver tags pre = (case tag_versions tags pre of [] \<Rightarrow> (0, 0, 0) | v # vs \<Rightarrow> fold max vs v)"

lemma calculate_next_version_eq:
  "calculate_next_version tags pre b =
     (let nv = show_semver (apply_bump (latest_semver tags pre) b) in
      if pre @ nv \<in> set tags then Inl ValueError
      else Inr \<lparr>next_version = nv, full_tag = pre @ nv, tag_prefix = pre, vbump = b,
                is_initial = (tag_versions tags pre = [])\<rparr>)"
  by (cases "tag_versions tags pre")
    (simp_all add: calculate_next_version_def find_latest_version_def latest_semver_def Let_def)

lemma latest_semver_ge: "w \<in> set (tag_versions tags pre) \<Longrightarrow> w \<le> latest_semver tags pre"
proof (cases "tag_versions tags pre")
  case (Cons v vs)
  assume "w \<in> set (tag_versions tags pre)"
  with Cons show ?thesis using fold_max_ge [of w v vs] by (simp add: latest_semver_def)
qed simp

lemma tag_versions_iff:
  assumes "glob_free pre"
  shows "w \<in> set (tag_versions tags pre) \<longleftrightarrow>
     (\<exists>d r. pre @ d # r \<in> set tags \<and> is_digit d \<and> parse_semver (d # r) = Some w)"
proof -
  have "w \<in> set (tag_versions tags pre) \<longleftrightarrow>
      (\<exists>t \<in> set tags. fnmatch t (pre @ ''[0-9]*'') \<and> parse_semver (drop (length pre) t) = Some w)"
    by (auto simp: tag_versions_def in_map_filter)
  also have "\<dots> \<longleftrightarrow> (\<exists>d r. pre @ d # r \<in> set tags \<and> is_digit d \<and> parse_semver (d # r) = Some w)"
    (is "?L \<longleftrightarrow> ?R")
  proof
    assume ?L
    then obtain d r where "pre @ d # r \<in> set tags" "is_digit d" "parse_semver (d # r) = Some w"
      unfolding fnmatch_prefix_digit [OF assms] by auto
    then show ?R by blast
  next
    assume ?R
    then obtain d r where t: "pre @ d # r \<in> set tags" "is_digit d" "parse_semver (d # r) = Some w"
      by blast
    then show ?L unfolding fnmatch_prefix_digit [OF assms] by (intro bexI [OF _ t(1)]) auto
  qed
  finally show ?thesis .
qed

lemma split_on_hd: "split_on sep (c # s) = x # xs \<Longrightarrow> c \<noteq> sep \<Longrightarrow> \<exists>t. x = c # t"
  by (auto split: list.splits)

lemma read_digits_strip: "is_digit c \<Longrightarrow> \<exists>u. strip (c # t) = c # u"
  by (simp add: strip_by_def rstrip_by_def is_digit_not_ws dropWhile_append3)

lemma py_int_digit_nonneg: "is_digit c \<Longrightarrow> py_int (c # t) = Some i \<Longrightarrow> 0 \<le> i"
  using read_digits_strip [of c t] by (auto simp: py_int_def is_digit_neq)

lemma parse_semver_major_nonneg:
  assumes "is_digit d" and "parse_semver (d # r) = Some (x, y, z)"
  shows "0 \<le> x"
proof -
  obtain a b c where s: "split_on (CHR ''.'') (d # r) = [a, b, c]" "py_int a = Some x"
    using assms(2) by (auto simp: parse_semver_def split: list.splits option.splits prod.splits)
  obtain t where "a = d # t" using split_on_hd [OF s(1)] assms(1) digit_chars by blast
  with s assms(1) show ?thesis using py_int_digit_nonneg by blast
qed

lemma show_semver_digit:
  assumes "0 \<le> fst v"
  shows "\<exists>d r. show_semver v = d # r \<and> is_digit d"
proof -
  obtain c s where "show_nat (nat (fst v)) = c # s" by (cases "show_nat (nat (fst v))") auto
  with assms show ?thesis
    using show_nat_hd by (cases v) (auto simp: show_semver_def show_int_def)
qed

lemma latest_major_nonneg:
  assumes "glob_free pre"
  shows "0 \<le> fst (latest_semver tags pre)"
proof (cases "tag_versions tags pre")
  case (Cons v vs)
  then have "latest_semver tags pre \<in> set (tag_versions tags pre)"
    using fold_max_in [of vs v] by (simp add: latest_semver_def)
  then show ?thesis
    using parse_semver_major_nonneg unfolding tag_versions_iff [OF assms]
    by (metis prod.collapse)
qed (simp add: latest_semver_def)

lemma apply_bump_major: "fst v \<le> fst (apply_bump v b)"
  by (cases v; cases b) (auto simp: apply_bump_def)

lemma next_tag_fresh:
  assumes "glob_free pre"
  shows "pre @ show_semver (apply_bump (latest_semver tags pre) b) \<notin> set tags"
proof
  let ?n = "apply_bump (latest_semver tags pre) b"
  assume "pre @ show_semver ?n \<in> set tags"
  moreover obtain d r where "show_semver ?n = d # r" "is_digit d"
    using show_semver_digit [of ?n] latest_major_nonneg [OF assms, of tags]
      apply_bump_major [of "latest_semver tags pre" b] by force
  ultimately have "?n \<in> set (tag_versions tags pre)"
    unfolding tag_versions_iff [OF assms] using parse_show_semver [of ?n] by metis
  then show False using latest_semver_ge apply_bump_greater [of "latest_semver tags pre" b]
    by (metis leD)
qed

section \<open>The entry point\<close>

text \<open>\<open>os.environ.get(name, "").strip()\<close> in a state.\<close>

definition env_of :: "'w ci_state \<Rightarrow> string \<Rightarrow> string" where
  "env_of s n = strip (the_default [] (map_of (environ s) n))"

lemma require_env_Inr_iff:
  "require_env n s = (Inr x, s') \<longleftrightarrow> s' = s \<and> x \<noteq> [] \<and> x = env_of s n"
  by (auto simp: require_env_def bindC_def Let_def env_of_def)

lemma require_env_preserves [preserves_intros]: "preserves f (require_env n)"
  by (auto simp: preserves_def require_env_def bindC_def Let_def)

lemma load_config_preserves [preserves_intros]: "preserves f load_config_tag_prefix"
proof -
  have "preserves f (case p of JStr (c # s) \<Rightarrow> ret (c # s) | _ \<Rightarrow> die)" for p
    by (cases p; cases "case p of JStr s \<Rightarrow> s | _ \<Rightarrow> []") (auto intro: preserves_intros)
  then show ?thesis unfolding load_config_tag_prefix_def by (intro preserves_intros)
qed

lemma decide_preserves_files: "preserves files (ci_decide_version runner)"
  unfolding ci_decide_version_def fetch_pr_title_from_api_def fetch_git_tags_def Let_def
  by (intro preserves_intros)

lemma write_outputs_Inr:
  "write_outputs out kvs s = (Inr (), s') \<Longrightarrow>
     (\<exists>fs. s' = s\<lparr>files := fs\<rparr>) \<and>
     the_default [] (map_of (files s') (path_of out)) =
       the_default [] (map_of (files s) (path_of out)) @ concat (map (\<lambda>(k, v). k @ ''='' @ v @ [CHR 0x0A]) kvs)"
proof (induction kvs arbitrary: s)
  case Nil
  then show ?case by (auto intro: exI [of _ "files s"])
next
  case (Cons kv kvs)
  obtain k v where kv: "kv = (k, v)" by force
  from Cons.prems kv obtain t where t: "write_output out k v s = (Inr (), t)"
    "write_outputs out kvs t = (Inr (), s')" by (auto simp: thenC_Inr_iff)
  have "\<exists>fs. t = s\<lparr>files := fs\<rparr>"
    using t(1) by (auto simp: write_output_def append_text_def split: if_splits)
  moreover have "the_default [] (map_of (files t) (path_of out)) =
      the_default [] (map_of (files s) (path_of out)) @ k @ ''='' @ v @ [CHR 0x0A]"
    using append_text_lookup [OF t(1) [unfolded write_output_def]] by (auto split: option.splits)
  ultimately show ?case using Cons.IH [OF t(2)] kv by auto
qed

lemma print_outputs_apply: "\<exists>ls. print_outputs kvs s = (Inr (), s\<lparr>printed := ls\<rparr>)"
proof (induction kvs arbitrary: s)
  case Nil
  show ?case by (auto intro: exI [of _ "printed s"])
next
  case (Cons kv kvs)
  obtain k v where kv: "kv = (k, v)" by force
  show ?case using Cons.IH [of "s\<lparr>printed := printed s @ [k @ ''='' @ v]\<rparr>"] kv
    by (auto simp: thenC_def bindC_def)
qed

lemma fetch_pr_title_Inr:
  "fetch_pr_title_from_api runner repo sha s = (Inr t, s') \<Longrightarrow>
     \<exists>c w. runner (Command (pr_title_cmd repo sha) None) (world s) = (Some c, w) \<and> returncode c = 0 \<and>
       t = (if strip (stdout c) = [] \<or> strip (stdout c) = ''null'' then None else Some (strip (stdout c))) \<and>
       s' = s\<lparr>world := w, cmds := cmds s @ [Command (pr_title_cmd repo sha) None]\<rparr>"
  by (auto simp: fetch_pr_title_from_api_def bindC_Inr_iff run_cmd_Inr_iff Let_def split: if_splits)

lemma fetch_git_tags_Inr:
  "fetch_git_tags runner s = (Inr ts, s') \<Longrightarrow>
     \<exists>c w. runner (Command [''git'', ''tag'', ''-l''] None) (world s) = (Some c, w) \<and> returncode c = 0 \<and>
       ts = tag_lines (stdout c) \<and>
       s' = s\<lparr>world := w, cmds := cmds s @ [Command [''git'', ''tag'', ''-l''] None]\<rparr>"
  by (auto simp: fetch_git_tags_def bindC_Inr_iff run_cmd_Inr_iff split: if_splits)

lemma derive_bump_api_Inr:
  "derive_bump_from_api_result t = Inr b \<longleftrightarrow> (\<exists>x p. t = Some x \<and> parse_pr_title x = Inr p \<and> b = bump p)"
  by (auto simp: derive_bump_from_api_result_def bindR_Inr_iff split: option.splits)

text \<open>What a completed decision rests on: the title the API returned for the commit, the
  subject of the squash message, and the tags of the repository.\<close>

lemma ci_decide_version_Inr:
  assumes "ci_decide_version runner s = (Inr (out, r), s')"
  shows "\<exists>c1 w1 c2 w2 p q pre.
     env_of s ''SCOPE'' \<noteq> SCOPE_TERRAGRUNT \<and> out = env_of s ''OUTPUT'' \<and>
     runner (Command (pr_title_cmd (env_of s ''REPO'') (env_of s ''COMMIT_SHA'')) None) (world s) = (Some c1, w1) \<and> returncode c1 = 0 \<and>
     parse_pr_title (strip (stdout c1)) = Inr p \<and>
     parse_pr_title (squash_subject (env_of s ''COMMIT_MSG'')) = Inr q \<and> bump p = bump q \<and>
     runner (Command [''git'', ''tag'', ''-l''] None) w1 = (Some c2, w2) \<and> returncode c2 = 0 \<and>
     calculate_next_version (tag_lines (stdout c2)) pre (bump p) = Inr r \<and>
     s' = s\<lparr>world := w2, cmds := cmds s @
       [Command (pr_title_cmd (env_of s ''REPO'') (env_of s ''COMMIT_SHA'')) None, Command [''git'', ''tag'', ''-l''] None]\<rparr>"
proof -
  from assms obtain scp sha msg repo ctp t b pre s1 s2 ts where
    m: "require_env ''SCOPE'' s = (Inr scp, s)" "require_env ''OUTPUT'' s = (Inr out, s)"
    "scp \<noteq> SCOPE_TERRAGRUNT" "require_env ''COMMIT_SHA'' s = (Inr sha, s)"
    "require_env ''COMMIT_MSG'' s = (Inr msg, s)" "require_env ''REPO'' s = (Inr repo, s)"
    "load_config_tag_prefix s = (Inr ctp, s1)"
    "fetch_pr_title_from_api runner repo sha s1 = (Inr t, s2)"
    "derive_bump_from_api_result t = Inr b"
    "bindR (parse_pr_title (squash_subject msg)) (\<lambda>q. validate_bump_agreement b (bump q)) = Inr ()"
    "fetch_git_tags runner s2 = (Inr ts, s')" "calculate_next_version ts pre b = Inr r"
    by (auto simp: ci_decide_version_def ci_Inr_iffs require_env_Inr_iff split: if_splits)
  have "s1 = s" using preservesD [OF load_config_preserves [of "\<lambda>s. s"] m(7)] by simp
  then show ?thesis
    using m fetch_pr_title_Inr [OF m(8)] fetch_git_tags_Inr [OF m(11)]
    by (auto simp: require_env_Inr_iff derive_bump_api_Inr bindR_Inr_iff validate_bump_agreement_def
        split: if_splits)
qed

section \<open>Properties\<close>

text \<open>C1. Freshness and order of a derived version: for a tag prefix without glob
  metacharacters the derivation always succeeds, whatever the tags are; the tag it returns is
  the prefix followed by the new version, is not among the existing tags, and the new version
  is strictly greater than the version of every existing tag under that prefix.\<close>

theorem next_version_fresh_and_greatest:
  assumes "glob_free pre"
  shows "\<exists>r v. calculate_next_version tags pre b = Inr r \<and> next_version r = show_semver v \<and>
     full_tag r = pre @ next_version r \<and> full_tag r \<notin> set tags \<and>
     (\<forall>d u w. pre @ d # u \<in> set tags \<longrightarrow> is_digit d \<longrightarrow> parse_semver (d # u) = Some w \<longrightarrow> w < v)"
proof -
  let ?v = "apply_bump (latest_semver tags pre) b"
  have "w < ?v" if "pre @ d # u \<in> set tags" "is_digit d" "parse_semver (d # u) = Some w" for d u w
  proof -
    have "w \<in> set (tag_versions tags pre)" unfolding tag_versions_iff [OF assms] using that by blast
    then show ?thesis using latest_semver_ge apply_bump_greater le_less_trans by blast
  qed
  moreover have "calculate_next_version tags pre b = Inr \<lparr>next_version = show_semver ?v,
      full_tag = pre @ show_semver ?v, tag_prefix = pre, vbump = b,
      is_initial = (tag_versions tags pre = [])\<rparr>"
    using next_tag_fresh [OF assms, of tags b] by (simp add: calculate_next_version_eq Let_def)
  ultimately show ?thesis
    using next_tag_fresh [OF assms, of tags b]
    by (intro exI [of _ "\<lparr>next_version = show_semver ?v, full_tag = pre @ show_semver ?v,
      tag_prefix = pre, vbump = b, is_initial = (tag_versions tags pre = [])\<rparr>"] exI [of _ ?v]) auto
qed

theorem next_version_fresh_and_greatest_witness:
  "\<exists>r v. calculate_next_version [''p/v0.9.0'', ''p/v0.10.2'', ''q/v7.0.0''] ''p/v'' MINOR = Inr r \<and>
     next_version r = show_semver v \<and> full_tag r \<notin> set [''p/v0.9.0'', ''p/v0.10.2'', ''q/v7.0.0''] \<and>
     (0, 10, 2) < v"
proof -
  have g: "glob_free ''p/v''" by code_simp
  have p: "parse_semver (CHR ''0'' # ''.10.2'') = Some (0, 10, 2)" by code_simp
  obtain r v where r: "calculate_next_version [''p/v0.9.0'', ''p/v0.10.2'', ''q/v7.0.0''] ''p/v'' MINOR = Inr r"
    "next_version r = show_semver v" "full_tag r \<notin> set [''p/v0.9.0'', ''p/v0.10.2'', ''q/v7.0.0'']"
    "\<forall>d u w. ''p/v'' @ d # u \<in> set [''p/v0.9.0'', ''p/v0.10.2'', ''q/v7.0.0''] \<longrightarrow> is_digit d \<longrightarrow>
       parse_semver (d # u) = Some w \<longrightarrow> w < v"
    using next_version_fresh_and_greatest [OF g, of "[''p/v0.9.0'', ''p/v0.10.2'', ''q/v7.0.0'']" MINOR]
    by blast
  have "(0, 10, 2) < v"
    using r(4) [rule_format, of "CHR ''0''" "''.10.2''" "(0, 10, 2)"] p by (simp add: is_digit_def)
  with r show ?thesis by blast
qed

text \<open>C9. D17, the bump cannot be forged: whenever the entry point completes, the only commands
  it started are the API query for the pull request of \<open>COMMIT_SHA\<close> and the tag listing; the
  title the API returned and the subject of the squash message both parse, with the same bump;
  the version is derived from the listed tags with that bump; and the output file has grown by
  exactly the five lines that publish it.\<close>

theorem ci_version_rests_on_api_title:
  assumes "ci_calculate_version_main runner s = (Inr (), s')"
  shows "\<exists>c1 w1 c2 w2 p q pre r.
     runner (Command (pr_title_cmd (env_of s ''REPO'') (env_of s ''COMMIT_SHA'')) None) (world s) = (Some c1, w1) \<and>
     parse_pr_title (strip (stdout c1)) = Inr p \<and>
     parse_pr_title (squash_subject (env_of s ''COMMIT_MSG'')) = Inr q \<and> bump p = bump q \<and>
     runner (Command [''git'', ''tag'', ''-l''] None) w1 = (Some c2, w2) \<and>
     calculate_next_version (tag_lines (stdout c2)) pre (bump p) = Inr r \<and>
     cmds s' = cmds s @ [Command (pr_title_cmd (env_of s ''REPO'') (env_of s ''COMMIT_SHA'')) None,
       Command [''git'', ''tag'', ''-l''] None] \<and>
     the_default [] (map_of (files s') (path_of (env_of s ''OUTPUT''))) =
       the_default [] (map_of (files s) (path_of (env_of s ''OUTPUT''))) @
       concat (map (\<lambda>(k, v). k @ ''='' @ v @ [CHR 0x0A]) (version_lines r))"
proof -
  obtain out r t u where d: "ci_decide_version runner s = (Inr (out, r), t)"
    and w: "write_outputs out (version_lines r) t = (Inr (), u)"
    and p: "print_outputs (version_lines r) u = (Inr (), s')"
    using assms by (auto simp: ci_calculate_version_main_def bindC_Inr_iff thenC_Inr_iff split: prod.splits)
  obtain ls where s': "s' = u\<lparr>printed := ls\<rparr>" using print_outputs_apply p by (metis Pair_inject)
  have f: "files t = files s" using preservesD [OF decide_preserves_files d] .
  have e: "out = env_of s ''OUTPUT''" using ci_decide_version_Inr [OF d] by blast
  have c: "cmds s' = cmds t" using write_outputs_Inr [OF w] unfolding s' by auto
  have o: "the_default [] (map_of (files s') (path_of out)) =
      the_default [] (map_of (files s) (path_of out)) @
      concat (map (\<lambda>(k, v). k @ ''='' @ v @ [CHR 0x0A]) (version_lines r))"
    using write_outputs_Inr [OF w] f unfolding s' by simp
  from ci_decide_version_Inr [OF d] show ?thesis using c o unfolding e by fastforce
qed

text \<open>A machine on which the entry point completes.\<close>

definition ex_version_runner :: "unit runner" where
  "ex_version_runner c w = (Some \<lparr>returncode = 0,
     stdout = (if argv c = [''git'', ''tag'', ''-l''] then ''m/v0.1.0'' @ [CHR 0x0A] else ''feat: a'' @ [CHR 0x0A]),
     stderr = []\<rparr>, w)"

definition ex_version_state :: "unit ci_state" where
  "ex_version_state = \<lparr>world = (), cmds = [], environ = [(''SCOPE'', ''module''), (''OUTPUT'', ''out''),
      (''COMMIT_SHA'', ''abc''), (''COMMIT_MSG'', ''feat(x): b''), (''REPO'', ''o/r''), (''MODULE_PATH'', ''m'')],
     files = [(path_of ''monorepo-config.json'',
       CHR ''{'' # [CHR 0x22] @ ''config_tag_prefix'' @ [CHR 0x22] @ '':'' @ [CHR 0x22] @ ''mc'' @ [CHR 0x22] @ ''}'')],
     readonly = [], printed = []\<rparr>"

lemma ex_version_completes:
  "fst (ci_calculate_version_main ex_version_runner ex_version_state) = Inr ()"
  by code_simp

theorem ci_version_rests_on_api_title_witness:
  "\<exists>s' p. ci_calculate_version_main ex_version_runner ex_version_state = (Inr (), s') \<and>
     parse_pr_title ''feat: a'' = Inr p \<and>
     cmds s' = [Command (pr_title_cmd ''o/r'' ''abc'') None, Command [''git'', ''tag'', ''-l''] None]"
proof -
  obtain s' where s: "ci_calculate_version_main ex_version_runner ex_version_state = (Inr (), s')"
    using ex_version_completes by (metis prod.collapse)
  have e: "env_of ex_version_state ''REPO'' = ''o/r''" "env_of ex_version_state ''COMMIT_SHA'' = ''abc''"
    "cmds ex_version_state = []" "strip (''feat: a'' @ [CHR 0x0A]) = ''feat: a''"
    "pr_title_cmd ''o/r'' ''abc'' \<noteq> [''git'', ''tag'', ''-l'']"
    by code_simp+
  show ?thesis
    using ci_version_rests_on_api_title [OF s] s e by (auto simp: ex_version_runner_def)
qed

text \<open>Nothing is published by a run that fails: if the entry point ends in an exception
  other than a failed write, no file has changed; and for the terragrunt scope, which has no
  module version, it exits with status 0 before starting any command.\<close>

theorem ci_version_failure_writes_nothing:
  assumes "ci_calculate_version_main runner s = (Inl e, s')" and "e \<noteq> OSError"
  shows "files s' = files s \<and>
     (env_of s ''SCOPE'' = SCOPE_TERRAGRUNT \<and> env_of s ''OUTPUT'' \<noteq> [] \<longrightarrow> e = SystemExit 0 \<and> s' = s)"
proof -
  have wo: "write_outputs out kvs t = (Inl e', u) \<Longrightarrow> e' = OSError" for out kvs e' and t u :: "'a ci_state"
    by (induction kvs arbitrary: t)
      (auto simp: thenC_Inl_iff write_output_def append_text_def split: if_splits)
  have po: "print_outputs kvs t \<noteq> (Inl e', u)" for kvs e' and t u :: "'a ci_state"
    using print_outputs_apply [of kvs t] by auto
  have d: "ci_decide_version runner s = (Inl e, s')"
    using assms wo po
    by (auto simp: ci_calculate_version_main_def bindC_Inl_iff thenC_Inl_iff split: prod.splits)
  have "e = SystemExit 0 \<and> s' = s" if "env_of s ''SCOPE'' = SCOPE_TERRAGRUNT" "env_of s ''OUTPUT'' \<noteq> []"
    using d that unfolding ci_decide_version_def
    by (auto simp: bindC_def require_env_def env_of_def Let_def SCOPE_TERRAGRUNT_def)
  with preservesD [OF decide_preserves_files d] show ?thesis by blast
qed

theorem ci_version_failure_writes_nothing_witness:
  "files (snd (ci_calculate_version_main ex_version_runner
     (ex_version_state\<lparr>environ := [(''SCOPE'', ''terragrunt''), (''OUTPUT'', ''out'')]\<rparr>))) =
     files ex_version_state"
proof -
  let ?s = "ex_version_state\<lparr>environ := [(''SCOPE'', ''terragrunt''), (''OUTPUT'', ''out'')]\<rparr>"
  have "fst (ci_calculate_version_main ex_version_runner ?s) = Inl (SystemExit 0)" by code_simp
  then obtain s' where "ci_calculate_version_main ex_version_runner ?s = (Inl (SystemExit 0), s')"
    by (metis prod.collapse)
  from ci_version_failure_writes_nothing [OF this] this show ?thesis by simp
qed

end
