(* ===== verification/Scope.thy ===== *)
theory Scope
  imports Versions
begin

text \<open>
  Which part of the repository a change set belongs to: \<open>scripts/detect_scope.py\<close> and its CI
  wrapper \<open>scripts/ci_detect_scope.py\<close>, the module type of a path
  (\<open>scripts/resolve_module_type.py\<close>) and the gate over the required jobs
  (\<open>scripts/aggregate_required_checks.py\<close>).

  \<open>classify\<close> is the specification of one file; the loop of \<open>detect_scope\<close> fills three
  collections and decides from their sizes. \<open>detect_scope_by_class\<close> relates the two.
\<close>

section \<open>Detecting the scope\<close>

definition find_module_path :: "string \<Rightarrow> string \<Rightarrow> string option" where
  "find_module_path file_path module_root =
     (let leaf = hd (split_on (CHR ''/'') (drop (length module_root) file_path)) in
      if leaf = [] then None else Some (rstrip_char (CHR ''/'') module_root @ ''/'' @ leaf))"

text \<open>\<open>config["module_roots"]\<close> and \<open>config["terragrunt_root"]\<close>.\<close>

definition parse_scope_config :: "json \<Rightarrow> exn + string list \<times> string" where
  "parse_scope_config config =
     bindR (json_index config ''module_roots'') (\<lambda>raw.
       case raw of
         JList rs \<Rightarrow> bindR (json_index config ''terragrunt_root'') (\<lambda>tg. Inr (map py_str rs, py_str tg))
       | _ \<Rightarrow> Inl ValueError)"

record scope_result =
  sr_scope :: string
  sr_module_path :: "string option"
  sr_modules :: "string list"
  sr_valid :: bool
  sr_violations :: "string list"

definition scope_ok :: "string \<Rightarrow> string option \<Rightarrow> scope_result" where
  "scope_ok scp mp = \<lparr>sr_scope = scp, sr_module_path = mp, sr_modules = [], sr_valid = True, sr_violations = []\<rparr>"

definition scope_bad :: "string \<Rightarrow> string \<Rightarrow> scope_result" where
  "scope_bad scp msg = \<lparr>sr_scope = scp, sr_module_path = None, sr_modules = [], sr_valid = False,
     sr_violations = [msg]\<rparr>"

text \<open>The loop state: terragrunt files, files by module, configuration files.\<close>

type_synonym buckets = "string list \<times> (string, string list) dict \<times> string list"

definition matched_root :: "string list \<Rightarrow> string \<Rightarrow> string option" where
  "matched_root roots f = List.find (\<lambda>r. startswith f r) roots"

definition scope_step :: "string list \<Rightarrow> string \<Rightarrow> string \<Rightarrow> buckets \<Rightarrow> buckets" where
  "scope_step roots tg f b = (case b of (ts, ms, cs) \<Rightarrow>
     if startswith f tg then (if endswith f ''.md'' then b else (ts @ [f], ms, cs))
     else (case matched_root roots f of
         None \<Rightarrow> (ts, ms, cs @ [f])
       | Some rt \<Rightarrow> (case find_module_path f rt of
           None \<Rightarrow> (ts, ms, cs @ [f])
         | Some mp \<Rightarrow> (ts, dict_append mp f ms, cs))))"

definition scope_decide :: "buckets \<Rightarrow> scope_result" where
  "scope_decide b = (case b of (ts, ms, cs) \<Rightarrow>
     let num = length ms; keys = join '', '' (sort (dict_keys ms)) in
     if 2 \<le> num then
       scope_bad SCOPE_MULTI_MODULE (''ERROR: PR spans '' @ show_nat num @ '' module scopes: '' @ keys
         @ ''. A PR must touch exactly one scope (AC-15).'')
     else if 1 \<le> num \<and> (ts \<noteq> [] \<or> cs \<noteq> []) then
       scope_bad SCOPE_MIXED (''ERROR: PR spans mixed scopes: '' @
         join ''; '' ([''module ('' @ keys @ '')''] @ (if ts \<noteq> [] then [''terragrunt''] else [])
           @ (if cs \<noteq> [] then [''config''] else []))
         @ ''. A PR must touch exactly one scope (AC-15).'')
     else if ts \<noteq> [] \<and> cs \<noteq> [] then
       scope_bad SCOPE_MIXED ''ERROR: PR spans mixed scopes: terragrunt and config. A PR must touch exactly one scope (AC-15).''
     else if num = 1 \<and> ts = [] \<and> cs = [] then scope_ok SCOPE_MODULE (Some (hd (dict_keys ms)))
     else if ts \<noteq> [] \<and> cs = [] \<and> num = 0 then scope_ok SCOPE_TERRAGRUNT None
     else scope_ok SCOPE_CONFIG None)"

definition detect_scope :: "string list \<Rightarrow> string list \<Rightarrow> string \<Rightarrow> scope_result" where
  "detect_scope changed_files roots tg =
     (if changed_files = [] then scope_ok SCOPE_CONFIG None
      else scope_decide (fold (scope_step roots tg) changed_files ([], [], [])))"

text \<open>\<open>discover_all_modules\<close>: the directories right below a root that hold a \<open>main.tf\<close>.\<close>

fun discover_in_roots :: "(path, string) dict \<Rightarrow> path \<Rightarrow> string list \<Rightarrow> exn + string list" where
  "discover_in_roots fs repo [] = Inr []"
| "discover_in_roots fs repo (rt # roots) =
     (let base = rstrip_char (CHR ''/'') rt; rp = path_div repo base in
      if \<not> path_exists fs rp then discover_in_roots fs repo roots
      else if is_file fs rp then Inl OSError
      else bindR (discover_in_roots fs repo roots) (\<lambda>rest.
        Inr (map (\<lambda>n. base @ ''/'' @ n)
              (filter (\<lambda>n. is_dir fs (path_join rp (Path False [n])) \<and>
                           is_file fs (path_join rp (Path False [n, ''main.tf''])))
                (sort (list_dir fs rp))) @ rest)))"

definition discover_all_modules :: "(path, string) dict \<Rightarrow> string list \<Rightarrow> string \<Rightarrow> exn + string list" where
  "discover_all_modules fs roots repo_root =
     bindR (discover_in_roots fs (path_of repo_root) roots) (\<lambda>ms. Inr (sort ms))"

definition load_config :: "string \<Rightarrow> ('w, json) ci" where
  "load_config config_path =
     bindC get_files (\<lambda>fs.
       if \<not> path_exists fs (path_of config_path) then raise FileNotFoundError
       else bindC (read_text (path_of config_path)) (\<lambda>t.
         try_except (lift (json_loads t)) (\<lambda>e. e = JSONDecodeError) (raise ValueError)))"

definition scope_json :: "scope_result \<Rightarrow> json" where
  "scope_json r = JObj [(''scope'', JStr (sr_scope r)),
     (''module_path'', (case sr_module_path r of None \<Rightarrow> JNull | Some m \<Rightarrow> JStr m)),
     (''modules'', JList (map JStr (sr_modules r))), (''valid'', JBool (sr_valid r)),
     (''violations'', JList (map JStr (sr_violations r)))]"

definition stdin_lines :: "string \<Rightarrow> string list" where
  "stdin_lines inp = map strip (filter (\<lambda>l. strip l \<noteq> []) (split_on (CHR 0x0A) (replace_char (CHR 0x0D) (CHR 0x0A) inp)))"

text \<open>The command line of \<open>detect_scope\<close>; \<open>inp\<close> is standard input.\<close>

definition detect_scope_main :: "string \<Rightarrow> string \<Rightarrow> ('w, unit) ci" where
  "detect_scope_main config_arg inp =
     bindC (load_config config_arg) (\<lambda>config.
     bindC (lift (parse_scope_config config)) (\<lambda>(roots, tg).
     let r = detect_scope (stdin_lines inp) roots tg in
     thenC (put_line (dumps dflt_opts (scope_json r)))
       (if sr_valid r then ret () else die)))"

section \<open>The CI wrapper\<close>

definition changed_files_from_diff_range :: "'w runner \<Rightarrow> string \<Rightarrow> ('w, string list) ci" where
  "changed_files_from_diff_range runner diff_range =
     bindC (run runner [''git'', ''diff'', ''--name-only'', diff_range]) (\<lambda>r.
       if returncode r \<noteq> 0 then raise CalledProcessError else ret (tag_lines (stdout r)))"

definition write_ci_output :: "string \<Rightarrow> string \<Rightarrow> string \<Rightarrow> string list \<Rightarrow> bool \<Rightarrow> ('w, unit) ci" where
  "write_ci_output output_path scp mp modules version_only =
     write_outputs output_path [(''scope'', scp), (''module_path'', mp),
       (''modules'', dumps dflt_opts (JList (map JStr modules))), (''version_only'', show_bool version_only)]"

record ci_scope =
  cs_scope :: string
  cs_module_path :: string
  cs_modules :: "string list"
  cs_version_only :: "bool option"
  cs_valid :: bool
  cs_violations :: "string list"

fun put_lines :: "string list \<Rightarrow> ('w, unit) ci" where
  "put_lines [] = ret ()"
| "put_lines (l # ls) = thenC (put_line l) (put_lines ls)"

definition is_version_only :: "string \<Rightarrow> string list \<Rightarrow> bool" where
  "is_version_only scp changed_files = (scp = ''module'' \<and> changed_files \<noteq> [] \<and>
     list_all (\<lambda>f. f = ''VERSION'' \<or> endswith f ''/VERSION'') changed_files)"

definition D43_message :: string where
  "D43_message = ''::error::D43 violation: scope=all was requested but no modules were discovered under the configured module_roots. Ensure at least one module directory exists under a module_roots prefix.''"

definition run_ci_detect_scope ::
  "string list \<Rightarrow> bool \<Rightarrow> json \<Rightarrow> string \<Rightarrow> string \<Rightarrow> ('w, ci_scope) ci" where
  "run_ci_detect_scope changed_files scope_override config output_path repo_root =
     bindC (lift (parse_scope_config config)) (\<lambda>(roots, tg).
     if scope_override then
       bindC get_files (\<lambda>fs.
       bindC (lift (discover_all_modules fs roots repo_root)) (\<lambda>all_modules.
       if all_modules = [] then thenC (put_line D43_message) (raise D43ViolationError)
       else thenC (write_ci_output output_path SCOPE_ALL [] all_modules False)
         (ret \<lparr>cs_scope = SCOPE_ALL, cs_module_path = [], cs_modules = all_modules,
               cs_version_only = None, cs_valid = True, cs_violations = []\<rparr>)))
     else
       (let r = detect_scope changed_files roots tg in
        if \<not> sr_valid r then
          thenC (put_lines (map (\<lambda>v. ''::error::'' @ v) (sr_violations r)))
         (thenC (write_ci_output output_path (sr_scope r) [] [] False)
           (ret \<lparr>cs_scope = sr_scope r, cs_module_path = [], cs_modules = [],
                 cs_version_only = None, cs_valid = False, cs_violations = sr_violations r\<rparr>))
        else
          (let mp = the_default [] (sr_module_path r); vo = is_version_only (sr_scope r) changed_files in
           thenC (write_ci_output output_path (sr_scope r) mp [] vo)
             (ret \<lparr>cs_scope = sr_scope r, cs_module_path = mp, cs_modules = [],
                   cs_version_only = Some vo, cs_valid = True, cs_violations = []\<rparr>))))"

definition ci_detect_scope_main ::
  "'w runner \<Rightarrow> string \<Rightarrow> string \<Rightarrow> string \<Rightarrow> string \<Rightarrow> string \<Rightarrow> ('w, unit) ci" where
  "ci_detect_scope_main runner config_arg override_arg output_arg diff_range inp =
     bindC (load_config config_arg) (\<lambda>config.
     bindC (if diff_range \<noteq> [] then changed_files_from_diff_range runner diff_range
            else ret (stdin_lines inp)) (\<lambda>changed_files.
     bindC (try_except
        (run_ci_detect_scope changed_files (lower override_arg = ''true'') config output_arg ''.'')
        (\<lambda>e. e = D43ViolationError) die) (\<lambda>r.
     if cs_valid r then ret () else die)))"

section \<open>The module type of a path\<close>

definition type_patterns :: "json \<Rightarrow> (string \<times> string) list" where
  "type_patterns provider_config = (case provider_config of
      JObj pc \<Rightarrow> (case the_default (JObj []) (map_of pc ''module_types'') of
          JObj mts \<Rightarrow> concat (map (\<lambda>(type_name, type_config).
              (case type_config of
                 JObj tc \<Rightarrow> (case the_default (JList []) (map_of tc ''path_patterns'') of
                     JList ps \<Rightarrow> map (\<lambda>p. (type_name, py_str p)) ps
                   | _ \<Rightarrow> [])
               | _ \<Rightarrow> [])) mts)
        | _ \<Rightarrow> [])
    | _ \<Rightarrow> [])"

definition resolve_module_type :: "string \<Rightarrow> json \<Rightarrow> exn + string" where
  "resolve_module_type module_path config =
     bindR (json_get_default config ''provider'' (JObj [])) (\<lambda>section.
       case section of
         JObj providers \<Rightarrow>
           (case List.find (\<lambda>(t, p). fnmatch module_path p) (concat (map (\<lambda>(_, pc). type_patterns pc) providers)) of
              Some (t, _) \<Rightarrow> Inr t | None \<Rightarrow> Inl ModuleTypeError)
       | _ \<Rightarrow> Inl ModuleTypeError)"

definition resolve_module_type_main :: "string \<Rightarrow> string \<Rightarrow> string \<Rightarrow> ('w, unit) ci" where
  "resolve_module_type_main config_arg module_path output_arg =
     bindC (load_config config_arg) (\<lambda>config.
     bindC (try_except (lift (resolve_module_type module_path config)) (\<lambda>e. e = ModuleTypeError) die) (\<lambda>mt.
     thenC (put_line mt) (write_output output_arg ''module_type'' mt)))"

section \<open>The gate over the required jobs\<close>

text \<open>\<open>result in frozenset\<close>: a list or a dict is not hashable.\<close>

definition job_verdict :: "json \<Rightarrow> exn + bool option" where
  "job_verdict result = (case result of
      JStr r \<Rightarrow> Inr (if r \<in> set [''success'', ''skipped''] then Some True
                else if r \<in> set [''failure'', ''cancelled''] then Some False else None)
    | JList _ \<Rightarrow> Inl TypeError
    | JObj _ \<Rightarrow> Inl TypeError
    | _ \<Rightarrow> Inr None)"

fun aggregate_loop :: "(string \<times> json) list \<Rightarrow> string list \<Rightarrow> string list \<Rightarrow> exn + unit" where
  "aggregate_loop [] failed unrec =
     (if failed \<noteq> [] \<or> unrec \<noteq> [] then Inl (AggregationError failed unrec) else Inr ())"
| "aggregate_loop ((job, data) # rest) failed unrec =
     bindR (json_get_default data ''result'' (JStr [])) (\<lambda>result.
     bindR (job_verdict result) (\<lambda>v. case v of
         Some True \<Rightarrow> aggregate_loop rest failed unrec
       | Some False \<Rightarrow> aggregate_loop rest (failed @ [job]) unrec
       | None \<Rightarrow> aggregate_loop rest failed (unrec @ [job])))"

definition aggregate_results :: "json \<Rightarrow> exn + unit" where
  "aggregate_results needs_map = (case needs_map of
      JObj jobs \<Rightarrow> aggregate_loop jobs [] [] | _ \<Rightarrow> Inl AttributeError)"

definition aggregate_main :: "string \<Rightarrow> exn + unit" where
  "aggregate_main results = (case json_loads results of
      Inl e \<Rightarrow> Inl (SystemExit 2)
    | Inr needs_map \<Rightarrow> (case aggregate_results needs_map of
          Inl (AggregationError f u) \<Rightarrow> Inl (SystemExit 1)
        | Inl e \<Rightarrow> Inl e
        | Inr _ \<Rightarrow> Inl (SystemExit 0)))"

section \<open>The decision by file class\<close>

text \<open>The class of one file. Documentation below the terragrunt tree is ignored.\<close>

datatype file_class = Ignored | Terragrunt_file | Module_file string | Config_file

definition classify :: "string list \<Rightarrow> string \<Rightarrow> string \<Rightarrow> file_class" where
  "classify roots tg f =
     (if startswith f tg then (if endswith f ''.md'' then Ignored else Terragrunt_file)
      else (case matched_root roots f of
          None \<Rightarrow> Config_file
        | Some rt \<Rightarrow> (case find_module_path f rt of None \<Rightarrow> Config_file | Some mp \<Rightarrow> Module_file mp)))"

definition classes :: "string list \<Rightarrow> string \<Rightarrow> string list \<Rightarrow> file_class set" where
  "classes roots tg fs = classify roots tg ` set fs - {Ignored}"

definition touched_modules :: "string list \<Rightarrow> string \<Rightarrow> string list \<Rightarrow> string set" where
  "touched_modules roots tg fs = {m. Module_file m \<in> classes roots tg fs}"

lemma scope_step_class:
  "scope_step roots tg f (ts, ms, cs) = (case classify roots tg f of
      Ignored \<Rightarrow> (ts, ms, cs) | Terragrunt_file \<Rightarrow> (ts @ [f], ms, cs)
    | Module_file m \<Rightarrow> (ts, dict_append m f ms, cs) | Config_file \<Rightarrow> (ts, ms, cs @ [f]))"
  by (auto simp: scope_step_def classify_def split: option.splits)

lemma scope_fold:
  assumes "fold (scope_step roots tg) fs (ts, ms, cs) = (ts', ms', cs')" "dict_wf ms"
  shows "(ts' = [] \<longleftrightarrow> ts = [] \<and> Terragrunt_file \<notin> classes roots tg fs) \<and>
     (cs' = [] \<longleftrightarrow> cs = [] \<and> Config_file \<notin> classes roots tg fs) \<and>
     dict_wf ms' \<and> fst ` set ms' = fst ` set ms \<union> touched_modules roots tg fs"
  using assms
proof (induction fs arbitrary: ts ms cs)
  case Nil
  then show ?case by (simp add: classes_def touched_modules_def)
next
  case (Cons f fs)
  have cl: "classes roots tg (f # fs) = ({classify roots tg f} - {Ignored}) \<union> classes roots tg fs"
    by (auto simp: classes_def)
  have k: "fst ` set (dict_append m f ms) = insert m (fst ` set ms)" for m
    using dict_append_keys [of m f ms] by (metis (no_types, lifting) insert_absorb list.set_map
        set_append Un_insert_right list.simps(15) empty_set sup_bot.right_neutral list.set(1))
  show ?case
  proof (cases "classify roots tg f")
    case Ignored
    with Cons cl show ?thesis by (simp add: scope_step_class touched_modules_def)
  next
    case Terragrunt_file
    with Cons.prems Cons.IH [of "ts @ [f]" ms cs] cl show ?thesis
      by (simp add: scope_step_class touched_modules_def)
  next
    case (Module_file m)
    with Cons.prems Cons.IH [of ts "dict_append m f ms" cs] cl k [of m] show ?thesis
      by (auto simp: scope_step_class touched_modules_def dict_wf_append)
  next
    case Config_file
    with Cons.prems Cons.IH [of ts ms "cs @ [f]"] cl show ?thesis
      by (simp add: scope_step_class touched_modules_def)
  qed
qed

lemma dict_length_card: "dict_wf d \<Longrightarrow> length d = card (fst ` set d)"
  by (metis distinct_card length_map list.set_map)

text \<open>The decision depends on the classes alone.\<close>

lemma scope_decide_cong:
  assumes "dict_wf ms" "dict_wf ms'" "fst ` set ms = fst ` set ms'"
    and "ts = [] \<longleftrightarrow> ts' = []" and "cs = [] \<longleftrightarrow> cs' = []"
  shows "scope_decide (ts, ms, cs) = scope_decide (ts', ms', cs')"
proof -
  have l: "length ms = length ms'" using assms by (simp add: dict_length_card)
  have k: "sort (dict_keys ms) = sort (dict_keys ms')"
    using assms(1-3) unfolding dict_keys_def
    by (metis distinct_remdups_id list.set_map sort_remdups_perm)
  have h: "hd (dict_keys ms) = hd (dict_keys ms')" if "length ms = 1"
    using that l assms(3) by (cases ms; cases ms') (auto simp: dict_keys_def)
  show ?thesis using l k h assms(4,5) unfolding scope_decide_def Let_def prod.case by simp
qed

text \<open>\<open>detect_scope\<close> in terms of the classes of the changed files.\<close>

lemma detect_scope_buckets:
  obtains ts ms cs where "detect_scope fs roots tg = scope_decide (ts, ms, cs)" "dict_wf ms"
    "fst ` set ms = touched_modules roots tg fs"
    "ts = [] \<longleftrightarrow> Terragrunt_file \<notin> classes roots tg fs"
    "cs = [] \<longleftrightarrow> Config_file \<notin> classes roots tg fs"
proof (cases "fs = []")
  case True
  have "detect_scope fs roots tg = scope_decide ([], [], [])"
    using True by (simp add: detect_scope_def scope_decide_def)
  with True show ?thesis by (intro that [of "[]" "[]" "[]"]) (auto simp: classes_def touched_modules_def)
next
  case False
  obtain ts ms cs where e: "fold (scope_step roots tg) fs ([], [], []) = (ts, ms, cs)"
    by (metis prod_cases3)
  from scope_fold [OF e] False e show ?thesis
    by (intro that [of ts ms cs]) (auto simp: detect_scope_def)
qed

lemma classes_decomp:
  "classes roots tg fs =
     (if Terragrunt_file \<in> classes roots tg fs then {Terragrunt_file} else {}) \<union>
     (if Config_file \<in> classes roots tg fs then {Config_file} else {}) \<union>
     Module_file ` touched_modules roots tg fs"
proof (rule set_eqI)
  fix x
  show "x \<in> classes roots tg fs \<longleftrightarrow> x \<in>
     (if Terragrunt_file \<in> classes roots tg fs then {Terragrunt_file} else {}) \<union>
     (if Config_file \<in> classes roots tg fs then {Config_file} else {}) \<union>
     Module_file ` touched_modules roots tg fs"
    by (cases x) (auto simp: touched_modules_def, auto simp: classes_def)
qed

lemma scope_names_distinct:
  "distinct [SCOPE_MODULE, SCOPE_TERRAGRUNT, SCOPE_CONFIG, SCOPE_MULTI_MODULE, SCOPE_MIXED, SCOPE_ALL]"
  by (simp add: scope_defs)

text \<open>The three cases of the decision table.\<close>

lemma scope_decide_no_module:
  "scope_decide (ts, [], cs) =
     (if ts \<noteq> [] \<and> cs \<noteq> [] then scope_bad SCOPE_MIXED ''ERROR: PR spans mixed scopes: terragrunt and config. A PR must touch exactly one scope (AC-15).''
      else if ts \<noteq> [] then scope_ok SCOPE_TERRAGRUNT None else scope_ok SCOPE_CONFIG None)"
  by (auto simp: scope_decide_def)

lemma scope_decide_one_module:
  "ts = [] \<and> cs = [] \<Longrightarrow> scope_decide (ts, [(m, v)], cs) = scope_ok SCOPE_MODULE (Some m)"
  "ts \<noteq> [] \<or> cs \<noteq> [] \<Longrightarrow> \<exists>msg. scope_decide (ts, [(m, v)], cs) = scope_bad SCOPE_MIXED msg"
  by (auto simp: scope_decide_def dict_keys_def)

lemma scope_decide_many_modules:
  "2 \<le> length ms \<Longrightarrow> \<exists>msg. scope_decide (ts, ms, cs) = scope_bad SCOPE_MULTI_MODULE msg"
  unfolding scope_decide_def Let_def by (simp, rule exI, rule refl)

lemma scope_projections [simp]:
  "sr_scope (scope_ok n mp) = n" "sr_module_path (scope_ok n mp) = mp" "sr_valid (scope_ok n mp)"
  "sr_violations (scope_ok n mp) = []"
  "sr_scope (scope_bad n msg) = n" "sr_module_path (scope_bad n msg) = None" "\<not> sr_valid (scope_bad n msg)"
  "sr_violations (scope_bad n msg) \<noteq> []"
  by (simp_all add: scope_ok_def scope_bad_def)

section \<open>Properties\<close>


text \<open>C19. The order and repetition of the changed files never matters: two listings of the same
  set of files give the same result, violation text included.\<close>

theorem detect_scope_set_only:
  assumes "set fs = set fs'"
  shows "detect_scope fs roots tg = detect_scope fs' roots tg"
proof -
  have c: "classes roots tg fs = classes roots tg fs'" using assms by (simp add: classes_def)
  obtain ts ms cs where b: "detect_scope fs roots tg = scope_decide (ts, ms, cs)" "dict_wf ms"
    "fst ` set ms = touched_modules roots tg fs" "ts = [] \<longleftrightarrow> Terragrunt_file \<notin> classes roots tg fs"
    "cs = [] \<longleftrightarrow> Config_file \<notin> classes roots tg fs" by (rule detect_scope_buckets)
  obtain ts' ms' cs' where b': "detect_scope fs' roots tg = scope_decide (ts', ms', cs')" "dict_wf ms'"
    "fst ` set ms' = touched_modules roots tg fs'" "ts' = [] \<longleftrightarrow> Terragrunt_file \<notin> classes roots tg fs'"
    "cs' = [] \<longleftrightarrow> Config_file \<notin> classes roots tg fs'" by (rule detect_scope_buckets)
  show ?thesis
    unfolding b(1) b'(1) using b b' c by (intro scope_decide_cong) (auto simp: touched_modules_def)
qed

theorem detect_scope_set_only_witness:
  "detect_scope [''p/a/x.tf'', ''p/b/y.tf'', ''p/a/x.tf''] [''p/''] ''terragrunt/'' =
   detect_scope [''p/b/y.tf'', ''p/a/x.tf''] [''p/''] ''terragrunt/''"
  by (rule detect_scope_set_only) auto


subsection \<open>Discovering modules\<close>

lemma path_join_assoc_rel:
  "path_join p (Path False (xs @ ys)) = path_join (path_join p (Path False xs)) (Path False ys)"
  by (simp add: path_join_def)

text \<open>The module directories the override run validates.\<close>

definition has_main_tf :: "(path, string) dict \<Rightarrow> path \<Rightarrow> string \<Rightarrow> string \<Rightarrow> bool" where
  "has_main_tf fs repo rt n =
     is_file fs (path_join (path_div repo (rstrip_char (CHR ''/'') rt)) (Path False [n, ''main.tf'']))"

lemma has_main_tf_dir:
  assumes "is_file fs (path_join rp (Path False [n, ''main.tf'']))"
  shows "n \<in> set (list_dir fs rp)" "is_dir fs (path_join rp (Path False [n]))" "path_exists fs rp"
proof -
  let ?q = "Path (anchored rp) (parts rp @ [n, ''main.tf''])"
  have q: "?q \<in> fst ` set fs"
    using assms by (simp add: is_file_iff path_join_def)
  then show "n \<in> set (list_dir fs rp)" unfolding list_dir_iff by auto
  show "is_dir fs (path_join rp (Path False [n]))"
    unfolding is_dir_def by (rule bexI [OF _ q]) (simp add: path_join_def strict_prefix_def)
  show "path_exists fs rp"
    unfolding path_exists_def is_dir_def by (rule disjI2, rule bexI [OF _ q]) (simp add: strict_prefix_def)
qed

lemma discover_in_roots_set:
  "discover_in_roots fs repo roots = Inr ms \<Longrightarrow>
     set ms = {rstrip_char (CHR ''/'') rt @ ''/'' @ n | rt n. rt \<in> set roots \<and> has_main_tf fs repo rt n}"
proof (induction roots arbitrary: ms)
  case Nil
  then show ?case by simp
next
  case (Cons rt roots)
  let ?base = "rstrip_char (CHR ''/'') rt" and ?rp = "path_div repo (rstrip_char (CHR ''/'') rt)"
  show ?case
  proof (cases "path_exists fs ?rp")
    case False
    then have "\<not> has_main_tf fs repo rt n" for n
      using has_main_tf_dir(3) by (auto simp: has_main_tf_def)
    moreover have "discover_in_roots fs repo roots = Inr ms" using Cons.prems False by (simp add: Let_def)
    ultimately show ?thesis using Cons.IH [of ms] by auto
  next
    case True
    with Cons.prems obtain rest where rest: "discover_in_roots fs repo roots = Inr rest"
      and ms: "ms = map (\<lambda>n. ?base @ ''/'' @ n) (filter (\<lambda>n. is_dir fs (path_join ?rp (Path False [n])) \<and>
        is_file fs (path_join ?rp (Path False [n, ''main.tf'']))) (sort (list_dir fs ?rp))) @ rest"
      by (auto simp: Let_def bindR_Inr_iff split: if_splits)
    have "{n \<in> set (list_dir fs ?rp). is_dir fs (path_join ?rp (Path False [n])) \<and>
        is_file fs (path_join ?rp (Path False [n, ''main.tf'']))} = {n. has_main_tf fs repo rt n}"
      using has_main_tf_dir(1,2) by (auto simp: has_main_tf_def)
    then have "set ms = (\<lambda>n. ?base @ ''/'' @ n) ` {n. has_main_tf fs repo rt n} \<union> set rest"
      unfolding ms by auto
    with Cons.IH [OF rest] show ?thesis by auto
  qed
qed

lemma discover_all_modules_set:
  assumes "discover_all_modules fs roots repo = Inr ms"
  shows "sorted ms \<and>
     set ms = {rstrip_char (CHR ''/'') rt @ ''/'' @ n | rt n. rt \<in> set roots \<and> has_main_tf fs (path_of repo) rt n}"
proof -
  obtain x where x: "discover_in_roots fs (path_of repo) roots = Inr x" "ms = sort x"
    using assms by (auto simp: discover_all_modules_def bindR_Inr_iff)
  with discover_in_roots_set [OF x(1)] show ?thesis by simp
qed

text \<open>D43: with the administrator's override, a run that returns reports the scope \<open>all\<close>
  with a non-empty, sorted module list; it consists of exactly the directories right below a
  configured root that hold a \<open>main.tf\<close>; the list written to the output file is the JSON text
  that decodes to the same list. If there is none, the run fails and no file changes.\<close>

theorem scope_all_never_empty:
  assumes "parse_scope_config config = Inr (roots, tg)"
  shows "(\<forall>r s'. run_ci_detect_scope changed True config out repo s = (Inr r, s') \<longrightarrow>
       cs_scope r = SCOPE_ALL \<and> cs_modules r \<noteq> [] \<and> sorted (cs_modules r) \<and>
       set (cs_modules r) = {rstrip_char (CHR ''/'') rt @ ''/'' @ n | rt n.
          rt \<in> set roots \<and> has_main_tf (files s) (path_of repo) rt n} \<and>
       (\<exists>txt. loads txt = Some (JList (map JStr (cs_modules r))) \<and>
          suffix (''modules='' @ txt @ [CHR 0x0A] @ ''version_only=false'' @ [CHR 0x0A])
            (the_default [] (map_of (files s') (path_of out))))) \<and>
     (discover_all_modules (files s) roots repo = Inr [] \<longrightarrow>
       (\<exists>s'. run_ci_detect_scope changed True config out repo s = (Inl D43ViolationError, s') \<and>
          files s' = files s))"
proof (intro conjI allI impI)
  fix r s'
  assume run: "run_ci_detect_scope changed True config out repo s = (Inr r, s')"
  then obtain ms where ms: "discover_all_modules (files s) roots repo = Inr ms" "ms \<noteq> []"
    "write_ci_output out SCOPE_ALL [] ms False s = (Inr (), s')"
    "r = \<lparr>cs_scope = SCOPE_ALL, cs_module_path = [], cs_modules = ms, cs_version_only = None,
        cs_valid = True, cs_violations = []\<rparr>"
    using assms by (auto simp: run_ci_detect_scope_def ci_Inr_iffs split: if_splits)
  show "cs_scope r = SCOPE_ALL" "cs_modules r \<noteq> []" using ms by simp_all
  show "sorted (cs_modules r)"
    "set (cs_modules r) = {rstrip_char (CHR ''/'') rt @ ''/'' @ n | rt n.
          rt \<in> set roots \<and> has_main_tf (files s) (path_of repo) rt n}"
    using discover_all_modules_set [OF ms(1)] ms(4) by simp_all
  let ?txt = "dumps dflt_opts (JList (map JStr ms))"
  have "loads ?txt = Some (JList (map JStr ms))" by (rule loads_dumps) auto
  moreover have "suffix (''modules='' @ ?txt @ [CHR 0x0A] @ ''version_only=false'' @ [CHR 0x0A])
      (the_default [] (map_of (files s') (path_of out)))"
    using write_outputs_Inr [OF ms(3) [unfolded write_ci_output_def]]
    by (auto simp: suffix_def show_bool_def simp del: dumps.simps)
  ultimately show "\<exists>txt. loads txt = Some (JList (map JStr (cs_modules r))) \<and>
      suffix (''modules='' @ txt @ [CHR 0x0A] @ ''version_only=false'' @ [CHR 0x0A])
        (the_default [] (map_of (files s') (path_of out)))"
    using ms(4) by auto
next
  assume "discover_all_modules (files s) roots repo = Inr []"
  with assms show "\<exists>s'. run_ci_detect_scope changed True config out repo s = (Inl D43ViolationError, s') \<and>
      files s' = files s"
    by (auto simp: run_ci_detect_scope_def bindC_def thenC_def)
qed

lemma aggregate_loop_Inr:
  "aggregate_loop jobs failed unrec = Inr () \<longleftrightarrow> failed = [] \<and> unrec = [] \<and>
     (\<forall>(j, d) \<in> set jobs. \<exists>kvs r. d = JObj kvs \<and> map_of kvs ''result'' = Some (JStr r) \<and>
        r \<in> {''success'', ''skipped''})"
proof (induction jobs arbitrary: failed unrec)
  case Nil
  then show ?case by simp
next
  case (Cons jd jobs)
  obtain j d where jd: "jd = (j, d)" by force
  show ?case
  proof (cases d)
    case (JObj kvs)
    show ?thesis
    proof (cases "map_of kvs ''result''")
      case None
      with Cons jd JObj show ?thesis by (auto simp: json_get_default_def job_verdict_def)
    next
      case (Some v)
      with Cons jd JObj show ?thesis
        by (cases v) (auto simp: json_get_default_def job_verdict_def)
    qed
  qed (auto simp: jd json_get_default_def)
qed

text \<open>The gate over the required jobs passes if and only if every job of the needs map
  reports success or skipped: it exits 0 in that case, and otherwise never.\<close>

theorem required_checks_pass_iff:
  "aggregate_main results = Inl (SystemExit 0) \<longleftrightarrow>
     (\<exists>jobs. loads results = Some (JObj jobs) \<and>
        (\<forall>(j, d) \<in> set jobs. \<exists>kvs r. d = JObj kvs \<and> map_of kvs ''result'' = Some (JStr r) \<and>
           r \<in> {''success'', ''skipped''}))"
proof -
  have n: "aggregate_loop jobs f u \<noteq> Inl (SystemExit n)" for jobs f u n
    by (induction jobs f u rule: aggregate_loop.induct)
      (auto simp: bindR_Inl_iff json_get_default_def job_verdict_def split: json.splits option.splits bool.splits)
  have r: "aggregate_results v = Inr () \<longleftrightarrow> (\<exists>jobs. v = JObj jobs \<and> aggregate_loop jobs [] [] = Inr ())" for v
    by (cases v) (auto simp: aggregate_results_def)
  have x: "aggregate_results v \<noteq> Inl (SystemExit 0)" for v
    using n by (cases v) (auto simp: aggregate_results_def)
  have "aggregate_main results = Inl (SystemExit 0) \<longleftrightarrow>
      (\<exists>v. loads results = Some v \<and> aggregate_results v = Inr ())"
  proof (cases "loads results")
    case (Some v)
    show ?thesis
    proof (cases "aggregate_results v")
      case (Inl e)
      then show ?thesis using Some x [of v] by (cases e) (auto simp: aggregate_main_def json_loads_def)
    qed (simp add: aggregate_main_def json_loads_def Some)
  qed (simp add: aggregate_main_def json_loads_def)
  then show ?thesis unfolding r aggregate_loop_Inr by auto
qed

theorem required_checks_pass_iff_witness:
  "aggregate_main (dumps dflt_opts (JObj [(''a'', JObj [(''result'', JStr ''success'')]),
     (''b'', JObj [(''result'', JStr ''skipped'')])])) = Inl (SystemExit 0)"
proof -
  let ?v = "JObj [(''a'', JObj [(''result'', JStr ''success'')]), (''b'', JObj [(''result'', JStr ''skipped'')])]"
  have "loads (dumps dflt_opts ?v) = Some ?v" by (rule loads_dumps) auto
  then show ?thesis unfolding required_checks_pass_iff by auto
qed

theorem scope_all_never_empty_witness:
  "cs_modules (projr (fst (run_ci_detect_scope []  True
      (JObj [(''module_roots'', JList [JStr ''p/'']), (''terragrunt_root'', JStr ''t/'')]) ''out'' ''.''
      \<lparr>world = (), cmds = [], environ = [], files = [(path_of ''p/a/main.tf'', []), (path_of ''p/tests/x.go'', [])],
       readonly = [], printed = []\<rparr>))) \<noteq> []"
proof -
  let ?c = "JObj [(''module_roots'', JList [JStr ''p/'']), (''terragrunt_root'', JStr ''t/'')]"
  let ?s = "\<lparr>world = (), cmds = [], environ = [], files = [(path_of ''p/a/main.tf'', []), (path_of ''p/tests/x.go'', [])],
       readonly = [], printed = []\<rparr> :: unit ci_state"
  have c: "parse_scope_config ?c = Inr ([''p/''], ''t/'')" by code_simp
  have "isl (fst (run_ci_detect_scope [] True ?c ''out'' ''.'' ?s)) = False" by code_simp
  then obtain r s' where "run_ci_detect_scope [] True ?c ''out'' ''.'' ?s = (Inr r, s')"
    by (metis isl_def prod.collapse sum.collapse(2))
  with scope_all_never_empty [OF c, of "[]" "''out''" "''.''" ?s] show ?thesis by auto
qed

lemma rstrip_char_slash: "base = [] \<or> last base \<noteq> c \<Longrightarrow> rstrip_char c (base @ [c]) = base"
  by (cases base rule: rev_cases) (auto simp: rstrip_char_def rstrip_by_def)

text \<open>A file that lies directly below a module root is taken for a module of its own: the
  change of that single file is a valid module change whose module path is the path of the file
  itself, not a configuration change.\<close>

theorem file_below_root_is_module:
  assumes "leaf \<noteq> []" "CHR ''/'' \<notin> set leaf" "base = [] \<or> last base \<noteq> CHR ''/''"
    and "\<not> startswith (base @ ''/'' @ leaf) tg"
  shows "detect_scope [base @ ''/'' @ leaf] [base @ ''/''] tg = scope_ok SCOPE_MODULE (Some (base @ ''/'' @ leaf))"
proof -
  let ?f = "base @ ''/'' @ leaf"
  have "find_module_path ?f (base @ ''/'') = Some ?f"
    using assms split_on_noop [of "CHR ''/''" leaf] rstrip_char_slash [of base "CHR ''/''"]
    by (simp add: find_module_path_def)
  moreover have "matched_root [base @ ''/''] ?f = Some (base @ ''/'')"
    by (simp add: matched_root_def)
  ultimately show ?thesis
    using assms(4) by (simp add: detect_scope_def scope_step_def scope_decide_def dict_append_def dict_keys_def)
qed

theorem file_below_root_is_module_witness:
  "sr_module_path (detect_scope [''providers/aws/primitives/README.md''] [''providers/aws/primitives/''] ''terragrunt/'')
     = Some ''providers/aws/primitives/README.md''"
  using file_below_root_is_module [of "''README.md''" "''providers/aws/primitives''" "''terragrunt/''"]
  by (simp add: scope_ok_def)

end
