(* ===== verification/Override.thy ===== *)
theory Override
  imports Scope
begin

text \<open>
  Who may widen a change to the whole repository: \<open>scripts/check_scope_override.py\<close> for pull
  requests and \<open>scripts/check_merged_pr_override.py\<close> for pushes and the merge queue. All
  three entry paths share one contract, stated as the locale \<open>override_gate\<close> and
  interpreted for each of them: the override is granted only after the organisation API
  answered \<open>admin\<close> for the author, and every failure leaves the output file alone.

  \<open>gh\<close> stands for the result of \<open>shutil.which("gh")\<close>.
\<close>

section \<open>Pull requests\<close>

definition SCOPE_OVERRIDE_LABEL :: string where
  "SCOPE_OVERRIDE_LABEL = ''detect-scope-override''"

definition parse_labels :: "string \<Rightarrow> exn + string list" where
  "parse_labels raw =
     (if startswith (strip raw) ''['' then
        bindR (json_loads (strip raw)) (\<lambda>decoded. case decoded of
            JList ls \<Rightarrow> Inr (filter (\<lambda>l. l \<noteq> []) (map (\<lambda>l. strip (py_str l)) ls))
          | _ \<Rightarrow> Inl TypeError)
      else Inr (filter (\<lambda>l. l \<noteq> []) (map strip (split_on (CHR '','') raw))))"

definition membership_cmd :: "string \<Rightarrow> string \<Rightarrow> string \<Rightarrow> command" where
  "membership_cmd gh org author =
     Command [gh, ''api'', ''orgs/'' @ org @ ''/memberships/'' @ author, ''--jq'', ''.role''] None"

definition is_admin_member :: "'w runner \<Rightarrow> string option \<Rightarrow> string \<Rightarrow> string \<Rightarrow> ('w, bool) ci" where
  "is_admin_member runner gh org author = (case gh of
      None \<Rightarrow> raise AuthorizationError
    | Some gh_binary \<Rightarrow> bindC (run_cmd runner (membership_cmd gh_binary org author)) (\<lambda>r.
        if returncode r \<noteq> 0 then raise AuthorizationError
        else ret (strip (stdout r) = ''admin'')))"

definition check_scope_override ::
  "string list \<Rightarrow> string \<Rightarrow> 'w runner \<Rightarrow> string option \<Rightarrow> string \<Rightarrow> string \<Rightarrow> ('w, unit) ci" where
  "check_scope_override labels author runner gh org output_path =
     (if SCOPE_OVERRIDE_LABEL \<notin> set labels then write_output output_path ''scope_override'' ''false''
      else bindC (is_admin_member runner gh org author) (\<lambda>admin.
        if \<not> admin then raise AuthorizationError
        else write_output output_path ''scope_override'' ''true''))"

definition check_scope_override_main ::
  "'w runner \<Rightarrow> string option \<Rightarrow> string \<Rightarrow> string \<Rightarrow> string \<Rightarrow> string \<Rightarrow> ('w, unit) ci" where
  "check_scope_override_main runner gh labels_arg author org output_path =
     bindC (lift (parse_labels labels_arg)) (\<lambda>label_list.
       try_except (check_scope_override label_list author runner gh org output_path)
         (\<lambda>e. e = AuthorizationError) die)"

section \<open>Pushes and the merge queue\<close>

text \<open>A \<open>gh api\<close> call with \<open>check=True\<close>: \<open>CalledProcessError\<close> becomes the lookup error.\<close>

definition gh_lookup :: "'w runner \<Rightarrow> string option \<Rightarrow> string \<Rightarrow> ('w, string) ci" where
  "gh_lookup runner gh endpoint = (case gh of
      None \<Rightarrow> raise MergedPrLookupError
    | Some gh_binary \<Rightarrow> bindC (run runner [gh_binary, ''api'', endpoint]) (\<lambda>r.
        if returncode r \<noteq> 0 then raise MergedPrLookupError else ret (strip (stdout r))))"

definition fetch_merged_pr :: "'w runner \<Rightarrow> string option \<Rightarrow> string \<Rightarrow> string \<Rightarrow> ('w, json option) ci" where
  "fetch_merged_pr runner gh repo commit_sha =
     bindC (gh_lookup runner gh (''repos/'' @ repo @ ''/commits/'' @ commit_sha @ ''/pulls'')) (\<lambda>out.
       if out = [] then ret None
       else (case loads out of
           None \<Rightarrow> raise MergedPrLookupError
         | Some (JList (JObj kvs # _)) \<Rightarrow> ret (Some (JObj kvs))
         | Some (JList (_ # _)) \<Rightarrow> raise MergedPrLookupError
         | Some _ \<Rightarrow> ret None))"

definition hex_digit :: "char \<Rightarrow> bool" where
  "hex_digit c = (is_digit c \<or> between (CHR ''a'') (CHR ''f'') c \<or> between (CHR ''A'') (CHR ''F'') c)"

text \<open>\<open>pr-(\d+)-[0-9a-fA-F]+$\<close>.\<close>

definition MERGE_GROUP_REF_PR_PATTERN :: rx where
  "MERGE_GROUP_REF_PR_PATTERN =
     Seq (Lit ''pr-'') (Seq (Grp ''1'' (Plus True (Cls is_digit)))
       (Seq (Ch (CHR ''-'')) (Seq (Plus True (Cls hex_digit)) EndD)))"

definition parse_pr_number_from_merge_group_ref :: "string \<Rightarrow> exn + int" where
  "parse_pr_number_from_merge_group_ref merge_group_ref =
     (case re_search MERGE_GROUP_REF_PR_PATTERN (strip merge_group_ref) of
        None \<Rightarrow> Inl MergedPrLookupError
      | Some (_, cs) \<Rightarrow> (case py_int (the_default [] (cap_of ''1'' cs)) of
          None \<Rightarrow> Inl ValueError | Some n \<Rightarrow> Inr n))"

definition fetch_pr_by_number :: "'w runner \<Rightarrow> string option \<Rightarrow> string \<Rightarrow> int \<Rightarrow> ('w, json option) ci" where
  "fetch_pr_by_number runner gh repo pr_number =
     bindC (gh_lookup runner gh (''repos/'' @ repo @ ''/pulls/'' @ show_int pr_number)) (\<lambda>out.
       if out = [] then ret None
       else (case loads out of
           Some (JObj kvs) \<Rightarrow> ret (Some (JObj kvs))
         | _ \<Rightarrow> raise MergedPrLookupError))"

definition nonblank :: "json option \<Rightarrow> string option" where
  "nonblank v = (case v of Some (JStr s) \<Rightarrow> if strip s = [] then None else Some (strip s) | _ \<Rightarrow> None)"

definition json_field :: "json \<Rightarrow> string \<Rightarrow> json option" where
  "json_field v k = (case v of JObj kvs \<Rightarrow> map_of kvs k | _ \<Rightarrow> None)"

definition extract_label_names :: "json \<Rightarrow> string list" where
  "extract_label_names pr = (case json_field pr ''labels'' of
      Some (JList ls) \<Rightarrow> List.map_filter (\<lambda>l. nonblank (json_field l ''name'')) ls
    | _ \<Rightarrow> [])"

definition extract_author :: "json \<Rightarrow> string option" where
  "extract_author pr = (case json_field pr ''user'' of
      Some (JObj u) \<Rightarrow> nonblank (map_of u ''login'') | _ \<Rightarrow> None)"

definition authorize_pr_scope_override ::
  "json \<Rightarrow> 'w runner \<Rightarrow> string option \<Rightarrow> string \<Rightarrow> string \<Rightarrow> ('w, bool) ci" where
  "authorize_pr_scope_override pr runner gh org output_path =
     (if SCOPE_OVERRIDE_LABEL \<notin> set (extract_label_names pr) then
        thenC (write_output output_path ''scope_override'' ''false'') (ret False)
      else (case extract_author pr of
          None \<Rightarrow> raise MergedPrLookupError
        | Some author \<Rightarrow> bindC (is_admin_member runner gh org author) (\<lambda>admin.
            if \<not> admin then raise AuthorizationError
            else thenC (write_output output_path ''scope_override'' ''true'') (ret True))))"

definition resolve_push_scope_override ::
  "string \<Rightarrow> string \<Rightarrow> 'w runner \<Rightarrow> string option \<Rightarrow> string \<Rightarrow> string \<Rightarrow> ('w, bool) ci" where
  "resolve_push_scope_override commit_sha repo runner gh org output_path =
     bindC (fetch_merged_pr runner gh repo commit_sha) (\<lambda>pr. case pr of
         None \<Rightarrow> thenC (write_output output_path ''scope_override'' ''false'') (ret False)
       | Some p \<Rightarrow> authorize_pr_scope_override p runner gh org output_path)"

definition resolve_merge_group_scope_override ::
  "string \<Rightarrow> string \<Rightarrow> 'w runner \<Rightarrow> string option \<Rightarrow> string \<Rightarrow> string \<Rightarrow> ('w, bool) ci" where
  "resolve_merge_group_scope_override merge_group_ref repo runner gh org output_path =
     bindC (lift (parse_pr_number_from_merge_group_ref merge_group_ref)) (\<lambda>pr_number.
     bindC (fetch_pr_by_number runner gh repo pr_number) (\<lambda>pr. case pr of
         None \<Rightarrow> raise MergedPrLookupError
       | Some p \<Rightarrow> authorize_pr_scope_override p runner gh org output_path))"

text \<open>Exactly one of \<open>--commit-sha\<close> and \<open>--merge-group-ref\<close> is given.\<close>

definition check_merged_pr_override_main ::
  "'w runner \<Rightarrow> string option \<Rightarrow> string \<Rightarrow> string option \<Rightarrow> string \<Rightarrow> string \<Rightarrow> string \<Rightarrow> ('w, bool) ci" where
  "check_merged_pr_override_main runner gh commit_sha merge_group_ref repo org output_path =
     try_except (case merge_group_ref of
         Some r \<Rightarrow> resolve_merge_group_scope_override r repo runner gh org output_path
       | None \<Rightarrow> resolve_push_scope_override commit_sha repo runner gh org output_path)
       (\<lambda>e. e = AuthorizationError \<or> e = MergedPrLookupError) die"

section \<open>The contract of an entry path\<close>

text \<open>The last command of the run asked for the author's role, and the answer was \<open>admin\<close>.\<close>

definition admin_confirmed :: "'w runner \<Rightarrow> string option \<Rightarrow> string \<Rightarrow> 'w ci_state \<Rightarrow> bool" where
  "admin_confirmed runner gh org s' =
     (\<exists>gh_binary author cs w c. gh = Some gh_binary \<and> cmds s' = cs @ [membership_cmd gh_binary org author] \<and>
        runner (membership_cmd gh_binary org author) w = (Some c, world s') \<and>
        returncode c = 0 \<and> strip (stdout c) = ''admin'')"

definition decided :: "string \<Rightarrow> bool \<Rightarrow> 'w ci_state \<Rightarrow> 'w ci_state \<Rightarrow> bool" where
  "decided output_path b s s' =
     (map_of (files s') (path_of output_path) =
        Some (the_default [] (map_of (files s) (path_of output_path)) @ ''scope_override='' @ show_bool b @ [CHR 0x0A]))"

locale override_gate =
  fixes gate :: "'w runner \<Rightarrow> string option \<Rightarrow> string \<Rightarrow> string \<Rightarrow> ('w, 'a) ci"
  assumes decides: "gate runner gh org out s = (Inr x, s') \<Longrightarrow>
      decided out False s s' \<or> (decided out True s s' \<and> admin_confirmed runner gh org s')"
    and silent: "gate runner gh org out s = (Inl e, s') \<Longrightarrow> e \<noteq> OSError \<Longrightarrow> files s' = files s"
begin

lemma not_both: "decided out True s s' \<Longrightarrow> decided out False s s' \<Longrightarrow> False"
  by (simp add: decided_def show_bool_def)

text \<open>Granting requires the confirmation, and every other ending grants nothing.\<close>

lemma grant_needs_admin:
  assumes "gate runner gh org out s = (r, s')" and "decided out True s s'"
    and "r \<noteq> Inl OSError"
  shows "admin_confirmed runner gh org s'"
proof (cases r)
  case (Inl e)
  then have "files s' = files s" using silent assms by blast
  then have False
    using assms(2) by (cases "map_of (files s) (path_of out)") (simp_all add: decided_def)
  then show ?thesis ..
next
  case (Inr x)
  then show ?thesis using decides [of runner gh org out s x s'] not_both assms by blast
qed

lemma main_grant_needs_admin:
  assumes "try_except (gate runner gh org out) p die s = (r, s')" and "decided out True s s'"
    and "r \<noteq> Inl OSError" and "\<not> p OSError"
  shows "admin_confirmed runner gh org s'"
proof -
  obtain q t where g: "gate runner gh org out s = (q, t)" by force
  with assms(1) have "t = s'" by (cases q) (auto simp: try_except_def split: if_splits)
  moreover have "q \<noteq> Inl OSError" using g assms(1,3,4) by (auto simp: try_except_def)
  ultimately show ?thesis using grant_needs_admin g assms(2) by blast
qed

end

lemma write_decides:
  "write_output out ''scope_override'' (show_bool b) s = (Inr (), s') \<Longrightarrow>
     decided out b s s' \<and> world s' = world s \<and> cmds s' = cmds s"
  using append_text_lookup [of "path_of out" "''scope_override'' @ ''='' @ show_bool b @ [CHR 0x0A]" s s']
  by (auto simp: write_output_def append_text_def decided_def split: if_splits option.splits)

lemma write_decides_cases:
  "write_output out ''scope_override'' ''true'' s = (Inr x, s') \<Longrightarrow> decided out True s s' \<and> world s' = world s \<and> cmds s' = cmds s"
  "write_output out ''scope_override'' ''false'' s = (Inr x, s') \<Longrightarrow> decided out False s s'"
  using write_decides [of out True s s'] write_decides [of out False s s'] by (auto simp: show_bool_def)

lemma write_silent: "write_output out k v s = (Inl e, s') \<Longrightarrow> e = OSError"
  by (auto simp: write_output_def append_text_def split: if_splits)

lemma is_admin_Inr:
  "is_admin_member runner gh org author s = (Inr True, s') \<Longrightarrow> admin_confirmed runner gh org s' \<and> files s' = files s"
  by (cases gh) (auto simp: is_admin_member_def admin_confirmed_def bindC_Inr_iff run_cmd_Inr_iff split: if_splits, blast)

lemma is_admin_preserves [preserves_intros]: "preserves files (is_admin_member runner gh org author)"
  by (cases gh) (auto simp: is_admin_member_def intro!: preserves_intros)

lemma decided_files: "files t = files s \<Longrightarrow> decided out b t s' = decided out b s s'"
  by (simp add: decided_def)

lemma admin_confirmed_cong:
  "world s' = world t \<Longrightarrow> cmds s' = cmds t \<Longrightarrow> admin_confirmed runner gh org s' = admin_confirmed runner gh org t"
  by (simp add: admin_confirmed_def)

lemma grant_chain:
  assumes a: "is_admin_member runner gh org author s = (Inr True, t)"
    and w: "write_output out ''scope_override'' ''true'' t = (Inr x, s')"
  shows "decided out True s s' \<and> admin_confirmed runner gh org s'"
proof -
  note i = is_admin_Inr [OF a] and d = write_decides_cases(1) [OF w]
  show ?thesis
    using i d decided_files [of t s out True s'] admin_confirmed_cong [of s' t runner gh org] by simp
qed

interpretation pr: override_gate "check_scope_override labels author" for labels author
proof
  fix runner :: "'a runner" and gh org out and s s' :: "'a ci_state" and x
  assume "check_scope_override labels author runner gh org out s = (Inr x, s')"
  then consider "write_output out ''scope_override'' ''false'' s = (Inr x, s')"
    | t where "is_admin_member runner gh org author s = (Inr True, t)"
        "write_output out ''scope_override'' ''true'' t = (Inr x, s')"
    by (auto simp: check_scope_override_def bindC_Inr_iff split: if_splits)
  then show "decided out False s s' \<or> (decided out True s s' \<and> admin_confirmed runner gh org s')"
    by cases (blast dest: write_decides_cases(2), blast dest: grant_chain)
next
  fix runner :: "'a runner" and gh org out and s s' :: "'a ci_state" and e
  assume "check_scope_override labels author runner gh org out s = (Inl e, s')" and e: "e \<noteq> OSError"
  then consider "is_admin_member runner gh org author s = (Inl e, s')"
    | b where "is_admin_member runner gh org author s = (Inr b, s')"
    by (auto simp: check_scope_override_def bindC_Inl_iff split: if_splits dest: write_silent)
  then show "files s' = files s" by cases (auto dest: preservesD [OF is_admin_preserves])
qed

lemma authorize_decides:
  assumes "authorize_pr_scope_override p runner gh org out s = (Inr x, s')"
  shows "decided out False s s' \<or> (decided out True s s' \<and> admin_confirmed runner gh org s')"
proof -
  from assms consider "write_output out ''scope_override'' ''false'' s = (Inr (), s')"
    | author t where "is_admin_member runner gh org author s = (Inr True, t)"
        "write_output out ''scope_override'' ''true'' t = (Inr (), s')"
    by (auto simp: authorize_pr_scope_override_def ci_Inr_iffs split: if_splits option.splits)
  then show ?thesis
    by cases (blast dest: write_decides_cases(2), blast dest: grant_chain)
qed

lemma authorize_silent:
  assumes "authorize_pr_scope_override p runner gh org out s = (Inl e, s')" "e \<noteq> OSError"
  shows "files s' = files s"
proof -
  from assms consider "s' = s" | author where "is_admin_member runner gh org author s = (Inl e, s')"
    | author b where "is_admin_member runner gh org author s = (Inr b, s')"
    by (auto simp: authorize_pr_scope_override_def ci_Inl_iffs split: if_splits option.splits dest: write_silent)
  then show ?thesis by cases (auto dest: preservesD [OF is_admin_preserves])
qed

lemma gh_lookup_preserves [preserves_intros]: "preserves files (gh_lookup runner gh ep)"
  by (cases gh) (auto simp: gh_lookup_def intro!: preserves_intros)

lemma fetch_merged_preserves [preserves_intros]: "preserves files (fetch_merged_pr runner gh repo sha)"
proof -
  have "preserves files (case v of None \<Rightarrow> raise MergedPrLookupError
      | Some (JList (JObj kvs # _)) \<Rightarrow> ret (Some (JObj kvs))
      | Some (JList (_ # _)) \<Rightarrow> raise MergedPrLookupError | Some _ \<Rightarrow> ret None)" for v
    by (auto split: option.splits json.splits list.splits intro: preserves_intros)
  then show ?thesis unfolding fetch_merged_pr_def by (intro preserves_intros)
qed

lemma fetch_number_preserves [preserves_intros]: "preserves files (fetch_pr_by_number runner gh repo n)"
proof -
  have "preserves files (case v of Some (JObj kvs) \<Rightarrow> ret (Some (JObj kvs)) | _ \<Rightarrow> raise MergedPrLookupError)" for v
    by (auto split: option.splits json.splits intro: preserves_intros)
  then show ?thesis unfolding fetch_pr_by_number_def by (intro preserves_intros)
qed

interpretation push: override_gate "resolve_push_scope_override sha repo" for sha repo
proof
  fix runner :: "'a runner" and gh org out and s s' :: "'a ci_state" and x
  assume "resolve_push_scope_override sha repo runner gh org out s = (Inr x, s')"
  then obtain pr t where f: "fetch_merged_pr runner gh repo sha s = (Inr pr, t)"
    and k: "(case pr of None \<Rightarrow> thenC (write_output out ''scope_override'' ''false'') (ret False)
       | Some p \<Rightarrow> authorize_pr_scope_override p runner gh org out) t = (Inr x, s')"
    by (auto simp: resolve_push_scope_override_def bindC_Inr_iff)
  have fs: "files t = files s" using preservesD [OF fetch_merged_preserves f] .
  show "decided out False s s' \<or> (decided out True s s' \<and> admin_confirmed runner gh org s')"
  proof (cases pr)
    case None
    then have "write_output out ''scope_override'' ''false'' t = (Inr (), s')"
      using k by (auto simp: thenC_Inr_iff)
    then show ?thesis using write_decides_cases(2) [of out t "()" s'] fs decided_files [of t s] by simp
  next
    case (Some p)
    then show ?thesis using k authorize_decides [of p runner gh org out t x s'] fs decided_files [of t s] by simp
  qed
next
  fix runner :: "'a runner" and gh org out and s s' :: "'a ci_state" and e
  assume "resolve_push_scope_override sha repo runner gh org out s = (Inl e, s')" and e: "e \<noteq> OSError"
  then consider "fetch_merged_pr runner gh repo sha s = (Inl e, s')"
    | pr t p where "fetch_merged_pr runner gh repo sha s = (Inr pr, t)"
        "authorize_pr_scope_override p runner gh org out t = (Inl e, s')"
    by (auto simp: resolve_push_scope_override_def ci_Inl_iffs split: option.splits dest: write_silent)
  then show "files s' = files s"
    using e by cases (blast dest: preservesD [OF fetch_merged_preserves],
        metis preservesD [OF fetch_merged_preserves] authorize_silent)
qed

interpretation queue: override_gate "resolve_merge_group_scope_override ref repo" for ref repo
proof
  fix runner :: "'a runner" and gh org out and s s' :: "'a ci_state" and x
  assume "resolve_merge_group_scope_override ref repo runner gh org out s = (Inr x, s')"
  then obtain n pr t p where f: "fetch_pr_by_number runner gh repo n s = (Inr pr, t)"
    and a: "authorize_pr_scope_override p runner gh org out t = (Inr x, s')"
    by (auto simp: resolve_merge_group_scope_override_def ci_Inr_iffs split: option.splits)
  have "files t = files s" using preservesD [OF fetch_number_preserves f] .
  then show "decided out False s s' \<or> (decided out True s s' \<and> admin_confirmed runner gh org s')"
    using authorize_decides [OF a] decided_files by metis
next
  fix runner :: "'a runner" and gh org out and s s' :: "'a ci_state" and e
  assume "resolve_merge_group_scope_override ref repo runner gh org out s = (Inl e, s')" and e: "e \<noteq> OSError"
  then consider "s' = s" | n where "fetch_pr_by_number runner gh repo n s = (Inl e, s')"
    | n pr where "fetch_pr_by_number runner gh repo n s = (Inr pr, s')"
    | n pr t p where "fetch_pr_by_number runner gh repo n s = (Inr pr, t)"
        "authorize_pr_scope_override p runner gh org out t = (Inl e, s')"
    by (auto simp: resolve_merge_group_scope_override_def ci_Inl_iffs split: option.splits)
  then show "files s' = files s"
    using e by cases (simp, blast dest: preservesD [OF fetch_number_preserves],
        blast dest: preservesD [OF fetch_number_preserves],
        metis preservesD [OF fetch_number_preserves] authorize_silent)
qed

section \<open>Properties\<close>


text \<open>The paths without a pull-request payload, pushes and the merge queue, fail closed in
  the same way: a granted override rests on a confirmed administrator.\<close>

theorem merged_override_needs_admin:
  assumes "check_merged_pr_override_main runner gh sha ref repo org out s = (r, s')"
    and "decided out True s s'" and "r \<noteq> Inl OSError"
  shows "admin_confirmed runner gh org s'"
proof (cases ref)
  case None
  with assms(1) have "try_except (resolve_push_scope_override sha repo runner gh org out)
      (\<lambda>e. e = AuthorizationError \<or> e = MergedPrLookupError) die s = (r, s')"
    by (simp add: check_merged_pr_override_main_def)
  from push.main_grant_needs_admin [OF this assms(2,3)] show ?thesis by simp
next
  case (Some g)
  with assms(1) have "try_except (resolve_merge_group_scope_override g repo runner gh org out)
      (\<lambda>e. e = AuthorizationError \<or> e = MergedPrLookupError) die s = (r, s')"
    by (simp add: check_merged_pr_override_main_def)
  from queue.main_grant_needs_admin [OF this assms(2,3)] show ?thesis by simp
qed

text \<open>The label list the workflow passes is read back exactly: for every list of label
  names, parsing its JSON text gives the stripped, non-empty names in order.\<close>

theorem parse_labels_of_json:
  "parse_labels (dumps dflt_opts (JList (map JStr ls))) = Inr (filter (\<lambda>l. l \<noteq> []) (map strip ls))"
proof -
  let ?t = "dumps dflt_opts (JList (map JStr ls))"
  have "loads ?t = Some (JList (map JStr ls))" by (rule loads_dumps) auto
  moreover have "strip ?t = ?t" by (rule strip_by_id) (simp add: is_ws_def)
  moreover have "startswith ?t ''[''" by simp
  ultimately show ?thesis
    unfolding parse_labels_def json_loads_def by (simp add: py_str_def comp_def)
qed

subsection \<open>The queued pull request\<close>

lemma re_search_Some:
  "re_search r s = Some st \<Longrightarrow> \<exists>u v. s = u @ v \<and> re_match r v = Some st"
proof (induction s)
  case Nil
  then show ?case by (intro exI [of _ "[]"]) simp
next
  case (Cons c s)
  show ?case
  proof (cases "re_match r (c # s)")
    case None
    then obtain u v where "s = u @ v" "re_match r v = Some st" using Cons by auto
    then show ?thesis by (intro exI [of _ "c # u"] exI [of _ v]) simp
  next
    case (Some st')
    with Cons.prems show ?thesis by (intro exI [of _ "[]"] exI [of _ "c # s"]) simp
  qed
qed

lemma re_search_found: "re_match r v \<noteq> None \<Longrightarrow> re_search r (u @ v) \<noteq> None"
proof (induction u)
  case Nil
  then show ?case by (cases v) (auto split: option.splits)
qed (auto split: option.splits)

lemma hex_not_newline: "hex_digit c \<Longrightarrow> c \<noteq> CHR 0x0A \<and> c \<noteq> CHR ''-''"
  by (auto simp: hex_digit_def is_digit_def between_def)

lemma re_match_merge_ref:
  "re_match MERGE_GROUP_REF_PR_PATTERN s = Some st \<longleftrightarrow>
     (\<exists>ds hs e. s = ''pr-'' @ ds @ ''-'' @ hs @ e \<and> ds \<noteq> [] \<and> (\<forall>c \<in> set ds. is_digit c) \<and>
        hs \<noteq> [] \<and> (\<forall>c \<in> set hs. hex_digit c) \<and> (e = [] \<or> e = [CHR 0x0A]) \<and> st = (e, [(''1'', ds)]))"
  (is "_ \<longleftrightarrow> (\<exists>ds hs e. ?Q ds hs e)")
proof -
  let ?tail = "Seq (Ch (CHR ''-'')) (Seq (Plus True (Cls hex_digit)) EndD)"
  have k: "rmatch ?tail (x # t, cs) = []" if "is_digit x" for x t cs
    using that by (auto simp: is_digit_def)
  have h: "rmatch (Seq (Plus True (Cls hex_digit)) EndD) (t, cs) =
      (if t \<noteq> [] \<and> hex_digit (hd t) then rmatch EndD (dropWhile hex_digit t, cs) else [])" for t cs
    unfolding rmatch.simps(2) [of "Plus True (Cls hex_digit)"]
    by (rule plus_class_then) (use hex_not_newline in auto)
  have g: "rmatch (Seq (Grp ''1'' (Plus True (Cls is_digit))) ?tail) (t, []) =
      (if t \<noteq> [] \<and> is_digit (hd t) then rmatch ?tail (dropWhile is_digit t, [(''1'', takeWhile is_digit t)]) else [])" for t
    unfolding rmatch.simps(2) [of "Grp _ _"] using grp_plus_class_then [of is_digit "rmatch ?tail" "''1''" t "[]"] k
    by simp
  have m: "rmatch MERGE_GROUP_REF_PR_PATTERN (s, []) =
      (if prefix ''pr-'' s then rmatch (Seq (Grp ''1'' (Plus True (Cls is_digit))) ?tail) (drop 3 s, []) else [])"
    unfolding MERGE_GROUP_REF_PR_PATTERN_def rmatch.simps(2) [of "Lit _"] rmatch_lit
    by (simp del: rmatch.simps add: numeral_3_eq_3)
  show ?thesis
  proof
    assume "re_match MERGE_GROUP_REF_PR_PATTERN s = Some st"
    then have ne: "rmatch MERGE_GROUP_REF_PR_PATTERN (s, []) = st # tl (rmatch MERGE_GROUP_REF_PR_PATTERN (s, []))"
      by (auto simp: re_match_def split: list.splits)
    then have p: "prefix ''pr-'' s" using m by (auto split: if_splits)
    define t where "t = drop 3 s"
    have s: "s = ''pr-'' @ t" using p by (auto simp: t_def prefix_def)
    from ne m p have t: "t \<noteq> []" "is_digit (hd t)"
      "rmatch ?tail (dropWhile is_digit t, [(''1'', takeWhile is_digit t)]) = st # tl (rmatch MERGE_GROUP_REF_PR_PATTERN (s, []))"
      unfolding t_def [symmetric] g by (auto split: if_splits)
    from t(3) obtain u where u: "dropWhile is_digit t = CHR ''-'' # u"
      by (cases "dropWhile is_digit t") (auto split: if_splits)
    with t(3) have v: "u \<noteq> []" "hex_digit (hd u)" "dropWhile hex_digit u = [] \<or> dropWhile hex_digit u = [CHR 0x0A]"
      "st = (dropWhile hex_digit u, [(''1'', takeWhile is_digit t)])"
      using h [of u "[(''1'', takeWhile is_digit t)]"] by (auto split: if_splits)
    have "t = takeWhile is_digit t @ CHR ''-'' # u" using u takeWhile_dropWhile_id [of is_digit t] by simp
    moreover have "takeWhile is_digit t \<noteq> []" using t by (cases t) auto
    moreover have "takeWhile hex_digit u \<noteq> []" using v by (cases u) auto
    ultimately have "?Q (takeWhile is_digit t) (takeWhile hex_digit u) (dropWhile hex_digit u)"
      using s v by (auto dest: set_takeWhileD)
    then show "\<exists>ds hs e. ?Q ds hs e" by blast
  next
    assume "\<exists>ds hs e. ?Q ds hs e"
    then obtain ds hs e where q: "?Q ds hs e" by blast
    have d: "takeWhile is_digit (ds @ ''-'' @ hs @ e) = ds" "dropWhile is_digit (ds @ ''-'' @ hs @ e) = ''-'' @ hs @ e"
      using q takeWhile_run [of ds is_digit "''-'' @ hs @ e"] by (auto simp: is_digit_def)
    have e: "e = [] \<or> \<not> hex_digit (hd e)" using q by (auto simp: hex_digit_def is_digit_def between_def)
    then have x: "dropWhile hex_digit (hs @ e) = e" using q takeWhile_run [of hs hex_digit e] by auto
    have "is_digit (hd (ds @ ''-'' @ hs @ e))" "hex_digit (hd (hs @ e))" using q by (cases ds; cases hs; auto)+
    moreover have "rmatch ?tail (''-'' @ hs @ e, cs) = rmatch (Seq (Plus True (Cls hex_digit)) EndD) (hs @ e, cs)" for cs
      by simp
    ultimately have "rmatch MERGE_GROUP_REF_PR_PATTERN (s, []) = [st]"
      using q d x m g [of "ds @ ''-'' @ hs @ e"] h [of "hs @ e" "[(''1'', ds)]"] by auto
    then show "re_match MERGE_GROUP_REF_PR_PATTERN s = Some st" by (simp add: re_match_def)
  qed
qed

lemma first_sep_unique:
  "x @ c # a = y @ c # b \<Longrightarrow> c \<notin> set x \<Longrightarrow> c \<notin> set y \<Longrightarrow> x = y \<and> a = b"
proof (induction x arbitrary: y)
  case Nil
  then show ?case by (cases y) auto
next
  case (Cons d x)
  then show ?case by (cases y) auto
qed

lemma last_sep_unique:
  assumes "a @ c # x = b @ c # y" "c \<notin> set x" "c \<notin> set y"
  shows "a = b \<and> x = y"
proof -
  have "rev x @ c # rev a = rev y @ c # rev b" using assms(1) by (metis rev.simps(2) rev_append append_assoc append_Cons append_Nil)
  moreover have "c \<notin> set (rev x)" "c \<notin> set (rev y)" using assms by auto
  ultimately have "rev x = rev y \<and> rev a = rev b"
    by (rule first_sep_unique)
  then show ?thesis by simp
qed

text \<open>The number of the queued pull request is recovered from the merge-queue ref whatever
  the name of the base branch is, hyphens, slashes or text like \<open>pr-1-\<close> included.\<close>

theorem merge_group_ref_number:
  assumes "pre = [] \<or> \<not> is_ws (hd pre)" "sha \<noteq> []" "\<forall>c \<in> set sha. hex_digit c"
  shows "parse_pr_number_from_merge_group_ref (pre @ ''pr-'' @ show_nat n @ ''-'' @ sha) = Inr (int n)"
proof -
  let ?r = "pre @ ''pr-'' @ show_nat n @ ''-'' @ sha"
  have hx: "hex_digit c \<Longrightarrow> \<not> is_ws c" for c
    by (auto simp: hex_digit_def is_digit_not_ws) (auto simp: between_def is_ws_def Let_def)
  have st: "strip ?r = ?r"
    by (rule strip_by_id) (use assms hx in \<open>cases pre; auto simp: is_ws_def\<close>)
  have nd: "CHR ''-'' \<notin> set sha" "CHR ''-'' \<notin> set (show_nat n)"
    using assms(3) show_nat_digits [of n] hex_not_newline by (auto simp: is_digit_def)
  have "re_match MERGE_GROUP_REF_PR_PATTERN (''pr-'' @ show_nat n @ ''-'' @ sha) = Some ([], [(''1'', show_nat n)])"
    unfolding re_match_merge_ref using assms show_nat_digits [of n] by force
  then obtain w where w: "re_search MERGE_GROUP_REF_PR_PATTERN ?r = Some w"
    using re_search_found by fastforce
  then obtain u v where v: "?r = u @ v" "re_match MERGE_GROUP_REF_PR_PATTERN v = Some w"
    using re_search_Some by blast
  then obtain ds hs e where q: "v = ''pr-'' @ ds @ ''-'' @ hs @ e" "\<forall>c \<in> set ds. is_digit c"
    "\<forall>c \<in> set hs. hex_digit c" "e = [] \<or> e = [CHR 0x0A]" "w = (e, [(''1'', ds)])"
    unfolding re_match_merge_ref by blast
  have "last ?r = last sha" using assms(2) by simp
  then have "last ?r \<noteq> CHR 0x0A" using assms(2,3) hex_not_newline last_in_set by metis
  moreover have "last (u @ v) = CHR 0x0A" if "e = [CHR 0x0A]" using that q(1) by simp
  ultimately have e: "e = []" using v(1) q(4) by metis
  have eq: "(u @ ''pr-'' @ ds) @ CHR ''-'' # hs = (pre @ ''pr-'' @ show_nat n) @ CHR ''-'' # sha"
    using v(1) q(1) e by simp
  have nd': "CHR ''-'' \<notin> set hs" "CHR ''-'' \<notin> set ds" using q hex_not_newline by (auto simp: is_digit_def)
  have "u @ ''pr-'' @ ds = pre @ ''pr-'' @ show_nat n"
    using last_sep_unique [OF eq nd'(1) nd(1)] by simp
  then have "(u @ ''pr'') @ CHR ''-'' # ds = (pre @ ''pr'') @ CHR ''-'' # show_nat n" by simp
  from last_sep_unique [OF this nd'(2) nd(2)] have "ds = show_nat n" by simp
  then show ?thesis
    using w st q(5) py_int_show_int [of "int n"]
    by (simp add: parse_pr_number_from_merge_group_ref_def cap_of_def show_int_def)
qed

theorem merge_group_ref_number_witness:
  "parse_pr_number_from_merge_group_ref ''gh-readonly-queue/pr-1-x/pr-161-1edfc05'' = Inr 161"
proof -
  have h: "\<forall>c \<in> set ''1edfc05''. hex_digit c" and w: "\<not> is_ws (CHR ''g'')" by code_simp+
  have n: "show_nat 161 = ''161''" by code_simp
  show ?thesis using merge_group_ref_number [of "''gh-readonly-queue/pr-1-x/''" "''1edfc05''" 161] h w n by simp
qed

text \<open>An organisation that knows one administrator.\<close>

definition ex_org_runner :: "unit runner" where
  "ex_org_runner c w = (Some \<lparr>returncode = 0, stdout =
     (if argv c = [''gh'', ''api'', ''orgs/o/memberships/root'', ''--jq'', ''.role''] then ''admin''
      else if argv c = [''gh'', ''api'', ''repos/o/r/pulls/7'']
        then dumps dflt_opts (JObj [(''labels'', JList [JObj [(''name'', JStr ''detect-scope-override'')]]),
               (''user'', JObj [(''login'', JStr ''root'')])])
      else ''member''), stderr = []\<rparr>, w)"

definition ex_org_state :: "unit ci_state" where
  "ex_org_state = \<lparr>world = (), cmds = [], environ = [], files = [], readonly = [], printed = []\<rparr>"


theorem merged_override_needs_admin_witness:
  "admin_confirmed ex_org_runner (Some ''gh'') ''o''
     (snd (check_merged_pr_override_main ex_org_runner (Some ''gh'') [] (Some ''q/main/pr-7-ab'') ''o/r'' ''o'' ''out'' ex_org_state))"
proof -
  let ?m = "check_merged_pr_override_main ex_org_runner (Some ''gh'') [] (Some ''q/main/pr-7-ab'') ''o/r'' ''o'' ''out'' ex_org_state"
  have "fst ?m = Inr True" "decided ''out'' True ex_org_state (snd ?m)" by code_simp+
  then show ?thesis using merged_override_needs_admin [of ex_org_runner "Some ''gh''" _ _ _ "''o''" "''out''" ex_org_state "fst ?m" "snd ?m"]
    by (metis prod.collapse sum.distinct(1))
qed

end
