(* ===== verification/Release.thy ===== *)
theory Release
  imports Override
begin

text \<open>
  The steps of a release: \<open>scripts/update_version_files.py\<close>, \<open>scripts/release_steps.py\<close>,
  \<open>scripts/check_release_commit.py\<close>, \<open>scripts/generate_changelog.py\<close>,
  \<open>scripts/ci_generate_changelog.py\<close>, and its guards
  \<open>scripts/check_version_immutability.py\<close>, \<open>scripts/check_staleness.py\<close> and
  \<open>scripts/simulate_merge.py\<close>.
\<close>

section \<open>Version files\<close>

definition update_version_files :: "string \<Rightarrow> string \<Rightarrow> string \<Rightarrow> string \<Rightarrow> ('w, unit) ci" where
  "update_version_files scp module_path version repo_root =
     (if scp = SCOPE_MODULE \<and> module_path = [] then raise ValueError
      else if scp \<noteq> SCOPE_MODULE \<and> scp \<noteq> SCOPE_CONFIG then raise ValueError
      else
        (let base = path_of repo_root;
             version_file = (if scp = SCOPE_MODULE then path_div (path_div base module_path) ''VERSION''
                             else path_div base ''VERSION'')
         in bindC get_files (\<lambda>fs.
              if \<not> path_exists fs version_file then raise FileNotFoundError
              else write_text version_file (version @ [CHR 0x0A]))))"

definition update_version_files_main :: "string \<Rightarrow> string \<Rightarrow> string \<Rightarrow> string \<Rightarrow> ('w, unit) ci" where
  "update_version_files_main scp module_path version repo_root =
     thenC (try_except (update_version_files scp module_path version repo_root)
         (\<lambda>e. e = FileNotFoundError \<or> is_value_error e) die)
       (put_line (''Version files updated to '' @ version @ '' for scope='' @ repr_str scp @ ''.''))"

section \<open>Release commits\<close>

definition RELEASE_COMMIT_PREFIX :: string where "RELEASE_COMMIT_PREFIX = ''chore(release):''"
definition BOT_ACTOR :: string where "BOT_ACTOR = ''github-actions[bot]''"

definition check_release_commit :: "string \<Rightarrow> string \<Rightarrow> bool" where
  "check_release_commit commit_message actor =
     (startswith commit_message RELEASE_COMMIT_PREFIX \<and> actor = BOT_ACTOR)"

definition check_release_commit_main :: "string \<Rightarrow> string \<Rightarrow> string \<Rightarrow> ('w, unit) ci" where
  "check_release_commit_main commit_message actor out =
     (let skip_value = show_bool (check_release_commit commit_message actor) in
      thenC (try_except (write_output out ''should_skip'' skip_value) is_os_error die)
        (put_line (''should_skip='' @ skip_value)))"

section \<open>Release steps\<close>

definition rs_run :: "'w runner \<Rightarrow> string list \<Rightarrow> ('w, completed) ci" where
  "rs_run runner cmd = bindC (run runner cmd) (\<lambda>r.
     if returncode r \<noteq> 0 then raise RuntimeError else ret r)"

definition run_fetch :: "'w runner \<Rightarrow> string \<Rightarrow> string \<Rightarrow> ('w, unit) ci" where
  "run_fetch runner remote branch = thenC (rs_run runner [''git'', ''fetch'', remote, branch]) (ret ())"

definition run_reset :: "'w runner \<Rightarrow> string \<Rightarrow> ('w, unit) ci" where
  "run_reset runner ref = thenC (rs_run runner [''git'', ''reset'', ''--hard'', ref]) (ret ())"

definition run_identity :: "'w runner \<Rightarrow> string \<Rightarrow> string \<Rightarrow> ('w, unit) ci" where
  "run_identity runner user email =
     thenC (rs_run runner [''git'', ''config'', ''user.name'', user])
    (thenC (rs_run runner [''git'', ''config'', ''user.email'', email]) (ret ()))"

definition run_publish ::
  "'w runner \<Rightarrow> string \<Rightarrow> string \<Rightarrow> string \<Rightarrow> string \<Rightarrow> ('w, unit) ci" where
  "run_publish runner ft changelog_path remote branch =
     bindC get_files (\<lambda>fs.
       if \<not> path_exists fs (path_of changelog_path) then raise FileNotFoundError
       else
         thenC (rs_run runner [''git'', ''add'', ''-u''])
        (thenC (rs_run runner [''git'', ''commit'', ''--allow-empty'', ''-m'', ''chore(release): '' @ ft])
        (thenC (rs_run runner [''git'', ''tag'', ft])
        (thenC (rs_run runner [''git'', ''push'', ''--atomic'', remote, branch, ft])
        (thenC (rs_run runner [''gh'', ''release'', ''create'', ft, ''--notes-file'', changelog_path,
             ''--title'', ft])
          (ret ()))))))"

text \<open>The parsed command line; \<open>--tag-prefix\<close> and \<open>--version\<close> are accepted and unused.\<close>

datatype subcommand =
    Fetch string string
  | Reset string
  | Identity string string
  | Publish string string string string

definition release_steps_main :: "'w runner \<Rightarrow> subcommand \<Rightarrow> ('w, unit) ci" where
  "release_steps_main runner sub =
     try_except (case sub of
         Fetch remote branch \<Rightarrow> run_fetch runner remote branch
       | Reset ref \<Rightarrow> run_reset runner ref
       | Identity user email \<Rightarrow> run_identity runner user email
       | Publish ft changelog_path remote branch \<Rightarrow>
           run_publish runner ft changelog_path remote branch)
       (\<lambda>e. is_runtime_error e \<or> e = FileNotFoundError \<or> is_value_error e) die"

section \<open>Changelog\<close>

definition COMMIT_TYPE_TO_SECTION :: "(string, string) dict" where
  "COMMIT_TYPE_TO_SECTION = [(''feat'', ''Features''), (''perf'', ''Performance''), (''build'', ''Build''),
     (''ci'', ''CI''), (''revert'', ''Reverts''), (''release'', ''Releases''), (''meta'', ''Meta''),
     (''module'', ''Modules''), (''fix'', ''Bug Fixes''), (''chore'', ''Chores''), (''docs'', ''Documentation''),
     (''style'', ''Style''), (''refactor'', ''Refactoring''), (''test'', ''Tests'')]"

definition cc_type_tail :: rx where
  "cc_type_tail = Seq (Opt (Seq (Ch (CHR ''('')) (Seq (Plus True (Cls (\<lambda>c. c \<noteq> CHR '')''))) (Ch (CHR '')'')))))
     (Seq (Opt (Ch (CHR ''!''))) (Ch (CHR '':'')))"

text \<open>\<open>^(?P<type>[a-z]+)(?:\([^)]+\))?!?:\<close>.\<close>

definition CC_TYPE_PATTERN :: rx where
  "CC_TYPE_PATTERN = Seq (Grp ''type'' (Plus True (Cls lower_alpha))) cc_type_tail"

definition derive_section :: "string \<Rightarrow> string \<Rightarrow> string" where
  "derive_section pr_title bt =
     (if bt = ''major'' then ''Breaking Changes''
      else (let fallback = (if bt = ''minor'' then ''Features'' else if bt = ''patch'' then ''Bug Fixes'' else ''Changes'')
            in case re_match CC_TYPE_PATTERN (strip pr_title) of
                 None \<Rightarrow> fallback
               | Some (_, cs) \<Rightarrow>
                   the_default fallback (map_of COMMIT_TYPE_TO_SECTION (the_default [] (cap_of ''type'' cs)))))"

text \<open>\<open>today\<close> is the UTC date the clock gives.\<close>

definition generate_changelog :: "string \<Rightarrow> string \<Rightarrow> string \<Rightarrow> string \<Rightarrow> string \<Rightarrow> exn + string" where
  "generate_changelog today version module_path bt pr_title =
     (if strip version = [] then Inl ValueError
      else if strip pr_title = [] then Inl ValueError
      else Inr (join [CHR 0x0A]
        [''## ['' @ version @ '']'' @ (if module_path = [] then [] else '' ('' @ module_path @ '')'') @ '' - '' @ today,
         [], ''### '' @ derive_section pr_title bt, [], ''- '' @ pr_title, []]))"

definition sanitize_path_component :: "string \<Rightarrow> string" where
  "sanitize_path_component v = replace_char (CHR ''/'') (CHR ''-'') v"

definition changelog_filename :: "string \<Rightarrow> string \<Rightarrow> string" where
  "changelog_filename module_path version =
     ''CHANGELOG-'' @ (if module_path = [] then ''config'' else sanitize_path_component module_path)
       @ ''-'' @ version @ ''.md''"

definition changelog_dir :: "string \<Rightarrow> string \<Rightarrow> path" where
  "changelog_dir dir_arg module_path =
     (if dir_arg \<noteq> [] then path_of dir_arg else if module_path \<noteq> [] then path_of module_path else path_of ''.'')"

text \<open>\<open>mkdir(parents=True, exist_ok=True)\<close>: directories are not stored, so it only fails when a
  file is in the way.\<close>

definition mkdir_ok :: "(path, string) dict \<Rightarrow> path \<Rightarrow> bool" where
  "mkdir_ok fs d = list_all (\<lambda>n. \<not> is_file fs (Path (anchored d) (take n (parts d)))) [1..<Suc (length (parts d))]"

definition ci_generate_changelog_main ::
  "string \<Rightarrow> string \<Rightarrow> string \<Rightarrow> string \<Rightarrow> string \<Rightarrow> string \<Rightarrow> string \<Rightarrow> ('w, unit) ci" where
  "ci_generate_changelog_main today version module_path bt pr_title dir_arg out =
     bindC (try_except (lift (generate_changelog today version module_path bt (squash_subject pr_title)))
        is_value_error die) (\<lambda>content.
     bindC get_files (\<lambda>fs.
     let d = changelog_dir dir_arg module_path; p = path_div d (changelog_filename module_path version) in
     if \<not> mkdir_ok fs d then die
     else thenC (try_except (write_text p content) is_os_error die)
         (thenC (try_except (write_output out ''changelog_path'' (path_str p)) is_os_error die)
           (put_line (''changelog_path='' @ path_str p)))))"

section \<open>Version immutability\<close>

definition is_version_already_published :: "string list \<Rightarrow> string \<Rightarrow> string \<Rightarrow> bool" where
  "is_version_already_published existing_tags pre version = (pre @ version \<in> set existing_tags)"

definition check_version_immutability :: "string \<Rightarrow> string option \<Rightarrow> string list \<Rightarrow> string \<Rightarrow> exn + unit" where
  "check_version_immutability current base existing_tags pre =
     (if base = Some current then Inr ()
      else if is_version_already_published existing_tags pre current then Inl ValueError
      else Inr ())"

definition run_git :: "'w runner \<Rightarrow> string list \<Rightarrow> ('w, string) ci" where
  "run_git runner cmd = bindC (run runner cmd) (\<lambda>r.
     if returncode r \<noteq> 0 then raise RuntimeError else ret (strip (stdout r)))"

definition version_file_exists_at_ref :: "'w runner \<Rightarrow> string \<Rightarrow> string \<Rightarrow> ('w, bool) ci" where
  "version_file_exists_at_ref runner version_file base_ref =
     bindC (run runner [''git'', ''cat-file'', ''-e'', base_ref @ '':'' @ version_file]) (\<lambda>r.
       ret (returncode r = 0))"

definition get_version_at_ref :: "'w runner \<Rightarrow> string \<Rightarrow> string \<Rightarrow> ('w, string option) ci" where
  "get_version_at_ref runner version_file base_ref =
     bindC (version_file_exists_at_ref runner version_file base_ref) (\<lambda>ex.
       if \<not> ex then ret None
       else bindC (run_git runner [''git'', ''show'', base_ref @ '':'' @ version_file]) (\<lambda>v. ret (Some v)))"

definition imm_fetch_git_tags :: "'w runner \<Rightarrow> ('w, string list) ci" where
  "imm_fetch_git_tags runner = bindC (run_git runner [''git'', ''tag'', ''-l'']) (\<lambda>t. ret (tag_lines t))"

definition resolve_tag_prefix :: "string \<Rightarrow> string \<Rightarrow> string \<Rightarrow> ('w, string) ci" where
  "resolve_tag_prefix scp module_path config_path =
     bindC (if scp = SCOPE_CONFIG then
              bindC (load_config config_path) (\<lambda>config.
              bindC (lift (json_get config ''config_tag_prefix'')) (\<lambda>p.
                case p of JStr (c # t) \<Rightarrow> ret (c # t) | _ \<Rightarrow> raise ValueError))
            else ret [])
       (\<lambda>ctp. lift (build_tag_prefix scp module_path ctp))"

definition main_check :: "'w runner \<Rightarrow> string \<Rightarrow> string \<Rightarrow> string \<Rightarrow> string \<Rightarrow> string \<Rightarrow> ('w, unit) ci" where
  "main_check runner version_file base_ref module_path scp config_path =
     bindC get_files (\<lambda>fs.
     if \<not> path_exists fs (path_of version_file) then raise FileNotFoundError
     else bindC (read_text (path_of version_file)) (\<lambda>t.
     bindC (get_version_at_ref runner version_file base_ref) (\<lambda>base_version.
     bindC (imm_fetch_git_tags runner) (\<lambda>existing_tags.
     bindC (resolve_tag_prefix scp module_path config_path) (\<lambda>pre.
     lift (check_version_immutability (strip t) base_version existing_tags pre))))))"

definition check_version_immutability_main ::
  "'w runner \<Rightarrow> string \<Rightarrow> string \<Rightarrow> string \<Rightarrow> string \<Rightarrow> string \<Rightarrow> ('w, unit) ci" where
  "check_version_immutability_main runner base_ref scp module_path config_path version_file =
     (if scp = SCOPE_MODULE \<and> module_path = [] then die
      else try_except (main_check runner version_file base_ref module_path scp config_path)
        (\<lambda>e. e = FileNotFoundError \<or> is_runtime_error e \<or> is_value_error e) die)"

section \<open>Staleness\<close>

definition is_path_in_scope :: "string \<Rightarrow> string \<Rightarrow> string list \<Rightarrow> bool" where
  "is_path_in_scope changed_path module_path shared_paths =
     (startswith changed_path (module_path @ ''/'') \<or> changed_path = module_path \<or>
      list_ex (\<lambda>p. startswith changed_path p \<or> changed_path = rstrip_char (CHR ''/'') p) shared_paths)"

datatype staleness = NOT_STALE | STALE

fun check_staleness :: "string list \<Rightarrow> string \<Rightarrow> string list \<Rightarrow> staleness" where
  "check_staleness [] module_path shared_paths = NOT_STALE"
| "check_staleness (p # ps) module_path shared_paths =
     (if is_path_in_scope p module_path shared_paths then STALE else check_staleness ps module_path shared_paths)"

definition diff_since_cmd :: "string \<Rightarrow> string list" where
  "diff_since_cmd merge_sha = [''git'', ''diff'', ''--name-only'', merge_sha, ''HEAD'']"

definition get_changed_files_since :: "'w runner \<Rightarrow> string \<Rightarrow> ('w, string list) ci" where
  "get_changed_files_since runner merge_sha =
     bindC (run runner (diff_since_cmd merge_sha)) (\<lambda>r.
       if returncode r \<noteq> 0 then raise RuntimeError else ret (tag_lines (stdout r)))"

definition shared_paths_arg :: "string \<Rightarrow> string list" where
  "shared_paths_arg s = map strip (filter (\<lambda>p. strip p \<noteq> []) (split_on (CHR '','') s))"

definition check_staleness_main :: "'w runner \<Rightarrow> string \<Rightarrow> string \<Rightarrow> string \<Rightarrow> ('w, unit) ci" where
  "check_staleness_main runner merge_sha module_path shared_arg =
     (if merge_sha = [] then die
      else bindC (try_except (get_changed_files_since runner merge_sha) is_runtime_error die) (\<lambda>changed.
        if module_path = [] then (if changed \<noteq> [] then die else raise (SystemExit 0))
        else if check_staleness changed module_path (shared_paths_arg shared_arg) = STALE then die
        else raise (SystemExit 0)))"

section \<open>Merge simulation\<close>

datatype merge_result = MERGE_SUCCESS | MERGE_CONFLICT

definition simulate_merge :: "'w runner \<Rightarrow> string \<Rightarrow> string \<Rightarrow> ('w, merge_result) ci" where
  "simulate_merge runner head_ref base_ref =
     bindC (run runner [''git'', ''merge-base'', base_ref, head_ref]) (\<lambda>b.
       if returncode b \<noteq> 0 then raise RuntimeError
       else bindC (run runner [''git'', ''merge-tree'', ''--write-tree'',
                ''--merge-base='' @ strip (stdout b), base_ref, head_ref]) (\<lambda>r.
         if returncode r = 0 then ret MERGE_SUCCESS
         else if returncode r = 1 then ret MERGE_CONFLICT
         else raise RuntimeError))"

definition simulate_merge_main :: "'w runner \<Rightarrow> string \<Rightarrow> string \<Rightarrow> ('w, unit) ci" where
  "simulate_merge_main runner head_ref base_ref =
     bindC (try_except (simulate_merge runner head_ref base_ref) is_runtime_error die) (\<lambda>r.
       if r = MERGE_CONFLICT then die else raise (SystemExit 0))"

section \<open>Command sequences\<close>

text \<open>All commands of a list succeed when they are run one after the other.\<close>

fun succeeded :: "'w runner \<Rightarrow> string list list \<Rightarrow> 'w \<Rightarrow> bool" where
  "succeeded runner [] w = True"
| "succeeded runner (c # cs) w = (case runner (Command c None) w of
      (Some r, w') \<Rightarrow> returncode r = 0 \<and> succeeded runner cs w' | (None, w') \<Rightarrow> False)"

fun run_all :: "'w runner \<Rightarrow> string list list \<Rightarrow> ('w, unit) ci" where
  "run_all runner [] = ret ()"
| "run_all runner (c # cs) = thenC (rs_run runner c) (run_all runner cs)"

abbreviation as_cmds :: "string list list \<Rightarrow> command list" where
  "as_cmds cs \<equiv> map (\<lambda>c. Command c None) cs"

lemma run_all_trace:
  assumes "run_all runner cs s = (r, s')"
  shows "\<exists>n \<le> length cs. cmds s' = cmds s @ as_cmds (take n cs) \<and>
     succeeded runner (take (n - 1) cs) (world s) \<and>
     (r = Inr () \<longleftrightarrow> n = length cs \<and> succeeded runner cs (world s))"
  using assms
proof (induction cs arbitrary: s)
  case Nil
  then show ?case by simp
next
  case (Cons c cs)
  obtain q w where q: "runner (Command c None) (world s) = (q, w)" by force
  let ?t = "s\<lparr>world := w, cmds := cmds s @ [Command c None]\<rparr>"
  have rs: "run_cmd runner (Command c None) s = (case q of None \<Rightarrow> Inl FileNotFoundError | Some x \<Rightarrow> Inr x, ?t)"
    by (simp add: run_cmd_def q)
  show ?case
  proof (cases "\<exists>x. q = Some x \<and> returncode x = 0")
    case False
    then have "r \<noteq> Inr ()" "s' = ?t" "\<not> succeeded runner (c # cs) (world s)"
      using Cons.prems rs q
      by (auto simp: thenC_def bindC_def rs_run_def split: option.splits if_splits)
    then show ?thesis by (intro exI [of _ 1]) auto
  next
    case True
    then obtain x where x: "q = Some x" "returncode x = 0" by blast
    have "run_all runner cs ?t = (r, s')"
      using Cons.prems rs x by (auto simp: thenC_def bindC_def rs_run_def)
    from Cons.IH [OF this] obtain n where n: "n \<le> length cs" "cmds s' = cmds ?t @ as_cmds (take n cs)"
      "succeeded runner (take (n - 1) cs) w" "r = Inr () \<longleftrightarrow> n = length cs \<and> succeeded runner cs w" by auto
    have "succeeded runner (take (Suc n - 1) (c # cs)) (world s)"
      using n(3) q x by (cases n) auto
    with n q x show ?thesis by (intro exI [of _ "Suc n"]) auto
  qed
qed

text \<open>The commands of a publication, in order.\<close>

definition publish_cmds :: "string \<Rightarrow> string \<Rightarrow> string \<Rightarrow> string \<Rightarrow> string list list" where
  "publish_cmds ft changelog_path remote branch =
     [[''git'', ''add'', ''-u''],
      [''git'', ''commit'', ''--allow-empty'', ''-m'', ''chore(release): '' @ ft],
      [''git'', ''tag'', ft],
      [''git'', ''push'', ''--atomic'', remote, branch, ft],
      [''gh'', ''release'', ''create'', ft, ''--notes-file'', changelog_path, ''--title'', ft]]"

lemma run_publish_all:
  "run_publish runner ft cp remote branch s =
     (if path_exists (files s) (path_of cp) then run_all runner (publish_cmds ft cp remote branch) s
      else (Inl FileNotFoundError, s))"
  by (simp add: run_publish_def publish_cmds_def bindC_def)

section \<open>Changelog sections\<close>

lemma rmatch_type_pattern:
  "rmatch CC_TYPE_PATTERN (s, []) = (if s \<noteq> [] \<and> lower_alpha (hd s)
     then rmatch cc_type_tail (dropWhile lower_alpha s, [(''type'', takeWhile lower_alpha s)]) else [])"
proof -
  have k: "rmatch cc_type_tail (x # t, cs) = []" if "lower_alpha x" for x t cs
    using lower_alpha_neq [OF that] by (simp add: cc_type_tail_def)
  show ?thesis
    unfolding CC_TYPE_PATTERN_def rmatch.simps(2) [of "Grp _ _"]
    using grp_plus_class_then [of lower_alpha "rmatch cc_type_tail" "''type''" s "[]"] k by simp
qed

lemma type_tail_caps: "st \<in> set (rmatch cc_type_tail (s, c)) \<Longrightarrow> snd st = c"
  using group_free_caps [of cc_type_tail st "(s, c)"] by (simp add: cc_type_tail_def)

lemma type_tail_matches:
  assumes "case sc of None \<Rightarrow> True | Some x \<Rightarrow> x \<noteq> [] \<and> CHR '')'' \<notin> set x"
  shows "rmatch cc_type_tail (scope_str sc @ (if br then ''!'' else []) @ '':'' @ rest, c) \<noteq> []"
proof -
  let ?P = "\<lambda>c. c \<noteq> CHR '')''" and ?e = "(if br then ''!'' else []) @ '':'' @ rest"
  have bang: "rmatch (Seq (Opt (Ch (CHR ''!''))) (Ch (CHR '':''))) (?e, c) \<noteq> []" by simp
  show ?thesis
  proof (cases sc)
    case None
    with bang show ?thesis by (auto simp: cc_type_tail_def scope_str_def)
  next
    case (Some x)
    have d: "dropWhile ?P (x @ CHR '')'' # ?e) = CHR '')'' # ?e"
      using assms Some takeWhile_run [of x ?P "CHR '')'' # ?e"] by (metis (no_types, lifting) list.sel(1) option.simps(5))
    have "rmatch (Seq (Plus True (Cls ?P)) (Ch (CHR '')''))) (x @ CHR '')'' # ?e, c) = [(?e, c)]"
    proof -
      have "rmatch (Seq (Plus True (Cls ?P)) (Ch (CHR '')''))) (x @ CHR '')'' # ?e, c) =
        (if x @ CHR '')'' # ?e \<noteq> [] \<and> ?P (hd (x @ CHR '')'' # ?e))
         then rmatch (Ch (CHR '')'')) (dropWhile ?P (x @ CHR '')'' # ?e), c) else [])"
        unfolding rmatch.simps(2) [of "Plus True (Cls ?P)"] by (rule plus_class_then) simp
      moreover have "?P (hd (x @ CHR '')'' # ?e))" using assms Some by (cases x) auto
      ultimately show ?thesis using d by (simp del: rmatch.simps(2,5))
    qed
    moreover have "rmatch (Opt (Seq (Ch (CHR ''('')) X)) (CHR ''('' # t, c) = rmatch X (t, c) @ [(CHR ''('' # t, c)]" for X t
      by simp
    ultimately have "(?e, c) \<in> set (rmatch (Opt (Seq (Ch (CHR ''('')) (Seq (Plus True (Cls ?P)) (Ch (CHR '')'')))))
        (scope_str sc @ ?e, c))"
      by (simp add: Some scope_str_def del: rmatch.simps)
    with bang show ?thesis unfolding cc_type_tail_def by fastforce
  qed
qed

lemma derive_section_accepted:
  assumes "parse_pr_title t = Inr p"
  shows "derive_section t (bump_value (bump p)) =
     (if breaking p then ''Breaking Changes'' else the (map_of COMMIT_TYPE_TO_SECTION (commit_type p)))"
proof -
  from assms obtain ws where p: "title_wf p" and st: "strip t = render_title p ws"
    unfolding parse_pr_title_iff by blast
  have ct: "commit_type p \<in> set VALID_COMMIT_TYPES" using p by (simp add: title_wf_def)
  let ?rest = "scope_str (scope p) @ (if breaking p then ''!'' else []) @ '':'' @ (ws @ description p)"
  have s: "strip t = commit_type p @ ?rest" using st by (simp add: render_title_split)
  have h: "?rest = [] \<or> \<not> lower_alpha (hd ?rest)"
    using lower_alpha_neq by (cases "scope p") (auto simp: scope_str_def)
  have w: "takeWhile lower_alpha (strip t) = commit_type p" "dropWhile lower_alpha (strip t) = ?rest"
    unfolding s using valid_types_alpha [OF ct] takeWhile_run [of "commit_type p" lower_alpha ?rest] h by auto
  have hd: "strip t \<noteq> []" "lower_alpha (hd (strip t))"
    using s valid_types_alpha [OF ct] by (cases "commit_type p"; simp)+
  obtain st' sts where m: "rmatch CC_TYPE_PATTERN (strip t, []) = st' # sts"
    using type_tail_matches [of "scope p" "breaking p" "ws @ description p" "[(''type'', commit_type p)]"]
      p rmatch_type_pattern [of "strip t"] w hd by (auto simp: title_wf_def neq_Nil_conv)
  moreover have "snd st' = [(''type'', commit_type p)]"
    using type_tail_caps [of st' ?rest "[(''type'', commit_type p)]"] m rmatch_type_pattern [of "strip t"] w hd by auto
  ultimately have "re_match CC_TYPE_PATTERN (strip t) = Some (fst st', [(''type'', commit_type p)])"
    by (cases st') (simp add: re_match_def)
  moreover have "map_of COMMIT_TYPE_TO_SECTION (commit_type p) \<noteq> None"
    using ct by (auto simp: VALID_COMMIT_TYPES_def MINOR_TYPES_def PATCH_TYPES_def COMMIT_TYPE_TO_SECTION_def)
  moreover have "bump_value (bump p) = ''major'' \<longleftrightarrow> breaking p"
    using p by (auto simp: title_wf_def derive_bump_def)
  ultimately show ?thesis
    by (auto simp: derive_section_def cap_of_def)
qed

section \<open>Properties\<close>

text \<open>C8. A publication is ordered and stops at the first failure: the commands it starts are
  an initial part of add, commit, tag, atomic push, release creation, in this order; each is
  started only when all earlier ones succeeded, so a release is created only after the atomic
  push of branch and tag succeeded; and the step completes exactly when all five succeed.\<close>

theorem publish_in_order:
  assumes "run_publish runner ft cp remote branch s = (r, s')" and "path_exists (files s) (path_of cp)"
  shows "\<exists>n \<le> 5. cmds s' = cmds s @ as_cmds (take n (publish_cmds ft cp remote branch)) \<and>
     succeeded runner (take (n - 1) (publish_cmds ft cp remote branch)) (world s) \<and>
     (r = Inr () \<longleftrightarrow> n = 5 \<and> succeeded runner (publish_cmds ft cp remote branch) (world s))"
proof -
  have "run_all runner (publish_cmds ft cp remote branch) s = (r, s')"
    using assms by (simp add: run_publish_all)
  moreover have "length (publish_cmds ft cp remote branch) = 5" by (simp add: publish_cmds_def)
  ultimately show ?thesis using run_all_trace [of runner "publish_cmds ft cp remote branch" s r s'] by simp
qed

text \<open>A machine on which every command succeeds.\<close>

definition ex_ok_runner :: "unit runner" where
  "ex_ok_runner c w = (Some \<lparr>returncode = 0, stdout = [], stderr = []\<rparr>, w)"

definition ex_release_state :: "unit ci_state" where
  "ex_release_state = \<lparr>world = (), cmds = [], environ = [], files = [(path_of ''c.md'', ''x''), (path_of ''m/VERSION'', ''0'')],
     readonly = [], printed = []\<rparr>"

theorem publish_in_order_witness:
  "\<exists>n. cmds (snd (run_publish ex_ok_runner ''m/v1.0.0'' ''c.md'' ''origin'' ''main'' ex_release_state)) =
     as_cmds (take n (publish_cmds ''m/v1.0.0'' ''c.md'' ''origin'' ''main''))"
proof -
  let ?m = "run_publish ex_ok_runner ''m/v1.0.0'' ''c.md'' ''origin'' ''main'' ex_release_state"
  have "path_exists (files ex_release_state) (path_of ''c.md'')" "cmds ex_release_state = []" by code_simp+
  then show ?thesis
    using publish_in_order [of ex_ok_runner "''m/v1.0.0''" "''c.md''" "''origin''" "''main''" ex_release_state "fst ?m" "snd ?m"]
    by auto
qed

text \<open>The release commit does not start the pipeline again: whatever a publication did,
  every commit it made is one the release check skips when the bot pushed it, and does not skip
  for any other actor.\<close>

theorem publish_commit_is_skipped:
  assumes "run_publish runner ft cp remote branch s = (r, s')"
    and "cmds s' = cmds s @ cs" and "Command [''git'', ''commit'', ''--allow-empty'', ''-m'', m] None \<in> set cs"
  shows "check_release_commit m actor \<longleftrightarrow> actor = BOT_ACTOR"
proof (cases "path_exists (files s) (path_of cp)")
  case False
  then have "cs = []" using assms(1,2) by (simp add: run_publish_all)
  with assms(3) show ?thesis by simp
next
  case True
  have "run_all runner (publish_cmds ft cp remote branch) s = (r, s')"
    using assms(1) True by (simp add: run_publish_all)
  from run_all_trace [OF this] obtain n where "cs = as_cmds (take n (publish_cmds ft cp remote branch))"
    using assms(2) by auto
  then have "[''git'', ''commit'', ''--allow-empty'', ''-m'', m] \<in> set (publish_cmds ft cp remote branch)"
    using assms(3) by (auto dest: in_set_takeD)
  then have "m = ''chore(release): '' @ ft" by (auto simp: publish_cmds_def)
  then show ?thesis by (simp add: check_release_commit_def RELEASE_COMMIT_PREFIX_def)
qed

theorem publish_commit_is_skipped_witness:
  "check_release_commit ''chore(release): m/v1.0.0'' ''github-actions[bot]'' \<and>
   \<not> check_release_commit ''chore(release): m/v1.0.0'' ''mallory''"
proof -
  let ?m = "run_publish ex_ok_runner ''m/v1.0.0'' ''c.md'' ''origin'' ''main'' ex_release_state"
  have c: "cmds (snd ?m) = cmds ex_release_state @ cmds (snd ?m)"
    "Command [''git'', ''commit'', ''--allow-empty'', ''-m'', ''chore(release): m/v1.0.0''] None \<in> set (cmds (snd ?m))"
    by code_simp+
  show ?thesis
    using publish_commit_is_skipped [OF _ c, of ex_ok_runner "''m/v1.0.0''" "''c.md''" "''origin''" "''main''" "fst ?m"]
    by (simp add: BOT_ACTOR_def)
qed

text \<open>A derived version can be published once and is immutable afterwards: it passes the
  immutability check against the tags it was derived from, whatever the version at the base was,
  and once its tag exists no other change may set the version file to it again.\<close>

theorem derived_version_publishable_once:
  assumes "calculate_next_version tags pre b = Inr r"
  shows "check_version_immutability (next_version r) base tags pre = Inr () \<and>
     (base \<noteq> Some (next_version r) \<longrightarrow>
        check_version_immutability (next_version r) base (full_tag r # tags) pre = Inl ValueError)"
proof -
  have "full_tag r = pre @ next_version r" "full_tag r \<notin> set tags"
    using assms by (auto simp: calculate_next_version_eq Let_def split: if_splits)
  then show ?thesis by (simp add: check_version_immutability_def is_version_already_published_def)
qed

theorem derived_version_publishable_once_witness:
  "check_version_immutability ''0.2.0'' (Some ''0.1.0'') [''m/v0.1.0''] ''m/v'' = Inr ()"
proof -
  have c: "calculate_next_version [''m/v0.1.0''] ''m/v'' MINOR = Inr \<lparr>next_version = ''0.2.0'',
      full_tag = ''m/v0.2.0'', tag_prefix = ''m/v'', vbump = MINOR, is_initial = False\<rparr>" by code_simp
  show ?thesis using derived_version_publishable_once [OF c, of "Some ''0.1.0''"] by simp
qed

lemma check_staleness_iff:
  "check_staleness ps mp sh = NOT_STALE \<longleftrightarrow> (\<forall>p \<in> set ps. \<not> is_path_in_scope p mp sh)"
  by (induction ps) auto

text \<open>The staleness guard lets a release pass exactly when it may: it exits with status 0 if
  and only if a merge commit is named, the diff since it could be computed, and no changed file is
  relevant (any file at all for a configuration release, otherwise a file of the module or below
  a shared path); it starts no command but the diff.\<close>

theorem staleness_passes_iff:
  "check_staleness_main runner merge_sha module_path shared s = (Inl (SystemExit 0), s') \<longleftrightarrow>
     merge_sha \<noteq> [] \<and>
     (\<exists>c w. runner (Command (diff_since_cmd merge_sha) None) (world s) = (Some c, w) \<and> returncode c = 0 \<and>
        s' = s\<lparr>world := w, cmds := cmds s @ [Command (diff_since_cmd merge_sha) None]\<rparr> \<and>
        (\<forall>f \<in> set (tag_lines (stdout c)).
           module_path \<noteq> [] \<and> \<not> is_path_in_scope f module_path (shared_paths_arg shared)))"
proof -
  obtain q w where q: "runner (Command (diff_since_cmd merge_sha) None) (world s) = (q, w)" by force
  have st: "check_staleness ps mp sh = STALE \<longleftrightarrow> \<not> (\<forall>p \<in> set ps. \<not> is_path_in_scope p mp sh)" for ps mp sh
    using check_staleness_iff [of ps mp sh] by (cases "check_staleness ps mp sh") auto
  show ?thesis
    by (cases q) (auto simp: check_staleness_main_def get_changed_files_since_def bindC_def try_except_def
        run_cmd_def q st)
qed

theorem staleness_passes_iff_witness:
  "fst (check_staleness_main ex_ok_runner ''abc'' ''m'' ''scripts/'' ex_release_state) = Inl (SystemExit 0)"
proof -
  have "tag_lines [] = []" by code_simp
  then have "\<exists>c w. ex_ok_runner (Command (diff_since_cmd ''abc'') None) (world ex_release_state) = (Some c, w) \<and>
      returncode c = 0 \<and> ex_release_state\<lparr>world := (), cmds := cmds ex_release_state @ [Command (diff_since_cmd ''abc'') None]\<rparr>
        = ex_release_state\<lparr>world := w, cmds := cmds ex_release_state @ [Command (diff_since_cmd ''abc'') None]\<rparr> \<and>
      (\<forall>f \<in> set (tag_lines (stdout c)). ''m'' \<noteq> [] \<and> \<not> is_path_in_scope f ''m'' (shared_paths_arg ''scripts/''))"
    by (simp add: ex_ok_runner_def)
  then have "check_staleness_main ex_ok_runner ''abc'' ''m'' ''scripts/'' ex_release_state =
      (Inl (SystemExit 0), ex_release_state\<lparr>world := (), cmds := cmds ex_release_state @ [Command (diff_since_cmd ''abc'') None]\<rparr>)"
    unfolding staleness_passes_iff by blast
  then show ?thesis by simp
qed

text \<open>The merge simulation never changes the repository and passes exactly for a clean
  merge: it only starts the two read-only git commands, and exits with status 0 if and only if
  both succeed.\<close>

theorem merge_simulation_correct:
  "issues (\<lambda>c. \<exists>b. argv c \<in> {[''git'', ''merge-base'', base, hr],
        [''git'', ''merge-tree'', ''--write-tree'', ''--merge-base='' @ b, base, hr]})
     (simulate_merge_main runner hr base) \<and>
   (\<forall>s. fst (simulate_merge_main runner hr base s) = Inl (SystemExit 0) \<longleftrightarrow>
     (\<exists>c w d w'. runner (Command [''git'', ''merge-base'', base, hr] None) (world s) = (Some c, w) \<and>
        returncode c = 0 \<and>
        runner (Command [''git'', ''merge-tree'', ''--write-tree'', ''--merge-base='' @ strip (stdout c), base, hr] None) w
          = (Some d, w') \<and> returncode d = 0))"
proof (intro conjI allI)
  show "issues (\<lambda>c. \<exists>b. argv c \<in> {[''git'', ''merge-base'', base, hr],
        [''git'', ''merge-tree'', ''--write-tree'', ''--merge-base='' @ b, base, hr]})
     (simulate_merge_main runner hr base)"
    unfolding simulate_merge_main_def simulate_merge_def by (intro issues_intros) auto
next
  fix s :: "'a ci_state"
  obtain q w where q: "runner (Command [''git'', ''merge-base'', base, hr] None) (world s) = (q, w)" by force
  show "fst (simulate_merge_main runner hr base s) = Inl (SystemExit 0) \<longleftrightarrow>
     (\<exists>c w d w'. runner (Command [''git'', ''merge-base'', base, hr] None) (world s) = (Some c, w) \<and>
        returncode c = 0 \<and>
        runner (Command [''git'', ''merge-tree'', ''--write-tree'', ''--merge-base='' @ strip (stdout c), base, hr] None) w
          = (Some d, w') \<and> returncode d = 0)"
  proof (cases "\<exists>c. q = Some c \<and> returncode c = 0")
    case False
    then show ?thesis
      by (cases q) (auto simp: simulate_merge_main_def simulate_merge_def bindC_def try_except_def run_cmd_def q)
  next
    case True
    then obtain c where c: "q = Some c" "returncode c = 0" by blast
    obtain d w' where d: "runner (Command [''git'', ''merge-tree'', ''--write-tree'',
        ''--merge-base='' @ strip (stdout c), base, hr] None) w = (d, w')" by force
    then show ?thesis
      using c by (cases d) (auto simp: simulate_merge_main_def simulate_merge_def bindC_def try_except_def run_cmd_def q)
  qed
qed

text \<open>The changelog agrees with the title: for every title the title check accepts, the
  section of the entry is the one of its commit type, and \<open>Breaking Changes\<close> exactly when the
  title carries the breaking mark.\<close>

theorem changelog_section_of_title:
  assumes "parse_pr_title t = Inr p"
  shows "derive_section t (bump_value (bump p)) =
     (if breaking p then ''Breaking Changes'' else the (map_of COMMIT_TYPE_TO_SECTION (commit_type p))) \<and>
     map_of COMMIT_TYPE_TO_SECTION (commit_type p) \<noteq> None"
proof -
  have "commit_type p \<in> set VALID_COMMIT_TYPES" using assms by (simp add: parse_pr_title_iff title_wf_def)
  then have "map_of COMMIT_TYPE_TO_SECTION (commit_type p) \<noteq> None"
    by (auto simp: VALID_COMMIT_TYPES_def MINOR_TYPES_def PATCH_TYPES_def COMMIT_TYPE_TO_SECTION_def)
  with derive_section_accepted [OF assms] show ?thesis by blast
qed

theorem changelog_section_of_title_witness:
  "derive_section ''perf(x): y'' ''minor'' = ''Performance''"
proof -
  have "parse_pr_title ''perf(x): y'' = Inr \<lparr>commit_type = ''perf'', scope = Some ''x'', breaking = False,
      description = ''y'', bump = MINOR\<rparr>" by code_simp
  from changelog_section_of_title [OF this] show ?thesis by (simp add: COMMIT_TYPE_TO_SECTION_def)
qed

text \<open>Updating a version changes one existing file and nothing else: if the step completes,
  the version file of the module (of the repository for the configuration scope) existed, now
  holds the version and a newline, and every other file is as before; if it fails, no file
  changed.\<close>

theorem update_version_writes_one_file:
  assumes "update_version_files scp mp version repo s = (r, s')"
  shows "let f = (if scp = SCOPE_MODULE then path_div (path_div (path_of repo) mp) ''VERSION''
                  else path_div (path_of repo) ''VERSION'') in
     (r = Inr () \<longrightarrow> path_exists (files s) f \<and> (scp = SCOPE_MODULE \<and> mp \<noteq> [] \<or> scp = SCOPE_CONFIG) \<and>
        map_of (files s') = (map_of (files s))(f \<mapsto> version @ [CHR 0x0A])) \<and>
     (r \<noteq> Inr () \<longrightarrow> s' = s)"
  using assms
  by (auto simp: update_version_files_def Let_def bindC_def write_text_def update_conv' split: if_splits)

theorem update_version_writes_one_file_witness:
  "map_of (files (snd (update_version_files ''module'' ''m'' ''0.2.0'' ''.'' ex_release_state))) (path_of ''m/VERSION'') =
     Some (''0.2.0'' @ [CHR 0x0A])"
proof -
  let ?m = "update_version_files ''module'' ''m'' ''0.2.0'' ''.'' ex_release_state"
  have f: "fst ?m = Inr ()" "path_div (path_div (path_of ''.'') ''m'') ''VERSION'' = path_of ''m/VERSION''" by code_simp+
  then have "?m = (Inr (), snd ?m)" by (metis prod.collapse)
  from update_version_writes_one_file [OF this] f show ?thesis
    by (simp add: Let_def SCOPE_MODULE_def)
qed

end
