(* ===== verification/Numbers.thy ===== *)
theory Numbers
  imports Override
begin

text \<open>
  Python numbers as the scripts meet them in decoded JSON and in strings: \<open>float(...)\<close> and the
  equality \<open>==\<close> of decoded values; iteration over them.

  A Python float is \<open>Fin q\<close> for the rational its literal denotes, or one of the special
  values; rounding is not modelled.
\<close>

section \<open>Floats\<close>

datatype pyfloat = Fin rat | PosInf | NegInf | NaN

definition dec_val :: "string \<Rightarrow> string \<Rightarrow> int \<Rightarrow> rat" where
  "dec_val ds fr ex =
     (of_nat (nat_of_digits (ds @ fr)) / 10 ^ length fr) * (if ex < 0 then 1 / 10 ^ nat (- ex) else 10 ^ nat ex)"

text \<open>The decimal syntax of \<open>float(str)\<close>: digits, a point and digits, an exponent; at least one
  digit before the exponent, single underscores between digits.\<close>

definition no_underscores :: "string \<Rightarrow> string option" where
  "no_underscores s = (if CHR ''_'' \<notin> set s then Some s
     else if hd s = CHR ''_'' \<or> last s = CHR ''_'' \<or> contains ''__'' s then None
     else Some (filter (\<lambda>c. c \<noteq> CHR ''_'') s))"

definition all_digits :: "string \<Rightarrow> bool" where
  "all_digits s = list_all is_digit s"

definition signed :: "string \<Rightarrow> bool \<times> string" where
  "signed s = (case s of c # t \<Rightarrow> if c = CHR ''-'' then (True, t) else if c = CHR ''+'' then (False, t) else (False, s)
     | [] \<Rightarrow> (False, s))"

definition decimal_parts :: "string \<Rightarrow> (string \<times> string \<times> int) option" where
  "decimal_parts s =
     (let mant = takeWhile (\<lambda>c. c \<noteq> CHR ''e'') s;
          exo = (case dropWhile (\<lambda>c. c \<noteq> CHR ''e'') s of [] \<Rightarrow> Some 0
                 | _ # e \<Rightarrow> (let (neg, d) = signed e in case no_underscores d of
                       Some x \<Rightarrow> if x \<noteq> [] \<and> all_digits x then Some ((if neg then -1 else 1) * int (nat_of_digits x)) else None
                     | None \<Rightarrow> None));
          (ip, fp) = (case split_on (CHR ''.'') mant of [a] \<Rightarrow> (no_underscores a, Some []) | [a, b] \<Rightarrow> (no_underscores a, no_underscores b)
                 | _ \<Rightarrow> (None, None))
      in case (ip, fp, exo) of
           (Some a, Some b, Some e) \<Rightarrow> if a @ b \<noteq> [] \<and> all_digits (a @ b) then Some (a, b, e) else None
         | _ \<Rightarrow> None)"

definition py_decimal :: "string \<Rightarrow> rat option" where
  "py_decimal s = map_option (\<lambda>(a, b, e). dec_val a b e) (decimal_parts s)"

definition float_of_str :: "string \<Rightarrow> pyfloat option" where
  "float_of_str s =
     (let (neg, body) = signed (lower (strip s)) in
      if body \<in> set [''inf'', ''infinity''] then Some (if neg then NegInf else PosInf)
      else if body = ''nan'' then Some NaN
      else map_option (\<lambda>q. Fin (if neg then - q else q)) (py_decimal body))"

text \<open>\<open>float(v)\<close> of a decoded value.\<close>

definition float_of_json :: "json \<Rightarrow> exn + pyfloat" where
  "float_of_json v = (case v of
      JInt i \<Rightarrow> Inr (Fin (of_int i))
    | JBool b \<Rightarrow> Inr (Fin (if b then 1 else 0))
    | JFloat l \<Rightarrow> (case float_of_str l of None \<Rightarrow> Inl ValueError | Some f \<Rightarrow> Inr f)
    | JStr l \<Rightarrow> (case float_of_str l of None \<Rightarrow> Inl ValueError | Some f \<Rightarrow> Inr f)
    | _ \<Rightarrow> Inl TypeError)"

text \<open>\<open>int(x)\<close> of a finite float.\<close>

definition to_zero :: "rat \<Rightarrow> int" where
  "to_zero q = (if q < 0 then - \<lfloor>- q\<rfloor> else \<lfloor>q\<rfloor>)"

section \<open>Iteration\<close>

text \<open>Iterating over a decoded value.\<close>

definition json_iter :: "json \<Rightarrow> exn + json list" where
  "json_iter v = (case v of
      JList xs \<Rightarrow> Inr xs
    | JStr s \<Rightarrow> Inr (map (\<lambda>c. JStr [c]) s)
    | JObj kvs \<Rightarrow> Inr (map (\<lambda>(k, _). JStr k) kvs)
    | _ \<Rightarrow> Inl TypeError)"

section \<open>Equality\<close>

text \<open>\<open>a == b\<close>: numbers (bools included) by value, objects without regard to order.\<close>

definition num_of :: "json \<Rightarrow> pyfloat option" where
  "num_of v = (case v of
      JInt i \<Rightarrow> Some (Fin (of_int i))
    | JBool b \<Rightarrow> Some (Fin (if b then 1 else 0))
    | JFloat l \<Rightarrow> float_of_str l
    | _ \<Rightarrow> None)"

definition num_eq :: "json \<Rightarrow> json \<Rightarrow> bool" where
  "num_eq v w = (case (num_of v, num_of w) of (Some a, Some b) \<Rightarrow> a \<noteq> NaN \<and> a = b | _ \<Rightarrow> False)"

function (sequential) py_eq :: "json \<Rightarrow> json \<Rightarrow> bool" where
  "py_eq JNull w = (w = JNull)"
| "py_eq (JStr s) w = (w = JStr s)"
| "py_eq (JList xs) w = (case w of JList ys \<Rightarrow> length xs = length ys \<and> (\<forall>(x, y) \<in> set (zip xs ys). py_eq x y) | _ \<Rightarrow> False)"
| "py_eq (JObj kvs) w = (case w of JObj kws \<Rightarrow> length kvs = length kws \<and>
     (\<forall>(k, v) \<in> set kvs. case map_of kws k of None \<Rightarrow> False | Some u \<Rightarrow> py_eq v u) | _ \<Rightarrow> False)"
| "py_eq v w = num_eq v w"
  by pat_completeness auto
termination
proof (relation "measure (\<lambda>(v, w). size v)", goal_cases)
  case (2 xs w ys x z y)
  then show ?case by (auto dest!: set_zip_leftD simp: less_Suc_eq_le size_list_estimation')
next
  case (3 kvs w kws x k v y)
  moreover have "(k, v) \<in> set kvs \<Longrightarrow> size (v :: json) < Suc (size_list (size_prod (\<lambda>_. 0) size) kvs)" for k v kvs
    by (induction kvs) auto
  ultimately show ?case by auto
qed simp

lemma py_eq_str [simp]: "py_eq v (JStr t) \<longleftrightarrow> v = JStr t"
  by (cases v) (auto simp: num_eq_def num_of_def split: option.splits)

section \<open>Well-formed parts\<close>

lemma wf_get_default: "json_get_default v k d = Inr x \<Longrightarrow> wf_json v \<Longrightarrow> wf_json d \<Longrightarrow> wf_json x"
  by (auto simp: json_get_default_def split: json.splits option.splits dest!: map_of_SomeD)

lemma wf_get: "json_get v k = Inr x \<Longrightarrow> wf_json v \<Longrightarrow> wf_json x"
  by (auto simp: json_get_def split: json.splits option.splits dest!: map_of_SomeD)

lemma wf_index: "wf_json v \<Longrightarrow> json_index v k = Inr x \<Longrightarrow> wf_json x"
  by (auto simp: json_index_def split: json.splits option.splits dest!: map_of_SomeD)

lemma wf_iter: "wf_json v \<Longrightarrow> json_iter v = Inr xs \<Longrightarrow> \<forall>x \<in> set xs. wf_json x"
  by (auto simp: json_iter_def split: json.splits)

end
