(* ===== verification/Locks.thy ===== *)
theory Locks
  imports Numbers
begin

text \<open>
  The branch lock of the release pipeline: \<open>scripts/lock_branch.py\<close> engages and releases it,
  \<open>scripts/safety_net_unlock.py\<close> removes a lock that was left behind. The lock has two parts,
  a repository variable (the marker, JSON text with the owner and the time) and the
  \<open>lock_branch\<close> flag of the branch protection rule.
  \<open>now\<close> is the literal \<open>time.time()\<close> prints as.
\<close>

section \<open>Time\<close>

text \<open>\<open>(now - x) / 60.0\<close> and the comparison with an int.\<close>

definition minutes_since :: "rat \<Rightarrow> pyfloat \<Rightarrow> pyfloat" where
  "minutes_since t x = (case x of Fin q \<Rightarrow> Fin ((t - q) / 60) | PosInf \<Rightarrow> NegInf | NegInf \<Rightarrow> PosInf | NaN \<Rightarrow> NaN)"

definition float_less :: "pyfloat \<Rightarrow> int \<Rightarrow> bool" where
  "float_less x n = (case x of Fin q \<Rightarrow> q < of_int n | NegInf \<Rightarrow> True | _ \<Rightarrow> False)"

definition clock_val :: "string \<Rightarrow> rat" where
  "clock_val now = (case float_of_str now of Some (Fin q) \<Rightarrow> q | _ \<Rightarrow> 0)"

section \<open>Locking\<close>

definition var_name :: "string \<Rightarrow> string" where
  "var_name branch = ''BRANCH_LOCK_RUN_ID_'' @ upper (replace_char (CHR ''/'') (CHR ''_'') branch)"

definition lock_marker :: "string \<Rightarrow> string \<Rightarrow> string" where
  "lock_marker now run_id = dumps dflt_opts (JObj [(''run_id'', JStr run_id), (''locked_at_epoch'', JFloat now)])"

definition patch_marker_cmd :: "string \<Rightarrow> string \<Rightarrow> string \<Rightarrow> command" where
  "patch_marker_cmd repo branch marker =
     Command [''gh'', ''api'', ''--method'', ''PATCH'', ''repos/'' @ repo @ ''/actions/variables/'' @ var_name branch,
       ''--field'', ''name='' @ var_name branch, ''--field'', ''value='' @ marker] None"

definition post_marker_cmd :: "string \<Rightarrow> string \<Rightarrow> string \<Rightarrow> command" where
  "post_marker_cmd repo branch marker =
     Command [''gh'', ''api'', ''--method'', ''POST'', ''repos/'' @ repo @ ''/actions/variables'',
       ''--field'', ''name='' @ var_name branch, ''--field'', ''value='' @ marker] None"

definition write_lock_marker :: "'w runner \<Rightarrow> string \<Rightarrow> string \<Rightarrow> string \<Rightarrow> string \<Rightarrow> ('w, unit) ci" where
  "write_lock_marker runner now repo branch run_id =
     (let marker = lock_marker now run_id in
      bindC (run_cmd runner (patch_marker_cmd repo branch marker)) (\<lambda>r.
        if returncode r \<noteq> 0 then
          bindC (run_cmd runner (post_marker_cmd repo branch marker)) (\<lambda>r2.
            if returncode r2 \<noteq> 0 then raise RuntimeError else ret ())
        else ret ()))"

definition get_protection_cmd :: "string \<Rightarrow> string \<Rightarrow> command" where
  "get_protection_cmd repo branch =
     Command [''gh'', ''api'', ''repos/'' @ repo @ ''/branches/'' @ branch @ ''/protection''] None"

text \<open>Both the missing rule (B30) and every other failure are a \<open>RuntimeError\<close>.\<close>

definition get_branch_protection :: "'w runner \<Rightarrow> string \<Rightarrow> string \<Rightarrow> ('w, json) ci" where
  "get_branch_protection runner repo branch =
     bindC (run_cmd runner (get_protection_cmd repo branch)) (\<lambda>r.
       if returncode r \<noteq> 0 then raise RuntimeError
       else (case loads (stdout r) of None \<Rightarrow> raise RuntimeError | Some v \<Rightarrow> ret v))"

definition pick_all :: "json \<Rightarrow> string \<Rightarrow> string \<Rightarrow> exn + json" where
  "pick_all restr grp key =
     bindR (json_get_default restr grp (JList [])) (\<lambda>g.
     bindR (json_iter g) (\<lambda>xs.
     bindR (mapM (\<lambda>x. json_index x key) xs) (\<lambda>ys. Inr (JList ys))))"

definition enabled_flag :: "json \<Rightarrow> string \<Rightarrow> exn + json" where
  "enabled_flag protection key =
     bindR (json_get_default protection key (JObj [])) (\<lambda>ob. json_get_default ob ''enabled'' (JBool False))"

definition status_checks_body :: "json \<Rightarrow> exn + json" where
  "status_checks_body rsc = (if rsc = JNull then Inr JNull else
     bindR (json_get_default rsc ''strict'' (JBool False)) (\<lambda>st.
     bindR (json_get_default rsc ''contexts'' (JList [])) (\<lambda>cx.
       Inr (JObj [(''strict'', st), (''contexts'', cx)]))))"

definition reviews_body :: "json \<Rightarrow> exn + json" where
  "reviews_body rpr = (if rpr = JNull then Inr JNull else
     bindR (json_get_default rpr ''dismiss_stale_reviews'' (JBool False)) (\<lambda>a.
     bindR (json_get_default rpr ''require_code_owner_reviews'' (JBool False)) (\<lambda>b.
     bindR (json_get_default rpr ''required_approving_review_count'' (JInt 0)) (\<lambda>c.
       Inr (JObj [(''dismiss_stale_reviews'', a), (''require_code_owner_reviews'', b),
                  (''required_approving_review_count'', c)])))))"

definition restrictions_body :: "json \<Rightarrow> exn + json" where
  "restrictions_body restr = (if restr = JNull then Inr JNull else
     bindR (pick_all restr ''users'' ''login'') (\<lambda>u.
     bindR (pick_all restr ''teams'' ''slug'') (\<lambda>t.
     bindR (pick_all restr ''apps'' ''slug'') (\<lambda>a.
       Inr (JObj [(''users'', u), (''teams'', t), (''apps'', a)])))))"

definition protection_body :: "json \<Rightarrow> bool \<Rightarrow> exn + json" where
  "protection_body protection lock =
     bindR (json_get protection ''required_status_checks'') (\<lambda>rsc.
     bindR (status_checks_body rsc) (\<lambda>rsc_body.
     bindR (json_get protection ''required_pull_request_reviews'') (\<lambda>rpr.
     bindR (reviews_body rpr) (\<lambda>rpr_body.
     bindR (json_get protection ''restrictions'') (\<lambda>restr.
     bindR (restrictions_body restr) (\<lambda>restr_body.
     bindR (enabled_flag protection ''enforce_admins'') (\<lambda>ea.
     bindR (enabled_flag protection ''required_linear_history'') (\<lambda>lh.
     bindR (enabled_flag protection ''allow_force_pushes'') (\<lambda>fp.
     bindR (enabled_flag protection ''allow_deletions'') (\<lambda>ad.
     bindR (enabled_flag protection ''required_conversation_resolution'') (\<lambda>cr.
       Inr (JObj [(''required_status_checks'', rsc_body), (''enforce_admins'', ea),
         (''required_pull_request_reviews'', rpr_body), (''restrictions'', restr_body),
         (''required_linear_history'', lh), (''allow_force_pushes'', fp), (''allow_deletions'', ad),
         (''required_conversation_resolution'', cr), (''lock_branch'', JBool lock)]))))))))))))"

definition protection_put_body :: "json \<Rightarrow> bool \<Rightarrow> exn + string" where
  "protection_put_body protection lock = bindR (protection_body protection lock) (\<lambda>b. Inr (dumps dflt_opts b))"

definition put_protection_cmd :: "string \<Rightarrow> string \<Rightarrow> string \<Rightarrow> command" where
  "put_protection_cmd repo branch body =
     Command [''gh'', ''api'', ''--method'', ''PUT'', ''repos/'' @ repo @ ''/branches/'' @ branch @ ''/protection'',
       ''--input'', ''-''] (Some body)"

definition put_branch_lock :: "'w runner \<Rightarrow> string \<Rightarrow> string \<Rightarrow> bool \<Rightarrow> ('w, unit) ci" where
  "put_branch_lock runner repo branch lock =
     bindC (get_branch_protection runner repo branch) (\<lambda>protection.
     bindC (lift (protection_put_body protection lock)) (\<lambda>body.
     bindC (run_cmd runner (put_protection_cmd repo branch body)) (\<lambda>r.
       if returncode r \<noteq> 0 then raise RuntimeError else ret ())))"

definition enable_branch_protection :: "'w runner \<Rightarrow> string \<Rightarrow> string \<Rightarrow> ('w, unit) ci" where
  "enable_branch_protection runner repo branch = put_branch_lock runner repo branch True"

definition disable_branch_lock :: "'w runner \<Rightarrow> string \<Rightarrow> string \<Rightarrow> ('w, unit) ci" where
  "disable_branch_lock runner repo branch = put_branch_lock runner repo branch False"

definition delete_marker_cmd :: "string \<Rightarrow> string \<Rightarrow> command" where
  "delete_marker_cmd repo branch =
     Command [''gh'', ''api'', ''--method'', ''DELETE'', ''repos/'' @ repo @ ''/actions/variables/'' @ var_name branch] None"

definition not_found :: "completed \<Rightarrow> bool" where
  "not_found r = (contains ''404'' (strip (stderr r)) \<or> contains ''Not Found'' (strip (stderr r)))"

definition delete_lock_marker :: "'w runner \<Rightarrow> string \<Rightarrow> string \<Rightarrow> ('w, unit) ci" where
  "delete_lock_marker runner repo branch =
     bindC (run_cmd runner (delete_marker_cmd repo branch)) (\<lambda>r.
       if returncode r \<noteq> 0 then (if not_found r then ret () else raise RuntimeError) else ret ())"

definition read_marker_cmd :: "string \<Rightarrow> string \<Rightarrow> command" where
  "read_marker_cmd repo branch =
     Command [''gh'', ''api'', ''repos/'' @ repo @ ''/actions/variables/'' @ var_name branch, ''--jq'', ''.value''] None"

definition is_branch_locked :: "'w runner \<Rightarrow> string \<Rightarrow> string \<Rightarrow> ('w, bool) ci" where
  "is_branch_locked runner repo branch =
     bindC (run_cmd runner (read_marker_cmd repo branch)) (\<lambda>r.
       if returncode r \<noteq> 0 then ret False
       else ret (strip (stdout r) \<noteq> [] \<and> strip (stdout r) \<noteq> ''null''))"

definition lock_branch :: "'w runner \<Rightarrow> string \<Rightarrow> string \<Rightarrow> string \<Rightarrow> string \<Rightarrow> ('w, unit) ci" where
  "lock_branch runner now repo branch run_id =
     thenC (write_lock_marker runner now repo branch run_id) (enable_branch_protection runner repo branch)"

definition unlock_branch :: "'w runner \<Rightarrow> string \<Rightarrow> string \<Rightarrow> ('w, unit) ci" where
  "unlock_branch runner repo branch =
     bindC (is_branch_locked runner repo branch) (\<lambda>locked.
       if \<not> locked then put_line (''Branch '' @ repr_str branch @ '' is not locked -- no-op (D47).'')
       else thenC (delete_lock_marker runner repo branch) (disable_branch_lock runner repo branch))"

datatype lock_action = Lock | Unlock

definition lock_branch_main :: "'w runner \<Rightarrow> string \<Rightarrow> lock_action \<Rightarrow> string \<Rightarrow> string \<Rightarrow> string \<Rightarrow> ('w, unit) ci" where
  "lock_branch_main runner now action repo branch run_id =
     (if repo = [] then die else if branch = [] then die
      else try_except (case action of
          Lock \<Rightarrow> if run_id = [] then die else lock_branch runner now repo branch run_id
        | Unlock \<Rightarrow> unlock_branch runner repo branch) is_runtime_error die)"

section \<open>The safety net\<close>

record lock_info =
  li_run_id :: string
  li_age_minutes :: pyfloat

datatype unlock_decision = NOT_LOCKED | RETAIN_ACTIVE_RELEASE | RETAIN_AGE_TOO_LOW | DO_UNLOCK

definition decide_unlock :: "lock_info option \<Rightarrow> int \<Rightarrow> int \<Rightarrow> unlock_decision" where
  "decide_unlock info in_progress max_age = (case info of
      None \<Rightarrow> NOT_LOCKED
    | Some li \<Rightarrow> if 0 < in_progress then RETAIN_ACTIVE_RELEASE
        else if float_less (li_age_minutes li) max_age then RETAIN_AGE_TOO_LOW
        else DO_UNLOCK)"

definition sn_require_env :: "string \<Rightarrow> ('w, string) ci" where
  "sn_require_env n = bindC (getenv n) (\<lambda>v.
     let x = strip (the_default [] v) in if x = [] then raise ConfigurationError else ret x)"

definition runs_cmd :: "string \<Rightarrow> string \<Rightarrow> string \<Rightarrow> command" where
  "runs_cmd repo branch workflow_file =
     Command [''gh'', ''api'', ''repos/'' @ repo @ ''/actions/workflows/'' @ workflow_file @ ''/runs'',
       ''--field'', ''status=in_progress'', ''--field'', ''branch='' @ branch, ''--jq'', ''.total_count''] None"

definition check_in_progress_release_runs :: "'w runner \<Rightarrow> string \<Rightarrow> string \<Rightarrow> ('w, int) ci" where
  "check_in_progress_release_runs runner repo branch =
     bindC (sn_require_env ''WORKFLOW_FILE_NAME'') (\<lambda>wf.
     bindC (run_cmd runner (runs_cmd repo branch wf)) (\<lambda>r.
       if returncode r \<noteq> 0 then raise RuntimeError
       else (case py_int (strip (stdout r)) of None \<Rightarrow> raise RuntimeError | Some n \<Rightarrow> ret n)))"

definition lock_info_of :: "string \<Rightarrow> json \<Rightarrow> exn + lock_info" where
  "lock_info_of now data =
     bindR (json_get data ''run_id'') (\<lambda>run_id.
     bindR (json_get data ''locked_at_epoch'') (\<lambda>epoch.
     if \<not> truthy run_id \<or> epoch = JNull then Inl RuntimeError
     else bindR (float_of_json epoch) (\<lambda>f.
       Inr \<lparr>li_run_id = py_str run_id, li_age_minutes = minutes_since (clock_val now) f\<rparr>)))"

definition read_lock_info :: "'w runner \<Rightarrow> string \<Rightarrow> string \<Rightarrow> string \<Rightarrow> ('w, lock_info option) ci" where
  "read_lock_info runner now repo branch =
     bindC (run_cmd runner (read_marker_cmd repo branch)) (\<lambda>r.
       if returncode r \<noteq> 0 then (if not_found r then ret None else raise RuntimeError)
       else (let v = strip (stdout r) in
         if v = [] \<or> v = ''null'' then ret None
         else (case loads v of
             None \<Rightarrow> raise RuntimeError
           | Some data \<Rightarrow> bindC (lift (lock_info_of now data)) (\<lambda>li. ret (Some li)))))"

definition perform_unlock :: "'w runner \<Rightarrow> string \<Rightarrow> string \<Rightarrow> ('w, unit) ci" where
  "perform_unlock runner repo branch =
     bindC (run_cmd runner (delete_marker_cmd repo branch)) (\<lambda>r.
       if returncode r \<noteq> 0 then raise RuntimeError else ret ())"

definition safety_net_body :: "'w runner \<Rightarrow> string \<Rightarrow> ('w, unit) ci" where
  "safety_net_body runner now =
     bindC (sn_require_env ''REPO'') (\<lambda>repo.
     bindC (sn_require_env ''BRANCH'') (\<lambda>branch.
     bindC (sn_require_env ''LOCK_MAX_AGE_MINUTES'') (\<lambda>raw.
     bindC (case py_int raw of None \<Rightarrow> raise ConfigurationError | Some n \<Rightarrow> ret n) (\<lambda>max_age.
     bindC (read_lock_info runner now repo branch) (\<lambda>info.
     bindC (if info = None then ret 0 else check_in_progress_release_runs runner repo branch) (\<lambda>in_progress.
     case decide_unlock info in_progress max_age of
       DO_UNLOCK \<Rightarrow> perform_unlock runner repo branch
     | _ \<Rightarrow> ret ()))))))"

definition safety_net_main :: "'w runner \<Rightarrow> string \<Rightarrow> ('w, unit) ci" where
  "safety_net_main runner now = try_except (safety_net_body runner now) is_runtime_error die"

section \<open>Traces\<close>

lemma sn_require_env_issues [issues_intros]: "issues P (sn_require_env n)"
  unfolding sn_require_env_def Let_def by (intro issues_intros)

lemma sn_require_env_apply:
  "sn_require_env n s = (if env_of s n = [] then (Inl ConfigurationError, s) else (Inr (env_of s n), s))"
  by (simp add: sn_require_env_def bindC_def Let_def env_of_def)

lemma get_branch_protection_issues:
  "issues (\<lambda>c. c = get_protection_cmd repo branch) (get_branch_protection runner repo branch)"
  unfolding get_branch_protection_def by (intro issues_intros) auto

lemma read_lock_info_issues:
  "issues (\<lambda>c. c = read_marker_cmd repo branch) (read_lock_info runner now repo branch)"
  unfolding read_lock_info_def Let_def by (intro issues_intros) auto

lemma check_runs_issues:
  "issues (\<lambda>c. \<exists>wf. c = runs_cmd repo branch wf) (check_in_progress_release_runs runner repo branch)"
  unfolding check_in_progress_release_runs_def by (intro issues_intros) auto

lemma perform_unlock_issues:
  "issues (\<lambda>c. c = delete_marker_cmd repo branch) (perform_unlock runner repo branch)"
  unfolding perform_unlock_def by (intro issues_intros) auto

lemma issues_mono: "issues P m \<Longrightarrow> (\<And>c. P c \<Longrightarrow> Q c) \<Longrightarrow> issues Q m"
  by (force simp: issues_def list_all_iff)

lemma delete_neq: "delete_marker_cmd repo branch \<noteq> read_marker_cmd repo' branch'"
  "delete_marker_cmd repo branch \<noteq> runs_cmd repo' branch' wfile"
  by (simp_all add: delete_marker_cmd_def read_marker_cmd_def runs_cmd_def)

text \<open>The last part of the safety net, after the configuration has been read.\<close>

lemma safety_net_body_eq:
  assumes "env_of s ''REPO'' = repo" "env_of s ''BRANCH'' = branch"
  shows "safety_net_body runner now s =
     (if repo = [] \<or> branch = [] \<or> env_of s ''LOCK_MAX_AGE_MINUTES'' = [] then (Inl ConfigurationError, s)
      else (case py_int (env_of s ''LOCK_MAX_AGE_MINUTES'') of
          None \<Rightarrow> (Inl ConfigurationError, s)
        | Some max_age \<Rightarrow> bindC (read_lock_info runner now repo branch) (\<lambda>info.
            bindC (if info = None then ret 0 else check_in_progress_release_runs runner repo branch) (\<lambda>in_progress.
              case decide_unlock info in_progress max_age of
                DO_UNLOCK \<Rightarrow> perform_unlock runner repo branch | _ \<Rightarrow> ret ())) s))"
  using assms by (auto simp: safety_net_body_def bindC_def sn_require_env_apply split: option.splits)

lemma unlock_branch_issues_case:
  "issues P (perform_unlock runner repo branch) \<Longrightarrow>
     issues P (case d of DO_UNLOCK \<Rightarrow> perform_unlock runner repo branch | _ \<Rightarrow> ret ())"
  by (cases d) (auto intro: issues_intros)

lemma safety_net_tail_started:
  assumes "c \<in> set (started (bindC (read_lock_info runner now repo branch) (\<lambda>info.
            bindC (if info = None then ret 0 else check_in_progress_release_runs runner repo branch) (\<lambda>in_progress.
              case decide_unlock info in_progress max_age of
                DO_UNLOCK \<Rightarrow> perform_unlock runner repo branch | _ \<Rightarrow> ret ()))) s)"
    and c: "c = delete_marker_cmd repo branch"
  shows "\<exists>li n t u. read_lock_info runner now repo branch s = (Inr (Some li), t) \<and>
     check_in_progress_release_runs runner repo branch t = (Inr n, u) \<and> n \<le> 0 \<and>
     \<not> float_less (li_age_minutes li) max_age"
proof -
  let ?k2 = "\<lambda>info in_progress. case decide_unlock info in_progress max_age of
      DO_UNLOCK \<Rightarrow> perform_unlock runner repo branch | _ \<Rightarrow> ret ()"
  let ?k1 = "\<lambda>info. bindC (if info = None then ret 0 else check_in_progress_release_runs runner repo branch) (?k2 info)"
  have t3: "tracing (?k2 i n)" for i n
    by (intro unlock_branch_issues_case issues_mono [OF perform_unlock_issues]) simp
  have t2: "tracing (if info = None then ret 0 else check_in_progress_release_runs runner repo branch)" for info :: "lock_info option"
    by (intro issues_intros issues_mono [OF check_runs_issues]) simp
  have t1: "tracing (?k1 i)" for i by (intro issues_bind t2 t3)
  have t0: "tracing (read_lock_info runner now repo branch)" by (rule issues_mono [OF read_lock_info_issues]) simp
  obtain r t where r: "read_lock_info runner now repo branch s = (r, t)" by force
  have "c \<notin> set (started (read_lock_info runner now repo branch) s)"
    using issues_started [OF read_lock_info_issues] delete_neq(1) c by blast
  then obtain info where info: "r = Inr info" "c \<in> set (started (?k1 info) t)"
    using assms(1) unfolding started_bind [OF t0 t1] by (cases r) (auto simp: r)
  obtain q u where q: "(if info = None then ret 0 else check_in_progress_release_runs runner repo branch) t = (q, u)" by force
  have "c \<notin> set (started (if info = None then ret 0 else check_in_progress_release_runs runner repo branch) t)"
    using issues_started [OF check_runs_issues] delete_neq(2) c by (cases info) fastforce+
  then obtain n where n: "q = Inr n" "c \<in> set (started (?k2 info n) u)"
    using info(2) unfolding started_bind [OF t2 t3] by (cases q) (auto simp: q)
  then have d: "decide_unlock info n max_age = DO_UNLOCK"
    by (cases "decide_unlock info n max_age") auto
  then obtain li where li: "info = Some li" "n \<le> 0" "\<not> float_less (li_age_minutes li) max_age"
    by (auto simp: decide_unlock_def split: option.splits if_splits)
  with r info q n show ?thesis by auto
qed

section \<open>The protection body\<close>

lemma wf_pick_all:
  assumes "wf_json v" "pick_all v g k = Inr x"
  shows "wf_json x"
proof -
  obtain gv xs ys where g: "json_get_default v g (JList []) = Inr gv" "json_iter gv = Inr xs"
    "mapM (\<lambda>x. json_index x k) xs = Inr ys" "x = JList ys"
    using assms(2) by (auto simp: pick_all_def bindR_Inr_iff)
  have "\<forall>x \<in> set xs. wf_json x" using wf_iter [OF wf_get_default [OF g(1) assms(1)] g(2)] by simp
  then have "\<forall>y \<in> set ys. wf_json y"
    using g(3) by (induction xs arbitrary: ys) (auto simp: bindR_Inr_iff dest: wf_index)
  with g(4) show ?thesis by simp
qed

lemma wf_protection_parts:
  "wf_json v \<Longrightarrow> status_checks_body v = Inr x \<Longrightarrow> wf_json x"
  "wf_json v \<Longrightarrow> reviews_body v = Inr x \<Longrightarrow> wf_json x"
  "wf_json v \<Longrightarrow> restrictions_body v = Inr x \<Longrightarrow> wf_json x"
  "wf_json v \<Longrightarrow> enabled_flag v k = Inr x \<Longrightarrow> wf_json x"
proof -
  show "wf_json v \<Longrightarrow> status_checks_body v = Inr x \<Longrightarrow> wf_json x"
    by (auto simp: status_checks_body_def bindR_Inr_iff split: if_splits dest!: wf_get_default)
  show "wf_json v \<Longrightarrow> reviews_body v = Inr x \<Longrightarrow> wf_json x"
    by (auto simp: reviews_body_def bindR_Inr_iff split: if_splits dest!: wf_get_default)
  show "wf_json v \<Longrightarrow> restrictions_body v = Inr x \<Longrightarrow> wf_json x"
    by (auto simp: restrictions_body_def bindR_Inr_iff split: if_splits dest: wf_pick_all)
  show "wf_json v \<Longrightarrow> enabled_flag v k = Inr x \<Longrightarrow> wf_json x"
    by (auto simp: enabled_flag_def bindR_Inr_iff dest!: wf_get_default)
qed

definition protection_flags :: "string list" where
  "protection_flags = [''enforce_admins'', ''required_linear_history'', ''allow_force_pushes'',
     ''allow_deletions'', ''required_conversation_resolution'']"

lemma protection_body_cases:
  assumes "protection_body p lock = Inr v" "wf_json p"
  obtains a b c e f g h i where
    "v = JObj [(''required_status_checks'', a), (''enforce_admins'', e), (''required_pull_request_reviews'', b),
       (''restrictions'', c), (''required_linear_history'', f), (''allow_force_pushes'', g), (''allow_deletions'', h),
       (''required_conversation_resolution'', i), (''lock_branch'', JBool lock)]"
    "wf_json a" "wf_json b" "wf_json c" "wf_json e" "wf_json f" "wf_json g" "wf_json h" "wf_json i"
    "enabled_flag p ''enforce_admins'' = Inr e" "enabled_flag p ''required_linear_history'' = Inr f"
    "enabled_flag p ''allow_force_pushes'' = Inr g" "enabled_flag p ''allow_deletions'' = Inr h"
    "enabled_flag p ''required_conversation_resolution'' = Inr i"
    "bindR (json_get p ''required_status_checks'') status_checks_body = Inr a"
    "bindR (json_get p ''required_pull_request_reviews'') reviews_body = Inr b"
    "bindR (json_get p ''restrictions'') restrictions_body = Inr c"
proof -
  note d = assms(1) [unfolded protection_body_def]
  obtain rsc where q0: "json_get p ''required_status_checks'' = Inr rsc"
    using d by (cases "json_get p ''required_status_checks''") auto
  obtain a where q1: "status_checks_body rsc = Inr a"
    using d q0 by (cases "status_checks_body rsc") auto
  obtain rpr where q2: "json_get p ''required_pull_request_reviews'' = Inr rpr"
    using d q0 q1 by (cases "json_get p ''required_pull_request_reviews''") auto
  obtain b where q3: "reviews_body rpr = Inr b"
    using d q0 q1 q2 by (cases "reviews_body rpr") auto
  obtain restr where q4: "json_get p ''restrictions'' = Inr restr"
    using d q0 q1 q2 q3 by (cases "json_get p ''restrictions''") auto
  obtain c where q5: "restrictions_body restr = Inr c"
    using d q0 q1 q2 q3 q4 by (cases "restrictions_body restr") auto
  obtain e where q6: "enabled_flag p ''enforce_admins'' = Inr e"
    using d q0 q1 q2 q3 q4 q5 by (cases "enabled_flag p ''enforce_admins''") auto
  obtain f where q7: "enabled_flag p ''required_linear_history'' = Inr f"
    using d q0 q1 q2 q3 q4 q5 q6 by (cases "enabled_flag p ''required_linear_history''") auto
  obtain g where q8: "enabled_flag p ''allow_force_pushes'' = Inr g"
    using d q0 q1 q2 q3 q4 q5 q6 q7 by (cases "enabled_flag p ''allow_force_pushes''") auto
  obtain h where q9: "enabled_flag p ''allow_deletions'' = Inr h"
    using d q0 q1 q2 q3 q4 q5 q6 q7 q8 by (cases "enabled_flag p ''allow_deletions''") auto
  obtain i where q10: "enabled_flag p ''required_conversation_resolution'' = Inr i"
    using d q0 q1 q2 q3 q4 q5 q6 q7 q8 q9 by (cases "enabled_flag p ''required_conversation_resolution''") auto
  have z: "v = JObj [(''required_status_checks'', a), (''enforce_admins'', e), (''required_pull_request_reviews'', b),
       (''restrictions'', c), (''required_linear_history'', f), (''allow_force_pushes'', g), (''allow_deletions'', h),
       (''required_conversation_resolution'', i), (''lock_branch'', JBool lock)]"
    using d q0 q1 q2 q3 q4 q5 q6 q7 q8 q9 q10 by simp
  show thesis
    by (rule that [OF z wf_protection_parts(1) [OF wf_get [OF q0 assms(2)] q1]
          wf_protection_parts(2) [OF wf_get [OF q2 assms(2)] q3]
          wf_protection_parts(3) [OF wf_get [OF q4 assms(2)] q5] _ _ _ _ _ q6 q7 q8 q9 q10])
      (simp_all add: q0 q1 q2 q3 q4 q5
        wf_protection_parts(4) [OF assms(2) q6] wf_protection_parts(4) [OF assms(2) q7]
        wf_protection_parts(4) [OF assms(2) q8] wf_protection_parts(4) [OF assms(2) q9]
        wf_protection_parts(4) [OF assms(2) q10])
qed

text \<open>Settings of the rule outside the eight the body is built from are not sent back.\<close>

lemma put_body_ignores_unread:
  assumes "k \<notin> set (''required_status_checks'' # ''required_pull_request_reviews'' # ''restrictions'' # protection_flags)"
  shows "protection_put_body (JObj (AList.update k v kvs)) lock = protection_put_body (JObj kvs) lock"
proof -
  have g: "j \<noteq> k \<Longrightarrow> json_get (JObj (AList.update k v kvs)) j = json_get (JObj kvs) j" for j
    by (simp add: json_get_def update_conv')
  have f: "j \<noteq> k \<Longrightarrow> enabled_flag (JObj (AList.update k v kvs)) j = enabled_flag (JObj kvs) j" for j
    by (simp add: enabled_flag_def json_get_default_def update_conv')
  have n: "''required_status_checks'' \<noteq> k" "''required_pull_request_reviews'' \<noteq> k" "''restrictions'' \<noteq> k"
    "''enforce_admins'' \<noteq> k" "''required_linear_history'' \<noteq> k" "''allow_force_pushes'' \<noteq> k"
    "''allow_deletions'' \<noteq> k" "''required_conversation_resolution'' \<noteq> k"
    using assms by (auto simp: protection_flags_def)
  show ?thesis unfolding protection_put_body_def protection_body_def n [THEN g] n [THEN f] ..
qed

section \<open>Properties\<close>

text \<open>Toggling the lock carries the rule over: for a protection rule from the API, the body of the
  update decodes to an object whose \<open>lock_branch\<close> is the requested state, whose five on/off
  settings are those of the rule, whose status checks, reviews and restrictions are the rule's in
  the shape the update takes, and which differs from the body for the opposite state in
  \<open>lock_branch\<close> only.\<close>

theorem put_body_only_toggles_lock:
  assumes "protection_put_body p lock = Inr t" and "wf_json p"
  shows "\<exists>b t'. loads t = Some (JObj b) \<and> map_of b ''lock_branch'' = Some (JBool lock) \<and>
     (\<forall>k \<in> set protection_flags. \<exists>v. enabled_flag p k = Inr v \<and> map_of b k = Some v) \<and>
     bindR (json_get p ''required_status_checks'') status_checks_body = Inr (the (map_of b ''required_status_checks'')) \<and>
     bindR (json_get p ''required_pull_request_reviews'') reviews_body = Inr (the (map_of b ''required_pull_request_reviews'')) \<and>
     bindR (json_get p ''restrictions'') restrictions_body = Inr (the (map_of b ''restrictions'')) \<and>
     protection_put_body p (\<not> lock) = Inr t' \<and>
     loads t' = Some (JObj (AList.update ''lock_branch'' (JBool (\<not> lock)) b))"
proof -
  obtain v where v: "protection_body p lock = Inr v" "t = dumps dflt_opts v"
    using assms(1) by (auto simp: protection_put_body_def bindR_Inr_iff)
  obtain a b c e f g h i where
    b: "v = JObj [(''required_status_checks'', a), (''enforce_admins'', e), (''required_pull_request_reviews'', b),
       (''restrictions'', c), (''required_linear_history'', f), (''allow_force_pushes'', g), (''allow_deletions'', h),
       (''required_conversation_resolution'', i), (''lock_branch'', JBool lock)]"
    "wf_json a" "wf_json b" "wf_json c" "wf_json e" "wf_json f" "wf_json g" "wf_json h" "wf_json i" and
    fl: "enabled_flag p ''enforce_admins'' = Inr e" "enabled_flag p ''required_linear_history'' = Inr f"
    "enabled_flag p ''allow_force_pushes'' = Inr g" "enabled_flag p ''allow_deletions'' = Inr h"
    "enabled_flag p ''required_conversation_resolution'' = Inr i" and
    pt: "bindR (json_get p ''required_status_checks'') status_checks_body = Inr a"
    "bindR (json_get p ''required_pull_request_reviews'') reviews_body = Inr b"
    "bindR (json_get p ''restrictions'') restrictions_body = Inr c"
    using protection_body_cases [OF v(1) assms(2)] by metis
  let ?b = "\<lambda>l. [(''required_status_checks'', a), (''enforce_admins'', e), (''required_pull_request_reviews'', b),
       (''restrictions'', c), (''required_linear_history'', f), (''allow_force_pushes'', g), (''allow_deletions'', h),
       (''required_conversation_resolution'', i), (''lock_branch'', JBool l)]"
  have w: "wf_json (JObj (?b l))" for l using b(2-) by simp
  have "protection_body p (\<not> lock) = Inr (JObj (?b (\<not> lock)))"
    using fl pt unfolding protection_body_def bindR_Inr_iff by auto
  then have "protection_put_body p (\<not> lock) = Inr (dumps dflt_opts (JObj (?b (\<not> lock))))"
    by (simp add: protection_put_body_def del: dumps.simps)
  moreover have "loads t = Some (JObj (?b lock))" using v b(1) loads_dumps [OF _ w] by simp
  moreover have "loads (dumps dflt_opts (JObj (?b (\<not> lock)))) = Some (JObj (?b (\<not> lock)))"
    using loads_dumps [OF _ w] by simp
  moreover have "AList.update ''lock_branch'' (JBool (\<not> lock)) (?b lock) = ?b (\<not> lock)" by simp
  ultimately show ?thesis
    using fl pt
    by (intro exI [of _ "?b lock"] exI [of _ "dumps dflt_opts (JObj (?b (\<not> lock)))"])
      (simp add: protection_flags_def del: dumps.simps)
qed

theorem put_body_only_toggles_lock_witness:
  "\<exists>b. loads (projr (protection_put_body (JObj [(''enforce_admins'', JObj [(''enabled'', JBool True)])]) True)) =
     Some (JObj b) \<and> map_of b ''lock_branch'' = Some (JBool True)"
proof -
  let ?p = "JObj [(''enforce_admins'', JObj [(''enabled'', JBool True)])]"
  have "isl (protection_put_body ?p True) = False" by code_simp
  then obtain t where "protection_put_body ?p True = Inr t" by (metis isl_def sum.exhaust_sel sum.collapse(2))
  moreover have "wf_json ?p" by simp
  ultimately show ?thesis using put_body_only_toggles_lock [of ?p True t] by auto
qed

text \<open>The marker comes first: when locking completes, the marker was written (by update, or by
  creation after a failed update), then the rule was read, then it was sent back with the lock
  set; and if any run sends a protection rule, its marker was written.\<close>

theorem lock_marker_before_protection:
  "(lock_branch runner now repo branch rid s = (Inr (), s') \<longrightarrow>
     (\<exists>ms p body. started (lock_branch runner now repo branch rid) s =
        ms @ [get_protection_cmd repo branch, put_protection_cmd repo branch body] \<and>
        ms \<in> {[patch_marker_cmd repo branch (lock_marker now rid)],
              [patch_marker_cmd repo branch (lock_marker now rid), post_marker_cmd repo branch (lock_marker now rid)]} \<and>
        protection_put_body p True = Inr body)) \<and>
   ((\<exists>c \<in> set (started (lock_branch runner now repo branch rid) s). stdin c \<noteq> None) \<longrightarrow>
     fst (write_lock_marker runner now repo branch rid s) = Inr ())"
proof -
  let ?m = "patch_marker_cmd repo branch (lock_marker now rid)" and ?n = "post_marker_cmd repo branch (lock_marker now rid)"
  have wi: "issues (\<lambda>c. stdin c = None) (write_lock_marker runner now repo branch rid)"
    unfolding write_lock_marker_def Let_def
    by (intro issues_intros) (simp_all add: patch_marker_cmd_def post_marker_cmd_def)
  have wt: "tracing (write_lock_marker runner now repo branch rid)" by (rule issues_mono [OF wi]) simp
  have et: "tracing (enable_branch_protection runner repo branch)"
    unfolding enable_branch_protection_def put_branch_lock_def get_branch_protection_def by (intro issues_intros) auto
  have st: "started (lock_branch runner now repo branch rid) s = started (write_lock_marker runner now repo branch rid) s @
      (case write_lock_marker runner now repo branch rid s of (Inl e, t) \<Rightarrow> []
       | (Inr x, t) \<Rightarrow> started (enable_branch_protection runner repo branch) t)" for s
    unfolding lock_branch_def thenC_def by (rule started_bind [OF wt et])
  have a: "\<exists>ms p body. started (lock_branch runner now repo branch rid) s =
        ms @ [get_protection_cmd repo branch, put_protection_cmd repo branch body] \<and> ms \<in> {[?m], [?m, ?n]} \<and>
        protection_put_body p True = Inr body"
    if l: "lock_branch runner now repo branch rid s = (Inr (), s')"
  proof -
    obtain t where w: "write_lock_marker runner now repo branch rid s = (Inr (), t)"
      and e: "enable_branch_protection runner repo branch t = (Inr (), s')"
      using l by (auto simp: lock_branch_def thenC_Inr_iff)
    have "cmds t = cmds s @ [?m] \<or> cmds t = cmds s @ [?m, ?n]"
      using w by (auto simp: write_lock_marker_def Let_def bindC_Inr_iff run_cmd_Inr_iff split: if_splits)
    then have "started (write_lock_marker runner now repo branch rid) s \<in> {[?m], [?m, ?n]}"
      using started_cmds [OF wt w] by auto
    moreover obtain p body where "cmds s' = cmds t @ [get_protection_cmd repo branch, put_protection_cmd repo branch body]"
      "protection_put_body p True = Inr body"
      using e by (auto simp: enable_branch_protection_def put_branch_lock_def get_branch_protection_def
          bindC_Inr_iff run_cmd_Inr_iff split: if_splits option.splits)
    moreover have "started (enable_branch_protection runner repo branch) t =
        [get_protection_cmd repo branch, put_protection_cmd repo branch body]"
      using started_cmds [OF et e] calculation(2) by simp
    ultimately show ?thesis using st [of s] w by auto
  qed
  have b: "fst (write_lock_marker runner now repo branch rid s) = Inr ()"
    if put: "\<exists>c \<in> set (started (lock_branch runner now repo branch rid) s). stdin c \<noteq> None"
  proof -
    obtain q t where q: "write_lock_marker runner now repo branch rid s = (q, t)" by force
    show ?thesis
    proof (cases q)
      case (Inl e)
      then have "started (lock_branch runner now repo branch rid) s = started (write_lock_marker runner now repo branch rid) s"
        using st [of s] q by simp
      then obtain c where "c \<in> set (started (write_lock_marker runner now repo branch rid) s)" "stdin c \<noteq> None"
        using put by auto
      with issues_started [OF wi, of c s] show ?thesis by simp
    qed (simp add: q)
  qed
  from a b show ?thesis by blast
qed

text \<open>A repository that accepts everything and has a bare protection rule.\<close>

definition ex_lock_runner :: "unit runner" where
  "ex_lock_runner c w = (Some \<lparr>returncode = 0,
     stdout = (if stdin c = None \<and> last (argv c) = ''repos/o/r/branches/main/protection'' then ''{}''
       else if last (argv c) = ''.value'' then lock_marker ''1000.5'' ''77'' @ [CHR 0x0A]
       else if last (argv c) = ''.total_count'' then ''0'' else []), stderr = []\<rparr>, w)"

definition ex_lock_state :: "unit ci_state" where
  "ex_lock_state = \<lparr>world = (), cmds = [], environ = [(''REPO'', ''o/r''), (''BRANCH'', ''main''),
     (''LOCK_MAX_AGE_MINUTES'', ''30''), (''WORKFLOW_FILE_NAME'', ''release.yml'')], files = [], readonly = [], printed = []\<rparr>"

theorem lock_marker_before_protection_witness:
  "\<exists>ms body. started (lock_branch ex_lock_runner ''1000.5'' ''o/r'' ''main'' ''77'') ex_lock_state =
     ms @ [get_protection_cmd ''o/r'' ''main'', put_protection_cmd ''o/r'' ''main'' body]"
proof -
  let ?m = "lock_branch ex_lock_runner ''1000.5'' ''o/r'' ''main'' ''77'' ex_lock_state"
  have "fst ?m = Inr ()" by code_simp
  then have "?m = (Inr (), snd ?m)" by (metis prod.collapse)
  then show ?thesis
    using lock_marker_before_protection [of ex_lock_runner "''1000.5''" "''o/r''" "''main''" "''77''" ex_lock_state "snd ?m"]
    by blast
qed

lemma put_started:
  assumes gt: "tracing g" and s3: "\<And>t. started g t = [x]"
  shows "started (bindC g (\<lambda>p. bindC (lift (protection_put_body p lock)) (\<lambda>body.
      bindC (run_cmd runner (put_protection_cmd repo branch body)) (\<lambda>r. if returncode r \<noteq> 0 then raise RuntimeError else ret ())))) t = [x] \<or>
    (\<exists>body. started (bindC g (\<lambda>p. bindC (lift (protection_put_body p lock)) (\<lambda>body.
      bindC (run_cmd runner (put_protection_cmd repo branch body)) (\<lambda>r. if returncode r \<noteq> 0 then raise RuntimeError else ret ())))) t =
      [x, put_protection_cmd repo branch body])"
proof -
  let ?put = "\<lambda>body. bindC (run_cmd runner (put_protection_cmd repo branch body)) (\<lambda>r. if returncode r \<noteq> 0 then raise RuntimeError else ret ())"
  let ?k = "\<lambda>p. bindC (lift (protection_put_body p lock)) ?put"
  have lt: "tracing (lift (protection_put_body p lock))" for p by (intro issues_intros)
  have pt: "tracing (?put body)" for body by (intro issues_intros) auto
  have kt: "tracing (?k p)" for p by (intro issues_intros) auto
  have ps: "started (?put body) u = [put_protection_cmd repo branch body]" for body u
    by (subst started_bind) (auto intro!: issues_intros split: sum.splits prod.splits)
  have ks: "started (?k p) u = [] \<or> (\<exists>body. started (?k p) u = [put_protection_cmd repo branch body])" for p u
    unfolding started_bind [OF lt pt] by (cases "protection_put_body p lock") (auto simp: ps)
  show ?thesis
    unfolding started_bind [OF gt kt] s3 using ks by (cases "g t"; cases "fst (g t)") auto
qed

text \<open>Releasing the lock is not restartable: unlocking deletes the marker before it sends the
  protection rule, and a run that finds no marker starts no other command and reports success. So
  once a first attempt has deleted the marker and then failed, every later attempt leaves the
  branch protection as it is.\<close>

theorem unlock_needs_marker:
  "(\<forall>t. is_branch_locked runner repo branch s = (Inr False, t) \<longrightarrow>
      fst (unlock_branch runner repo branch s) = Inr () \<and>
      started (unlock_branch runner repo branch) s = [read_marker_cmd repo branch]) \<and>
   (\<forall>c body. c \<in> set (started (unlock_branch runner repo branch) s) \<and> c = put_protection_cmd repo branch body \<longrightarrow>
      started (unlock_branch runner repo branch) s =
        [read_marker_cmd repo branch, delete_marker_cmd repo branch, get_protection_cmd repo branch, c])"
proof -
  let ?tail = "thenC (delete_lock_marker runner repo branch) (disable_branch_lock runner repo branch)"
  have t1: "tracing (is_branch_locked runner repo branch)"
    unfolding is_branch_locked_def by (intro issues_intros) auto
  have t2: "tracing (delete_lock_marker runner repo branch)"
    unfolding delete_lock_marker_def by (intro issues_intros) auto
  have t3: "tracing (disable_branch_lock runner repo branch)"
    unfolding disable_branch_lock_def put_branch_lock_def get_branch_protection_def by (intro issues_intros) auto
  have s1: "started (is_branch_locked runner repo branch) t = [read_marker_cmd repo branch]" for t
    unfolding is_branch_locked_def
    by (subst started_bind) (auto intro!: issues_intros split: sum.splits prod.splits)
  have s2: "started (delete_lock_marker runner repo branch) t = [delete_marker_cmd repo branch]" for t
    unfolding delete_lock_marker_def
    by (subst started_bind) (auto intro!: issues_intros split: sum.splits prod.splits)
  have s3: "started (get_branch_protection runner repo branch) t = [get_protection_cmd repo branch]" for t
    unfolding get_branch_protection_def
    by (subst started_bind) (auto intro!: issues_intros split: sum.splits prod.splits option.splits)
  have gt: "tracing (get_branch_protection runner repo branch)"
    by (rule issues_mono [OF get_branch_protection_issues]) simp
  have s4: "started (disable_branch_lock runner repo branch) t = [get_protection_cmd repo branch] \<or>
      (\<exists>body. started (disable_branch_lock runner repo branch) t = [get_protection_cmd repo branch, put_protection_cmd repo branch body])" for t
    unfolding disable_branch_lock_def put_branch_lock_def
    by (rule put_started [OF gt s3])
  have tt: "tracing ?tail" by (intro issues_intros t2 t3)
  have st: "started (unlock_branch runner repo branch) s = read_marker_cmd repo branch #
      (case is_branch_locked runner repo branch s of (Inr True, t) \<Rightarrow> started ?tail t | _ \<Rightarrow> [])"
    unfolding unlock_branch_def
    by (subst started_bind [OF t1]) (auto intro!: issues_intros tt simp: s1 split: sum.splits prod.splits bool.splits)
  have sl: "started ?tail t = [delete_marker_cmd repo branch] \<or>
      started ?tail t = [delete_marker_cmd repo branch, get_protection_cmd repo branch] \<or>
      (\<exists>body. started ?tail t = [delete_marker_cmd repo branch, get_protection_cmd repo branch, put_protection_cmd repo branch body])" for t
    unfolding thenC_def started_bind [OF t2 t3] s2 using s4 by (auto split: sum.splits prod.splits)
  have ne: "put_protection_cmd repo branch body \<notin> {read_marker_cmd repo branch, delete_marker_cmd repo branch,
      get_protection_cmd repo branch}" for body
    by (simp add: put_protection_cmd_def read_marker_cmd_def delete_marker_cmd_def get_protection_cmd_def)
  have a: "fst (unlock_branch runner repo branch s) = Inr () \<and> started (unlock_branch runner repo branch) s = [read_marker_cmd repo branch]"
    if "is_branch_locked runner repo branch s = (Inr False, t)" for t
    using that st by (simp add: unlock_branch_def bindC_def)
  have b: "started (unlock_branch runner repo branch) s =
        [read_marker_cmd repo branch, delete_marker_cmd repo branch, get_protection_cmd repo branch, c]"
    if c: "c \<in> set (started (unlock_branch runner repo branch) s)" "c = put_protection_cmd repo branch body" for c body
  proof -
    obtain t where t: "is_branch_locked runner repo branch s = (Inr True, t)" "c \<in> set (started ?tail t)"
      using c st ne [of body] by (auto split: sum.splits prod.splits bool.splits)
    with sl [of t] c(2) ne [of body] have "started ?tail t =
        [delete_marker_cmd repo branch, get_protection_cmd repo branch, c]" by auto
    with st t show ?thesis by simp
  qed
  show ?thesis using a b by blast
qed

theorem unlock_needs_marker_witness:
  "started (unlock_branch (\<lambda>c w. (Some \<lparr>returncode = 1, stdout = [], stderr = ''404''\<rparr>, w)) ''o/r'' ''main'') ex_lock_state =
     [read_marker_cmd ''o/r'' ''main''] \<and>
   (\<exists>c. started (unlock_branch ex_lock_runner ''o/r'' ''main'') ex_lock_state =
     [read_marker_cmd ''o/r'' ''main'', delete_marker_cmd ''o/r'' ''main'', get_protection_cmd ''o/r'' ''main'', c])"
proof -
  let ?gone = "\<lambda>c w. (Some \<lparr>returncode = 1, stdout = [], stderr = ''404''\<rparr>, w)"
  have "fst (is_branch_locked ?gone ''o/r'' ''main'' ex_lock_state) = Inr False" by code_simp
  then have "is_branch_locked ?gone ''o/r'' ''main'' ex_lock_state =
      (Inr False, snd (is_branch_locked ?gone ''o/r'' ''main'' ex_lock_state))" by (metis prod.collapse)
  then have a: "started (unlock_branch ?gone ''o/r'' ''main'') ex_lock_state = [read_marker_cmd ''o/r'' ''main'']"
    using unlock_needs_marker [of ?gone "''o/r''" "''main''" ex_lock_state] by blast
  let ?c = "put_protection_cmd ''o/r'' ''main'' (projr (protection_put_body (JObj []) False))"
  have "?c \<in> set (started (unlock_branch ex_lock_runner ''o/r'' ''main'') ex_lock_state)" by code_simp
  then have "started (unlock_branch ex_lock_runner ''o/r'' ''main'') ex_lock_state =
     [read_marker_cmd ''o/r'' ''main'', delete_marker_cmd ''o/r'' ''main'', get_protection_cmd ''o/r'' ''main'', ?c]"
    using unlock_needs_marker [of ex_lock_runner "''o/r''" "''main''" ex_lock_state] by blast
  with a show ?thesis by blast
qed

text \<open>C4. The safety net removes a marker only when the lock is stale (B15): if a run deletes the
  marker, it had read a well-formed marker, the query found no release run in progress, and the
  lock is at least \<open>LOCK_MAX_AGE_MINUTES\<close> old.\<close>

theorem safety_net_unlocks_only_stale:
  assumes "delete_marker_cmd (env_of s ''REPO'') (env_of s ''BRANCH'') \<in> set (started (safety_net_main runner now) s)"
  shows "\<exists>li n m t u. read_lock_info runner now (env_of s ''REPO'') (env_of s ''BRANCH'') s = (Inr (Some li), t) \<and>
     check_in_progress_release_runs runner (env_of s ''REPO'') (env_of s ''BRANCH'') t = (Inr n, u) \<and> n \<le> 0 \<and>
     py_int (env_of s ''LOCK_MAX_AGE_MINUTES'') = Some m \<and> \<not> float_less (li_age_minutes li) m"
proof -
  let ?r = "env_of s ''REPO''" and ?b = "env_of s ''BRANCH''"
  note eq = safety_net_body_eq [where s = s and runner = runner and now = now, OF refl refl]
  have st: "started (safety_net_main runner now) s = started (safety_net_body runner now) s"
    by (simp add: safety_net_main_def started_try_die)
  then have "started (safety_net_body runner now) s \<noteq> []" using assms by auto
  then obtain m where m: "py_int (env_of s ''LOCK_MAX_AGE_MINUTES'') = Some m"
    and body: "\<not> (?r = [] \<or> ?b = [] \<or> env_of s ''LOCK_MAX_AGE_MINUTES'' = [])"
    using eq by (auto simp: started_def split: if_splits option.splits)
  have "started (safety_net_body runner now) s = started (bindC (read_lock_info runner now ?r ?b) (\<lambda>info.
            bindC (if info = None then ret 0 else check_in_progress_release_runs runner ?r ?b) (\<lambda>in_progress.
              case decide_unlock info in_progress m of
                DO_UNLOCK \<Rightarrow> perform_unlock runner ?r ?b | _ \<Rightarrow> ret ()))) s"
    using eq m body unfolding started_def by simp
  with assms st have "delete_marker_cmd ?r ?b \<in> set (started (bindC (read_lock_info runner now ?r ?b) (\<lambda>info.
            bindC (if info = None then ret 0 else check_in_progress_release_runs runner ?r ?b) (\<lambda>in_progress.
              case decide_unlock info in_progress m of
                DO_UNLOCK \<Rightarrow> perform_unlock runner ?r ?b | _ \<Rightarrow> ret ()))) s)" by simp
  from safety_net_tail_started [OF this refl] m show ?thesis by blast
qed

text \<open>The safety net never touches the branch protection: whatever the repository answers, the
  only commands it starts read the marker, count the runs and delete the marker, so the
  \<open>lock_branch\<close> setting of a locked branch survives its unlock.\<close>

theorem safety_net_keeps_protection:
  "issues (\<lambda>c. \<exists>repo branch wfile. c \<in> {read_marker_cmd repo branch, runs_cmd repo branch wfile, delete_marker_cmd repo branch})
     (safety_net_main runner now)"
  unfolding safety_net_main_def safety_net_body_def
  by (intro issues_intros unlock_branch_issues_case issues_mono [OF read_lock_info_issues]
      issues_mono [OF check_runs_issues] issues_mono [OF perform_unlock_issues]) auto

text \<open>The marker is read back as written: when the variable holds the text \<open>lock_branch\<close> wrote
  for a run at a time, the safety net reads that run and its exact age in minutes.\<close>

theorem marker_roundtrip:
  assumes "runner (read_marker_cmd repo branch) (world s) = (Some c, w)" "returncode c = 0"
    and "strip (stdout c) = lock_marker now rid" "rid \<noteq> []"
    and "pnumber now = Some (JFloat now, [])" "float_of_str now = Some (Fin q)"
  shows "fst (read_lock_info runner now' repo branch s) =
     Inr (Some \<lparr>li_run_id = rid, li_age_minutes = Fin ((clock_val now' - q) / 60)\<rparr>)"
proof -
  let ?v = "JObj [(''run_id'', JStr rid), (''locked_at_epoch'', JFloat now)]"
  have l: "loads (lock_marker now rid) = Some ?v"
    unfolding lock_marker_def by (rule loads_dumps) (use assms(5) in auto)
  have n: "lock_marker now rid \<noteq> []" "lock_marker now rid \<noteq> ''null''" by (simp_all add: lock_marker_def)
  have i: "lock_info_of now' ?v = Inr \<lparr>li_run_id = rid, li_age_minutes = Fin ((clock_val now' - q) / 60)\<rparr>"
    using assms(4,6) by (simp add: lock_info_of_def json_get_def float_of_json_def minutes_since_def py_str_def)
  show ?thesis
    using assms(1-3) l n i by (simp add: read_lock_info_def bindC_def run_cmd_def Let_def)
qed

lemma ex_clock:
  "float_of_str ''1000.5'' = Some (Fin (2001 / 2))" "float_of_str ''1600.5'' = Some (Fin (3201 / 2))"
  "float_of_str ''9000.5'' = Some (Fin (18001 / 2))"
proof -
  have d: "signed (lower (strip ''1000.5'')) = (False, ''1000.5'')" "decimal_parts ''1000.5'' = Some (''1000'', ''5'', 0)"
    "signed (lower (strip ''1600.5'')) = (False, ''1600.5'')" "decimal_parts ''1600.5'' = Some (''1600'', ''5'', 0)"
    "signed (lower (strip ''9000.5'')) = (False, ''9000.5'')" "decimal_parts ''9000.5'' = Some (''9000'', ''5'', 0)" by code_simp+
  show "float_of_str ''1000.5'' = Some (Fin (2001 / 2))" "float_of_str ''1600.5'' = Some (Fin (3201 / 2))"
  "float_of_str ''9000.5'' = Some (Fin (18001 / 2))"
    by (simp_all add: float_of_str_def d nat_of_digits_def digit_val_def py_decimal_def dec_val_def)
qed

theorem marker_roundtrip_witness:
  "fst (read_lock_info ex_lock_runner ''1600.5'' ''o/r'' ''main'' ex_lock_state) =
     Inr (Some \<lparr>li_run_id = ''77'', li_age_minutes = Fin 10\<rparr>)"
proof -
  have "pnumber ''1000.5'' = Some (JFloat ''1000.5'', [])" by code_simp
  moreover have "strip (lock_marker ''1000.5'' ''77'' @ [CHR 0x0A]) = lock_marker ''1000.5'' ''77''" by code_simp
  ultimately show ?thesis
    using marker_roundtrip [of ex_lock_runner "''o/r''" "''main''" ex_lock_state _ _ "''1000.5''" "''77''" "2001 / 2" "''1600.5''"] ex_clock
    by (simp add: ex_lock_runner_def read_marker_cmd_def clock_val_def)
qed

theorem safety_net_unlocks_only_stale_witness:
  "\<exists>li n m t u. read_lock_info ex_lock_runner ''9000.5'' ''o/r'' ''main'' ex_lock_state = (Inr (Some li), t) \<and>
     check_in_progress_release_runs ex_lock_runner ''o/r'' ''main'' t = (Inr n, u) \<and> n \<le> 0 \<and>
     py_int ''30'' = Some m \<and> \<not> float_less (li_age_minutes li) m"
proof -
  have e: "env_of ex_lock_state ''REPO'' = ''o/r''" "env_of ex_lock_state ''BRANCH'' = ''main''"
    "env_of ex_lock_state ''LOCK_MAX_AGE_MINUTES'' = ''30''" by code_simp+
  have st: "strip (lock_marker ''1000.5'' ''77'' @ [CHR 0x0A]) = lock_marker ''1000.5'' ''77''"
    "lock_marker ''1000.5'' ''77'' \<noteq> []" "lock_marker ''1000.5'' ''77'' \<noteq> ''null''"
    "loads (lock_marker ''1000.5'' ''77'') = Some (JObj [(''run_id'', JStr ''77''), (''locked_at_epoch'', JFloat ''1000.5'')])"
    "py_int (strip ''0'') = Some 0" "py_int ''30'' = Some 30" by code_simp+
  have en: "env_of ex_lock_state ''WORKFLOW_FILE_NAME'' = ''release.yml''" by code_simp
  have "delete_marker_cmd ''o/r'' ''main'' \<in> set (started (safety_net_main ex_lock_runner ''9000.5'') ex_lock_state)"
    unfolding safety_net_main_def started_try_die
    unfolding started_def safety_net_body_eq [where s = ex_lock_state, OF refl refl] e
    using en st ex_clock
    by (simp add: read_lock_info_def bindC_def run_cmd_def ex_lock_runner_def read_marker_cmd_def lock_info_of_def
        json_get_def float_of_json_def minutes_since_def clock_val_def py_str_def check_in_progress_release_runs_def
        sn_require_env_apply runs_cmd_def decide_unlock_def float_less_def perform_unlock_def delete_marker_cmd_def Let_def env_of_def)
  then show ?thesis
    using safety_net_unlocks_only_stale [of ex_lock_state ex_lock_runner "''9000.5''"] unfolding e by blast
qed

end
