(* ===== verification/Accounts.thy ===== *)
theory Accounts
  imports Numbers
begin

text \<open>
  Which AWS account a Terragrunt unit belongs to and which role deploys it:
  \<open>scripts/resolve_deploy_role.py\<close>. The three configuration files are decoded JSON values;
  a lookup on a value of the wrong shape raises as Python's does.

  A \<open>main\<close> that returns 1 is the \<open>SystemExit 1\<close> of \<open>sys.exit(main())\<close>.
\<close>

section \<open>Python operations on decoded values\<close>

text \<open>\<open>s in v\<close> for a string \<open>s\<close>.\<close>

definition json_in :: "string \<Rightarrow> json \<Rightarrow> exn + bool" where
  "json_in s v = (case v of
      JObj kvs \<Rightarrow> Inr (map_of kvs s \<noteq> None)
    | JList xs \<Rightarrow> Inr (JStr s \<in> set xs)
    | JStr t \<Rightarrow> Inr (contains s t)
    | _ \<Rightarrow> Inl TypeError)"

section \<open>The flags of a scope\<close>

definition QUEUE_INCLUDE_DIR_TOKEN :: string where
  "QUEUE_INCLUDE_DIR_TOKEN = ''--queue-include-dir''"

definition QUEUE_INCLUDE_DIR_RE :: rx where
  "QUEUE_INCLUDE_DIR_RE = Seq (Lit QUEUE_INCLUDE_DIR_TOKEN)
     (Seq (Plus True (Cls is_ws)) (Grp ''1'' (Plus True (Cls (\<lambda>c. \<not> is_ws c)))))"

definition find_unit_paths :: "string \<Rightarrow> string list" where
  "find_unit_paths flags = map (\<lambda>cs. the_default [] (cap_of ''1'' cs)) (re_findall QUEUE_INCLUDE_DIR_RE flags)"

definition extract_all_unit_paths :: "string \<Rightarrow> exn + string list" where
  "extract_all_unit_paths include_dir_flags =
     (let paths = find_unit_paths include_dir_flags in
      if paths = [] then Inl PathParseError else Inr paths)"

definition reassemble_flags :: "string list \<Rightarrow> string" where
  "reassemble_flags unit_paths = join '' '' (concat (map (\<lambda>p. [QUEUE_INCLUDE_DIR_TOKEN, p]) unit_paths))"

section \<open>The account of a unit\<close>

definition region_class :: "char \<Rightarrow> bool" where
  "region_class c = (between (CHR ''a'') (CHR ''z'') c \<or> is_digit c \<or> c = CHR ''-'')"

definition REGION_RE :: rx where
  "REGION_RE = Seq (Cls (between (CHR ''a'') (CHR ''z''))) (Seq (Plus True (Cls region_class))
     (Seq (Ch (CHR ''-'')) (Plus True (Cls is_digit))))"

definition UNIT_PATH_RE :: rx where
  "UNIT_PATH_RE = Seq (Lit ''live/telemetry/'') (Seq (Grp ''region'' REGION_RE) (Seq (Ch (CHR ''/''))
     (Seq (Grp ''rest'' (Seq (Cls (\<lambda>c. c \<noteq> CHR ''/'')) (Star False (Cls dot)))) (Alt (Ch (CHR ''/'')) EndD))))"

text \<open>The text after the group \<open>rest\<close>, without its leading slashes, is the text after the
  match without them: the match ends with the slash or before the end.\<close>

definition parse_unit_path :: "string \<Rightarrow> exn + string \<times> string \<times> string" where
  "parse_unit_path unit_path = (case re_search UNIT_PATH_RE unit_path of
      None \<Rightarrow> Inl PathParseError
    | Some (t, cs) \<Rightarrow> Inr (the_default [] (cap_of ''region'' cs), the_default [] (cap_of ''rest'' cs), lstrip_char (CHR ''/'') t))"

definition envs_account :: "json \<Rightarrow> string \<Rightarrow> exn + string" where
  "envs_account envs env = bindR (json_in env envs) (\<lambda>present.
     if \<not> present then Inl AccountResolutionError
     else bindR (json_index envs env) (\<lambda>e. bindR (json_index e ''account_id'') (\<lambda>a. Inr (py_str a))))"

definition dns_owner_account :: "json \<Rightarrow> exn + string" where
  "dns_owner_account dns_owner = bindR (json_in ''account_id'' dns_owner) (\<lambda>present.
     if \<not> present then Inl AccountResolutionError
     else bindR (json_index dns_owner ''account_id'') (\<lambda>a. Inr (py_str a)))"

definition bootstrap_role :: "string \<Rightarrow> string" where
  "bootstrap_role role_dir =
     (if endswith role_dir ''_role'' then take (length role_dir - length ''_role'') role_dir else role_dir)"

definition unit_account :: "string \<Rightarrow> string \<Rightarrow> json \<Rightarrow> json \<Rightarrow> json \<Rightarrow> exn + string" where
  "unit_account seg rest envs dns_owner domains =
     (if seg = ''bootstrap'' then
        (let role_dir = (if rest \<noteq> [] then takeWhile (\<lambda>c. c \<noteq> CHR ''/'') rest else []) in
         if role_dir = [] then Inl PathParseError
         else if bootstrap_role role_dir = ''dns_owner'' then dns_owner_account dns_owner
         else envs_account envs (bootstrap_role role_dir))
      else if ''dns_owner'' \<in> set (split_on (CHR ''/'') rest) then dns_owner_account dns_owner
      else if ''pretty'' \<in> set (split_on (CHR ''/'') rest) then
        bindR (json_get domains seg) (\<lambda>dom.
        if dom = JNull then Inl AccountResolutionError
        else bindR (json_get dom ''dns_pretty_apex'') (\<lambda>a.
             bindR (json_get dom ''dns_service_apex'') (\<lambda>b.
               if py_eq a b then envs_account envs seg else dns_owner_account dns_owner)))
      else envs_account envs seg)"

definition resolve_account_id :: "string \<Rightarrow> json \<Rightarrow> json \<Rightarrow> exn + string \<times> string" where
  "resolve_account_id unit_path env_accounts domains =
     bindR (parse_unit_path unit_path) (\<lambda>(region, seg, rest).
     bindR (json_get_default env_accounts ''envs'' (JObj [])) (\<lambda>envs.
     bindR (json_get_default env_accounts ''dns_owner'' (JObj [])) (\<lambda>dns_owner.
     bindR (unit_account seg rest envs dns_owner domains) (\<lambda>account_id. Inr (region, account_id)))))"

section \<open>What CI may apply\<close>

definition on_demand_opt_in :: "(string, string) dict \<Rightarrow> bool" where
  "on_demand_opt_in env = (lower (strip (the_default [] (map_of env ''TT_ON_DEMAND_APPLY'')))
     \<in> set [''1'', ''true'', ''yes'', ''on''])"

definition account_allows_ci_apply :: "json \<Rightarrow> bool \<Rightarrow> exn + bool" where
  "account_allows_ci_apply entry on_demand =
     bindR (json_index entry ''ci_deploy'') (\<lambda>v.
       if truthy v then Inr True
       else if \<not> on_demand then Inr False
       else bindR (json_get_default entry ''ci_deploy_on_demand'' (JBool False)) (\<lambda>d. Inr (truthy d)))"

definition build_role_arn :: "string \<Rightarrow> string \<Rightarrow> string" where
  "build_role_arn account_id role_name = ''arn:aws:iam::'' @ account_id @ '':role/'' @ role_name"

text \<open>\<open>if key not in v: raise AccountNotFoundError\<close>.\<close>

definition require_key :: "string \<Rightarrow> json \<Rightarrow> exn + unit" where
  "require_key key v = bindR (json_in key v) (\<lambda>b. if b then Inr () else Inl AccountNotFoundError)"

definition is_account_ci_deployable :: "string \<Rightarrow> json \<Rightarrow> bool \<Rightarrow> exn + bool" where
  "is_account_ci_deployable account_id accounts on_demand =
     bindR (require_key account_id accounts) (\<lambda>_.
     bindR (json_index accounts account_id) (\<lambda>entry.
     bindR (require_key ''ci_deploy'' entry) (\<lambda>_.
       account_allows_ci_apply entry on_demand)))"

text \<open>\<open>json.loads(path.read_text())\<close>.\<close>

definition load_json :: "path \<Rightarrow> ('w, json) ci" where
  "load_json p = bindC (read_text p) (\<lambda>t. lift (json_loads t))"

definition account_entry :: "string \<Rightarrow> json \<Rightarrow> bool \<Rightarrow> exn + json" where
  "account_entry account_id accounts on_demand =
     bindR (require_key account_id accounts) (\<lambda>_.
     bindR (json_index accounts account_id) (\<lambda>entry.
     bindR (require_key ''deploy_role_name'' entry) (\<lambda>_.
     bindR (require_key ''ci_deploy'' entry) (\<lambda>_.
     bindR (account_allows_ci_apply entry on_demand) (\<lambda>ok.
       if \<not> ok then bindR (json_get_default entry ''account_role'' (JStr ''unknown'')) (\<lambda>_. Inl CIDeployForbiddenError)
       else Inr entry)))))"

definition load_account_entry :: "string \<Rightarrow> path \<Rightarrow> bool \<Rightarrow> ('w, json) ci" where
  "load_account_entry account_id accounts_json_path on_demand =
     bindC (load_json accounts_json_path) (\<lambda>accounts. lift (account_entry account_id accounts on_demand))"

definition load_deploy_role_name :: "string \<Rightarrow> path \<Rightarrow> bool \<Rightarrow> ('w, string) ci" where
  "load_deploy_role_name account_id accounts_json_path on_demand =
     bindC (load_account_entry account_id accounts_json_path on_demand) (\<lambda>e.
     bindC (lift (json_index e ''deploy_role_name'')) (\<lambda>n. ret (py_str n)))"

section \<open>Resolving the deploy role of a scope\<close>

definition dns_owner_id :: "json \<Rightarrow> exn + string" where
  "dns_owner_id env_accounts =
     bindR (json_get_default env_accounts ''dns_owner'' (JObj [])) (\<lambda>d.
     bindR (json_get_default d ''account_id'' (JStr [])) (\<lambda>a. Inr (py_str a)))"

definition scope_accounts :: "string option \<Rightarrow> string option \<Rightarrow> json \<Rightarrow> json \<Rightarrow> exn + (string \<times> string) list" where
  "scope_accounts unit_path include_dir_flags env_accounts domains = (case include_dir_flags of
      Some flags \<Rightarrow> bindR (extract_all_unit_paths flags) (mapM (\<lambda>p. resolve_account_id p env_accounts domains))
    | None \<Rightarrow> (case unit_path of
          None \<Rightarrow> Inl PathParseError
        | Some p \<Rightarrow> bindR (resolve_account_id p env_accounts domains) (\<lambda>r. Inr [r])))"

text \<open>The primary account and whether the dns-writer role is chained to it.\<close>

definition primary_account :: "string \<Rightarrow> (string \<times> string) list \<Rightarrow> exn + string \<times> bool" where
  "primary_account dns_owner resolved =
     (let account_ids = remdups (map snd resolved);
          service_accounts = filter (\<lambda>a. a \<noteq> dns_owner) account_ids
      in if 1 < length service_accounts then Inl MixedAccountScopeError
         else case service_accounts of
             a # _ \<Rightarrow> Inr (a, dns_owner \<in> set account_ids)
           | [] \<Rightarrow> Inr (dns_owner, False))"

definition resolve_deploy_role ::
  "string option \<Rightarrow> path \<Rightarrow> string \<Rightarrow> string option \<Rightarrow> bool \<Rightarrow> ('w, unit) ci" where
  "resolve_deploy_role unit_path accounts_json_path output_path include_dir_flags on_demand =
     (let common_dir = path_parent accounts_json_path in
     bindC (load_json (path_div common_dir ''env_accounts.json'')) (\<lambda>env_accounts.
     bindC (load_json (path_div common_dir ''domains.json'')) (\<lambda>domains.
     bindC (lift (dns_owner_id env_accounts)) (\<lambda>dns_owner.
     bindC (lift (scope_accounts unit_path include_dir_flags env_accounts domains)) (\<lambda>resolved.
     bindC (lift (primary_account dns_owner resolved)) (\<lambda>(account_id, needs_dns_writer).
     bindC (load_deploy_role_name account_id accounts_json_path on_demand) (\<lambda>role_name.
     bindC (if needs_dns_writer
            then bindC (load_deploy_role_name dns_owner accounts_json_path on_demand) (\<lambda>n. ret (build_role_arn dns_owner n))
            else ret []) (\<lambda>dns_writer_arn.
       write_outputs output_path [(''role_arn'', build_role_arn account_id role_name),
         (''aws_region'', fst (hd resolved)), (''target_account_id'', account_id),
         (''needs_dns_writer'', show_bool needs_dns_writer), (''dns_writer_arn'', dns_writer_arn)]))))))))"

definition config_files_exist :: "path \<Rightarrow> ('w, bool) ci" where
  "config_files_exist accounts_json_path = bindC get_files (\<lambda>fs.
     ret (list_all (path_exists fs) [accounts_json_path, path_div (path_parent accounts_json_path) ''env_accounts.json'',
       path_div (path_parent accounts_json_path) ''domains.json'']))"

definition is_deploy_error :: "exn \<Rightarrow> bool" where
  "is_deploy_error e = (e \<in> {PathParseError, AccountNotFoundError, AccountResolutionError,
     MixedAccountScopeError, CIDeployForbiddenError})"

definition environ_of :: "('w, (string, string) dict) ci" where
  "environ_of = (\<lambda>s. (Inr (environ s), s))"

definition resolve_deploy_role_main :: "string option \<Rightarrow> string option \<Rightarrow> string \<Rightarrow> string \<Rightarrow> ('w, unit) ci" where
  "resolve_deploy_role_main unit_path_arg include_dir_flags_arg accounts_json_arg output_arg =
     bindC (config_files_exist (path_of accounts_json_arg)) (\<lambda>ok.
     if \<not> ok then die
     else bindC environ_of (\<lambda>env.
       try_except (resolve_deploy_role unit_path_arg (path_of accounts_json_arg) output_arg
         include_dir_flags_arg (on_demand_opt_in env)) is_deploy_error die))"

section \<open>Reading the flags back\<close>

lemma rmatch_grp_plus_class:
  assumes "s \<noteq> []" "P (hd s)"
  shows "\<exists>sts. rmatch (Grp n (Plus True (Cls P))) (s, c) = (dropWhile P s, AList.update n (takeWhile P s) c) # sts"
proof -
  have "1 \<le> length (takeWhile P s)" using assms by (cases s) auto
  then have "rev [1..<Suc (length (takeWhile P s))] = length (takeWhile P s) # rev [1..<length (takeWhile P s)]"
    by simp
  then show ?thesis
    unfolding rmatch.simps(6) case_prod_conv rmatch_plus_class
    by (simp add: drop_takeWhile_length take_length_dropWhile)
qed

lemma grp_plus_class_mem:
  assumes "st \<in> set (rmatch (Grp n (Plus True (Cls P))) (s, c))"
  shows "\<exists>x. snd st = AList.update n x c \<and> x \<noteq> [] \<and> (\<forall>d \<in> set x. P d)"
proof -
  obtain k where k: "1 \<le> k" "k \<le> length (takeWhile P s)"
    "snd st = AList.update n (take (length s - length (drop k s)) s) c"
    using assms unfolding rmatch.simps(6) case_prod_conv rmatch_plus_class by auto
  have "k \<le> length s" using k(2) length_takeWhile_le [of P s] by simp
  then have "take (length s - length (drop k s)) s = take k (takeWhile P s)"
    using k(2) by (metis diff_diff_cancel length_drop min.absorb1 takeWhile_eq_take take_take)
  moreover have "takeWhile P s \<noteq> []" using k by auto
  ultimately show ?thesis
    using k by (intro exI [of _ "take k (takeWhile P s)"]) (auto dest: in_set_takeD set_takeWhileD)
qed

lemma re_findall_mem:
  "cs \<in> set (re_findall r s) \<Longrightarrow> \<exists>s' u. re_match r s' = Some (u, cs)"
proof (induction r s rule: re_findall.induct)
  case (1 r s)
  show ?case
  proof (cases s)
    case Nil
    with "1.prems" show ?thesis by (simp add: re_findall.simps)
  next
    case (Cons c t)
    note e = "1.prems" [unfolded re_findall.simps [of r s]]
    show ?thesis
    proof (cases "re_match r s")
      case None
      with e Cons "1.IH" (1) show ?thesis by simp
    next
      case (Some p)
      obtain u cs' where p: "p = (u, cs')" by force
      with e Cons Some have "cs = cs' \<or> (length u < length s \<and> cs \<in> set (re_findall r u)) \<or>
          (\<not> length u < length s \<and> cs \<in> set (re_findall r t))" by (auto split: if_splits)
      then show ?thesis
        using Some p Cons "1.IH" (2) [OF Cons Some p [symmetric]] "1.IH" (3) [OF Cons Some p [symmetric]] by blast
    qed
  qed
qed

lemma re_match_mem: "re_match r s = Some st \<Longrightarrow> st \<in> set (rmatch r (s, []))"
  by (auto simp: re_match_def split: list.splits)

definition unit_word :: "string \<Rightarrow> bool" where
  "unit_word p = (p \<noteq> [] \<and> (\<forall>c \<in> set p. \<not> is_ws c))"

lemma find_unit_paths_words: "p \<in> set (find_unit_paths flags) \<Longrightarrow> unit_word p"
proof -
  assume "p \<in> set (find_unit_paths flags)"
  then obtain cs where cs: "cs \<in> set (re_findall QUEUE_INCLUDE_DIR_RE flags)" "p = the_default [] (cap_of ''1'' cs)"
    by (auto simp: find_unit_paths_def)
  obtain s' u where "re_match QUEUE_INCLUDE_DIR_RE s' = Some (u, cs)" using re_findall_mem [OF cs(1)] by blast
  then have "(u, cs) \<in> set (rmatch QUEUE_INCLUDE_DIR_RE (s', []))" by (rule re_match_mem)
  then obtain s1 c1 where m: "(u, cs) \<in> set (rmatch (Grp ''1'' (Plus True (Cls (\<lambda>c. \<not> is_ws c)))) (s1, c1))"
    unfolding QUEUE_INCLUDE_DIR_RE_def by (auto simp del: rmatch.simps simp: rmatch.simps(2))
  from grp_plus_class_mem [OF m] obtain x where
    "cs = AList.update ''1'' x c1" "x \<noteq> []" "\<forall>d \<in> set x. \<not> is_ws d" by auto
  then show ?thesis using cs(2) by (simp add: cap_of_def update_conv' unit_word_def)
qed

lemma re_match_flag:
  assumes "unit_word p" "rest = [] \<or> is_ws (hd rest)"
  shows "re_match QUEUE_INCLUDE_DIR_RE (QUEUE_INCLUDE_DIR_TOKEN @ '' '' @ p @ rest) = Some (rest, [(''1'', p)])"
proof -
  let ?g = "Grp ''1'' (Plus True (Cls (\<lambda>c. \<not> is_ws c)))"
  have p: "p \<noteq> []" "\<not> is_ws (hd p)" "takeWhile (\<lambda>c. \<not> is_ws c) (p @ rest) = p" "dropWhile (\<lambda>c. \<not> is_ws c) (p @ rest) = rest"
    "dropWhile is_ws ('' '' @ p @ rest) = p @ rest"
    using assms by (cases p; cases rest; auto simp: unit_word_def is_ws_def Let_def takeWhile_append)+
  have ws: "is_ws (CHR '' '')" by (simp add: is_ws_def)
  have "concat (map (rmatch ?g) (rmatch (Plus True (Cls is_ws)) ('' '' @ p @ rest, []))) =
      (if '' '' @ p @ rest \<noteq> [] \<and> is_ws (hd ('' '' @ p @ rest)) then rmatch ?g (dropWhile is_ws ('' '' @ p @ rest), []) else [])"
    by (rule plus_class_then) simp
  then have "concat (map (rmatch ?g) (rmatch (Plus True (Cls is_ws)) ('' '' @ p @ rest, []))) = rmatch ?g (p @ rest, [])"
    unfolding p(5) by (simp only: append_Cons append_Nil list.sel ws) simp
  moreover obtain sts where "rmatch ?g (p @ rest, []) = (rest, [(''1'', p)]) # sts"
    using rmatch_grp_plus_class [of "p @ rest" "\<lambda>c. \<not> is_ws c" "''1''" "[]"] p by auto
  ultimately show ?thesis
    unfolding re_match_def QUEUE_INCLUDE_DIR_RE_def rmatch.simps(2) [of "Lit _"] rmatch_lit
    by (simp del: rmatch.simps add: rmatch.simps(2) [of "Seq _ _"])
qed

lemma find_flag:
  assumes "unit_word p" "rest = [] \<or> is_ws (hd rest)"
  shows "find_unit_paths (QUEUE_INCLUDE_DIR_TOKEN @ '' '' @ p @ rest) = p # find_unit_paths rest"
proof -
  have ne: "QUEUE_INCLUDE_DIR_TOKEN @ '' '' @ p @ rest = CHR ''-'' # tl QUEUE_INCLUDE_DIR_TOKEN @ '' '' @ p @ rest"
    by (simp add: QUEUE_INCLUDE_DIR_TOKEN_def)
  show ?thesis
    unfolding find_unit_paths_def re_findall.simps [of _ "QUEUE_INCLUDE_DIR_TOKEN @ '' '' @ p @ rest"]
      re_match_flag [OF assms] by (subst ne) (simp add: cap_of_def)
qed

lemma find_space: "find_unit_paths (CHR '' '' # rest) = find_unit_paths rest"
proof -
  have "re_match QUEUE_INCLUDE_DIR_RE (CHR '' '' # rest) = None"
    unfolding re_match_def QUEUE_INCLUDE_DIR_RE_def rmatch.simps(2) [of "Lit _"] rmatch_lit
    by (simp add: QUEUE_INCLUDE_DIR_TOKEN_def)
  then show ?thesis by (simp add: find_unit_paths_def re_findall.simps [of _ "CHR '' '' # rest"])
qed

lemma reassemble_Cons:
  "reassemble_flags (p # ps) = QUEUE_INCLUDE_DIR_TOKEN @ '' '' @ p @ (if ps = [] then [] else CHR '' '' # reassemble_flags ps)"
  by (cases ps) (simp_all add: reassemble_flags_def join_Cons)

lemma find_reassemble:
  "\<forall>p \<in> set ps. unit_word p \<Longrightarrow> find_unit_paths (reassemble_flags ps) = ps"
proof (induction ps)
  case Nil
  then show ?case by (simp add: reassemble_flags_def find_unit_paths_def re_findall.simps)
next
  case (Cons p ps)
  have "find_unit_paths (reassemble_flags (p # ps)) =
      p # find_unit_paths (if ps = [] then [] else CHR '' '' # reassemble_flags ps)"
    unfolding reassemble_Cons by (rule find_flag) (use Cons.prems in \<open>simp_all add: is_ws_def Let_def\<close>)
  with Cons show ?case
    by (cases "ps = []") (simp_all add: find_space, simp add: find_unit_paths_def re_findall.simps)
qed

text \<open>Text that carries a list of units: what is written for a list is read back as that list,
  and what is read is never empty and made of units only. The scripts that narrow a scope
  rely on this interface.\<close>

locale flag_codec =
  fixes render :: "string list \<Rightarrow> string"
    and readu :: "string \<Rightarrow> exn + string list"
    and good :: "string \<Rightarrow> bool"
  assumes extract_render: "xs \<noteq> [] \<Longrightarrow> \<forall>x \<in> set xs. good x \<Longrightarrow> readu (render xs) = Inr xs"
    and extract_good: "readu s = Inr xs \<Longrightarrow> xs \<noteq> [] \<and> (\<forall>x \<in> set xs. good x)"
begin

text \<open>A non-empty part of a scope survives being written and read again.\<close>

lemma extract_part:
  "readu s = Inr xs \<Longrightarrow> set ys \<subseteq> set xs \<Longrightarrow> ys \<noteq> [] \<Longrightarrow> readu (render ys) = Inr ys"
  using extract_good extract_render by blast

lemma render_inj:
  "xs \<noteq> [] \<Longrightarrow> ys \<noteq> [] \<Longrightarrow> \<forall>x \<in> set xs. good x \<Longrightarrow> \<forall>y \<in> set ys. good y \<Longrightarrow> render xs = render ys \<Longrightarrow> xs = ys"
  by (metis extract_render sum.inject(2))

text \<open>Writing what was read and reading it again changes nothing more.\<close>

lemma extract_normal: "readu s = Inr xs \<Longrightarrow> readu (render xs) = Inr xs"
  using extract_part [of s xs xs] extract_good [of s xs] by blast

end

interpretation flags: flag_codec reassemble_flags extract_all_unit_paths unit_word
proof
  show "extract_all_unit_paths (reassemble_flags xs) = Inr xs" if "xs \<noteq> []" "\<forall>x \<in> set xs. unit_word x" for xs
    using that by (simp add: extract_all_unit_paths_def find_reassemble Let_def)
  show "xs \<noteq> [] \<and> (\<forall>x \<in> set xs. unit_word x)" if "extract_all_unit_paths s = Inr xs" for s xs
    using that find_unit_paths_words by (auto simp: extract_all_unit_paths_def Let_def split: if_splits)
qed

section \<open>Reading a unit path\<close>

lemma mem_seq: "st \<in> set (rmatch (Seq a b) st0) \<longleftrightarrow> (\<exists>st1 \<in> set (rmatch a st0). st \<in> set (rmatch b st1))"
  by auto

lemma mem_cls: "st \<in> set (rmatch (Cls P) (s, c)) \<longleftrightarrow> (\<exists>x t. s = x # t \<and> P x \<and> st = (t, c))"
  by (auto split: list.splits)

lemma mem_plus_class:
  "st \<in> set (rmatch (Plus True (Cls P)) (s, c)) \<longleftrightarrow> (\<exists>u t. s = u @ t \<and> u \<noteq> [] \<and> (\<forall>x \<in> set u. P x) \<and> st = (t, c))"
proof
  assume "st \<in> set (rmatch (Plus True (Cls P)) (s, c))"
  then obtain k where k: "1 \<le> k" "k \<le> length (takeWhile P s)" "st = (drop k s, c)"
    unfolding rmatch_plus_class by auto
  moreover have "take k s = take k (takeWhile P s)" using k(2) by (metis min.absorb1 takeWhile_eq_take take_take)
  ultimately have "take k s \<noteq> []" "\<forall>x \<in> set (take k s). P x" by (auto dest: in_set_takeD set_takeWhileD)
  with k(3) show "\<exists>u t. s = u @ t \<and> u \<noteq> [] \<and> (\<forall>x \<in> set u. P x) \<and> st = (t, c)"
    using append_take_drop_id [of k s] by metis
next
  assume "\<exists>u t. s = u @ t \<and> u \<noteq> [] \<and> (\<forall>x \<in> set u. P x) \<and> st = (t, c)"
  then obtain u t where u: "s = u @ t" "u \<noteq> []" "\<forall>x \<in> set u. P x" "st = (t, c)" by blast
  then have "length u \<le> length (takeWhile P s)" by (simp add: takeWhile_append)
  then show "st \<in> set (rmatch (Plus True (Cls P)) (s, c))"
    unfolding rmatch_plus_class using u by (auto intro!: image_eqI [of _ _ "length u"] simp: Suc_le_eq)
qed

lemma mem_cls_seq:
  "st \<in> set (rmatch (Seq (Cls P) r) (s, c)) \<longleftrightarrow> (\<exists>x t. s = x # t \<and> P x \<and> st \<in> set (rmatch r (t, c)))"
  unfolding mem_seq Bex_def mem_cls by blast

lemma mem_plus_seq:
  "st \<in> set (rmatch (Seq (Plus True (Cls P)) r) (s, c)) \<longleftrightarrow>
     (\<exists>u t. s = u @ t \<and> u \<noteq> [] \<and> (\<forall>x \<in> set u. P x) \<and> st \<in> set (rmatch r (t, c)))"
  unfolding mem_seq [of _ "Plus True (Cls P)"] Bex_def mem_plus_class by blast

definition region_ok :: "string \<Rightarrow> bool" where
  "region_ok r = (\<exists>x u d. r = x # u @ CHR ''-'' # d \<and> between (CHR ''a'') (CHR ''z'') x \<and> u \<noteq> [] \<and> d \<noteq> [] \<and>
     (\<forall>c \<in> set u. region_class c) \<and> (\<forall>c \<in> set d. is_digit c))"

lemma mem_region: "st \<in> set (rmatch REGION_RE (s, c)) \<longleftrightarrow> (\<exists>r t. s = r @ t \<and> region_ok r \<and> st = (t, c))"
proof -
  have "st \<in> set (rmatch REGION_RE (s, c)) \<longleftrightarrow> (\<exists>x u d t. s = x # u @ CHR ''-'' # d @ t \<and> between (CHR ''a'') (CHR ''z'') x \<and>
      u \<noteq> [] \<and> (\<forall>y \<in> set u. region_class y) \<and> d \<noteq> [] \<and> (\<forall>y \<in> set d. is_digit y) \<and> st = (t, c))"
    unfolding REGION_RE_def mem_cls_seq [of _ "between (CHR ''a'') (CHR ''z'')"] mem_plus_seq [of _ region_class]
      mem_cls_seq [of _ "\<lambda>x. x = CHR ''-''"] mem_plus_class by blast
  also have "\<dots> \<longleftrightarrow> (\<exists>r t. s = r @ t \<and> region_ok r \<and> st = (t, c))"
    unfolding region_ok_def by (auto, (metis append.assoc append_Cons)+)
  finally show ?thesis .
qed

lemma mem_grp_region:
  "st \<in> set (rmatch (Grp n REGION_RE) (s, c)) \<longleftrightarrow> (\<exists>r t. s = r @ t \<and> region_ok r \<and> st = (t, AList.update n r c))"
proof -
  have "st \<in> set (rmatch (Grp n REGION_RE) (s, c)) \<longleftrightarrow>
      (\<exists>t c'. (t, c') \<in> set (rmatch REGION_RE (s, c)) \<and> st = (t, AList.update n (take (length s - length t) s) c'))"
    unfolding rmatch.simps(6) case_prod_conv set_map by (auto simp del: rmatch.simps)
  then show ?thesis unfolding mem_region by auto
qed

lemma region_no_slash: "region_ok r \<Longrightarrow> CHR ''/'' \<notin> set r"
proof -
  have "\<not> region_class (CHR ''/'')" "\<not> between (CHR ''a'') (CHR ''z'') (CHR ''/'')" "\<not> is_digit (CHR ''/'')"
    by (simp_all add: region_class_def between_def is_digit_def)
  then show "region_ok r \<Longrightarrow> CHR ''/'' \<notin> set r" unfolding region_ok_def by auto
qed

lemma concat_map_Cons:
  assumes "\<forall>x \<in> set xs. f x = [] \<or> f x = y # ys" "x \<in> set xs" "f x = y # ys"
  shows "\<exists>zs. concat (map f xs) = y # zs"
  using assms by (induction xs) auto

lemma rmatch_lazy_class:
  "rmatch (Star False (Cls P)) (s, c) = map (\<lambda>k. (drop k s, c)) [0..<Suc (length (takeWhile P s))]"
proof -
  have "length s \<le> n \<Longrightarrow> iterate False n (rmatch (Cls P)) (s, c) = map (\<lambda>k. (drop k s, c)) [0..<Suc (length (takeWhile P s))]" for n
  proof (induction n arbitrary: s)
    case (Suc n)
    have e: "[0..<Suc (Suc m)] = 0 # map Suc [0..<Suc m]" for m
      by (simp add: map_Suc_upt upt_conv_Cons del: upt_Suc)
    show ?case
    proof (cases s)
      case (Cons x t)
      with Suc e [of "length (takeWhile P t)"] show ?thesis by (cases "P x") (simp_all del: upt_Suc add: comp_def upt_rec [of 0 "Suc 0"])
    qed simp
  qed simp
  then show ?thesis by (simp del: upt_Suc)
qed

lemma concat_upt_first:
  assumes "\<And>i. i < m \<Longrightarrow> f i = []" "m \<le> n" "f m = y # ys"
  shows "\<exists>zs. concat (map f [0..<Suc n]) = y # zs"
proof -
  have "[0..<Suc n] = [0..<m] @ m # [Suc m..<Suc n]"
    using assms(2) upt_add_eq_append [of 0 m "Suc n - m"] by (simp add: upt_conv_Cons del: upt_Suc)
  moreover have z: "concat (map f [0..<m]) = []" using assms(1) by auto
  ultimately have "concat (map f [0..<Suc n]) = concat (map f [0..<m]) @ f m @ concat (map f [Suc m..<Suc n])"
    by (simp del: upt_Suc concat_eq_Nil_conv)
  then show ?thesis unfolding z assms(3) by simp
qed

lemma rest_match:
  assumes "seg \<noteq> []" "CHR ''/'' \<notin> set seg" "CHR 0x0A \<notin> set seg" "tail = [] \<or> (\<exists>more. tail = CHR ''/'' # more)"
  shows "\<exists>sts. rmatch (Seq (Grp ''rest'' (Seq (Cls (\<lambda>c. c \<noteq> CHR ''/'')) (Star False (Cls dot)))) (Alt (Ch (CHR ''/'')) EndD)) (seg @ tail, c)
     = (drop 1 tail, AList.update ''rest'' seg c) # sts"
proof -
  obtain x t where x: "seg = x # t" "x \<noteq> CHR ''/''" using assms(1,2) by (cases seg) auto
  let ?f = "\<lambda>k. rmatch (Alt (Ch (CHR ''/'')) EndD)
      (drop k (t @ tail), AList.update ''rest'' (take (length (seg @ tail) - length (drop k (t @ tail))) (seg @ tail)) c)"
  have e: "rmatch (Seq (Grp ''rest'' (Seq (Cls (\<lambda>c. c \<noteq> CHR ''/'')) (Star False (Cls dot)))) (Alt (Ch (CHR ''/'')) EndD)) (seg @ tail, c) =
      concat (map ?f [0..<Suc (length (takeWhile dot (t @ tail)))])"
    unfolding rmatch.simps(2) [of "Grp _ _"] rmatch.simps(6) rmatch.simps(2) [of "Cls _"]
    using x by (simp only: append_Cons rmatch.simps(1) case_prod_conv list.case if_True refl list.map concat.simps append_Nil2
        rmatch_lazy_class map_map comp_def not_False_eq_True if_not_P)
  have m: "length t \<le> length (takeWhile dot (t @ tail))"
    using x assms(3) by (simp add: takeWhile_append dot_def)
  have none: "?f i = []" if "i < length t" for i
  proof -
    have "drop i (t @ tail) = t ! i # drop (Suc i) t @ tail" using that by (simp add: Cons_nth_drop_Suc)
    moreover have "t ! i \<noteq> CHR ''/''" "t ! i \<noteq> CHR 0x0A" using that x assms(2,3) by (metis nth_mem list.set_intros(2))+
    ultimately show ?thesis by simp
  qed
  have hit: "\<exists>ys. ?f (length t) = (drop 1 tail, AList.update ''rest'' seg c) # ys"
    using assms(4) x by auto
  then obtain ys where "?f (length t) = (drop 1 tail, AList.update ''rest'' seg c) # ys" by blast
  from concat_upt_first [of "length t" ?f, OF none m this] show ?thesis unfolding e by blast
qed

lemma rmatch_ch_seq:
  "rmatch (Seq (Ch x) r) (s, c) = (case s of [] \<Rightarrow> [] | y # t \<Rightarrow> if y = x then rmatch r (t, c) else [])"
  by (cases s) simp_all

lemma re_match_unit_path:
  assumes "region_ok region" "seg \<noteq> []" "CHR ''/'' \<notin> set seg" "CHR 0x0A \<notin> set seg"
    "tail = [] \<or> (\<exists>more. tail = CHR ''/'' # more)"
  shows "re_match UNIT_PATH_RE (''live/telemetry/'' @ region @ ''/'' @ seg @ tail) =
     Some (drop 1 tail, [(''region'', region), (''rest'', seg)])"
proof -
  let ?R = "Seq (Grp ''rest'' (Seq (Cls (\<lambda>c. c \<noteq> CHR ''/'')) (Star False (Cls dot)))) (Alt (Ch (CHR ''/'')) EndD)"
  let ?s = "region @ ''/'' @ seg @ tail"
  let ?k = "rmatch (Seq (Ch (CHR ''/'')) ?R)"
  obtain sts where r: "rmatch ?R (seg @ tail, [(''region'', region)]) = (drop 1 tail, [(''region'', region), (''rest'', seg)]) # sts"
    using rest_match [OF assms(2-5), of "[(''region'', region)]"] by auto
  have k: "?k (CHR ''/'' # seg @ tail, cs) = rmatch ?R (seg @ tail, cs)" for cs unfolding rmatch_ch_seq by simp
  have grp: "st \<in> set (rmatch (Grp ''region'' REGION_RE) (?s, [])) \<longleftrightarrow>
      (\<exists>r t. ?s = r @ t \<and> region_ok r \<and> st = (t, [(''region'', r)]))" for st
    unfolding mem_grp_region by simp
  have all: "?k st = [] \<or> ?k st = rmatch ?R (seg @ tail, [(''region'', region)])"
    if mem: "st \<in> set (rmatch (Grp ''region'' REGION_RE) (?s, []))" for st
  proof -
    obtain r t where r: "?s = r @ t" "region_ok r" "st = (t, [(''region'', r)])" using iffD1 [OF grp mem] by (elim exE conjE)
    show ?thesis
    proof (cases "\<exists>t'. t = CHR ''/'' # t'")
      case True
      then obtain t' where t: "t = CHR ''/'' # t'" by blast
      have "takeWhile (\<lambda>c. c \<noteq> CHR ''/'') ?s = region" "takeWhile (\<lambda>c. c \<noteq> CHR ''/'') (r @ t) = r"
        using region_no_slash [OF assms(1)] region_no_slash [OF r(2)] t by (auto simp: takeWhile_append)
      then have "r = region" using r(1) by simp
      then show ?thesis using r t k by simp
    next
      case False
      then show ?thesis unfolding r(3) rmatch_ch_seq by (simp split: list.split del: rmatch.simps)
    qed
  qed
  have "(''/'' @ seg @ tail, [(''region'', region)]) \<in> set (rmatch (Grp ''region'' REGION_RE) (?s, []))"
    using assms(1) grp by blast
  moreover have "?k (''/'' @ seg @ tail, [(''region'', region)]) = rmatch ?R (seg @ tail, [(''region'', region)])"
    using k by simp
  ultimately obtain zs where "concat (map ?k (rmatch (Grp ''region'' REGION_RE) (?s, []))) =
      (drop 1 tail, [(''region'', region), (''rest'', seg)]) # zs"
    using concat_map_Cons [of "rmatch (Grp ''region'' REGION_RE) (?s, [])" ?k] all unfolding r by blast
  then show ?thesis
    unfolding re_match_def UNIT_PATH_RE_def rmatch.simps(2) [of "Lit _"] rmatch_lit
    by (simp only: same_prefix_prefix prefix_def append_assoc) (simp del: rmatch.simps add: rmatch.simps(2) [of "Grp _ _"])
qed

lemma re_search_skip:
  "(\<And>i. i < length pre \<Longrightarrow> re_match r (drop i (pre @ v)) = None) \<Longrightarrow> re_match r v = Some st \<Longrightarrow>
     re_search r (pre @ v) = Some st"
proof (induction pre)
  case Nil
  then show ?case by (cases v) simp_all
next
  case (Cons c pre)
  have "re_match r (c # pre @ v) = None" using Cons.prems(1) [of 0] by simp
  moreover have "re_search r (pre @ v) = Some st"
    by (rule Cons.IH [OF _ Cons.prems(2)]) (use Cons.prems(1) [of "Suc _"] in auto)
  ultimately show ?case by simp
qed

lemma no_early_occurrence:
  assumes "\<not> contains (l @ [z]) (pre @ l)" "i < length pre"
  shows "\<not> prefix (l @ [z]) (drop i (pre @ l @ w))"
proof
  let ?n = "length (l @ [z])"
  assume "prefix (l @ [z]) (drop i (pre @ l @ w))"
  then have "take ?n (drop i (pre @ l @ w)) = l @ [z]" by (metis append_eq_conv_conj prefix_def)
  moreover have "take ?n (drop i (pre @ l @ w)) = take ?n (drop i (pre @ l))" using assms(2) by (simp add: drop_append)
  ultimately have "pre @ l = take i (pre @ l) @ (l @ [z]) @ drop ?n (drop i (pre @ l))"
    by (metis append_take_drop_id)
  with assms(1) show False unfolding contains_iff by blast
qed

text \<open>The units of the live tree: some prefix, \<open>live/telemetry/\<close>, a region and path segments.\<close>

definition live_path :: "string \<Rightarrow> string \<Rightarrow> string list \<Rightarrow> string" where
  "live_path pre region segs = pre @ ''live/telemetry/'' @ region @ ''/'' @ join ''/'' segs"

definition live_ok :: "string \<Rightarrow> string \<Rightarrow> string list \<Rightarrow> bool" where
  "live_ok pre region segs = (\<not> contains ''live/telemetry/'' (pre @ ''live/telemetry'') \<and> region_ok region \<and>
     segs \<noteq> [] \<and> (\<forall>x \<in> set segs. clean_part x) \<and> CHR 0x0A \<notin> set (hd segs))"

lemma parse_live_path:
  assumes "live_ok pre region segs"
  shows "parse_unit_path (live_path pre region segs) = Inr (region, hd segs, join ''/'' (tl segs))"
proof -
  obtain seg more where segs: "segs = seg # more" using assms by (cases segs) (auto simp: live_ok_def)
  let ?tail = "if more = [] then [] else CHR ''/'' # join ''/'' more"
  let ?v = "''live/telemetry/'' @ region @ ''/'' @ seg @ ?tail"
  have u: "live_path pre region segs = pre @ ?v" by (simp add: live_path_def segs join_Cons)
  have "re_match UNIT_PATH_RE (drop i (pre @ ?v)) = None" if "i < length pre" for i
  proof -
    have "\<not> prefix ''live/telemetry/'' (drop i (pre @ ?v))"
      using no_early_occurrence [of "''live/telemetry''" "CHR ''/''" pre i "''/'' @ region @ ''/'' @ seg @ ?tail"] that assms
      by (simp add: live_ok_def)
    then show ?thesis
      unfolding re_match_def UNIT_PATH_RE_def rmatch.simps(2) [of "Lit _"] rmatch_lit by simp
  qed
  moreover have "re_match UNIT_PATH_RE ?v = Some (drop 1 ?tail, [(''region'', region), (''rest'', seg)])"
    by (rule re_match_unit_path) (use assms segs in \<open>auto simp: live_ok_def clean_part_def\<close>)
  ultimately have "re_search UNIT_PATH_RE (live_path pre region segs) = Some (drop 1 ?tail, [(''region'', region), (''rest'', seg)])"
    unfolding u by (rule re_search_skip)
  moreover have "lstrip_char (CHR ''/'') (join ''/'' more) = join ''/'' more"
  proof (cases "more = []")
    case False
    obtain c t where "join ''/'' more = c # t" "c \<noteq> CHR ''/''"
      using join_hd [OF False] assms segs by (auto simp: live_ok_def)
    then show ?thesis by (simp add: lstrip_char_def)
  qed (simp add: lstrip_char_def)
  ultimately show ?thesis
    by (cases "more = []") (simp_all add: parse_unit_path_def segs cap_of_def lstrip_char_def)
qed

section \<open>The tiers\<close>

text \<open>What the two configuration files say, without their JSON shape: the account of each
  environment, the account that owns the DNS zones, and per environment whether its pretty names
  are served from its own zone.\<close>

record deploy_config =
  env_account :: "string \<Rightarrow> string option"
  dns_account :: string
  pretty_in_zone :: "string \<Rightarrow> bool option"

definition env_accounts_of :: "json \<Rightarrow> deploy_config \<Rightarrow> bool" where
  "env_accounts_of ea cfg = (\<exists>kvs es d. ea = JObj kvs \<and> map_of kvs ''envs'' = Some (JObj es) \<and>
     map_of kvs ''dns_owner'' = Some (JObj d) \<and> map_of d ''account_id'' = Some (JStr (dns_account cfg)) \<and>
     (\<forall>e. case env_account cfg e of None \<Rightarrow> map_of es e = None
        | Some a \<Rightarrow> \<exists>eo. map_of es e = Some (JObj eo) \<and> map_of eo ''account_id'' = Some (JStr a)))"

definition domains_of :: "json \<Rightarrow> deploy_config \<Rightarrow> bool" where
  "domains_of dm cfg = (\<exists>ds. dm = JObj ds \<and>
     (\<forall>e. case pretty_in_zone cfg e of None \<Rightarrow> map_of ds e = None
        | Some b \<Rightarrow> \<exists>d x y. map_of ds e = Some (JObj d) \<and> map_of d ''dns_pretty_apex'' = Some (JStr x) \<and>
            map_of d ''dns_service_apex'' = Some (JStr y) \<and> b = (x = y)))"

text \<open>The documented tier rules, over the segments below the region.\<close>

definition account_or_error :: "string option \<Rightarrow> exn + string" where
  "account_or_error a = (case a of None \<Rightarrow> Inl AccountResolutionError | Some x \<Rightarrow> Inr x)"

fun tier_account :: "deploy_config \<Rightarrow> string list \<Rightarrow> exn + string" where
  "tier_account cfg [] = Inl PathParseError"
| "tier_account cfg (seg # below) =
     (if seg = ''bootstrap'' then (case below of [] \<Rightarrow> Inl PathParseError
        | role_dir # _ \<Rightarrow> if bootstrap_role role_dir = ''dns_owner'' then Inr (dns_account cfg)
            else account_or_error (env_account cfg (bootstrap_role role_dir)))
      else if ''dns_owner'' \<in> set below then Inr (dns_account cfg)
      else if ''pretty'' \<in> set below then (case pretty_in_zone cfg seg of None \<Rightarrow> Inl AccountResolutionError
        | Some own \<Rightarrow> if own then account_or_error (env_account cfg seg) else Inr (dns_account cfg))
      else account_or_error (env_account cfg seg))"

lemma envs_account_config:
  assumes "\<forall>e. case env_account cfg e of None \<Rightarrow> map_of es e = None
        | Some a \<Rightarrow> \<exists>eo. map_of es e = Some (JObj eo) \<and> map_of eo ''account_id'' = Some (JStr a)"
  shows "envs_account (JObj es) e = account_or_error (env_account cfg e)"
  using assms [rule_format, of e]
  by (cases "env_account cfg e") (auto simp: envs_account_def json_in_def json_index_def py_str_def account_or_error_def)

lemma split_segments:
  "\<forall>x \<in> set below. clean_part x \<Longrightarrow> x \<noteq> [] \<Longrightarrow> x \<in> set (split_on (CHR ''/'') (join ''/'' below)) \<longleftrightarrow> x \<in> set below"
  by (cases "below = []") (simp_all add: split_on_join_clean)

lemma join_first_segment:
  "\<forall>x \<in> set (r # below). clean_part x \<Longrightarrow> takeWhile (\<lambda>c. c \<noteq> CHR ''/'') (join ''/'' (r # below)) = r \<and> join ''/'' (r # below) \<noteq> [] \<and> r \<noteq> []"
  by (cases "below = []") (auto simp: join_Cons clean_part_def takeWhile_append)

lemma resolve_live_path:
  assumes "live_ok pre region segs" "env_accounts_of ea cfg" "domains_of dm cfg"
  shows "resolve_account_id (live_path pre region segs) ea dm =
     bindR (tier_account cfg segs) (\<lambda>a. Inr (region, a))"
proof -
  obtain seg below where segs: "segs = seg # below" using assms(1) by (cases segs) (auto simp: live_ok_def)
  have cl: "\<forall>x \<in> set below. clean_part x" using assms(1) by (simp add: live_ok_def segs)
  obtain kvs es d where ea: "ea = JObj kvs" "map_of kvs ''envs'' = Some (JObj es)" "map_of kvs ''dns_owner'' = Some (JObj d)"
    "map_of d ''account_id'' = Some (JStr (dns_account cfg))"
    and es: "\<forall>e. case env_account cfg e of None \<Rightarrow> map_of es e = None
        | Some a \<Rightarrow> \<exists>eo. map_of es e = Some (JObj eo) \<and> map_of eo ''account_id'' = Some (JStr a)"
    using assms(2) unfolding env_accounts_of_def by (elim exE conjE) (rule that)
  note env = envs_account_config [OF es]
  obtain ds where dm: "dm = JObj ds" "\<forall>e. case pretty_in_zone cfg e of None \<Rightarrow> map_of ds e = None
        | Some b \<Rightarrow> \<exists>d x y. map_of ds e = Some (JObj d) \<and> map_of d ''dns_pretty_apex'' = Some (JStr x) \<and>
            map_of d ''dns_service_apex'' = Some (JStr y) \<and> b = (x = y)"
    using assms(3) unfolding domains_of_def by blast
  have dns: "dns_owner_account (JObj d) = Inr (dns_account cfg)"
    using ea(4) by (simp add: dns_owner_account_def json_in_def json_index_def py_str_def)
  have pretty: "bindR (json_get dm seg) (\<lambda>v. if v = JNull then Inl AccountResolutionError
        else bindR (json_get v ''dns_pretty_apex'') (\<lambda>a. bindR (json_get v ''dns_service_apex'') (\<lambda>b.
               if py_eq a b then envs_account (JObj es) seg else dns_owner_account (JObj d)))) =
      (case pretty_in_zone cfg seg of None \<Rightarrow> Inl AccountResolutionError
        | Some own \<Rightarrow> if own then account_or_error (env_account cfg seg) else Inr (dns_account cfg))"
    using dm(2) [rule_format, of seg] by (cases "pretty_in_zone cfg seg") (auto simp: dm(1) json_get_def env dns)
  have "unit_account seg (join ''/'' below) (JObj es) (JObj d) dm = tier_account cfg segs"
  proof (cases "seg = ''bootstrap''")
    case True
    then show ?thesis
      using cl join_first_segment by (cases below) (auto simp: unit_account_def segs env dns Let_def)
  next
    case False
    then show ?thesis
      unfolding segs unit_account_def pretty using cl by (simp add: split_segments env dns)
  qed
  then show ?thesis
    using parse_live_path [OF assms(1)] ea by (simp add: resolve_account_id_def segs json_get_default_def)
qed

section \<open>Properties\<close>

text \<open>The account of a unit follows the documented tier rules: for every unit of the live tree
  and every configuration, resolving the path over the decoded files gives the region of the path
  and the account the rules assign to its segments (bootstrap role, dns_owner tier, pretty tier by
  apex, service tier), and an error where the rules assign none.\<close>

theorem account_tiers:
  assumes "live_ok pre region segs" "env_accounts_of ea cfg" "domains_of dm cfg"
  shows "resolve_account_id (live_path pre region segs) ea dm =
     bindR (tier_account cfg segs) (\<lambda>a. Inr (region, a))"
  by (rule resolve_live_path [OF assms])

definition ex_config :: deploy_config where
  "ex_config = \<lparr>env_account = map_of [(''sandbox'', ''111''), (''prod'', ''222'')], dns_account = ''333'',
     pretty_in_zone = map_of [(''sandbox'', True), (''prod'', False)]\<rparr>"

definition ex_env_accounts :: json where
  "ex_env_accounts = JObj [(''envs'', JObj [(''sandbox'', JObj [(''account_id'', JStr ''111'')]), (''prod'', JObj [(''account_id'', JStr ''222'')])]),
     (''dns_owner'', JObj [(''account_id'', JStr ''333'')])]"

definition ex_domains :: json where
  "ex_domains = JObj [(''sandbox'', JObj [(''dns_pretty_apex'', JStr ''s.io''), (''dns_service_apex'', JStr ''s.io'')]),
     (''prod'', JObj [(''dns_pretty_apex'', JStr ''p.io''), (''dns_service_apex'', JStr ''q.io'')])]"

lemma ex_config_files: "env_accounts_of ex_env_accounts ex_config" "domains_of ex_domains ex_config"
  by (simp_all add: env_accounts_of_def domains_of_def ex_env_accounts_def ex_domains_def ex_config_def)

lemma region_ok_us_east: "region_ok ''us-east-1''"
  unfolding region_ok_def
  by (rule exI [of _ "CHR ''u''"], rule exI [of _ "''s-east''"], rule exI [of _ "''1''"])
    (simp add: region_class_def between_def is_digit_def)

lemma ex_live_ok: "segs \<noteq> [] \<Longrightarrow> \<forall>x \<in> set segs. clean_part x \<Longrightarrow> CHR 0x0A \<notin> set (hd segs) \<Longrightarrow> live_ok ''tg/'' ''us-east-1'' segs"
  by (simp add: live_ok_def region_ok_us_east)

theorem account_tiers_witness:
  "resolve_account_id (live_path ''tg/'' ''us-east-1'' [''prod'', ''pretty'']) ex_env_accounts ex_domains = Inr (''us-east-1'', ''333'')"
proof -
  have "live_ok ''tg/'' ''us-east-1'' [''prod'', ''pretty'']" by (rule ex_live_ok) (simp_all add: clean_part_def)
  from account_tiers [OF this ex_config_files] show ?thesis by (simp add: ex_config_def)
qed

subsection \<open>Resolving a scope\<close>

definition json_file :: "(path, string) dict \<Rightarrow> path \<Rightarrow> exn + json" where
  "json_file fs p = (case map_of fs p of
      Some t \<Rightarrow> json_loads t
    | None \<Rightarrow> Inl (if is_dir fs p then OSError else FileNotFoundError))"

lemma load_json_apply [simp]: "load_json p s = (json_file (files s) p, s)"
  by (auto simp: load_json_def bindC_def read_text_def json_file_def split: option.splits)

lemma json_file_dumps:
  "map_of fs p = Some (dumps dflt_opts v) \<Longrightarrow> wf_json v \<Longrightarrow> json_file fs p = Inr v"
  by (simp add: json_file_def json_loads_def loads_dumps)

text \<open>The text of the step output file, and what a list of outputs appends to it.\<close>

definition output_text :: "'w ci_state \<Rightarrow> string \<Rightarrow> string" where
  "output_text s out = the_default [] (map_of (files s) (path_of out))"

definition output_lines :: "(string \<times> string) list \<Rightarrow> string" where
  "output_lines kvs = concat (map (\<lambda>(k, v). k @ ''='' @ v @ [CHR 0x0A]) kvs)"

lemma write_outputs_text:
  "write_outputs out kvs s = (Inr (), s') \<Longrightarrow> output_text s' out = output_text s out @ output_lines kvs \<and> (\<exists>fs. s' = s\<lparr>files := fs\<rparr>)"
  using write_outputs_Inr [of out kvs s s'] by (simp add: output_text_def output_lines_def)

lemma is_dir_update [simp]: "is_dir (AList.update p t fs) p = is_dir fs p"
  by (auto simp: is_dir_def dom_update strict_prefix_def)

text \<open>An output file that can be appended to takes every output.\<close>

definition writable :: "string \<Rightarrow> 'w ci_state \<Rightarrow> bool" where
  "writable out s = (path_of out \<notin> set (readonly s) \<and> \<not> is_dir (files s) (path_of out))"

lemma write_outputs_ok: "writable out s \<Longrightarrow> fst (write_outputs out kvs s) = Inr ()"
proof (induction kvs arbitrary: s)
  case (Cons kv kvs)
  obtain k v where kv: "kv = (k, v)" by force
  obtain t where t: "write_output out k v s = (Inr (), t)" "writable out t"
    using Cons.prems by (simp add: write_output_def append_text_def writable_def)
  with Cons.IH [of t] kv show ?case by (simp add: thenC_def bindC_def)
qed simp

lemma require_key_iff: "require_key k v = Inr () \<longleftrightarrow> json_in k v = Inr True"
  by (auto simp: require_key_def bindR_Inr_iff)

lemma account_entry_Inr:
  "account_entry a accts od = Inr e \<Longrightarrow> json_index accts a = Inr e \<and> account_allows_ci_apply e od = Inr True"
  by (auto simp: account_entry_def bindR_Inr_iff split: if_splits)

lemma load_deploy_role_name_Inr:
  "load_deploy_role_name a acc od s = (Inr n, s') \<Longrightarrow> s' = s \<and>
     (\<exists>accts e v. json_file (files s) acc = Inr accts \<and> json_index accts a = Inr e \<and>
        account_allows_ci_apply e od = Inr True \<and> json_index e ''deploy_role_name'' = Inr v \<and> n = py_str v)"
  by (auto simp: load_deploy_role_name_def load_account_entry_def bindC_Inr_iff dest!: account_entry_Inr)

lemma primary_account_Inr:
  assumes "primary_account dns rs = Inr (a, nd)"
  shows "set (map snd rs) \<subseteq> {a, dns} \<and> (a \<noteq> dns \<longrightarrow> a \<in> set (map snd rs)) \<and> nd = (a \<noteq> dns \<and> dns \<in> set (map snd rs))"
proof -
  let ?svc = "filter (\<lambda>x. x \<noteq> dns) (remdups (map snd rs))"
  have set: "set ?svc = set (map snd rs) - {dns}" by auto
  have le: "length ?svc \<le> 1" using assms by (auto simp: primary_account_def Let_def split: if_splits)
  show ?thesis
  proof (cases ?svc)
    case Nil
    with set assms show ?thesis by (auto simp: primary_account_def Let_def)
  next
    case (Cons x xs)
    with le have "xs = []" by simp
    then have "set (map snd rs) - {dns} = {x}" using Cons set by simp
    moreover have "a = x" "nd = (dns \<in> set (map snd rs))" using assms Cons le by (auto simp: primary_account_def Let_def)
    ultimately show ?thesis by auto
  qed
qed

lemma resolve_deploy_role_steps:
  assumes "resolve_deploy_role unit_path acc out flags od s = (Inr (), s')"
  obtains ea dm dns rs a nd n arn where
    "json_file (files s) (path_div (path_parent acc) ''env_accounts.json'') = Inr ea"
    "json_file (files s) (path_div (path_parent acc) ''domains.json'') = Inr dm"
    "dns_owner_id ea = Inr dns" "scope_accounts unit_path flags ea dm = Inr rs"
    "primary_account dns rs = Inr (a, nd)" "load_deploy_role_name a acc od s = (Inr n, s)"
    "(if nd then bindC (load_deploy_role_name dns acc od) (\<lambda>n. ret (build_role_arn dns n)) else ret []) s = (Inr arn, s)"
    "write_outputs out [(''role_arn'', build_role_arn a n), (''aws_region'', fst (hd rs)), (''target_account_id'', a),
         (''needs_dns_writer'', show_bool nd), (''dns_writer_arn'', arn)] s = (Inr (), s')"
proof -
  note d = assms [unfolded resolve_deploy_role_def Let_def]
  obtain ea where ea: "json_file (files s) (path_div (path_parent acc) ''env_accounts.json'') = Inr ea"
    using d by (auto simp: bindC_Inr_iff)
  obtain dm where dm: "json_file (files s) (path_div (path_parent acc) ''domains.json'') = Inr dm"
    using d by (auto simp: bindC_Inr_iff)
  obtain dns rs where dns: "dns_owner_id ea = Inr dns" "scope_accounts unit_path flags ea dm = Inr rs"
    using d ea dm by (auto simp: bindC_Inr_iff)
  obtain a nd where p: "primary_account dns rs = Inr (a, nd)"
    using d ea dm dns by (auto simp: bindC_Inr_iff)
  let ?chain = "if nd then bindC (load_deploy_role_name dns acc od) (\<lambda>n. ret (build_role_arn dns n)) else ret []"
  let ?w = "\<lambda>n arn. write_outputs out [(''role_arn'', build_role_arn a n), (''aws_region'', fst (hd rs)), (''target_account_id'', a),
         (''needs_dns_writer'', show_bool nd), (''dns_writer_arn'', arn)]"
  have "bindC (load_deploy_role_name a acc od) (\<lambda>n. bindC ?chain (?w n)) s = (Inr (), s')"
    using d unfolding bindC_def by (simp add: ea dm dns p)
  then obtain n t arn u where t: "load_deploy_role_name a acc od s = (Inr n, t)" "?chain t = (Inr arn, u)" "?w n arn u = (Inr (), s')"
    unfolding bindC_Inr_iff by blast
  have "t = s" using load_deploy_role_name_Inr [OF t(1)] by blast
  moreover have "u = t"
  proof (cases nd)
    case True
    with t(2) obtain m where "load_deploy_role_name dns acc od t = (Inr m, u)" by (auto simp: bindC_Inr_iff)
    then show ?thesis using load_deploy_role_name_Inr by blast
  qed (use t(2) in simp)
  ultimately show thesis using that [OF ea dm dns p] t by blast
qed

text \<open>C6. A deploy role is resolved for one service account only, and only for accounts CI may
  apply: if the script succeeds, every unit of the scope belongs to the reported account or to the
  DNS owner's; the reported account (and the DNS owner's, when its role is chained) is registered
  and allows CI to apply it; the chain is requested exactly when DNS units ride along with a
  service account; and the five outputs written are those of the resolved account.\<close>

theorem deploy_role_single_account:
  assumes "resolve_deploy_role unit_path acc out flags od s = (Inr (), s')"
  shows "\<exists>ea dm accts dns rs a nd e v arn.
     json_file (files s) (path_div (path_parent acc) ''env_accounts.json'') = Inr ea \<and>
     json_file (files s) (path_div (path_parent acc) ''domains.json'') = Inr dm \<and>
     json_file (files s) acc = Inr accts \<and> dns_owner_id ea = Inr dns \<and>
     scope_accounts unit_path flags ea dm = Inr rs \<and>
     set (map snd rs) \<subseteq> {a, dns} \<and> (a \<noteq> dns \<longrightarrow> a \<in> set (map snd rs)) \<and> nd = (a \<noteq> dns \<and> dns \<in> set (map snd rs)) \<and>
     json_index accts a = Inr e \<and> account_allows_ci_apply e od = Inr True \<and> json_index e ''deploy_role_name'' = Inr v \<and>
     (if nd then \<exists>de dv. json_index accts dns = Inr de \<and> account_allows_ci_apply de od = Inr True \<and>
            json_index de ''deploy_role_name'' = Inr dv \<and> arn = build_role_arn dns (py_str dv)
      else arn = []) \<and>
     output_text s' out = output_text s out @ output_lines [(''role_arn'', build_role_arn a (py_str v)),
       (''aws_region'', fst (hd rs)), (''target_account_id'', a), (''needs_dns_writer'', show_bool nd), (''dns_writer_arn'', arn)]"
proof -
  obtain ea dm dns rs a nd n arn where r:
    "json_file (files s) (path_div (path_parent acc) ''env_accounts.json'') = Inr ea"
    "json_file (files s) (path_div (path_parent acc) ''domains.json'') = Inr dm"
    "dns_owner_id ea = Inr dns" "scope_accounts unit_path flags ea dm = Inr rs"
    "primary_account dns rs = Inr (a, nd)" "load_deploy_role_name a acc od s = (Inr n, s)"
    and chain: "(if nd then bindC (load_deploy_role_name dns acc od) (\<lambda>n. ret (build_role_arn dns n)) else ret []) s = (Inr arn, s)"
    and w: "write_outputs out [(''role_arn'', build_role_arn a n), (''aws_region'', fst (hd rs)), (''target_account_id'', a),
         (''needs_dns_writer'', show_bool nd), (''dns_writer_arn'', arn)] s = (Inr (), s')"
    by (rule resolve_deploy_role_steps [OF assms])
  obtain accts e v where e: "json_file (files s) acc = Inr accts" "json_index accts a = Inr e"
    "account_allows_ci_apply e od = Inr True" "json_index e ''deploy_role_name'' = Inr v" "n = py_str v"
    using load_deploy_role_name_Inr [OF r(6)] by blast
  have "if nd then \<exists>de dv. json_index accts dns = Inr de \<and> account_allows_ci_apply de od = Inr True \<and>
            json_index de ''deploy_role_name'' = Inr dv \<and> arn = build_role_arn dns (py_str dv) else arn = []"
    using chain e(1) by (auto simp: bindC_Inr_iff dest!: load_deploy_role_name_Inr split: if_splits)
  then show ?thesis
    using r(1-4) e primary_account_Inr [OF r(5)] write_outputs_text [OF w] by blast
qed

definition ex_accounts :: json where
  "ex_accounts = JObj [(''111'', JObj [(''ci_deploy'', JBool False), (''ci_deploy_on_demand'', JBool True), (''deploy_role_name'', JStr ''sb''), (''plan_role_name'', JStr ''sp'')]),
     (''222'', JObj [(''ci_deploy'', JBool True), (''deploy_role_name'', JStr ''pr''), (''plan_role_name'', JStr ''pp'')]),
     (''333'', JObj [(''ci_deploy'', JBool True), (''deploy_role_name'', JStr ''dw''), (''plan_role_name'', JStr ''dp'')])]"

definition ex_deploy_state :: "unit ci_state" where
  "ex_deploy_state = \<lparr>world = (), cmds = [], environ = [], files = [
     (path_of ''c/env_accounts.json'', dumps dflt_opts ex_env_accounts), (path_of ''c/domains.json'', dumps dflt_opts ex_domains),
     (path_of ''c/accounts.json'', dumps dflt_opts ex_accounts)], readonly = [], printed = []\<rparr>"

definition ex_flags :: string where
  "ex_flags = reassemble_flags [live_path ''tg/'' ''us-east-1'' [''prod'', ''x''], live_path ''tg/'' ''us-east-1'' [''prod'', ''dns_owner'']]"

lemma ex_live_paths: "live_ok ''tg/'' ''us-east-1'' [''prod'', ''x'']" "live_ok ''tg/'' ''us-east-1'' [''prod'', ''dns_owner'']"
  "live_ok ''tg/'' ''us-east-1'' [''sandbox'', ''x'']"
  by (rule ex_live_ok; simp add: clean_part_def)+

lemma ex_words:
  "unit_word (live_path ''tg/'' ''us-east-1'' [''prod'', ''x''])" "unit_word (live_path ''tg/'' ''us-east-1'' [''prod'', ''dns_owner''])"
  "unit_word (live_path ''tg/'' ''us-east-1'' [''sandbox'', ''x''])"
  by (simp_all add: unit_word_def live_path_def is_ws_def)

lemma ex_resolved:
  "resolve_account_id (live_path ''tg/'' ''us-east-1'' [''prod'', ''x'']) ex_env_accounts ex_domains = Inr (''us-east-1'', ''222'')"
  "resolve_account_id (live_path ''tg/'' ''us-east-1'' [''prod'', ''dns_owner'']) ex_env_accounts ex_domains = Inr (''us-east-1'', ''333'')"
  "resolve_account_id (live_path ''tg/'' ''us-east-1'' [''sandbox'', ''x'']) ex_env_accounts ex_domains = Inr (''us-east-1'', ''111'')"
  using ex_live_paths [THEN resolve_live_path [OF _ ex_config_files]] by (simp_all add: ex_config_def account_or_error_def)

lemma ex_scope:
  "scope_accounts None (Some ex_flags) ex_env_accounts ex_domains = Inr [(''us-east-1'', ''222''), (''us-east-1'', ''333'')]"
  using ex_words by (simp add: scope_accounts_def ex_flags_def flags.extract_render ex_resolved)

lemma ex_files:
  "json_file (files ex_deploy_state) (path_of ''c/env_accounts.json'') = Inr ex_env_accounts"
  "json_file (files ex_deploy_state) (path_of ''c/domains.json'') = Inr ex_domains"
  "json_file (files ex_deploy_state) (path_of ''c/accounts.json'') = Inr ex_accounts"
  by (rule json_file_dumps; simp add: ex_deploy_state_def ex_env_accounts_def ex_domains_def ex_accounts_def path_of_def)+

lemma ex_common:
  "path_div (path_parent (path_of ''c/accounts.json'')) ''env_accounts.json'' = path_of ''c/env_accounts.json''"
  "path_div (path_parent (path_of ''c/accounts.json'')) ''domains.json'' = path_of ''c/domains.json''"
  by (simp_all add: path_of_def path_parent_def path_join_def)

lemma ex_dns: "dns_owner_id ex_env_accounts = Inr ''333''"
  by (simp add: dns_owner_id_def ex_env_accounts_def json_get_default_def py_str_def)

lemma ex_role: "load_deploy_role_name ''222'' (path_of ''c/accounts.json'') False ex_deploy_state = (Inr ''pr'', ex_deploy_state)"
  "load_deploy_role_name ''333'' (path_of ''c/accounts.json'') False ex_deploy_state = (Inr ''dw'', ex_deploy_state)"
  by (simp_all add: load_deploy_role_name_def load_account_entry_def bindC_def ex_files account_entry_def require_key_def
      json_in_def json_index_def ex_accounts_def account_allows_ci_apply_def py_str_def)

theorem deploy_role_single_account_witness:
  "\<exists>s' rs. resolve_deploy_role None (path_of ''c/accounts.json'') ''o'' (Some ex_flags) False ex_deploy_state = (Inr (), s') \<and>
     scope_accounts None (Some ex_flags) ex_env_accounts ex_domains = Inr rs \<and> set (map snd rs) \<subseteq> {''222'', ''333''}"
proof -
  let ?m = "resolve_deploy_role None (path_of ''c/accounts.json'') ''o'' (Some ex_flags) False ex_deploy_state"
  have "fst ?m = Inr ()"
    unfolding resolve_deploy_role_def Let_def ex_common bindC_def
    by (simp add: ex_files ex_dns ex_scope primary_account_def ex_role del: write_outputs.simps) (rule write_outputs_ok; simp add: writable_def ex_deploy_state_def is_dir_def path_of_def)
  then have m: "?m = (Inr (), snd ?m)" by (metis prod.collapse)
  from deploy_role_single_account [OF m] show ?thesis unfolding ex_common using m ex_files ex_dns ex_scope by auto
qed

end
