(* ===== verification/Lanes.thy ===== *)
theory Lanes
  imports Accounts "HOL-Library.Sublist"
begin

text \<open>
  The steps between change detection and \<open>terragrunt run --all\<close>: grouping a scope by account
  (\<open>scripts/partition_units_by_account.py\<close>), picking one account's row of the resulting matrix
  (\<open>scripts/select_partition_row.py\<close>), dropping the units CI must not apply
  (\<open>scripts/filter_ci_deployable_units.py\<close>) and the units that were never deployed
  (\<open>scripts/filter_units_with_state.py\<close>).

  \<open>terragrunt render\<close> is a command of the runner; the S3 client of boto3 is the parameter
  \<open>head\<close>, which answers a \<open>HeadObject\<close> in the outside world.
\<close>

section \<open>Grouping by account\<close>

definition MODE_PLAN :: string where "MODE_PLAN = ''plan''"
definition MODE_APPLY :: string where "MODE_APPLY = ''apply''"

definition load_role_name :: "string \<Rightarrow> json \<Rightarrow> string \<Rightarrow> bool \<Rightarrow> exn + string" where
  "load_role_name account_id accounts mode on_demand =
     bindR (require_key account_id accounts) (\<lambda>_.
     bindR (json_index accounts account_id) (\<lambda>entry.
     bindR (require_key ''ci_deploy'' entry) (\<lambda>_.
     bindR (if mode = MODE_APPLY then
              bindR (account_allows_ci_apply entry on_demand) (\<lambda>ok.
                if \<not> ok then bindR (json_get_default entry ''account_role'' (JStr ''unknown'')) (\<lambda>_. Inl CIDeployForbiddenError)
                else Inr ''deploy_role_name'')
            else Inr ''plan_role_name'') (\<lambda>key.
     bindR (require_key key entry) (\<lambda>_.
     bindR (json_index entry key) (\<lambda>v. Inr (py_str v)))))))"

record matrix_row =
  row_account :: string
  row_role_arn :: string
  row_needs_dns_writer :: bool
  row_region :: string
  row_flags :: string

definition row_json :: "matrix_row \<Rightarrow> json" where
  "row_json r = JObj [(''account_id'', JStr (row_account r)), (''role_arn'', JStr (row_role_arn r)),
     (''needs_dns_writer'', JStr (show_bool (row_needs_dns_writer r))), (''aws_region'', JStr (row_region r)),
     (''include_dir_flags'', JStr (row_flags r))]"

definition matrix_json :: "matrix_row list \<Rightarrow> json" where
  "matrix_json rows = JObj [(''include'', JList (map row_json rows))]"

text \<open>The loop over the units: each with its region and account.\<close>

type_synonym placed = "string \<times> string \<times> string"

definition place_units :: "json \<Rightarrow> json \<Rightarrow> string list \<Rightarrow> exn + placed list" where
  "place_units env_accounts domains paths =
     mapM (\<lambda>p. bindR (resolve_account_id p env_accounts domains) (\<lambda>(region, account_id). Inr (p, region, account_id))) paths"

definition by_account :: "placed list \<Rightarrow> (string, string list) dict" where
  "by_account us = fold (\<lambda>(p, region, account_id) d. dict_append account_id p d) us []"

definition region_by_account :: "placed list \<Rightarrow> (string, string) dict" where
  "region_by_account us = fold (\<lambda>(p, region, account_id) d. setdefault account_id region d) us []"

definition build_row :: "placed list \<Rightarrow> json \<Rightarrow> string \<Rightarrow> bool \<Rightarrow> string \<Rightarrow> string \<Rightarrow> exn + matrix_row" where
  "build_row us accounts mode on_demand dns_owner account_id =
     bindR (load_role_name account_id accounts mode on_demand) (\<lambda>role_name.
       Inr \<lparr>row_account = account_id, row_role_arn = build_role_arn account_id role_name,
            row_needs_dns_writer = (mode = MODE_APPLY \<and> account_id = dns_owner),
            row_region = the_default [] (map_of (region_by_account us) account_id),
            row_flags = reassemble_flags (the_default [] (map_of (by_account us) account_id))\<rparr>)"

definition partition_rows :: "string \<Rightarrow> json \<Rightarrow> json \<Rightarrow> json \<Rightarrow> string \<Rightarrow> bool \<Rightarrow> exn + matrix_row list" where
  "partition_rows include_dir_flags env_accounts domains accounts mode on_demand =
     bindR (dns_owner_id env_accounts) (\<lambda>dns_owner.
     bindR (extract_all_unit_paths include_dir_flags) (\<lambda>all_paths.
     bindR (place_units env_accounts domains all_paths) (\<lambda>us.
       mapM (build_row us accounts mode on_demand dns_owner) (sort (dict_keys (by_account us))))))"

definition partition_units :: "string \<Rightarrow> path \<Rightarrow> string \<Rightarrow> bool \<Rightarrow> ('w, matrix_row list) ci" where
  "partition_units include_dir_flags accounts_json_path mode on_demand =
     (if mode \<notin> {MODE_PLAN, MODE_APPLY} then raise PartitionError
      else if strip include_dir_flags = [] then ret []
      else
        bindC (load_json (path_div (path_parent accounts_json_path) ''env_accounts.json'')) (\<lambda>env_accounts.
        bindC (load_json (path_div (path_parent accounts_json_path) ''domains.json'')) (\<lambda>domains.
        bindC (load_json accounts_json_path) (\<lambda>accounts.
          lift (partition_rows include_dir_flags env_accounts domains accounts mode on_demand)))))"

definition partition_run :: "string \<Rightarrow> path \<Rightarrow> string \<Rightarrow> string \<Rightarrow> bool \<Rightarrow> ('w, unit) ci" where
  "partition_run include_dir_flags accounts_json_path mode output_path on_demand =
     bindC (partition_units include_dir_flags accounts_json_path mode on_demand) (\<lambda>rows.
       write_output output_path ''matrix'' (dumps dflt_opts (matrix_json rows)))"

definition partition_main :: "string \<Rightarrow> string \<Rightarrow> string \<Rightarrow> string \<Rightarrow> ('w, unit) ci" where
  "partition_main include_dir_flags_arg accounts_json_arg mode_arg output_arg =
     bindC (config_files_exist (path_of accounts_json_arg)) (\<lambda>ok.
     if \<not> ok then die
     else bindC environ_of (\<lambda>env.
       try_except (partition_run include_dir_flags_arg (path_of accounts_json_arg) mode_arg output_arg (on_demand_opt_in env))
         (\<lambda>e. e \<in> {PathParseError, AccountNotFoundError, AccountResolutionError, CIDeployForbiddenError, PartitionError}) die))"

section \<open>Selecting a row\<close>

definition MATRIX_PREFIX :: string where "MATRIX_PREFIX = ''matrix=''"

definition extract_matrix :: "string \<Rightarrow> exn + json list" where
  "extract_matrix matrix_text = (case find (\<lambda>l. startswith l MATRIX_PREFIX) (splitlines matrix_text) of
      None \<Rightarrow> Inl SelectRowError
    | Some line \<Rightarrow> (case loads (drop (length MATRIX_PREFIX) line) of
          None \<Rightarrow> Inl SelectRowError
        | Some matrix \<Rightarrow> bindR (json_get_default matrix ''include'' (JList [])) (\<lambda>rows.
            case rows of JList rs \<Rightarrow> Inr rs | _ \<Rightarrow> Inl SelectRowError)))"

definition select_row :: "json list \<Rightarrow> string \<Rightarrow> exn + json" where
  "select_row rows account_id =
     bindR (mapM (\<lambda>r. bindR (json_get r ''account_id'') (\<lambda>a. Inr (py_str a = account_id, r))) rows) (\<lambda>tagged.
       case map snd (filter fst tagged) of
         [] \<Rightarrow> Inl SelectRowError
       | [r] \<Rightarrow> Inr r
       | _ \<Rightarrow> Inl SelectRowError)"

definition select_run :: "path \<Rightarrow> string \<Rightarrow> string \<Rightarrow> ('w, unit) ci" where
  "select_run matrix_file account_id output_path =
     bindC (read_text matrix_file) (\<lambda>t.
     bindC (lift (extract_matrix t)) (\<lambda>rows.
     bindC (lift (select_row rows account_id)) (\<lambda>row.
     bindC (lift (json_get_default row ''include_dir_flags'' (JStr []))) (\<lambda>f.
     bindC (lift (json_index row ''role_arn'')) (\<lambda>arn.
     thenC (write_output output_path ''role_arn'' (py_str arn))
     (bindC (lift (json_index row ''aws_region'')) (\<lambda>region.
       write_outputs output_path [(''aws_region'', py_str region), (''include_dir_flags'', py_str f),
         (''unit_count'', show_nat (count_sub QUEUE_INCLUDE_DIR_TOKEN (py_str f)))])))))))"

definition select_main :: "string \<Rightarrow> string \<Rightarrow> string \<Rightarrow> ('w, unit) ci" where
  "select_main matrix_file_arg account_id_arg output_arg =
     try_except (select_run (path_of matrix_file_arg) account_id_arg output_arg)
       (\<lambda>e. e = SelectRowError \<or> is_os_error e) die"

section \<open>Filters\<close>

text \<open>The loop both filters run: a decision per unit, \<open>Inr\<close> to keep and \<open>Inl\<close> to skip; the
  first error stops it.\<close>

fun partC :: "('a \<Rightarrow> ('w, 'c + 'b) ci) \<Rightarrow> 'a list \<Rightarrow> ('w, 'b list \<times> 'c list) ci" where
  "partC decide [] = ret ([], [])"
| "partC decide (x # xs) =
     bindC (decide x) (\<lambda>d. bindC (partC decide xs) (\<lambda>(kept, skipped).
       ret (case d of Inr k \<Rightarrow> (k # kept, skipped) | Inl c \<Rightarrow> (kept, c # skipped))))"

text \<open>The outputs of a filter: an empty scope is a no-op, not a failure.\<close>

definition scope_outputs :: "string list \<Rightarrow> (string \<times> string) list" where
  "scope_outputs kept = (if kept = [] then [(''include_dir_flags'', []), (''has_units'', ''false'')]
     else [(''include_dir_flags'', reassemble_flags kept), (''has_units'', ''true'')])"

definition ci_decide :: "json \<Rightarrow> json \<Rightarrow> json \<Rightarrow> bool \<Rightarrow> string \<Rightarrow> ('w, (string \<times> string) + string) ci" where
  "ci_decide env_accounts domains accounts on_demand unit_path =
     lift (bindR (resolve_account_id unit_path env_accounts domains) (\<lambda>(region, account_id).
       bindR (is_account_ci_deployable account_id accounts on_demand) (\<lambda>ok.
         Inr (if ok then Inr unit_path else Inl (unit_path, account_id)))))"

definition partition_by_ci_deploy :: "string \<Rightarrow> path \<Rightarrow> bool \<Rightarrow> ('w, string list \<times> (string \<times> string) list) ci" where
  "partition_by_ci_deploy include_dir_flags accounts_json_path on_demand =
     bindC (load_json (path_div (path_parent accounts_json_path) ''env_accounts.json'')) (\<lambda>env_accounts.
     bindC (load_json (path_div (path_parent accounts_json_path) ''domains.json'')) (\<lambda>domains.
     bindC (load_json accounts_json_path) (\<lambda>accounts.
     bindC (lift (extract_all_unit_paths include_dir_flags)) (\<lambda>paths.
       partC (ci_decide env_accounts domains accounts on_demand) paths))))"

definition filter_ci_run :: "string \<Rightarrow> path \<Rightarrow> string \<Rightarrow> bool \<Rightarrow> ('w, unit) ci" where
  "filter_ci_run include_dir_flags accounts_json_path output_path on_demand =
     bindC (partition_by_ci_deploy include_dir_flags accounts_json_path on_demand) (\<lambda>(deployable, skipped).
       write_outputs output_path (scope_outputs deployable))"

definition filter_ci_main :: "string \<Rightarrow> string \<Rightarrow> string \<Rightarrow> ('w, unit) ci" where
  "filter_ci_main include_dir_flags_arg accounts_json_arg output_arg =
     bindC (config_files_exist (path_of accounts_json_arg)) (\<lambda>ok.
     if \<not> ok then die
     else bindC environ_of (\<lambda>env.
       try_except (filter_ci_run include_dir_flags_arg (path_of accounts_json_arg) output_arg (on_demand_opt_in env))
         (\<lambda>e. e \<in> {PathParseError, AccountNotFoundError, AccountResolutionError}) die))"

subsection \<open>Remote state\<close>

definition render_cmd :: "string \<Rightarrow> command" where
  "render_cmd unit_path =
     Command [''terragrunt'', ''render'', ''--format'', ''json'', ''--working-dir'', unit_path] None"

definition render_unit_backend :: "'w runner \<Rightarrow> string \<Rightarrow> ('w, json) ci" where
  "render_unit_backend runner unit_path =
     bindC (run_cmd runner (render_cmd unit_path)) (\<lambda>r.
       if returncode r \<noteq> 0 then raise RenderError
       else (case loads (stdout r) of None \<Rightarrow> raise RenderError | Some v \<Rightarrow> ret v))"

text \<open>\<open>v or {}\<close>.\<close>

definition or_empty :: "json \<Rightarrow> json" where
  "or_empty v = (if truthy v then v else JObj [])"

definition S3_BACKEND :: string where "S3_BACKEND = ''s3''"

definition extract_backend_bucket_key :: "json \<Rightarrow> exn + string \<times> string \<times> string" where
  "extract_backend_bucket_key rendered =
     bindR (json_get rendered ''remote_state'') (\<lambda>rs.
     bindR (json_get_default (or_empty rs) ''backend'' (JStr [])) (\<lambda>b.
     if py_str b \<noteq> S3_BACKEND then Inr (py_str b, [], [])
     else bindR (json_get (or_empty rs) ''config'') (\<lambda>c.
          bindR (json_get (or_empty c) ''bucket'') (\<lambda>bucket.
          bindR (json_get (or_empty c) ''key'') (\<lambda>key.
            if \<not> truthy bucket \<or> \<not> truthy key then Inl RenderError
            else Inr (py_str b, py_str bucket, py_str key))))))"

text \<open>The answers of \<open>client.head_object\<close>: success, a \<open>ClientError\<close> with its response, or another
  exception.\<close>

datatype head_answer = Head_Ok | Head_ClientError json | Head_Raises exn

type_synonym 'w s3 = "string \<Rightarrow> string \<Rightarrow> string \<Rightarrow> 'w \<Rightarrow> head_answer \<times> 'w"

definition NOT_FOUND_ERROR_CODES :: "string list" where
  "NOT_FOUND_ERROR_CODES = [''404'', ''NoSuchKey'', ''NoSuchBucket'', ''NotFound'']"

definition is_not_found :: "json \<Rightarrow> exn + bool" where
  "is_not_found response =
     bindR (json_get_default response ''Error'' (JObj [])) (\<lambda>err.
     bindR (json_get_default err ''Code'' (JStr [])) (\<lambda>code.
     bindR (json_get_default response ''ResponseMetadata'' (JObj [])) (\<lambda>meta.
     bindR (json_get_default meta ''HTTPStatusCode'' (JStr [])) (\<lambda>status.
       Inr (py_str code \<in> set NOT_FOUND_ERROR_CODES \<or> py_str status = ''404'')))))"

definition head_object :: "'w s3 \<Rightarrow> string \<Rightarrow> string \<Rightarrow> string \<Rightarrow> ('w, head_answer) ci" where
  "head_object head region bucket key = (\<lambda>s.
     let (a, w) = head region bucket key (world s) in (Inr a, s\<lparr>world := w\<rparr>))"

definition state_exists :: "'w s3 \<Rightarrow> string \<Rightarrow> string \<Rightarrow> string \<Rightarrow> ('w, bool) ci" where
  "state_exists head region bucket key =
     bindC (head_object head region bucket key) (\<lambda>a. case a of
         Head_Ok \<Rightarrow> ret True
       | Head_Raises e \<Rightarrow> raise e
       | Head_ClientError resp \<Rightarrow> bindC (lift (is_not_found resp)) (\<lambda>gone.
           if gone then ret False else raise StateCheckError))"

definition state_decide :: "'w runner \<Rightarrow> 'w s3 \<Rightarrow> string \<Rightarrow> string \<Rightarrow> ('w, string + string) ci" where
  "state_decide runner head region unit_path =
     bindC (render_unit_backend runner unit_path) (\<lambda>rendered.
     bindC (lift (extract_backend_bucket_key rendered)) (\<lambda>(backend, bucket, key).
       if backend \<noteq> S3_BACKEND then ret (Inr unit_path)
       else bindC (state_exists head region bucket key) (\<lambda>ex.
         ret (if ex then Inr unit_path else Inl unit_path))))"

definition partition_by_state_existence :: "'w runner \<Rightarrow> 'w s3 \<Rightarrow> string \<Rightarrow> string list \<Rightarrow> ('w, string list \<times> string list) ci" where
  "partition_by_state_existence runner head region unit_paths = partC (state_decide runner head region) unit_paths"

definition aws_region_of :: "(string, string) dict \<Rightarrow> string" where
  "aws_region_of env =
     (let a = the_default [] (map_of env ''AWS_REGION''); b = the_default [] (map_of env ''AWS_DEFAULT_REGION'')
      in if a \<noteq> [] then a else if b \<noteq> [] then b else ''us-east-1'')"

definition filter_state_run :: "'w runner \<Rightarrow> 'w s3 \<Rightarrow> string \<Rightarrow> string \<Rightarrow> ('w, unit) ci" where
  "filter_state_run runner head include_dir_flags output_path =
     bindC (lift (extract_all_unit_paths include_dir_flags)) (\<lambda>unit_paths.
     bindC environ_of (\<lambda>env.
     bindC (partition_by_state_existence runner head (aws_region_of env) unit_paths) (\<lambda>(kept, skipped).
       write_outputs output_path (scope_outputs kept))))"

definition filter_state_main :: "'w runner \<Rightarrow> 'w s3 \<Rightarrow> string \<Rightarrow> string \<Rightarrow> ('w, unit) ci" where
  "filter_state_main runner head include_dir_flags_arg output_arg =
     try_except (filter_state_run runner head include_dir_flags_arg output_arg)
       (\<lambda>e. e \<in> {PathParseError, RenderError, StateCheckError}) die"

section \<open>Splitting a scope\<close>

text \<open>A filter decides unit by unit and names the unit it keeps or skips.\<close>

locale scope_filter =
  fixes decide :: "string \<Rightarrow> ('w, 'c + string) ci"
    and unit_of :: "'c \<Rightarrow> string"
  assumes keeps: "decide p s = (Inr (Inr q), s') \<Longrightarrow> q = p"
    and skips: "decide p s = (Inr (Inl c), s') \<Longrightarrow> unit_of c = p"
begin

text \<open>Nothing is lost, invented or reordered: the scope is an interleaving of what is kept and
  what is skipped.\<close>

lemma part_shuffle:
  "partC decide ps s = (Inr (kept, skipped), s') \<Longrightarrow> ps \<in> shuffles kept (map unit_of skipped)"
proof (induction ps arbitrary: s kept skipped)
  case (Cons p ps)
  then obtain d t k sk where d: "decide p s = (Inr d, t)" "partC decide ps t = (Inr (k, sk), s')"
    "(kept, skipped) = (case d of Inr x \<Rightarrow> (x # k, sk) | Inl c \<Rightarrow> (k, c # sk))"
    by (auto simp: bindC_Inr_iff)
  have ih: "ps \<in> shuffles k (map unit_of sk)" by (rule Cons.IH [OF d(2)])
  show ?case
  proof (cases d)
    case (Inr x)
    then have "kept = p # k" "skipped = sk" using d(1,3) keeps by auto
    then show ?thesis using ih by (simp add: Cons_in_shuffles_leftI)
  next
    case (Inl c)
    then have "kept = k" "map unit_of skipped = p # map unit_of sk" using d(1,3) skips by auto
    then show ?thesis using ih by (simp add: Cons_in_shuffles_rightI)
  qed
qed simp

text \<open>Every unit was kept or skipped by a decision made in some state of the run.\<close>

lemma part_decided:
  "partC decide ps s = (Inr (kept, skipped), s') \<Longrightarrow>
     (\<forall>q \<in> set kept. \<exists>t t'. decide q t = (Inr (Inr q), t')) \<and>
     (\<forall>c \<in> set skipped. \<exists>t t'. decide (unit_of c) t = (Inr (Inl c), t'))"
proof (induction ps arbitrary: s kept skipped)
  case (Cons p ps)
  then obtain d t k sk where d: "decide p s = (Inr d, t)" "partC decide ps t = (Inr (k, sk), s')"
    "(kept, skipped) = (case d of Inr x \<Rightarrow> (x # k, sk) | Inl c \<Rightarrow> (k, c # sk))"
    by (auto simp: bindC_Inr_iff)
  show ?case
  proof (cases d)
    case (Inr x)
    then have "decide x s = (Inr (Inr x), t)" using d(1) keeps by metis
    with Cons.IH [OF d(2)] d(3) Inr show ?thesis by auto
  next
    case (Inl c)
    then have "decide (unit_of c) s = (Inr (Inl c), t)" using d(1) skips by metis
    with Cons.IH [OF d(2)] d(3) Inl show ?thesis by auto
  qed
qed simp

lemma part_subset: "partC decide ps s = (Inr (kept, skipped), s') \<Longrightarrow> set kept \<subseteq> set ps"
  using part_shuffle [of ps s kept skipped s'] set_shuffles by fastforce

end

lemma ci_decide_Inr:
  "ci_decide ea dm accts od p s = (Inr d, s') \<longleftrightarrow> s' = s \<and> (\<exists>r a ok. resolve_account_id p ea dm = Inr (r, a) \<and>
     is_account_ci_deployable a accts od = Inr ok \<and> d = (if ok then Inr p else Inl (p, a)))"
  by (auto simp: ci_decide_def bindR_Inr_iff)

interpretation ci: scope_filter "ci_decide ea dm accts od" fst for ea dm accts od
  by unfold_locales (auto simp: ci_decide_Inr split: if_splits)

lemma state_decide_Inr:
  assumes "state_decide runner head region p s = (Inr d, s')"
  shows "d = Inr p \<or> (d = Inl p \<and> (\<exists>v t b k resp w. render_unit_backend runner p s = (Inr v, t) \<and>
     extract_backend_bucket_key v = Inr (S3_BACKEND, b, k) \<and>
     head region b k (world t) = (Head_ClientError resp, w) \<and> is_not_found resp = Inr True))"
proof -
  obtain v t where v: "render_unit_backend runner p s = (Inr v, t)"
    using assms by (auto simp: state_decide_def bindC_Inr_iff)
  obtain be b k where x: "extract_backend_bucket_key v = Inr (be, b, k)"
    using assms v by (auto simp: state_decide_def bindC_Inr_iff)
  have e: "(if be \<noteq> S3_BACKEND then ret (Inr p) else bindC (state_exists head region b k) (\<lambda>ex. ret (if ex then Inr p else Inl p))) t = (Inr d, s')"
    using assms v x by (simp add: state_decide_def bindC_def)
  show ?thesis
  proof (cases "be = S3_BACKEND")
    case True
    obtain ans w where a: "head region b k (world t) = (ans, w)" by force
    show ?thesis using e True v x a
      by (cases ans) (auto simp: state_exists_def bindC_Inr_iff head_object_def split: if_splits)
  qed (use e in simp)
qed

interpretation st: scope_filter "state_decide runner head region" id for runner head region
  by unfold_locales (auto dest: state_decide_Inr)

section \<open>The matrix\<close>

abbreviation unit_account_of :: "placed \<Rightarrow> string" where
  "unit_account_of u \<equiv> snd (snd u)"

lemma by_account_lookup:
  "map_of (by_account us) a =
     (if a \<in> unit_account_of ` set us then Some (map fst (filter (\<lambda>u. unit_account_of u = a) us)) else None)"
proof -
  have "map_of (fold (\<lambda>(p, region, account_id) d. dict_append account_id p d) us d) a =
     (if filter (\<lambda>u. unit_account_of u = a) us = [] then map_of d a
      else Some ((case map_of d a of None \<Rightarrow> [] | Some ys \<Rightarrow> ys) @ map fst (filter (\<lambda>u. unit_account_of u = a) us)))" for d
    by (induction us arbitrary: d) (auto simp: dict_append_lookup split: option.splits)
  moreover have "filter (\<lambda>u. unit_account_of u = a) us = [] \<longleftrightarrow> a \<notin> unit_account_of ` set us"
    by (auto simp: filter_empty_conv)
  ultimately show ?thesis by (simp add: by_account_def)
qed

lemma by_account_wf: "dict_wf (by_account us)"
proof -
  have "dict_wf d \<Longrightarrow> dict_wf (fold (\<lambda>(p, region, account_id) d. dict_append account_id p d) us d)" for d
    by (induction us arbitrary: d) (auto simp: dict_wf_append)
  then show ?thesis by (simp add: by_account_def)
qed

lemma by_account_keys: "set (dict_keys (by_account us)) = unit_account_of ` set us"
proof -
  have "k \<in> fst ` set (by_account us) \<longleftrightarrow> k \<in> unit_account_of ` set us" for k
    using by_account_lookup [of us k] map_of_eq_None_iff [of "by_account us" k] by (metis option.distinct(1))
  then show ?thesis by (simp add: dict_keys_def) blast
qed

lemma sorted_accounts: "sort (dict_keys (by_account us)) = sort (remdups (map unit_account_of us))"
proof -
  have "distinct (dict_keys (by_account us))" using by_account_wf [of us] by (simp add: dict_keys_def)
  then have "sort (dict_keys (by_account us)) = sort (remdups (dict_keys (by_account us)))" by (simp add: distinct_remdups_id)
  also have "\<dots> = sort (remdups (map unit_account_of us))" by (rule sort_remdups_perm) (simp add: by_account_keys)
  finally show ?thesis .
qed

lemma region_lookup:
  "map_of (region_by_account us) a = map_option (\<lambda>u. fst (snd u)) (find (\<lambda>u. unit_account_of u = a) us)"
proof -
  have "map_of (fold (\<lambda>(p, region, account_id) d. setdefault account_id region d) us d) a =
     (case map_of d a of Some r \<Rightarrow> Some r | None \<Rightarrow> map_option (\<lambda>u. fst (snd u)) (find (\<lambda>u. unit_account_of u = a) us))" for d
    by (induction us arbitrary: d) (auto simp: setdefault_lookup split: option.splits if_splits)
  then show ?thesis by (simp add: region_by_account_def)
qed

lemma place_units_Inr:
  "place_units ea dm ps = Inr us \<Longrightarrow> map fst us = ps \<and> (\<forall>(p, r, a) \<in> set us. resolve_account_id p ea dm = Inr (r, a))"
proof (induction ps arbitrary: us)
  case (Cons p ps)
  then obtain r a us' where "resolve_account_id p ea dm = Inr (r, a)" "place_units ea dm ps = Inr us'" "us = (p, r, a) # us'"
    by (auto simp: place_units_def bindR_Inr_iff)
  with Cons.IH show ?case by auto
qed (simp add: place_units_def)

definition in_account :: "json \<Rightarrow> json \<Rightarrow> string \<Rightarrow> string \<Rightarrow> bool" where
  "in_account ea dm a p = (case resolve_account_id p ea dm of Inl _ \<Rightarrow> False | Inr (r, b) \<Rightarrow> b = a)"

lemma units_of_account:
  assumes "place_units ea dm ps = Inr us"
  shows "map fst (filter (\<lambda>u. unit_account_of u = a) us) = filter (in_account ea dm a) ps"
proof -
  have ps: "ps = map fst us" and res: "\<forall>u \<in> set us. resolve_account_id (fst u) ea dm = Inr (snd u)"
    using place_units_Inr [OF assms] by auto
  have "filter (in_account ea dm a) ps = map fst (filter (in_account ea dm a \<circ> fst) us)"
    unfolding ps by (rule filter_map)
  also have "filter (in_account ea dm a \<circ> fst) us = filter (\<lambda>u. unit_account_of u = a) us"
    by (rule filter_cong) (use res in \<open>auto simp: in_account_def\<close>)
  finally show ?thesis by simp
qed

lemma partition_rows_steps:
  assumes "partition_rows flags ea dm accts mode od = Inr rows"
  obtains dns ps us where "dns_owner_id ea = Inr dns" "extract_all_unit_paths flags = Inr ps" "place_units ea dm ps = Inr us"
    "mapM (build_row us accts mode od dns) (sort (remdups (map unit_account_of us))) = Inr rows"
  using assms unfolding partition_rows_def sorted_accounts by (auto simp: bindR_Inr_iff)

lemma build_row_Inr:
  "build_row us accts mode od dns a = Inr row \<Longrightarrow> row_account row = a \<and>
     row_needs_dns_writer row = (mode = MODE_APPLY \<and> a = dns) \<and>
     row_region row = the_default [] (map_of (region_by_account us) a) \<and>
     row_flags row = reassemble_flags (the_default [] (map_of (by_account us) a)) \<and>
     (\<exists>n. load_role_name a accts mode od = Inr n \<and> row_role_arn row = build_role_arn a n)"
  by (auto simp: build_row_def bindR_Inr_iff)

lemma mapM_accounts:
  "mapM (build_row us accts mode od dns) as = Inr rows \<Longrightarrow> map row_account rows = as \<and>
     (\<forall>row \<in> set rows. build_row us accts mode od dns (row_account row) = Inr row)"
proof (induction as arbitrary: rows)
  case (Cons a as)
  then obtain row rs where "build_row us accts mode od dns a = Inr row"
    "mapM (build_row us accts mode od dns) as = Inr rs" "rows = row # rs" by (auto simp: bindR_Inr_iff)
  with Cons.IH show ?case by (auto dest: build_row_Inr)
qed simp

lemma row_of_partition:
  assumes "place_units ea dm ps = Inr us" "extract_all_unit_paths flags = Inr ps"
    and "build_row us accts mode od dns a = Inr row" "a \<in> unit_account_of ` set us"
  shows "extract_all_unit_paths (row_flags row) = Inr (filter (in_account ea dm a) ps) \<and>
     (\<exists>p \<in> set ps. resolve_account_id p ea dm = Inr (row_region row, a))"
proof
  let ?qs = "filter (in_account ea dm a) ps"
  have qs: "map_of (by_account us) a = Some ?qs"
    using assms(4) units_of_account [OF assms(1), of a] by (simp add: by_account_lookup)
  have "filter (\<lambda>u. unit_account_of u = a) us \<noteq> []" using assms(4) by (auto simp: filter_empty_conv)
  then have "?qs \<noteq> []" using units_of_account [OF assms(1), of a] by (metis map_is_Nil_conv)
  then show "extract_all_unit_paths (row_flags row) = Inr ?qs"
    using build_row_Inr [OF assms(3)] qs flags.extract_part [OF assms(2), of ?qs] by auto
  obtain u where u: "find (\<lambda>u. unit_account_of u = a) us = Some u"
    using assms(4) by (cases "find (\<lambda>u. unit_account_of u = a) us") (auto simp: find_None_iff)
  then have m: "u \<in> set us" "unit_account_of u = a" by (auto simp: find_Some_iff in_set_conv_nth)
  have "resolve_account_id (fst u) ea dm = Inr (snd u)" "fst u \<in> set ps"
    using m(1) place_units_Inr [OF assms(1)] by auto
  moreover have "snd u = (row_region row, a)"
    using build_row_Inr [OF assms(3)] u m(2) by (simp add: region_lookup prod_eq_iff)
  ultimately show "\<exists>p \<in> set ps. resolve_account_id p ea dm = Inr (row_region row, a)" by metis
qed

lemma load_role_name_apply:
  "load_role_name a accts MODE_APPLY od = Inr n \<Longrightarrow> \<exists>e. json_index accts a = Inr e \<and> account_allows_ci_apply e od = Inr True"
  by (auto simp: load_role_name_def bindR_Inr_iff split: if_splits)

section \<open>Properties\<close>

text \<open>C17. The matrix partitions the scope by account: when grouping succeeds on a non-blank scope,
  the rows carry distinct accounts in ascending order, exactly the accounts the units resolve to;
  the flags of a row read back as the units of its account, in scope order, so every unit is in
  exactly one row; the region of a row is that of one of its units; and in apply mode CI may apply
  every row's account.\<close>

theorem matrix_partitions_scope:
  assumes "partition_rows flags ea dm accts mode od = Inr rows"
  shows "\<exists>ps. extract_all_unit_paths flags = Inr ps \<and> sorted (map row_account rows) \<and> distinct (map row_account rows) \<and>
     (\<forall>p \<in> set ps. \<exists>row \<in> set rows. in_account ea dm (row_account row) p) \<and>
     (\<forall>row \<in> set rows. extract_all_unit_paths (row_flags row) = Inr (filter (in_account ea dm (row_account row)) ps) \<and>
        (\<exists>p \<in> set ps. resolve_account_id p ea dm = Inr (row_region row, row_account row)) \<and>
        (mode = MODE_APPLY \<longrightarrow> (\<exists>e. json_index accts (row_account row) = Inr e \<and> account_allows_ci_apply e od = Inr True)))"
proof -
  obtain dns ps us where s: "dns_owner_id ea = Inr dns" "extract_all_unit_paths flags = Inr ps" "place_units ea dm ps = Inr us"
    "mapM (build_row us accts mode od dns) (sort (remdups (map unit_account_of us))) = Inr rows"
    by (rule partition_rows_steps [OF assms])
  have acc: "map row_account rows = sort (remdups (map unit_account_of us))"
    and built: "\<forall>row \<in> set rows. build_row us accts mode od dns (row_account row) = Inr row"
    using mapM_accounts [OF s(4)] by simp_all
  have accs: "row_account ` set rows = unit_account_of ` set us"
    using acc [THEN arg_cong, of set] by simp
  have "\<exists>row \<in> set rows. in_account ea dm (row_account row) p" if p: "p \<in> set ps" for p
  proof -
    obtain r a where u: "(p, r, a) \<in> set us" "resolve_account_id p ea dm = Inr (r, a)"
      using p place_units_Inr [OF s(3)] by fastforce
    then obtain row where "row \<in> set rows" "row_account row = a" using accs by force
    with u show ?thesis by (auto simp: in_account_def)
  qed
  moreover have "extract_all_unit_paths (row_flags row) = Inr (filter (in_account ea dm (row_account row)) ps) \<and>
        (\<exists>p \<in> set ps. resolve_account_id p ea dm = Inr (row_region row, row_account row)) \<and>
        (mode = MODE_APPLY \<longrightarrow> (\<exists>e. json_index accts (row_account row) = Inr e \<and> account_allows_ci_apply e od = Inr True))"
    if "row \<in> set rows" for row
    using row_of_partition [OF s(3,2) built [rule_format, OF that]] build_row_Inr [OF built [rule_format, OF that]]
      load_role_name_apply accs that by blast
  ultimately show ?thesis using acc s(2) by simp
qed

section \<open>From the matrix to a row\<close>

text \<open>JSON text made of strings only is printable ASCII, so it stays on one line.\<close>

fun textual :: "json \<Rightarrow> bool" where
  "textual (JStr s) = True"
| "textual (JList xs) = (\<forall>x \<in> set xs. textual x)"
| "textual (JObj kvs) = (\<forall>kv \<in> set kvs. textual (snd kv))"
| "textual v = False"

definition plain_ascii :: "char \<Rightarrow> bool" where
  "plain_ascii c = (32 \<le> (of_char c :: nat) \<and> of_char c \<le> (126 :: nat))"

lemma hex_char_ascii: "d < 16 \<Longrightarrow> plain_ascii (hex_char d)"
  by (auto simp: plain_ascii_def hex_char_def)

lemma esc_char_ascii: "c \<in> set (esc_char True d) \<Longrightarrow> plain_ascii c"
proof -
  have n: "of_char d div 16 < (16 :: nat)" "of_char d mod 16 < (16 :: nat)"
    using nat_of_char_less_256 [of d] by (simp_all add: less_mult_imp_div_less del: nat_of_char_less_256)
  have p: "plain_ascii (CHR 0x22)" "plain_ascii (CHR 0x5C)" "plain_ascii (CHR ''b'')" "plain_ascii (CHR ''f'')" "plain_ascii (CHR ''n'')"
    "plain_ascii (CHR ''r'')" "plain_ascii (CHR ''t'')" "plain_ascii (CHR ''u'')" "plain_ascii (CHR ''0'')"
    by (simp_all add: plain_ascii_def)
  assume "c \<in> set (esc_char True d)"
  then show ?thesis
    using n p hex_char_ascii by (auto simp: esc_char_def Let_def plain_ascii_def [of d] split: if_splits)
qed

lemma dump_str_ascii: "c \<in> set (dump_str True s) \<Longrightarrow> plain_ascii c"
  using esc_char_ascii by (auto simp: dump_str_def plain_ascii_def)

lemma set_join: "set (join sep xs) \<subseteq> set sep \<union> (\<Union>x \<in> set xs. set x)"
  by (induction sep xs rule: join.induct) auto

lemma dumps_ascii: "textual v \<Longrightarrow> \<forall>c \<in> set (dumps dflt_opts v). plain_ascii c"
proof (induction v)
  case (JList xs)
  then have "\<forall>x \<in> set (map (dumps dflt_opts) xs). \<forall>c \<in> set x. plain_ascii c" by auto
  moreover have "\<forall>c \<in> set (item_sep dflt_opts). plain_ascii c" by (simp add: dflt_opts_def plain_ascii_def)
  ultimately have "\<forall>c \<in> set (join (item_sep dflt_opts) (map (dumps dflt_opts) xs)). plain_ascii c"
    using set_join [of "item_sep dflt_opts" "map (dumps dflt_opts) xs"] by blast
  then show ?case by (simp add: plain_ascii_def)
next
  case (JObj kvs)
  let ?m = "map (\<lambda>(k, v). dump_str (ensure_ascii dflt_opts) k @ key_sep dflt_opts @ dumps dflt_opts v) kvs"
  have "\<forall>x \<in> set ?m. \<forall>c \<in> set x. plain_ascii c"
  proof (intro ballI)
    fix x c
    assume "x \<in> set ?m" "c \<in> set x"
    then obtain k v where kv: "(k, v) \<in> set kvs" "c \<in> set (dump_str (ensure_ascii dflt_opts) k @ key_sep dflt_opts @ dumps dflt_opts v)"
      by auto
    have "\<forall>c \<in> set (dumps dflt_opts v). plain_ascii c" using JObj kv(1) by fastforce
    with kv(2) show "plain_ascii c" using dump_str_ascii [of c k] by (auto simp: dflt_opts_def plain_ascii_def)
  qed
  moreover have "\<forall>c \<in> set (item_sep dflt_opts). plain_ascii c" by (simp add: dflt_opts_def plain_ascii_def)
  ultimately have "\<forall>c \<in> set (join (item_sep dflt_opts) ?m). plain_ascii c"
    using set_join [of "item_sep dflt_opts" ?m] by blast
  then show ?case by (simp add: plain_ascii_def)
qed (use dump_str_ascii in \<open>auto simp: dflt_opts_def\<close>)

lemma plain_not_newline: "plain_ascii c \<Longrightarrow> \<not> is_newline c"
  by (auto simp: plain_ascii_def is_newline_def Let_def)

lemma splitlines_one: "s \<noteq> [] \<Longrightarrow> \<forall>c \<in> set s. \<not> is_newline c \<Longrightarrow> splitlines (s @ [CHR 0x0A]) = [s]"
proof (induction s rule: splitlines.induct)
  case (2 c)
  then show ?case by (auto simp: is_newline_def Let_def)
next
  case (3 c d s)
  have c: "c \<noteq> CHR 0x0D" "\<not> is_newline c" using "3.prems" by (auto simp: is_newline_def Let_def)
  then have "splitlines ((d # s) @ [CHR 0x0A]) = [d # s]" using "3.IH" "3.prems" by simp
  then show ?case using c by simp
qed simp

lemma textual_matrix: "textual (matrix_json rows)"
  by (auto simp: matrix_json_def row_json_def)

lemma wf_matrix: "wf_json (matrix_json rows)"
  by (auto simp: matrix_json_def row_json_def)

lemma extract_matrix_text:
  "extract_matrix (''matrix='' @ dumps dflt_opts (matrix_json rows) @ [CHR 0x0A]) = Inr (map row_json rows)"
proof -
  let ?l = "''matrix='' @ dumps dflt_opts (matrix_json rows)"
  have "\<forall>c \<in> set ?l. \<not> is_newline c"
    using dumps_ascii [OF textual_matrix] plain_not_newline by (auto simp: is_newline_def)
  then have "splitlines (?l @ [CHR 0x0A]) = [?l]" by (intro splitlines_one) simp_all
  then have "splitlines (''matrix='' @ dumps dflt_opts (matrix_json rows) @ [CHR 0x0A]) = [?l]" by simp
  moreover have "loads (dumps dflt_opts (matrix_json rows)) = Some (matrix_json rows)"
    by (rule loads_dumps) (simp_all add: wf_matrix)
  ultimately show ?thesis
    unfolding extract_matrix_def by (simp add: MATRIX_PREFIX_def) (simp add: matrix_json_def json_get_default_def)
qed

lemma select_row_of:
  assumes "distinct (map row_account rows)" "row \<in> set rows"
  shows "select_row (map row_json rows) (row_account row) = Inr (row_json row)"
proof -
  let ?a = "row_account row"
  have m: "mapM (\<lambda>r. bindR (json_get r ''account_id'') (\<lambda>a. Inr (py_str a = ?a, r))) (map row_json rows) =
      Inr (map (\<lambda>r. (row_account r = ?a, row_json r)) rows)"
    by (induction rows) (simp_all add: row_json_def json_get_def py_str_def)
  have "filter (\<lambda>r. row_account r = ?a) rows = [row]"
    using assms by (induction rows) (auto simp: filter_empty_conv image_iff)
  then have "map snd (filter fst (map (\<lambda>r. (row_account r = ?a, row_json r)) rows)) = [row_json row]"
    by (simp add: filter_map comp_def)
  with m show ?thesis by (simp add: select_row_def)
qed

subsection \<open>Counting the units of a row\<close>

lemma count_sub_skip:
  assumes "p \<noteq> []" "z \<notin> set p" "\<not> contains p u"
  shows "count_sub p (u @ z # r) = count_sub p r \<and> count_sub p u = 0"
  using assms(3)
proof (induction u)
  case Nil
  have "\<not> prefix p (z # r)" using assms by (cases p) auto
  then show ?case using assms by (simp add: count_sub.simps [of p "z # r"] count_sub.simps [of p "[]"])
next
  case (Cons c u)
  have no: "\<not> prefix p (c # u @ z # r)"
  proof
    assume pre: "prefix p (c # u @ z # r)"
    then have "length p \<le> length (c # u) \<or> length (c # u) < length p" by linarith
    then show False
    proof
      assume "length p \<le> length (c # u)"
      then have "prefix p (c # u)" using pre by (metis append_Cons prefix_length_prefix prefixI)
      then show False using Cons.prems by simp
    next
      assume l: "length (c # u) < length p"
      obtain w where "c # u @ z # r = p @ w" using pre by (auto simp: prefix_def)
      then have "p ! length (c # u) = (c # u @ z # r) ! length (c # u)" using l by (metis nth_append)
      also have "\<dots> = z" by simp
      finally show False using l assms(2) nth_mem by metis
    qed
  qed
  have "\<not> prefix p (c # u)" "\<not> contains p u" using Cons.prems by auto
  then show ?case
    using Cons.IH no assms(1) by (simp add: count_sub.simps [of p "c # u @ z # r"] count_sub.simps [of p "c # u"])
qed

lemma count_flags:
  "\<forall>p \<in> set ps. \<not> contains QUEUE_INCLUDE_DIR_TOKEN p \<Longrightarrow> count_sub QUEUE_INCLUDE_DIR_TOKEN (reassemble_flags ps) = length ps"
proof (induction ps)
  case Nil
  then show ?case by (simp add: reassemble_flags_def count_sub.simps)
next
  case (Cons p ps)
  let ?t = QUEUE_INCLUDE_DIR_TOKEN
  have t: "?t \<noteq> []" "CHR '' '' \<notin> set ?t" by (simp_all add: QUEUE_INCLUDE_DIR_TOKEN_def)
  have hd: "count_sub ?t (?t @ r) = Suc (count_sub ?t r)" for r
    using t(1) by (simp add: count_sub.simps [of ?t "?t @ r"])
  have sp: "count_sub ?t (CHR '' '' # r) = count_sub ?t r" for r
    using count_sub_skip [OF t, of "[]" r] t(1) by simp
  show ?case
    using Cons count_sub_skip [OF t, of p "reassemble_flags ps"]
    by (cases "ps = []") (simp_all add: reassemble_Cons hd sp)
qed

lemma bindC_lift [simp]: "bindC (lift (Inr x)) k = k x" "bindC (lift (Inl e)) k = raise e"
  by (simp_all add: bindC_def fun_eq_iff raise_def)

lemma bindC_step: "m s = (Inr x, s') \<Longrightarrow> bindC m k s = k x s'"
  by (simp add: bindC_def)

lemma partition_run_steps:
  assumes "partition_run flags acc mode out od s = (Inr (), t)" "strip flags \<noteq> []"
  obtains ea dm accts rows where
    "json_file (files s) (path_div (path_parent acc) ''env_accounts.json'') = Inr ea"
    "json_file (files s) (path_div (path_parent acc) ''domains.json'') = Inr dm"
    "json_file (files s) acc = Inr accts"
    "partition_rows flags ea dm accts mode od = Inr rows"
    "write_output out ''matrix'' (dumps dflt_opts (matrix_json rows)) s = (Inr (), t)"
proof -
  obtain rows where r: "partition_units flags acc mode od s = (Inr rows, s)"
    "write_output out ''matrix'' (dumps dflt_opts (matrix_json rows)) s = (Inr (), t)"
    using assms unfolding partition_run_def partition_units_def
    by (auto simp: bindC_Inr_iff split: if_splits)
  then show thesis
    using assms(2) that unfolding partition_units_def by (auto simp: bindC_Inr_iff split: if_splits)
qed


definition ex_paths :: "string list" where
  "ex_paths = [live_path ''tg/'' ''us-east-1'' [''prod'', ''x''], live_path ''tg/'' ''us-east-1'' [''prod'', ''dns_owner'']]"

lemma ex_extract: "extract_all_unit_paths ex_flags = Inr ex_paths"
  using ex_words by (simp add: ex_flags_def ex_paths_def flags.extract_render)

lemma ex_rows: "\<exists>rows. partition_rows ex_flags ex_env_accounts ex_domains ex_accounts MODE_APPLY False = Inr rows"
proof -
  have p: "place_units ex_env_accounts ex_domains ex_paths =
      Inr [(live_path ''tg/'' ''us-east-1'' [''prod'', ''x''], ''us-east-1'', ''222''), (live_path ''tg/'' ''us-east-1'' [''prod'', ''dns_owner''], ''us-east-1'', ''333'')]"
    by (simp add: place_units_def ex_paths_def ex_resolved)
  have r: "load_role_name ''222'' ex_accounts MODE_APPLY False = Inr ''pr''" "load_role_name ''333'' ex_accounts MODE_APPLY False = Inr ''dw''"
    by (simp_all add: load_role_name_def ex_accounts_def require_key_def json_in_def json_index_def account_allows_ci_apply_def py_str_def)
  show ?thesis by (simp add: partition_rows_def ex_dns ex_extract p sorted_accounts build_row_def r)
qed

theorem matrix_partitions_scope_witness:
  "\<exists>rows. partition_rows ex_flags ex_env_accounts ex_domains ex_accounts MODE_APPLY False = Inr rows \<and>
     distinct (map row_account rows)"
  using ex_rows matrix_partitions_scope by blast

lemma ex_flags_not_blank: "strip ex_flags \<noteq> []"
  by (simp add: ex_flags_def reassemble_Cons QUEUE_INCLUDE_DIR_TOKEN_def strip_by_def rstrip_by_def is_ws_def dropWhile_eq_Nil_conv)


subsection \<open>The filters\<close>

lemma partition_by_ci_steps:
  assumes "partition_by_ci_deploy flags acc od s = (Inr (kept, skipped), s')"
  obtains ea dm accts ps where
    "json_file (files s) (path_div (path_parent acc) ''env_accounts.json'') = Inr ea"
    "json_file (files s) (path_div (path_parent acc) ''domains.json'') = Inr dm"
    "json_file (files s) acc = Inr accts" "extract_all_unit_paths flags = Inr ps"
    "partC (ci_decide ea dm accts od) ps s = (Inr (kept, skipped), s')"
  using assms that unfolding partition_by_ci_deploy_def by (auto simp: bindC_Inr_iff)

definition ci_applies :: "json \<Rightarrow> json \<Rightarrow> json \<Rightarrow> bool \<Rightarrow> string \<Rightarrow> bool \<Rightarrow> bool" where
  "ci_applies ea dm accts od p b = (\<exists>r a. resolve_account_id p ea dm = Inr (r, a) \<and> is_account_ci_deployable a accts od = Inr b)"

text \<open>The CI filter loses no unit: when it succeeds, the scope is an interleaving of what it
  keeps and what it skips; CI may apply the account of every unit it keeps and may not apply that
  of any unit it skips, each of them registered; and it reports the kept units, or an empty scope
  with \<open>has_units=false\<close>.\<close>

theorem ci_filter_exact:
  assumes "filter_ci_run flags acc out od s = (Inr (), s')"
  shows "\<exists>ea dm accts ps kept skipped.
     json_file (files s) (path_div (path_parent acc) ''env_accounts.json'') = Inr ea \<and>
     json_file (files s) (path_div (path_parent acc) ''domains.json'') = Inr dm \<and>
     json_file (files s) acc = Inr accts \<and> extract_all_unit_paths flags = Inr ps \<and>
     ps \<in> shuffles kept skipped \<and> (\<forall>p \<in> set kept. ci_applies ea dm accts od p True) \<and>
     (\<forall>p \<in> set skipped. ci_applies ea dm accts od p False) \<and>
     output_text s' out = output_text s out @ output_lines (scope_outputs kept)"
proof -
  obtain kept skipped t where p: "partition_by_ci_deploy flags acc od s = (Inr (kept, skipped), t)"
    and w: "write_outputs out (scope_outputs kept) t = (Inr (), s')"
    using assms by (auto simp: filter_ci_run_def bindC_Inr_iff)
  obtain ea dm accts ps where r: "json_file (files s) (path_div (path_parent acc) ''env_accounts.json'') = Inr ea"
    "json_file (files s) (path_div (path_parent acc) ''domains.json'') = Inr dm"
    "json_file (files s) acc = Inr accts" "extract_all_unit_paths flags = Inr ps"
    and c: "partC (ci_decide ea dm accts od) ps s = (Inr (kept, skipped), t)"
    by (rule partition_by_ci_steps [OF p])
  have "\<forall>p \<in> set kept. ci_applies ea dm accts od p True"
    "\<forall>p \<in> set (map fst skipped). ci_applies ea dm accts od p False"
    using ci.part_decided [OF c] by (auto simp: ci_decide_Inr ci_applies_def split: if_splits)
  moreover have "files t = files s"
  proof -
    have "files t = files s" if "partC (ci_decide ea dm accts od) qs s = (Inr x, t)" for qs x and s t :: "'a ci_state"
      using that by (induction qs arbitrary: s x) (auto simp: bindC_Inr_iff ci_decide_Inr)
    then show ?thesis using c by blast
  qed
  then have "output_text s' out = output_text s out @ output_lines (scope_outputs kept)"
    using write_outputs_text [OF w] by (simp add: output_text_def)
  ultimately show ?thesis using r ci.part_shuffle [OF c] by blast
qed

text \<open>C12. What the CI filter keeps, the grouping step may apply: grouping the flags the filter
  wrote in apply mode never fails because an account is local-only.\<close>

theorem ci_filter_then_partition:
  assumes "partition_by_ci_deploy flags acc od s = (Inr (kept, skipped), s')"
  shows "fst (partition_units (reassemble_flags kept) acc MODE_APPLY od s) \<noteq> Inl CIDeployForbiddenError"
proof
  assume bad: "fst (partition_units (reassemble_flags kept) acc MODE_APPLY od s) = Inl CIDeployForbiddenError"
  obtain ea dm accts ps where r: "json_file (files s) (path_div (path_parent acc) ''env_accounts.json'') = Inr ea"
    "json_file (files s) (path_div (path_parent acc) ''domains.json'') = Inr dm"
    "json_file (files s) acc = Inr accts" "extract_all_unit_paths flags = Inr ps"
    and c: "partC (ci_decide ea dm accts od) ps s = (Inr (kept, skipped), s')"
    by (rule partition_by_ci_steps [OF assms])
  have pr: "partition_rows (reassemble_flags kept) ea dm accts MODE_APPLY od = Inl CIDeployForbiddenError"
    using bad r by (auto simp: partition_units_def bindC_def MODE_APPLY_def split: if_splits)
  have "kept \<noteq> []" using bad by (auto simp: partition_units_def reassemble_flags_def MODE_APPLY_def split: if_splits)
  then have x: "extract_all_unit_paths (reassemble_flags kept) = Inr kept"
    using flags.extract_part [OF r(4)] ci.part_subset [OF c] by blast
  have app: "\<exists>r a e. resolve_account_id p ea dm = Inr (r, a) \<and> is_account_ci_deployable a accts od = Inr True" if "p \<in> set kept" for p
    using ci.part_decided [OF c] that by (fastforce simp: ci_decide_Inr split: if_splits)
  have "dns_owner_id ea \<noteq> Inl CIDeployForbiddenError"
    by (auto simp: dns_owner_id_def json_get_default_def bindR_Inl_iff split: json.splits)
  then obtain dns where dns: "dns_owner_id ea = Inr dns"
    using pr by (cases "dns_owner_id ea") (auto simp: partition_rows_def)
  obtain us where us: "place_units ea dm kept = Inr us"
  proof -
    have "place_units ea dm kept = Inr (map (\<lambda>p. (p, projr (resolve_account_id p ea dm))) kept)"
      unfolding place_units_def by (rule mapM_total) (use app in fastforce)
    then show thesis by (rule that)
  qed
  have "mapM (build_row us accts MODE_APPLY od dns) (sort (remdups (map unit_account_of us))) = Inl CIDeployForbiddenError"
    using pr by (simp add: partition_rows_def dns x us sorted_accounts)
  then obtain a where a: "a \<in> set (sort (remdups (map unit_account_of us)))" "build_row us accts MODE_APPLY od dns a = Inl CIDeployForbiddenError"
    unfolding mapM_Inl_iff by (metis in_set_conv_decomp)
  then obtain u where u: "u \<in> set us" "unit_account_of u = a" by auto
  then have "fst u \<in> set kept" "resolve_account_id (fst u) ea dm = Inr (snd u)" using place_units_Inr [OF us] by auto
  then have "is_account_ci_deployable a accts od = Inr True" using app u(2) by fastforce
  moreover have "load_role_name a accts MODE_APPLY od = Inl CIDeployForbiddenError"
    using a(2) by (auto simp: build_row_def bindR_Inl_iff)
  ultimately show False
    by (auto simp: load_role_name_def is_account_ci_deployable_def bindR_Inl_iff bindR_Inr_iff require_key_def json_in_def
        json_index_def split: if_splits json.splits option.splits)
qed

definition ex_flags3 :: string where
  "ex_flags3 = reassemble_flags [live_path ''tg/'' ''us-east-1'' [''prod'', ''x''], live_path ''tg/'' ''us-east-1'' [''sandbox'', ''x'']]"

lemma ex_ci_split: "partition_by_ci_deploy ex_flags3 (path_of ''c/accounts.json'') False ex_deploy_state =
   (Inr ([live_path ''tg/'' ''us-east-1'' [''prod'', ''x'']], [(live_path ''tg/'' ''us-east-1'' [''sandbox'', ''x''], ''111'')]), ex_deploy_state)"
proof -
  have "is_account_ci_deployable ''222'' ex_accounts False = Inr True" "is_account_ci_deployable ''111'' ex_accounts False = Inr False"
    by (simp_all add: is_account_ci_deployable_def ex_accounts_def require_key_def json_in_def json_index_def account_allows_ci_apply_def)
  then show ?thesis
    unfolding partition_by_ci_deploy_def ex_common
    using ex_words by (simp add: bindC_def ex_files ex_flags3_def flags.extract_render ci_decide_def ex_resolved)
qed

theorem ci_filter_exact_witness:
  "\<exists>s'. filter_ci_run ex_flags3 (path_of ''c/accounts.json'') ''o'' False ex_deploy_state = (Inr (), s') \<and>
     (\<exists>ps kept skipped. extract_all_unit_paths ex_flags3 = Inr ps \<and> ps \<in> shuffles kept skipped \<and>
        output_text s' ''o'' = output_lines (scope_outputs kept))"
proof -
  let ?m = "filter_ci_run ex_flags3 (path_of ''c/accounts.json'') ''o'' False ex_deploy_state"
  have w: "writable ''o'' ex_deploy_state" "output_text ex_deploy_state ''o'' = []"
    by (simp_all add: writable_def output_text_def ex_deploy_state_def is_dir_def path_of_def)
  have "fst ?m = Inr ()"
    unfolding filter_ci_run_def bindC_def ex_ci_split by (simp add: write_outputs_ok [OF w(1)] del: write_outputs.simps)
  then have m: "?m = (Inr (), snd ?m)" by (metis prod.collapse)
  show ?thesis using ci_filter_exact [OF m] w(2) m by (metis append_Nil)
qed

theorem ci_filter_then_partition_witness:
  "fst (partition_units (reassemble_flags [live_path ''tg/'' ''us-east-1'' [''prod'', ''x'']]) (path_of ''c/accounts.json'') MODE_APPLY False ex_deploy_state)
     \<noteq> Inl CIDeployForbiddenError"
  by (rule ci_filter_then_partition [OF ex_ci_split])

text \<open>The state filter never drops a deployed unit: when it succeeds, the scope is an
  interleaving of what it keeps and what it skips, and for every skipped unit Terragrunt rendered
  an S3 backend whose state object S3 reported as missing; every other answer keeps the unit or
  stops the run.\<close>

theorem state_filter_skips_only_missing:
  assumes "filter_state_run runner head flags out s = (Inr (), s')"
  shows "\<exists>ps kept skipped. extract_all_unit_paths flags = Inr ps \<and> ps \<in> shuffles kept skipped \<and>
     (\<forall>p \<in> set skipped. \<exists>t v t' b k resp w. render_unit_backend runner p t = (Inr v, t') \<and>
        extract_backend_bucket_key v = Inr (S3_BACKEND, b, k) \<and>
        head (aws_region_of (environ s)) b k (world t') = (Head_ClientError resp, w) \<and> is_not_found resp = Inr True) \<and>
     (\<exists>t. write_outputs out (scope_outputs kept) t = (Inr (), s'))"
proof -
  obtain ps kept skipped t where r: "extract_all_unit_paths flags = Inr ps"
    "partC (state_decide runner head (aws_region_of (environ s))) ps s = (Inr (kept, skipped), t)"
    "write_outputs out (scope_outputs kept) t = (Inr (), s')"
    using assms by (auto simp: filter_state_run_def partition_by_state_existence_def bindC_Inr_iff environ_of_def)
  have "\<forall>p \<in> set skipped. \<exists>t v t' b k resp w. render_unit_backend runner p t = (Inr v, t') \<and>
        extract_backend_bucket_key v = Inr (S3_BACKEND, b, k) \<and>
        head (aws_region_of (environ s)) b k (world t') = (Head_ClientError resp, w) \<and> is_not_found resp = Inr True"
  proof
    fix p
    assume "p \<in> set skipped"
    then obtain t t' where "state_decide runner head (aws_region_of (environ s)) p t = (Inr (Inl p), t')"
      using st.part_decided [OF r(2)] by auto
    from state_decide_Inr [OF this] show "\<exists>t v t' b k resp w. render_unit_backend runner p t = (Inr v, t') \<and>
        extract_backend_bucket_key v = Inr (S3_BACKEND, b, k) \<and>
        head (aws_region_of (environ s)) b k (world t') = (Head_ClientError resp, w) \<and> is_not_found resp = Inr True" by blast
  qed
  then show ?thesis using r st.part_shuffle [OF r(2)] by auto
qed

definition ex_render :: "unit runner" where
  "ex_render c w = (Some \<lparr>returncode = 0, stdout = dumps dflt_opts (JObj [(''remote_state'', JObj [(''backend'', JStr ''s3''),
     (''config'', JObj [(''bucket'', JStr ''b''), (''key'', JStr ''k'')])])]), stderr = []\<rparr>, w)"

definition ex_head :: "unit s3" where
  "ex_head region bucket key w = (Head_ClientError (JObj [(''Error'', JObj [(''Code'', JStr ''NoSuchKey'')])]), w)"

theorem state_filter_skips_only_missing_witness:
  "\<exists>s'. filter_state_run ex_render ex_head ''--queue-include-dir u'' ''o'' ex_deploy_state = (Inr (), s') \<and>
     (\<exists>ps kept skipped. extract_all_unit_paths ''--queue-include-dir u'' = Inr ps \<and> ps \<in> shuffles kept skipped)"
proof -
  let ?m = "filter_state_run ex_render ex_head ''--queue-include-dir u'' ''o'' ex_deploy_state"
  have "fst ?m = Inr ()" by code_simp
  then have m: "?m = (Inr (), snd ?m)" by (metis prod.collapse)
  show ?thesis using state_filter_skips_only_missing [OF m] m by blast
qed

end
