(* ===== verification/Units.thy ===== *)
theory Units
  imports Accounts
begin

text \<open>
  Which Terragrunt units a change affects: \<open>scripts/detect_terragrunt_units.py\<close>. A unit is a
  directory with a \<open>terragrunt.hcl\<close>; a changed file belongs to the nearest enclosing unit, a
  shared parent configuration to every unit that refers to it, and units that depend on those are
  added.

  Python sets of paths are lists without duplicates; the script only sorts them or tests
  membership. Paths are absolute, because the root is resolved first, so \<open>resolve()\<close> needs no
  working directory after that.
\<close>

section \<open>The live tree\<close>

definition HCL :: string where "HCL = ''terragrunt.hcl''"

text \<open>\<open>p.resolve()\<close> for an absolute path.\<close>

definition resolved :: "path \<Rightarrow> path" where
  "resolved p = path_resolve (Path True []) p"

text \<open>Every file and directory of the tree, and \<open>base.rglob(name)\<close>.\<close>

definition tree_entries :: "(path, string) dict \<Rightarrow> path list" where
  "tree_entries fs = remdups (concat (map (\<lambda>q. map (Path (anchored q)) (tl (prefixes (parts q)))) (map fst fs)))"

definition rglob :: "(path, string) dict \<Rightarrow> path \<Rightarrow> string \<Rightarrow> path list" where
  "rglob fs base n = filter (\<lambda>p. anchored p = anchored base \<and> strict_prefix (parts base) (parts p) \<and> path_name p = n) (tree_entries fs)"

definition file_text :: "(path, string) dict \<Rightarrow> path \<Rightarrow> exn + string" where
  "file_text fs p = (case map_of fs p of
      Some t \<Rightarrow> Inr t
    | None \<Rightarrow> Inl (if is_dir fs p then OSError else FileNotFoundError))"

text \<open>The upward walk both \<open>detect_unit_dir\<close> and \<open>_resolve_in_parent_folders\<close> make: the nearest
  directory, from \<open>c\<close> up to the root, that has an entry \<open>name\<close>.\<close>

function find_up :: "(path, string) dict \<Rightarrow> path \<Rightarrow> string \<Rightarrow> path \<Rightarrow> path option" where
  "find_up fs tg_root n c =
     (if path_exists fs (path_div c n) then Some c
      else if c = tg_root \<or> path_parent c = c then None
      else find_up fs tg_root n (path_parent c))"
  by pat_completeness auto
termination
proof (relation "measure (\<lambda>(fs, tg_root, n, c). length (parts c))", simp)
  fix fs :: "(path, string) dict" and tg_root c :: path and n
  assume "\<not> (c = tg_root \<or> path_parent c = c)"
  then have "parts c \<noteq> []" by (cases c) (auto simp: path_parent_def)
  then show "((fs, tg_root, n, path_parent c), fs, tg_root, n, c) \<in> measure (\<lambda>(fs, tg_root, n, c). length (parts c))"
    by (simp add: path_parent_def)
qed

declare find_up.simps [simp del]

definition detect_unit_dir :: "(path, string) dict \<Rightarrow> path \<Rightarrow> path \<Rightarrow> path option" where
  "detect_unit_dir fs changed_file tg_root =
     find_up fs tg_root HCL (if is_dir fs changed_file then changed_file else path_parent changed_file)"

section \<open>References between units\<close>

abbreviation Quote :: rx where "Quote \<equiv> Ch (CHR 0x22)"
abbreviation Unquoted :: rx where "Unquoted \<equiv> Plus True (Cls (\<lambda>c. c \<noteq> CHR 0x22))"
abbreviation Spaces :: rx where "Spaces \<equiv> Star True (Cls is_ws)"

definition DEPENDENCY_CONFIG_PATH_RE :: rx where
  "DEPENDENCY_CONFIG_PATH_RE = Seq (Lit ''dependency'') (Seq (Plus True (Cls is_ws)) (Seq Quote (Seq Unquoted (Seq Quote
     (Seq Spaces (Seq (Ch (CHR 0x7B)) (Seq (Star True (Cls (\<lambda>c. c \<noteq> CHR 0x7D))) (Seq (Lit ''config_path'') (Seq Spaces
     (Seq (Ch (CHR ''='')) (Seq Spaces (Seq Quote (Seq (Grp ''1'' Unquoted) Quote)))))))))))))"

definition FIND_IN_PARENT_FOLDERS_RE :: rx where
  "FIND_IN_PARENT_FOLDERS_RE = Seq (Lit ''find_in_parent_folders('') (Seq Spaces (Seq Quote (Seq (Grp ''1'' Unquoted)
     (Seq Quote (Seq Spaces (Ch (CHR '')'')))))))"

text \<open>\<open>(?:/[^"\s]+)+\<close>\<close>

definition sub_path_rx :: rx where
  "sub_path_rx = Plus True (Seq (Ch (CHR ''/'')) (Plus True (Cls (\<lambda>c. c \<noteq> CHR 0x22 \<and> \<not> is_ws c))))"

definition DIRNAME_PARENT_FOLDERS_REF_RE :: rx where
  "DIRNAME_PARENT_FOLDERS_REF_RE = Seq (Lit (CHR ''$'' # CHR 0x7B # ''dirname(find_in_parent_folders('')) (Seq Spaces (Seq Quote (Seq (Grp ''1'' Unquoted)
     (Seq Quote (Seq Spaces (Seq (Lit (''))'' @ [CHR 0x7D])) (Grp ''2'' sub_path_rx)))))))"

definition GET_TERRAGRUNT_DIR_REF_RE :: rx where
  "GET_TERRAGRUNT_DIR_REF_RE = Seq (Lit (CHR ''$'' # CHR 0x7B # ''get_terragrunt_dir()'' @ [CHR 0x7D])) (Grp ''1'' sub_path_rx)"

definition findall_group :: "rx \<Rightarrow> string \<Rightarrow> string list" where
  "findall_group r s = map (\<lambda>cs. the_default [] (cap_of ''1'' cs)) (re_findall r s)"

definition findall_groups :: "rx \<Rightarrow> string \<Rightarrow> (string \<times> string) list" where
  "findall_groups r s = map (\<lambda>cs. (the_default [] (cap_of ''1'' cs), the_default [] (cap_of ''2'' cs))) (re_findall r s)"

definition parse_dependency_paths :: "(path, string) dict \<Rightarrow> path \<Rightarrow> exn + string list" where
  "parse_dependency_paths fs hcl_file =
     bindR (file_text fs hcl_file) (\<lambda>content. Inr (findall_group DEPENDENCY_CONFIG_PATH_RE content))"

definition depends_on :: "(path, string) dict \<Rightarrow> path list \<Rightarrow> path \<Rightarrow> exn + bool" where
  "depends_on fs changed_units hcl_file =
     (let unit_dir = path_parent hcl_file in
      if unit_dir \<in> set changed_units then Inr False
      else bindR (parse_dependency_paths fs hcl_file) (\<lambda>deps.
        Inr (list_ex (\<lambda>raw. list_ex (\<lambda>c. resolved (path_div unit_dir raw) = resolved c) changed_units) deps)))"

fun filterM :: "('a \<Rightarrow> exn + bool) \<Rightarrow> 'a list \<Rightarrow> exn + 'a list" where
  "filterM f [] = Inr []"
| "filterM f (x # xs) = bindR (f x) (\<lambda>b. bindR (filterM f xs) (\<lambda>ys. Inr (if b then x # ys else ys)))"

definition find_dependent_units :: "(path, string) dict \<Rightarrow> path list \<Rightarrow> path \<Rightarrow> exn + path list" where
  "find_dependent_units fs changed_units tg_root =
     bindR (filterM (depends_on fs changed_units) (rglob fs tg_root HCL)) (\<lambda>hs. Inr (remdups (map path_parent hs)))"

definition resolve_in_parent_folders :: "(path, string) dict \<Rightarrow> string \<Rightarrow> path \<Rightarrow> path \<Rightarrow> path option" where
  "resolve_in_parent_folders fs n unit_dir tg_root =
     map_option (\<lambda>c. resolved (path_div c n)) (find_up fs tg_root n (path_parent unit_dir))"

definition resolve_parent_config_references :: "(path, string) dict \<Rightarrow> path \<Rightarrow> path \<Rightarrow> exn + path list" where
  "resolve_parent_config_references fs hcl_file tg_root =
     (let unit_dir = path_parent hcl_file in
      bindR (file_text fs hcl_file) (\<lambda>content.
        Inr (List.map_filter (\<lambda>n. resolve_in_parent_folders fs n unit_dir tg_root) (findall_group FIND_IN_PARENT_FOLDERS_RE content) @
             List.map_filter (\<lambda>(anchor, rest).
               map_option (\<lambda>a. resolved (path_div (path_parent a) (lstrip_char (CHR ''/'') rest))) (resolve_in_parent_folders fs anchor unit_dir tg_root))
               (findall_groups DIRNAME_PARENT_FOLDERS_REF_RE content) @
             map (\<lambda>rest. resolved (path_div unit_dir (lstrip_char (CHR ''/'') rest)))
               (filter (\<lambda>rest. \<not> contains [CHR ''$'', CHR 0x7B] rest) (findall_group GET_TERRAGRUNT_DIR_REF_RE content)))))"

definition find_units_affected_by_parent_config :: "(path, string) dict \<Rightarrow> path \<Rightarrow> path \<Rightarrow> exn + path list" where
  "find_units_affected_by_parent_config fs config_file tg_root =
     bindR (filterM (\<lambda>h. bindR (resolve_parent_config_references fs h tg_root) (\<lambda>refs. Inr (resolved config_file \<in> set refs)))
       (rglob fs tg_root HCL)) (\<lambda>hs. Inr (remdups (map path_parent hs)))"

text \<open>\<open>p.suffix\<close>: the last dot of the name and what follows, unless it starts or ends the name.\<close>

definition path_suffix :: "path \<Rightarrow> string" where
  "path_suffix p =
     (let n = path_name p; ext = takeWhile (\<lambda>c. c \<noteq> CHR ''.'') (rev n)
      in if length ext < length n \<and> ext \<noteq> [] \<and> Suc (length ext) < length n then CHR ''.'' # rev ext else [])"

definition is_shared_parent_config :: "path \<Rightarrow> path \<Rightarrow> bool" where
  "is_shared_parent_config changed_file tg_root =
     (if path_name changed_file = HCL \<or> path_suffix changed_file \<noteq> ''.hcl'' then False
      else relative_to (resolved changed_file) (resolved tg_root) \<noteq> None)"

section \<open>The scope of a change\<close>

definition build_include_dir_flags :: "path list \<Rightarrow> exn + string list" where
  "build_include_dir_flags unit_dirs =
     (if unit_dirs = [] then Inl EmptyUnitScopeError
      else Inr (concat (map (\<lambda>u. [QUEUE_INCLUDE_DIR_TOKEN, path_str u]) unit_dirs)))"

definition diff_cmd :: "string \<Rightarrow> string \<Rightarrow> string option \<Rightarrow> command" where
  "diff_cmd base head diff_filter =
     Command ([''git'', ''diff'', ''--name-only''] @
       (case diff_filter of None \<Rightarrow> [] | Some f \<Rightarrow> [''--diff-filter='' @ f]) @ [base @ ''...'' @ head]) None"

definition run_git_diff_name_only :: "'w runner \<Rightarrow> string \<Rightarrow> string \<Rightarrow> path \<Rightarrow> string option \<Rightarrow> ('w, path list) ci" where
  "run_git_diff_name_only runner base head repo_root diff_filter =
     bindC (run_cmd runner (diff_cmd base head diff_filter)) (\<lambda>r.
       if returncode r \<noteq> 0 then raise RuntimeError
       else ret (map (path_div repo_root) (tag_lines (stdout r))))"

definition list_changed_files :: "'w runner \<Rightarrow> string \<Rightarrow> string \<Rightarrow> path \<Rightarrow> ('w, path list) ci" where
  "list_changed_files runner base head repo_root = run_git_diff_name_only runner base head repo_root None"

definition list_deleted_files :: "'w runner \<Rightarrow> string \<Rightarrow> string \<Rightarrow> path \<Rightarrow> ('w, path list) ci" where
  "list_deleted_files runner base head repo_root = run_git_diff_name_only runner base head repo_root (Some ''D'')"

definition is_deletion_only_changeset :: "path list \<Rightarrow> path list \<Rightarrow> bool" where
  "is_deletion_only_changeset changed_files deleted_files =
     (if changed_files = [] then False else set changed_files = set deleted_files)"

definition is_bootstrap_unit :: "path \<Rightarrow> bool" where
  "is_bootstrap_unit unit_dir = contains ''/bootstrap/'' (''/'' @ strip_by (\<lambda>c. c = CHR ''/'') (path_str unit_dir) @ ''/'')"

definition units_of_file :: "(path, string) dict \<Rightarrow> path \<Rightarrow> path \<Rightarrow> exn + path list" where
  "units_of_file fs tg_root changed_file = (case detect_unit_dir fs changed_file tg_root of
      Some u \<Rightarrow> Inr [u]
    | None \<Rightarrow> if is_shared_parent_config changed_file tg_root
        then find_units_affected_by_parent_config fs changed_file tg_root else Inr [])"

definition scope_units :: "(path, string) dict \<Rightarrow> path \<Rightarrow> path list \<Rightarrow> exn + path list" where
  "scope_units fs tg_root changed_files =
     bindR (mapM (units_of_file fs tg_root) changed_files) (\<lambda>uss.
     let changed_units = remdups (concat uss) in
     bindR (find_dependent_units fs changed_units tg_root) (\<lambda>dependent_units.
       Inr (remdups (changed_units @ dependent_units))))"

definition run_detect :: "'w runner \<Rightarrow> string \<Rightarrow> string \<Rightarrow> path \<Rightarrow> string \<Rightarrow> bool \<Rightarrow> ('w, unit) ci" where
  "run_detect runner base head tg_root output_path exclude_bootstrap =
     bindC (list_changed_files runner base head (path_parent tg_root)) (\<lambda>changed_files.
     bindC get_files (\<lambda>fs.
     bindC (lift (scope_units fs tg_root changed_files)) (\<lambda>all_units.
     if exclude_bootstrap then
       (let sorted_units = sort_key path_str (filter (\<lambda>u. \<not> is_bootstrap_unit u) all_units) in
        if sorted_units = [] then write_outputs output_path [(''include_dir_flags'', []), (''has_units'', ''false'')]
        else bindC (lift (build_include_dir_flags sorted_units)) (\<lambda>flags.
          write_outputs output_path [(''include_dir_flags'', join '' '' flags), (''has_units'', ''true'')]))
     else
       (let sorted_units = sort_key path_str all_units in
        bindC (if sorted_units = []
               then bindC (list_deleted_files runner base head (path_parent tg_root)) (\<lambda>deleted_files.
                 ret (is_deletion_only_changeset changed_files deleted_files))
               else ret False) (\<lambda>deletion_only.
        if deletion_only then write_outputs output_path [(''include_dir_flags'', []), (''has_units'', ''false'')]
        else bindC (lift (build_include_dir_flags sorted_units)) (\<lambda>flags.
          write_output output_path ''include_dir_flags'' (join '' '' flags)))))))"

definition detect_units_main :: "'w runner \<Rightarrow> path \<Rightarrow> string \<Rightarrow> string \<Rightarrow> string \<Rightarrow> string \<Rightarrow> bool \<Rightarrow> ('w, unit) ci" where
  "detect_units_main runner cwd base head tg_root_arg output_arg exclude_bootstrap =
     (let tg_root = path_resolve cwd (path_of tg_root_arg) in
      bindC get_files (\<lambda>fs.
      if \<not> path_exists fs tg_root then die
      else try_except (run_detect runner base head tg_root output_arg exclude_bootstrap) is_runtime_error die))"

section \<open>The upward walk\<close>

definition ancestor :: "path \<Rightarrow> path \<Rightarrow> bool" where
  "ancestor u c = (anchored u = anchored c \<and> prefix (parts u) (parts c))"

lemma ancestor_antisym: "ancestor u v \<Longrightarrow> ancestor v u \<Longrightarrow> u = v"
  by (cases u; cases v) (auto simp: ancestor_def dest: prefix_order.antisym)

text \<open>A walk towards the root stops at the nearest directory that has what it looks for.\<close>

locale upward_walk =
  fixes walk :: "path \<Rightarrow> path option"
    and has :: "path \<Rightarrow> bool"
    and top :: path
  assumes walk_sound: "walk c = Some u \<Longrightarrow> ancestor u c \<and> has u"
    and walk_nearest: "walk c = Some u \<Longrightarrow> ancestor v c \<Longrightarrow> ancestor u v \<Longrightarrow> has v \<Longrightarrow> v = u"
    and walk_below: "walk c = Some u \<Longrightarrow> ancestor top c \<Longrightarrow> ancestor top u"
    and walk_complete: "walk c = None \<Longrightarrow> ancestor top v \<Longrightarrow> ancestor v c \<Longrightarrow> \<not> has v"
begin

lemma ancestor_linear: "ancestor u c \<Longrightarrow> ancestor v c \<Longrightarrow> ancestor u v \<or> ancestor v u"
  unfolding ancestor_def using prefix_same_cases by blast

lemma walk_Some_iff:
  assumes "ancestor top c"
  shows "walk c = Some u \<longleftrightarrow> ancestor top u \<and> ancestor u c \<and> has u \<and> (\<forall>v. ancestor v c \<and> ancestor u v \<and> has v \<longrightarrow> v = u)"
proof
  assume "walk c = Some u"
  then show "ancestor top u \<and> ancestor u c \<and> has u \<and> (\<forall>v. ancestor v c \<and> ancestor u v \<and> has v \<longrightarrow> v = u)"
    using walk_sound walk_nearest walk_below assms by blast
next
  assume u: "ancestor top u \<and> ancestor u c \<and> has u \<and> (\<forall>v. ancestor v c \<and> ancestor u v \<and> has v \<longrightarrow> v = u)"
  then obtain w where w: "walk c = Some w" using walk_complete by (cases "walk c") auto
  have wc: "ancestor w c" "has w" using walk_sound [OF w] by auto
  have "w = u"
  proof (cases "ancestor u w")
    case True
    then show ?thesis using u wc by blast
  next
    case False
    then have "ancestor w u" using ancestor_linear u wc by blast
    then show ?thesis using walk_nearest [OF w] u by blast
  qed
  with w show "walk c = Some u" by simp
qed

end

lemma prefix_butlast: "prefix v xs \<Longrightarrow> v = xs \<or> prefix v (butlast xs)"
  by (cases xs rule: rev_cases) auto

lemma ancestor_parent: "ancestor v c \<Longrightarrow> v = c \<or> ancestor v (path_parent c)"
  using prefix_butlast [of "parts v" "parts c"] by (cases v; cases c) (auto simp: ancestor_def path_parent_def)

lemma ancestor_parentD: "ancestor v (path_parent c) \<Longrightarrow> ancestor v c"
  by (auto simp: ancestor_def path_parent_def intro: prefix_order.trans [OF _ prefixeq_butlast])

lemma ancestor_self [simp]: "ancestor c c"
  by (simp add: ancestor_def)

interpretation up: upward_walk "find_up fs tg_root n" "\<lambda>c. path_exists fs (path_div c n)" tg_root for fs tg_root n
proof
  fix c u
  assume "find_up fs tg_root n c = Some u"
  then show "ancestor u c \<and> path_exists fs (path_div u n)"
  proof (induction fs tg_root n c rule: find_up.induct)
    case (1 fs tg_root n c)
    show ?case
      using "1.prems" "1.IH" ancestor_parentD unfolding find_up.simps [of fs tg_root n c] by (auto split: if_splits)
  qed
next
  fix c u v
  assume "find_up fs tg_root n c = Some u" "ancestor v c" "ancestor u v" "path_exists fs (path_div v n)"
  then show "v = u"
  proof (induction fs tg_root n c rule: find_up.induct)
    case (1 fs tg_root n c)
    show ?case
    proof (cases "path_exists fs (path_div c n)")
      case True
      then have "u = c" using "1.prems"(1) by (simp add: find_up.simps)
      then show ?thesis using "1.prems"(2,3) ancestor_antisym by blast
    next
      case False
      then have "v \<noteq> c" using "1.prems"(4) by auto
      then have "ancestor v (path_parent c)" using ancestor_parent [OF "1.prems"(2)] by blast
      moreover have "\<not> (c = tg_root \<or> path_parent c = c)" "find_up fs tg_root n (path_parent c) = Some u"
        using "1.prems"(1) False unfolding find_up.simps [of fs tg_root n c] by (auto split: if_splits)
      ultimately show ?thesis using "1.IH" [OF False] "1.prems"(3,4) by blast
    qed
  qed
next
  fix c u
  assume "find_up fs tg_root n c = Some u" "ancestor tg_root c"
  then show "ancestor tg_root u"
  proof (induction fs tg_root n c rule: find_up.induct)
    case (1 fs tg_root n c)
    then show ?case
      using ancestor_parent [of tg_root c] unfolding find_up.simps [of fs tg_root n c] by (auto split: if_splits)
  qed
next
  fix c v
  assume "find_up fs tg_root n c = None" "ancestor tg_root v" "ancestor v c"
  then show "\<not> path_exists fs (path_div v n)"
  proof (induction fs tg_root n c rule: find_up.induct)
    case (1 fs tg_root n c)
    have no: "\<not> path_exists fs (path_div c n)" using "1.prems"(1) by (auto simp: find_up.simps split: if_splits)
    show ?case
    proof (cases "v = c")
      case False
      then have v: "ancestor v (path_parent c)" using ancestor_parent [OF "1.prems"(3)] by blast
      have "c \<noteq> tg_root"
        using False "1.prems"(2,3) ancestor_antisym by blast
      moreover have "path_parent c \<noteq> c"
      proof
        assume e: "path_parent c = c"
        then have "parts c = []" by (cases c) (metis append_butlast_last_id list.distinct(1) path.sel(2) path_parent_def self_append_conv)
        then show False using "1.prems"(3) False by (cases v; cases c) (auto simp: ancestor_def)
      qed
      moreover have "find_up fs tg_root n (path_parent c) = None"
        using "1.prems"(1) no calculation unfolding find_up.simps [of fs tg_root n c] by simp
      ultimately show ?thesis using "1.IH" [OF no] "1.prems"(2) v by blast
    qed (use no in simp)
  qed
qed

section \<open>The units in scope\<close>

lemma filterM_Inr: "filterM f xs = Inr ys \<Longrightarrow> ys = filter (\<lambda>x. f x = Inr True) xs"
  by (induction xs arbitrary: ys) (auto simp: bindR_Inr_iff split: if_splits)

lemma filterM_mem: "filterM f xs = Inr ys \<Longrightarrow> x \<in> set ys \<longleftrightarrow> x \<in> set xs \<and> f x = Inr True"
  using filterM_Inr [of f xs ys] by auto

text \<open>A changed file reaches a unit: it lies in it, or it is a shared configuration outside every unit
  that the unit refers to.\<close>

definition reaches :: "(path, string) dict \<Rightarrow> path \<Rightarrow> path \<Rightarrow> path \<Rightarrow> bool" where
  "reaches fs tg_root f u = (detect_unit_dir fs f tg_root = Some u \<or>
     (detect_unit_dir fs f tg_root = None \<and> is_shared_parent_config f tg_root \<and>
      (\<exists>h \<in> set (rglob fs tg_root HCL). u = path_parent h \<and>
         (\<exists>refs. resolve_parent_config_references fs h tg_root = Inr refs \<and> resolved f \<in> set refs))))"

definition touched :: "(path, string) dict \<Rightarrow> path \<Rightarrow> path list \<Rightarrow> path \<Rightarrow> bool" where
  "touched fs tg_root changed u = (\<exists>f \<in> set changed. reaches fs tg_root f u)"

definition dependent :: "(path, string) dict \<Rightarrow> path \<Rightarrow> path list \<Rightarrow> path \<Rightarrow> bool" where
  "dependent fs tg_root changed u = (\<exists>h \<in> set (rglob fs tg_root HCL). u = path_parent h \<and>
     (\<exists>deps. parse_dependency_paths fs h = Inr deps \<and>
        (\<exists>raw \<in> set deps. \<exists>c. touched fs tg_root changed c \<and> resolved (path_div u raw) = resolved c)))"

lemma units_of_file_mem:
  assumes "units_of_file fs tg_root f = Inr us"
  shows "u \<in> set us \<longleftrightarrow> reaches fs tg_root f u"
proof (cases "detect_unit_dir fs f tg_root")
  case (Some v)
  then show ?thesis using assms by (auto simp: units_of_file_def reaches_def)
next
  case None
  show ?thesis
  proof (cases "is_shared_parent_config f tg_root")
    case True
    then obtain hs where hs: "filterM (\<lambda>h. bindR (resolve_parent_config_references fs h tg_root) (\<lambda>refs. Inr (resolved f \<in> set refs)))
        (rglob fs tg_root HCL) = Inr hs" "us = remdups (map path_parent hs)"
      using assms None by (auto simp: units_of_file_def find_units_affected_by_parent_config_def bindR_Inr_iff)
    show ?thesis using None True hs(2) filterM_mem [OF hs(1)] by (auto simp: reaches_def bindR_Inr_iff)
  next
    case False
    then show ?thesis using assms None by (simp add: units_of_file_def reaches_def)
  qed
qed

lemma mapM_mem:
  "mapM f xs = Inr yss \<Longrightarrow> u \<in> set (concat yss) \<longleftrightarrow> (\<exists>x \<in> set xs. \<exists>ys. f x = Inr ys \<and> u \<in> set ys)"
  by (induction xs arbitrary: yss) (auto simp: bindR_Inr_iff)

lemma mapM_defined: "mapM f xs = Inr yss \<Longrightarrow> x \<in> set xs \<Longrightarrow> \<exists>ys. f x = Inr ys"
  by (induction xs arbitrary: yss) (auto simp: bindR_Inr_iff)

lemma scope_units_exact:
  assumes "scope_units fs tg_root changed = Inr us"
  shows "distinct us \<and> (\<forall>u. u \<in> set us \<longleftrightarrow> touched fs tg_root changed u \<or> dependent fs tg_root changed u)"
proof -
  obtain uss where uss: "mapM (units_of_file fs tg_root) changed = Inr uss"
    using assms by (auto simp: scope_units_def bindR_Inr_iff)
  let ?c = "remdups (concat uss)"
  obtain hs where hs: "filterM (depends_on fs ?c) (rglob fs tg_root HCL) = Inr hs"
    "us = remdups (?c @ remdups (map path_parent hs))"
    using assms uss by (auto simp: scope_units_def find_dependent_units_def bindR_Inr_iff Let_def)
  have c: "u \<in> set ?c \<longleftrightarrow> touched fs tg_root changed u" for u
    using mapM_mem [OF uss, of u] mapM_defined [OF uss] units_of_file_mem
    by (auto simp: touched_def)
  have d: "h \<in> set hs \<longleftrightarrow> h \<in> set (rglob fs tg_root HCL) \<and> \<not> touched fs tg_root changed (path_parent h) \<and>
      (\<exists>deps. parse_dependency_paths fs h = Inr deps \<and>
        (\<exists>raw \<in> set deps. \<exists>c. touched fs tg_root changed c \<and> resolved (path_div (path_parent h) raw) = resolved c))" for h
    unfolding filterM_mem [OF hs(1)] depends_on_def Let_def c [symmetric] by (auto simp: bindR_Inr_iff list_ex_iff)
  have "u \<in> set us \<longleftrightarrow> touched fs tg_root changed u \<or> dependent fs tg_root changed u" for u
    unfolding hs(2) using c [of u] d by (auto simp: dependent_def)
  then show ?thesis using hs(2) by simp
qed

lemma flags_of_units: "us \<noteq> [] \<Longrightarrow> build_include_dir_flags us = Inr fl \<Longrightarrow> join '' '' fl = reassemble_flags (map path_str us)"
  by (auto simp: build_include_dir_flags_def reassemble_flags_def comp_def)

section \<open>Properties\<close>

text \<open>A changed file belongs to the nearest enclosing unit: for a file below the live tree root,
  the reported unit is the one ancestor directory within the root that has a \<open>terragrunt.hcl\<close>
  and below which no other on the way to the file has one; and when none is reported there is none.\<close>

theorem nearest_unit:
  assumes "ancestor tg_root c" "c = (if is_dir fs f then f else path_parent f)"
  shows "detect_unit_dir fs f tg_root = Some u \<longleftrightarrow>
     ancestor tg_root u \<and> ancestor u c \<and> path_exists fs (path_div u HCL) \<and>
     (\<forall>v. ancestor v c \<and> ancestor u v \<and> path_exists fs (path_div v HCL) \<longrightarrow> v = u)"
  unfolding detect_unit_dir_def assms(2) [symmetric] by (rule up.walk_Some_iff [OF assms(1)])

definition ex_tree :: "(path, string) dict" where
  "ex_tree = [(Path True [''r'', ''tg'', ''a'', HCL], []), (Path True [''r'', ''tg'', ''a'', ''b'', ''f''], []),
     (Path True [''r'', ''tg'', ''root.hcl''], []),
     (Path True [''r'', ''tg'', ''bootstrap'', ''d'', HCL], ''dependency'' @ [CHR '' '', CHR 0x22] @ ''a'' @ [CHR 0x22, CHR 0x7B] @ ''config_path='' @ [CHR 0x22] @ ''../../a'' @ [CHR 0x22, CHR 0x7D])]"

theorem nearest_unit_witness:
  "detect_unit_dir ex_tree (Path True [''r'', ''tg'', ''a'', ''b'', ''f'']) (Path True [''r'', ''tg'']) = Some (Path True [''r'', ''tg'', ''a''])"
proof -
  have "\<not> is_dir ex_tree (Path True [''r'', ''tg'', ''a'', ''b'', ''f''])" by code_simp
  then have c: "Path True [''r'', ''tg'', ''a'', ''b''] = (if is_dir ex_tree (Path True [''r'', ''tg'', ''a'', ''b'', ''f''])
      then Path True [''r'', ''tg'', ''a'', ''b'', ''f''] else path_parent (Path True [''r'', ''tg'', ''a'', ''b'', ''f'']))"
    by (simp add: path_parent_def)
  have t: "ancestor (Path True [''r'', ''tg'']) (Path True [''r'', ''tg'', ''a'', ''b''])" by (simp add: ancestor_def)
  have "path_exists ex_tree (path_div (Path True [''r'', ''tg'', ''a'']) HCL)" "\<not> path_exists ex_tree (path_div (Path True [''r'', ''tg'', ''a'', ''b'']) HCL)"
    by code_simp+
  moreover have "v = Path True [''r'', ''tg'', ''a''] \<or> v = Path True [''r'', ''tg'', ''a'', ''b'']"
    if "ancestor v (Path True [''r'', ''tg'', ''a'', ''b''])" "ancestor (Path True [''r'', ''tg'', ''a'']) v" for v
    using that by (cases v) (auto simp: ancestor_def prefix_Cons)
  ultimately show ?thesis
    unfolding nearest_unit [OF t c] by (auto simp: ancestor_def)
qed

lemma run_detect_start:
  assumes "run_detect runner base head tg_root out ex s = (Inr (), s')"
  obtains changed t us where "list_changed_files runner base head (path_parent tg_root) s = (Inr changed, t)"
    "files t = files s" "scope_units (files s) tg_root changed = Inr us"
proof -
  obtain changed t where c: "list_changed_files runner base head (path_parent tg_root) s = (Inr changed, t)"
    using assms by (auto simp: run_detect_def bindC_Inr_iff)
  have "preserves files (list_changed_files runner base head (path_parent tg_root))"
    unfolding list_changed_files_def run_git_diff_name_only_def by (intro preserves_intros)
  then have f: "files t = files s" using c preservesD by blast
  obtain us where "scope_units (files s) tg_root changed = Inr us"
    using assms c f by (auto simp: run_detect_def bindC_Inr_iff)
  with c f show thesis by (rule that)
qed

text \<open>The plan scope is exactly the affected units: if detection without bootstrap exclusion
  succeeds, the units it writes are, once each and in path order, those some changed file reaches
  and those that depend on such a unit; and it reports an empty scope only when every changed file
  was deleted.\<close>

theorem plan_scope_exact:
  assumes "run_detect runner base head tg_root out False s = (Inr (), s')"
  shows "\<exists>changed t units. list_changed_files runner base head (path_parent tg_root) s = (Inr changed, t) \<and>
     distinct units \<and> sorted (map path_str units) \<and>
     (\<forall>u. u \<in> set units \<longleftrightarrow> touched (files s) tg_root changed u \<or> dependent (files s) tg_root changed u) \<and>
     (if units = [] then (\<exists>deleted t'. list_deleted_files runner base head (path_parent tg_root) t = (Inr deleted, t') \<and>
          is_deletion_only_changeset changed deleted) \<and>
          output_text s' out = output_text s out @ output_lines [(''include_dir_flags'', []), (''has_units'', ''false'')]
      else output_text s' out = output_text s out @ output_lines [(''include_dir_flags'', reassemble_flags (map path_str units))])"
proof -
  obtain changed t us where c: "list_changed_files runner base head (path_parent tg_root) s = (Inr changed, t)"
    "files t = files s" "scope_units (files s) tg_root changed = Inr us" by (rule run_detect_start [OF assms])
  let ?u = "sort_key path_str us"
  have sc: "distinct ?u" "sorted (map path_str ?u)"
    "\<forall>u. u \<in> set ?u \<longleftrightarrow> touched (files s) tg_root changed u \<or> dependent (files s) tg_root changed u"
    using scope_units_exact [OF c(3)] by simp_all
  have o: "output_text t out = output_text s out" using c(2) by (simp add: output_text_def)
  have run: "bindC (if ?u = [] then bindC (list_deleted_files runner base head (path_parent tg_root)) (\<lambda>deleted_files.
                 ret (is_deletion_only_changeset changed deleted_files)) else ret False) (\<lambda>deletion_only.
        if deletion_only then write_outputs out [(''include_dir_flags'', []), (''has_units'', ''false'')]
        else bindC (lift (build_include_dir_flags ?u)) (\<lambda>flags. write_output out ''include_dir_flags'' (join '' '' flags))) t = (Inr (), s')"
    using assms c unfolding run_detect_def by (simp add: bindC_def [of "list_changed_files _ _ _ _"] bindC_def [of get_files] bindC_def [of "lift (scope_units _ _ _)"] Let_def)
  have "if ?u = [] then (\<exists>deleted t'. list_deleted_files runner base head (path_parent tg_root) t = (Inr deleted, t') \<and>
          is_deletion_only_changeset changed deleted) \<and>
          output_text s' out = output_text s out @ output_lines [(''include_dir_flags'', []), (''has_units'', ''false'')]
      else output_text s' out = output_text s out @ output_lines [(''include_dir_flags'', reassemble_flags (map path_str ?u))]"
  proof (cases "?u = []")
    case True
    obtain deleted t' where d: "list_deleted_files runner base head (path_parent tg_root) t = (Inr deleted, t')"
      and w: "(if is_deletion_only_changeset changed deleted then write_outputs out [(''include_dir_flags'', []), (''has_units'', ''false'')]
        else bindC (lift (build_include_dir_flags ?u)) (\<lambda>flags. write_output out ''include_dir_flags'' (join '' '' flags))) t' = (Inr (), s')"
      using run True by (auto simp: bindC_Inr_iff)
    have del: "is_deletion_only_changeset changed deleted"
      using w True by (auto simp: build_include_dir_flags_def bindC_def split: if_splits)
    have "preserves files (list_deleted_files runner base head (path_parent tg_root))"
      unfolding list_deleted_files_def run_git_diff_name_only_def by (intro preserves_intros)
    then have "output_text t' out = output_text s out" using d c(2) preservesD by (fastforce simp: output_text_def)
    then show ?thesis using True d del write_outputs_text [of out _ t' s'] w by simp
  next
    case False
    then obtain fl where fl: "build_include_dir_flags ?u = Inr fl" by (simp add: build_include_dir_flags_def)
    have "write_outputs out [(''include_dir_flags'', join '' '' fl)] t = (Inr (), s')"
      using run False fl by (simp add: thenC_def bindC_def split: prod.splits sum.splits)
    then show ?thesis
      using False o flags_of_units [OF False fl] write_outputs_text by fastforce
  qed
  with c(1) sc show ?thesis by blast
qed

text \<open>C5. The apply scope leaves bootstrap units to the operator: with bootstrap exclusion the units
  written are exactly the affected units that are not bootstrap units, and when none remains the run
  succeeds with an empty scope and \<open>has_units=false\<close>.\<close>

theorem apply_scope_exact:
  assumes "run_detect runner base head tg_root out True s = (Inr (), s')"
  shows "\<exists>changed t units. list_changed_files runner base head (path_parent tg_root) s = (Inr changed, t) \<and>
     distinct units \<and> sorted (map path_str units) \<and>
     (\<forall>u. u \<in> set units \<longleftrightarrow>
        (touched (files s) tg_root changed u \<or> dependent (files s) tg_root changed u) \<and> \<not> is_bootstrap_unit u) \<and>
     output_text s' out = output_text s out @ output_lines
       (if units = [] then [(''include_dir_flags'', []), (''has_units'', ''false'')]
        else [(''include_dir_flags'', reassemble_flags (map path_str units)), (''has_units'', ''true'')])"
proof -
  obtain changed t us where c: "list_changed_files runner base head (path_parent tg_root) s = (Inr changed, t)"
    "files t = files s" "scope_units (files s) tg_root changed = Inr us" by (rule run_detect_start [OF assms])
  let ?u = "sort_key path_str (filter (\<lambda>u. \<not> is_bootstrap_unit u) us)"
  have sc: "distinct ?u" "sorted (map path_str ?u)"
    "\<forall>u. u \<in> set ?u \<longleftrightarrow> (touched (files s) tg_root changed u \<or> dependent (files s) tg_root changed u) \<and> \<not> is_bootstrap_unit u"
    using scope_units_exact [OF c(3)] by auto
  have run: "(if ?u = [] then write_outputs out [(''include_dir_flags'', []), (''has_units'', ''false'')]
        else bindC (lift (build_include_dir_flags ?u)) (\<lambda>flags.
          write_outputs out [(''include_dir_flags'', join '' '' flags), (''has_units'', ''true'')])) t = (Inr (), s')"
    using assms c unfolding run_detect_def
    by (simp add: bindC_def [of "list_changed_files _ _ _ _"] bindC_def [of get_files] bindC_def [of "lift (scope_units _ _ _)"] Let_def)
  have o: "output_text t out = output_text s out" using c(2) by (simp add: output_text_def)
  have "output_text s' out = output_text s out @ output_lines
       (if ?u = [] then [(''include_dir_flags'', []), (''has_units'', ''false'')]
        else [(''include_dir_flags'', reassemble_flags (map path_str ?u)), (''has_units'', ''true'')])"
  proof (cases "?u = []")
    case True
    then show ?thesis using run o write_outputs_text [of out _ t s'] by simp
  next
    case False
    then obtain fl where fl: "build_include_dir_flags ?u = Inr fl" by (simp add: build_include_dir_flags_def)
    have "write_outputs out [(''include_dir_flags'', join '' '' fl), (''has_units'', ''true'')] t = (Inr (), s')"
      using run False fl by (simp add: bindC_def)
    then show ?thesis using False o flags_of_units [OF False fl] write_outputs_text by fastforce
  qed
  with c(1) sc show ?thesis by blast
qed

text \<open>An empty plan scope fails closed: when no unit is affected and some changed file was not
  deleted, detection raises the empty-scope error and writes nothing.\<close>

theorem empty_plan_scope_fails:
  assumes "list_changed_files runner base head (path_parent tg_root) s = (Inr changed, t)"
    and "scope_units (files s) tg_root changed = Inr []"
    and "list_deleted_files runner base head (path_parent tg_root) t = (Inr deleted, t')"
    and "changed = [] \<or> (\<exists>f \<in> set changed. f \<notin> set deleted)"
  shows "run_detect runner base head tg_root out False s = (Inl EmptyUnitScopeError, t') \<and> files t' = files s"
proof -
  have "\<not> is_deletion_only_changeset changed deleted" using assms(4) by (auto simp: is_deletion_only_changeset_def)
  moreover have "preserves files (list_changed_files runner base head (path_parent tg_root))"
    "preserves files (list_deleted_files runner base head (path_parent tg_root))"
    unfolding list_changed_files_def list_deleted_files_def run_git_diff_name_only_def by (intro preserves_intros)+
  then have "files t = files s" "files t' = files t" using assms(1,3) preservesD by metis+
  ultimately show ?thesis
    using assms(1-3) by (simp add: run_detect_def bindC_def build_include_dir_flags_def)
qed

definition ex_git :: "string \<Rightarrow> unit runner" where
  "ex_git changed c w = (Some \<lparr>returncode = 0, stdout = (if ''--diff-filter=D'' \<in> set (argv c) then [] else changed), stderr = []\<rparr>, w)"

definition ex_tree_state :: "unit ci_state" where
  "ex_tree_state = \<lparr>world = (), cmds = [], environ = [], files = ex_tree, readonly = [], printed = []\<rparr>"

theorem plan_scope_exact_witness:
  "\<exists>changed t units. list_changed_files (ex_git ''tg/a/b/f'') ''m'' ''h'' (Path True [''r'']) ex_tree_state = (Inr changed, t) \<and>
     distinct units \<and> sorted (map path_str units)"
proof -
  let ?m = "run_detect (ex_git ''tg/a/b/f'') ''m'' ''h'' (Path True [''r'', ''tg'']) ''o'' False ex_tree_state"
  have "fst ?m = Inr ()" by code_simp
  then have "?m = (Inr (), snd ?m)" by (metis prod.collapse)
  from plan_scope_exact [OF this] show ?thesis by (simp add: path_parent_def) blast
qed

theorem apply_scope_exact_witness:
  "\<exists>changed t units. list_changed_files (ex_git ''tg/a/b/f'') ''m'' ''h'' (Path True [''r'']) ex_tree_state = (Inr changed, t) \<and>
     distinct units \<and> list_all (\<lambda>u. \<not> is_bootstrap_unit u) units"
proof -
  let ?m = "run_detect (ex_git ''tg/a/b/f'') ''m'' ''h'' (Path True [''r'', ''tg'']) ''o'' True ex_tree_state"
  have "fst ?m = Inr ()" by code_simp
  then have "?m = (Inr (), snd ?m)" by (metis prod.collapse)
  from apply_scope_exact [OF this] show ?thesis by (simp add: path_parent_def list_all_iff) blast
qed

theorem empty_plan_scope_fails_witness:
  "fst (run_detect (ex_git ''README.md'') ''m'' ''h'' (Path True [''r'', ''tg'']) ''o'' False ex_tree_state) = Inl EmptyUnitScopeError"
proof -
  let ?g = "ex_git ''README.md''" and ?r = "path_parent (Path True [''r'', ''tg''])"
  let ?c = "list_changed_files ?g ''m'' ''h'' ?r ex_tree_state"
  let ?d = "list_deleted_files ?g ''m'' ''h'' ?r (snd ?c)"
  have "fst ?c = Inr [Path True [''r'', ''README.md'']]" "fst ?d = Inr []"
    "scope_units (files ex_tree_state) (Path True [''r'', ''tg'']) [Path True [''r'', ''README.md'']] = Inr []" by code_simp+
  then show ?thesis
    using empty_plan_scope_fails [of ?g "''m''" "''h''" "Path True [''r'', ''tg'']" ex_tree_state _ "snd ?c" _ "snd ?d" "''o''"]
    by (metis fst_conv list.set_intros(1) list.set(1) empty_iff prod.collapse)
qed

end
