(* ===== verification/Split.thy ===== *)
theory Split
  imports Accounts "HOL-Library.Multiset"
begin

text \<open>
  The Firehose transform of the data lake,
  \<open>providers/aws/references/data-lake/lambda/cwl_split/index.py\<close>: it splits a compressed
  CloudWatch Logs delivery into single events, reshapes structured records and metric events into
  the lake's flat envelope and re-ingests them.

  Bytes are strings of code points below 256. \<open>gunzip\<close> stands for \<open>gzip.decompress\<close> together with
  the UTF-8 decoding \<open>json.loads\<close> applies to its result; \<open>epoch_iso n d\<close> for
  \<open>datetime.fromtimestamp(n / d, tz=UTC).isoformat().replace("+00:00", "Z")\<close>, which may raise;
  \<open>now_iso\<close> for the current time; \<open>put\<close> for the client's \<open>put_record_batch\<close>. The state keeps every
  batch handed to \<open>put\<close>, in order. A float keeps the literal it was read from and prints as it.

  The lemmas show that the handler answers one status per record and never fails on a message, that
  nothing it reports as dropped is missing from the stream, and what each kind of message becomes.
\<close>

section \<open>Configuration and bytes\<close>

record split_ctx =
  stream_name :: string
  max_attempts :: int
  service_tool_map :: json
  epoch_iso :: "int \<Rightarrow> int \<Rightarrow> exn + string"
  now_iso :: string

definition PUT_RECORD_BATCH_MAX :: nat where "PUT_RECORD_BATCH_MAX = 500"

definition load_ctx :: "(string, string) dict \<Rightarrow> (int \<Rightarrow> int \<Rightarrow> exn + string) \<Rightarrow> string \<Rightarrow> exn + split_ctx" where
  "load_ctx env iso_text now = (case map_of env ''DELIVERY_STREAM_NAME'' of
      None \<Rightarrow> Inl KeyError
    | Some stream \<Rightarrow> (case py_int (the_default ''5'' (map_of env ''REINGEST_MAX_ATTEMPTS'')) of
          None \<Rightarrow> Inl ValueError
        | Some n \<Rightarrow> bindR (json_loads (the_default [CHR 0x7B, CHR 0x7D] (map_of env ''SERVICE_TOOL_MAP''))) (\<lambda>m.
            Inr \<lparr>stream_name = stream, max_attempts = n, service_tool_map = m, epoch_iso = iso_text, now_iso = now\<rparr>)))"

text \<open>\<open>base64.b64decode\<close>: characters outside the alphabet are skipped, padding that completes a
  quantum ends the input, an incomplete quantum is an error.\<close>

definition b64_val :: "char \<Rightarrow> nat option" where
  "b64_val c = (let n = (of_char c :: nat) in
     if 65 \<le> n \<and> n \<le> 90 then Some (n - 65) else if 97 \<le> n \<and> n \<le> 122 then Some (n - 71)
     else if 48 \<le> n \<and> n \<le> 57 then Some (n + 4) else if n = 43 then Some 62 else if n = 47 then Some 63 else None)"

fun b64_loop :: "nat \<Rightarrow> nat \<Rightarrow> nat \<Rightarrow> string \<Rightarrow> exn + string" where
  "b64_loop quad_pos left pads [] = (if quad_pos = 0 then Inr [] else Inl ValueError)"
| "b64_loop quad_pos left pads (c # s) =
     (if c = CHR ''='' then
        (if 2 \<le> quad_pos then (if 4 \<le> quad_pos + Suc pads then Inr [] else b64_loop quad_pos left (Suc pads) s)
         else b64_loop quad_pos left pads s)
      else (case b64_val c of
          None \<Rightarrow> b64_loop quad_pos left pads s
        | Some v \<Rightarrow>
            if quad_pos = 0 then b64_loop 1 v 0 s
            else if quad_pos = 1 then bindR (b64_loop 2 (v mod 16) 0 s) (\<lambda>r. Inr (char_of (left * 4 + v div 16) # r))
            else if quad_pos = 2 then bindR (b64_loop 3 (v mod 4) 0 s) (\<lambda>r. Inr (char_of (left * 16 + v div 4) # r))
            else bindR (b64_loop 0 0 0 s) (\<lambda>r. Inr (char_of (left * 64 + v) # r))))"

definition b64decode :: "json \<Rightarrow> exn + string" where
  "b64decode v = (case v of JStr s \<Rightarrow> b64_loop 0 0 0 s | _ \<Rightarrow> Inl TypeError)"

definition is_gzip :: "string \<Rightarrow> bool" where
  "is_gzip d = (take 2 d = [CHR 0x1F, CHR 0x8B])"

section \<open>Reshaping structured records\<close>

text \<open>A key of the list form that is not a string makes the record fail here; Python fails on it at
  the latest when the key is normalised, and the handler treats every exception of a record alike.\<close>

definition kv_item :: "json \<Rightarrow> exn + (string \<times> json) option" where
  "kv_item item = (case item of
      JObj kvs \<Rightarrow> (case map_of kvs ''key'' of
          None \<Rightarrow> Inr None
        | Some k \<Rightarrow> (case k of
              JStr n \<Rightarrow> Inr (Some (n, (case map_of kvs ''value'' of
                  Some (JObj ((a, b) # _)) \<Rightarrow> b | Some raw \<Rightarrow> raw | None \<Rightarrow> JNull)))
            | _ \<Rightarrow> Inl TypeError))
    | _ \<Rightarrow> Inr None)"

definition to_map :: "json \<Rightarrow> exn + (string, json) dict" where
  "to_map v = (case v of
      JObj kvs \<Rightarrow> Inr kvs
    | JList xs \<Rightarrow> bindR (mapM kv_item xs) (\<lambda>its.
        Inr (fold (\<lambda>(k, x) d. AList.update k x d) (List.map_filter id its) []))
    | _ \<Rightarrow> Inr [])"

definition norm_key :: "string \<Rightarrow> string" where
  "norm_key key = replace_char (CHR ''.'') (CHR ''_'') key"

definition dict_get :: "(string, json) dict \<Rightarrow> string \<Rightarrow> json" where
  "dict_get d k = the_default JNull (map_of d k)"

text \<open>\<open>isinstance(raw, (str, int, float))\<close> and \<open>int(raw)\<close>; \<open>None\<close> when the type does not fit.\<close>

definition int_of_json :: "json \<Rightarrow> (exn + int) option" where
  "int_of_json v = (case v of
      JInt i \<Rightarrow> Some (Inr i)
    | JBool b \<Rightarrow> Some (Inr (if b then 1 else 0))
    | JStr t \<Rightarrow> Some (case py_int t of None \<Rightarrow> Inl ValueError | Some i \<Rightarrow> Inr i)
    | JFloat l \<Rightarrow> Some (case float_of_str l of
          Some (Fin q) \<Rightarrow> Inr (to_zero q) | Some PosInf \<Rightarrow> Inl OtherError | Some NegInf \<Rightarrow> Inl OtherError | _ \<Rightarrow> Inl ValueError)
    | _ \<Rightarrow> None)"

fun record_timestamp_iso :: "split_ctx \<Rightarrow> (string, json) dict \<Rightarrow> string list \<Rightarrow> exn + string option" where
  "record_timestamp_iso ctx obj [] = Inr None"
| "record_timestamp_iso ctx obj (key # keys) = (case int_of_json (dict_get obj key) of
      None \<Rightarrow> record_timestamp_iso ctx obj keys
    | Some (Inl e) \<Rightarrow> if is_value_error e then record_timestamp_iso ctx obj keys else Inl e
    | Some (Inr nanos) \<Rightarrow> bindR (epoch_iso ctx nanos 1000000000) (\<lambda>t. Inr (Some t)))"

definition TIMESTAMP_KEYS :: "string list" where
  "TIMESTAMP_KEYS = [''timeUnixNano'', ''observedTimeUnixNano'', ''time_unix_nano'', ''time'']"

definition event_time :: "split_ctx \<Rightarrow> (string, json) dict \<Rightarrow> (string, json) dict \<Rightarrow> exn + string" where
  "event_time ctx attrs obj =
     (let t = dict_get attrs ''event.timestamp'' in
      if truthy t then Inr (py_str t)
      else bindR (record_timestamp_iso ctx obj TIMESTAMP_KEYS) (\<lambda>r.
        Inr (case r of Some x \<Rightarrow> if x \<noteq> [] then x else now_iso ctx | None \<Rightarrow> now_iso ctx)))"

definition scope_fields :: "(string, json) dict \<Rightarrow> (string, json) dict \<Rightarrow> (string, json) dict" where
  "scope_fields obj payload =
     (let scp = (if truthy (dict_get obj ''scope'') then dict_get obj ''scope'' else dict_get obj ''instrumentationScope'') in
      case scp of
        JObj sc \<Rightarrow>
          (let p1 = (if dict_get sc ''name'' \<noteq> JNull then AList.update ''otel_scope_name'' (dict_get sc ''name'') payload else payload)
           in if dict_get sc ''version'' \<noteq> JNull then AList.update ''otel_scope_version'' (dict_get sc ''version'') p1 else p1)
      | _ \<Rightarrow> payload)"

definition claude_payload :: "(string, json) dict \<Rightarrow> (string, json) dict \<Rightarrow> (string, json) dict \<Rightarrow> string \<Rightarrow> (string, json) dict" where
  "claude_payload obj attrs resource body =
     (let p1 = fold (\<lambda>(k, v) d. AList.update (norm_key k) v d) attrs [];
          p2 = fold (\<lambda>(k, v) d. AList.update (''resource_'' @ norm_key k) v d) resource p1
      in scope_fields obj (AList.update ''otel_body'' (JStr body) p2))"

definition canonical_row :: "string \<Rightarrow> json \<Rightarrow> string \<Rightarrow> (string, json) dict \<Rightarrow> string" where
  "canonical_row timestamp tool event_type payload =
     utf8 (dumps compact_opts (JObj [(''timestamp'', JStr timestamp), (''tool'', tool), (''event_type'', JStr event_type),
       (''payload'', JStr (dumps compact_opts (JObj payload)))]))"

definition event_name :: "(string, json) dict \<Rightarrow> string \<Rightarrow> string" where
  "event_name attrs body =
     (let n = dict_get attrs ''event.name'' in
      if truthy n then py_str n else if body \<noteq> [] then body else ''unknown'')"

definition reshape_claude :: "split_ctx \<Rightarrow> (string, json) dict \<Rightarrow> string \<Rightarrow> exn + string" where
  "reshape_claude ctx obj body =
     bindR (to_map (dict_get obj ''attributes'')) (\<lambda>attrs.
     bindR (to_map (dict_get obj ''resource'')) (\<lambda>resource.
     bindR (json_index (service_tool_map ctx) (py_str (the_default (JStr []) (map_of resource ''service.name'')))) (\<lambda>tool.
     bindR (event_time ctx attrs obj) (\<lambda>timestamp.
       Inr (canonical_row timestamp tool (event_name attrs body) (claude_payload obj attrs resource body))))))"

section \<open>Reshaping metric events\<close>

definition EMF_RESOURCE_KEYS :: "string list" where
  "EMF_RESOURCE_KEYS = [''service.name'', ''service.version'', ''host.arch'', ''host.name'', ''os.type'', ''os.version'', ''os.description'']"

definition is_emf_resource_key :: "string \<Rightarrow> bool" where
  "is_emf_resource_key key = (key \<in> set EMF_RESOURCE_KEYS \<or> startswith key ''telemetry.sdk.'')"

definition emf_timestamp_iso :: "split_ctx \<Rightarrow> (string, json) dict \<Rightarrow> exn + string" where
  "emf_timestamp_iso ctx aws_block = (case int_of_json (dict_get aws_block ''Timestamp'') of
      None \<Rightarrow> Inr (now_iso ctx)
    | Some (Inl e) \<Rightarrow> if is_value_error e then Inr (now_iso ctx) else Inl e
    | Some (Inr millis) \<Rightarrow> epoch_iso ctx millis 1000)"

text \<open>Iterating over \<open>v or []\<close>.\<close>

definition iter_or_empty :: "json \<Rightarrow> exn + json list" where
  "iter_or_empty v = (if truthy v then json_iter v else Inr [])"

definition metric_name :: "json \<Rightarrow> (string \<times> (string, json) dict) option" where
  "metric_name metric = (case metric of
      JObj m \<Rightarrow> (case dict_get m ''Name'' of JStr n \<Rightarrow> if n \<noteq> [] then Some (n, m) else None | _ \<Rightarrow> None)
    | _ \<Rightarrow> None)"

definition metric_decls :: "(string, json) dict \<Rightarrow> exn + (string \<times> (string, json) dict) list" where
  "metric_decls aws_map =
     bindR (iter_or_empty (dict_get aws_map ''CloudWatchMetrics'')) (\<lambda>sets.
     bindR (mapM (\<lambda>cw. case cw of
         JObj c \<Rightarrow> bindR (iter_or_empty (dict_get c ''Metrics'')) (\<lambda>ms. Inr (List.map_filter metric_name ms))
       | _ \<Rightarrow> Inr []) sets) (\<lambda>dss. Inr (concat dss)))"

definition metric_by_name :: "(string \<times> (string, json) dict) list \<Rightarrow> (string, (string, json) dict) dict" where
  "metric_by_name decls = fold (\<lambda>(n, m) d. setdefault n m d) decls []"

definition emf_key :: "string \<Rightarrow> string" where
  "emf_key key = (if is_emf_resource_key key then ''resource_'' @ norm_key key else norm_key key)"

definition emf_base :: "(string, json) dict \<Rightarrow> string list \<Rightarrow> (string, json) dict" where
  "emf_base obj metric_names =
     (let base = fold (\<lambda>(k, v) d. AList.update (emf_key k) v d)
            (filter (\<lambda>(k, v). k \<notin> set [''_aws'', ''OTelLib'', ''Version''] \<and> k \<notin> set metric_names) obj) []
      in if dict_get obj ''OTelLib'' \<noteq> JNull then AList.update ''otel_scope_name'' (dict_get obj ''OTelLib'') base else base)"

definition emf_payload :: "(string, json) dict \<Rightarrow> (string, json) dict \<Rightarrow> string \<Rightarrow> (string, json) dict \<Rightarrow> (string, json) dict" where
  "emf_payload obj base name metric =
     AList.update ''otel_signal'' (JStr ''metric'') (AList.update ''metric_type'' (JStr ''SUM'')
       (AList.update ''unit'' (dict_get metric ''Unit'') (AList.update ''value'' (dict_get obj name) base)))"

definition reshape_emf :: "split_ctx \<Rightarrow> (string, json) dict \<Rightarrow> exn + string list" where
  "reshape_emf ctx obj =
     (let aws_map = (case dict_get obj ''_aws'' of JObj a \<Rightarrow> a | _ \<Rightarrow> []) in
      bindR (emf_timestamp_iso ctx aws_map) (\<lambda>timestamp.
      bindR (metric_decls aws_map) (\<lambda>decls.
      let metrics = metric_by_name decls; base = emf_base obj (dict_keys metrics) in
      bindR (json_index (service_tool_map ctx) (py_str (the_default (JStr []) (map_of obj ''service.name'')))) (\<lambda>tool.
        Inr (map (\<lambda>(name, metric). canonical_row timestamp tool name (emf_payload obj base name metric)) metrics)))))"

section \<open>Classifying a message\<close>

definition reshape_message :: "split_ctx \<Rightarrow> string \<Rightarrow> exn + string" where
  "reshape_message ctx message = (case loads message of
      Some (JObj obj) \<Rightarrow>
        (if map_of obj ''tool'' \<noteq> None then Inr (utf8 message)
         else (case dict_get obj ''body'' of
             JStr body \<Rightarrow>
               if (is_dict (dict_get obj ''resource'') \<or> is_list (dict_get obj ''resource'')) \<and>
                  (is_dict (dict_get obj ''attributes'') \<or> is_list (dict_get obj ''attributes''))
               then reshape_claude ctx obj body else Inr (utf8 message)
           | _ \<Rightarrow> Inr (utf8 message)))
    | _ \<Rightarrow> Inr (utf8 message))"

definition is_emf_event :: "(string, json) dict \<Rightarrow> bool" where
  "is_emf_event obj = (map_of obj ''tool'' = None \<and>
     (case dict_get obj ''_aws'' of JObj a \<Rightarrow> is_list (dict_get a ''CloudWatchMetrics'') | _ \<Rightarrow> False))"

definition reshape_records :: "split_ctx \<Rightarrow> string \<Rightarrow> exn + string list" where
  "reshape_records ctx message = (case loads message of
      Some (JObj obj) \<Rightarrow> if is_emf_event obj then reshape_emf ctx obj
        else bindR (reshape_message ctx message) (\<lambda>r. Inr [r])
    | _ \<Rightarrow> bindR (reshape_message ctx message) (\<lambda>r. Inr [r]))"

section \<open>Re-ingestion\<close>

datatype put_answer = Put_Response json | Put_Raises exn

record 'v fh =
  fh_world :: 'v
  batches :: "string list list"

type_synonym 'v firehose = "string \<Rightarrow> string list \<Rightarrow> 'v \<Rightarrow> put_answer \<times> 'v"

definition put_record_batch :: "'v firehose \<Rightarrow> string \<Rightarrow> string list \<Rightarrow> ('v fh, json) ci" where
  "put_record_batch put stream recs = (\<lambda>s.
     let (a, v) = put stream recs (fh_world (world s))
     in (case a of Put_Raises e \<Rightarrow> Inl e | Put_Response r \<Rightarrow> Inr r,
         s\<lparr>world := \<lparr>fh_world = v, batches = batches (world s) @ [recs]\<rparr>\<rparr>))"

fun pick_failed :: "json list \<Rightarrow> string list \<Rightarrow> exn + string list" where
  "pick_failed [] pending = Inr []"
| "pick_failed (res # rs) pending =
     bindR (json_get res ''ErrorCode'') (\<lambda>code.
     bindR (if truthy code then (case pending of [] \<Rightarrow> Inl IndexError | p # _ \<Rightarrow> Inr [p]) else Inr []) (\<lambda>f.
     bindR (pick_failed rs (drop 1 pending)) (\<lambda>fs. Inr (f @ fs))))"

definition failed_records :: "json \<Rightarrow> string list \<Rightarrow> exn + string list" where
  "failed_records response pending =
     bindR (json_index response ''RequestResponses'') (\<lambda>rr. bindR (json_iter rr) (\<lambda>results. pick_failed results pending))"

text \<open>The retry loop, \<open>n\<close> attempts left.\<close>

fun put_attempts :: "'v firehose \<Rightarrow> string \<Rightarrow> nat \<Rightarrow> string list \<Rightarrow> ('v fh, unit) ci" where
  "put_attempts put stream 0 pending = ret ()"
| "put_attempts put stream (Suc n) pending =
     bindC (put_record_batch put stream pending) (\<lambda>response.
     bindC (lift (json_get_default response ''FailedPutCount'' (JInt 0))) (\<lambda>failed.
     if py_eq failed (JInt 0) then ret ()
     else bindC (lift (failed_records response pending)) (\<lambda>still.
       if n = 0 then raise RuntimeError else put_attempts put stream n still)))"

function chunks :: "nat \<Rightarrow> 'a list \<Rightarrow> 'a list list" where
  "chunks k xs = (if xs = [] \<or> k = 0 then [] else take k xs # chunks k (drop k xs))"
  by pat_completeness auto
termination
  by (relation "measure (\<lambda>(k, xs). length xs)") auto

declare chunks.simps [simp del]

fun put_chunks :: "'v firehose \<Rightarrow> split_ctx \<Rightarrow> string list list \<Rightarrow> ('v fh, unit) ci" where
  "put_chunks put ctx [] = ret ()"
| "put_chunks put ctx (c # cs) =
     thenC (put_attempts put (stream_name ctx) (nat (max_attempts ctx)) c) (put_chunks put ctx cs)"

definition reingest :: "'v firehose \<Rightarrow> split_ctx \<Rightarrow> string list \<Rightarrow> ('v fh, unit) ci" where
  "reingest put ctx records = put_chunks put ctx (chunks PUT_RECORD_BATCH_MAX records)"

section \<open>The handler\<close>

text \<open>The name printed when a record cannot be reshaped.\<close>

definition diagnostic_service_name :: "string \<Rightarrow> string" where
  "diagnostic_service_name message = (case loads message of
      Some (JObj obj) \<Rightarrow>
        (case dict_get obj ''resource'' of
           JObj r \<Rightarrow> (case map_of r ''service.name'' of Some v \<Rightarrow> py_str v
             | None \<Rightarrow> (case map_of obj ''service.name'' of Some v \<Rightarrow> py_str v | None \<Rightarrow> ''unknown''))
         | _ \<Rightarrow> (case map_of obj ''service.name'' of Some v \<Rightarrow> py_str v | None \<Rightarrow> ''unknown''))
    | _ \<Rightarrow> ''unknown'')"

definition events_of_message :: "split_ctx \<Rightarrow> string \<Rightarrow> string list" where
  "events_of_message ctx message = (case reshape_records ctx message of
      Inr rows \<Rightarrow> rows | Inl e \<Rightarrow> [utf8 message])"

definition log_message :: "json \<Rightarrow> exn + string" where
  "log_message log_event = bindR (json_get_default log_event ''message'' (JStr [])) (\<lambda>m. Inr (py_str m))"

definition envelope_events :: "split_ctx \<Rightarrow> json \<Rightarrow> exn + string list" where
  "envelope_events ctx envelope =
     bindR (json_get_default envelope ''logEvents'' (JList [])) (\<lambda>les.
     bindR (json_iter les) (\<lambda>ls.
     bindR (mapM log_message ls) (\<lambda>messages. Inr (concat (map (events_of_message ctx) messages)))))"

datatype transform_result = Ok json | Dropped | ProcessingFailed

definition handle_record :: "'v firehose \<Rightarrow> (string \<Rightarrow> exn + string) \<Rightarrow> split_ctx \<Rightarrow> json \<Rightarrow> ('v fh, json \<times> transform_result) ci" where
  "handle_record put gunzip ctx rec =
     bindC (lift (json_index rec ''recordId'')) (\<lambda>record_id.
     bindC (lift (json_index rec ''data'')) (\<lambda>raw.
     bindC (lift (b64decode raw)) (\<lambda>d.
     if \<not> is_gzip d then ret (record_id, Ok raw)
     else bindC (lift (bindR (gunzip d) json_loads)) (\<lambda>envelope.
       bindC (lift (json_get envelope ''messageType'')) (\<lambda>mt.
       if mt = JStr ''CONTROL_MESSAGE'' then ret (record_id, Dropped)
       else bindC (lift (envelope_events ctx envelope)) (\<lambda>events.
         try_except (thenC (if events \<noteq> [] then reingest put ctx events else ret ()) (ret (record_id, Dropped)))
           is_exception (ret (record_id, ProcessingFailed))))))))"

definition handler :: "'v firehose \<Rightarrow> (string \<Rightarrow> exn + string) \<Rightarrow> split_ctx \<Rightarrow> json \<Rightarrow> ('v fh, (json \<times> transform_result) list) ci" where
  "handler put gunzip ctx event =
     bindC (lift (json_index event ''records'')) (\<lambda>rs.
     bindC (lift (json_iter rs)) (\<lambda>records. mapC (handle_record put gunzip ctx) records))"

section \<open>Bytes\<close>

lemma utf8_Cons [simp]: "utf8 (c # s) = utf8_char c @ utf8 s" and utf8_Nil [simp]: "utf8 [] = []"
  by (simp_all add: utf8_def)

lemma utf8_char_not_Nil [simp]: "utf8_char c \<noteq> []"
  by (simp add: utf8_char_def Let_def)

lemma of_char_char_of_small: "n < 256 \<Longrightarrow> (of_char (char_of n :: char) :: nat) = n"
  by simp

lemma utf8_char_lead: "utf8_char c = x # xs \<Longrightarrow> (of_char x < (128 :: nat) \<longleftrightarrow> of_char c < (128 :: nat)) \<and> length xs = (if of_char c < (128 :: nat) then 0 else 1)"
proof -
  have "(of_char c :: nat) div 64 < 4" using nat_of_char_less_256 [of c] by (simp add: less_mult_imp_div_less del: nat_of_char_less_256)
  then have "(of_char (char_of (192 + of_char c div 64 :: nat) :: char) :: nat) = 192 + of_char c div 64" by simp
  then show "utf8_char c = x # xs \<Longrightarrow> ?thesis" by (auto simp: utf8_char_def Let_def split: if_splits)
qed

lemma utf8_char_inj: "utf8_char c = utf8_char d \<Longrightarrow> c = d"
proof -
  assume e: "utf8_char c = utf8_char d"
  show ?thesis
  proof (cases "of_char c < (128 :: nat)")
    case True
    then show ?thesis using e by (auto simp: utf8_char_def Let_def split: if_splits)
  next
    case False
    then have d: "\<not> of_char d < (128 :: nat)" using e by (auto simp: utf8_char_def Let_def split: if_splits)
    let ?c = "of_char c :: nat" and ?d = "of_char d :: nat"
    have b: "?c div 64 < 4" "?d div 64 < 4" using nat_of_char_less_256 [of c] nat_of_char_less_256 [of d]
      by (simp_all add: less_mult_imp_div_less del: nat_of_char_less_256)
    have "char_of (192 + ?c div 64) = (char_of (192 + ?d div 64) :: char)" "char_of (128 + ?c mod 64) = (char_of (128 + ?d mod 64) :: char)"
      using e False d by (simp_all add: utf8_char_def Let_def)
    then have "(of_char (char_of (192 + ?c div 64) :: char) :: nat) = of_char (char_of (192 + ?d div 64) :: char)"
      "(of_char (char_of (128 + ?c mod 64) :: char) :: nat) = of_char (char_of (128 + ?d mod 64) :: char)" by simp_all
    moreover have "192 + ?c div 64 < 256" "192 + ?d div 64 < 256" "128 + ?c mod 64 < 256" "128 + ?d mod 64 < 256"
      using b mod_less_divisor [of 64 ?c] mod_less_divisor [of 64 ?d] by linarith+
    ultimately have "?c div 64 = ?d div 64" "?c mod 64 = ?d mod 64" by simp_all
    then have "?c = ?d" by (metis div_mult_mod_eq)
    then show ?thesis by simp
  qed
qed

section \<open>Re-ingestion\<close>

subsection \<open>Chunks\<close>

lemma chunks_Nil [simp]: "chunks k [] = []"
  by (simp add: chunks.simps)

lemma concat_chunks: "0 < k \<Longrightarrow> concat (chunks k xs) = xs"
proof (induction k xs rule: chunks.induct)
  case (1 k xs)
  then show ?case by (cases "xs = []") (simp_all add: chunks.simps [of k xs])
qed

lemma chunk_sizes: "c \<in> set (chunks k xs) \<Longrightarrow> c \<noteq> [] \<and> length c \<le> k"
proof (induction k xs rule: chunks.induct)
  case (1 k xs)
  then show ?case by (cases "xs = [] \<or> k = 0") (auto simp: chunks.simps [of k xs])
qed

lemma chunk_count: "0 < k \<Longrightarrow> length (chunks k xs) = (length xs + k - 1) div k"
proof (induction k xs rule: chunks.induct)
  case (1 k xs)
  show ?case
  proof (cases "xs = []")
    case False
    have ih: "length (chunks k (drop k xs)) = (length (drop k xs) + k - 1) div k" using 1 False by simp
    show ?thesis
    proof (cases "length xs \<le> k")
      case True
      have "length xs + k - 1 = k + (length xs - 1)" using False by (cases xs) auto
      moreover have "(k + (length xs - 1)) div k = 1 + (length xs - 1) div k" using 1(2) by simp
      moreover have "(length xs - 1) div k = 0" using True False 1(2) by (cases xs) auto
      ultimately have "(length xs + k - 1) div k = 1" by (simp only:)
      then show ?thesis using True False 1(2) by (simp add: chunks.simps [of k xs] chunks.simps [of k "[]"])
    next
      case big: False
      have "length xs + k - 1 = k + (length xs - 1)" using big by simp
      moreover have "(k + (length xs - 1)) div k = 1 + (length xs - 1) div k" using 1(2) by simp
      ultimately have "(length xs + k - 1) div k = 1 + (length xs - 1) div k" by (simp only:)
      then show ?thesis using False 1(2) ih big by (simp add: chunks.simps [of k xs])
    qed
  qed (use 1(2) in \<open>simp add: chunks.simps [of k "[]"]\<close>)
qed

subsection \<open>What is handed to the service\<close>

lemma pick_failed_part: "pick_failed rs pending = Inr fs \<Longrightarrow> subseq fs pending"
proof (induction rs pending arbitrary: fs rule: pick_failed.induct)
  case (2 r rs pending)
  obtain code f gs where e: "json_get r ''ErrorCode'' = Inr code"
    "(if truthy code then (case pending of [] \<Rightarrow> Inl IndexError | p # _ \<Rightarrow> Inr [p]) else Inr []) = Inr f"
    "pick_failed rs (drop 1 pending) = Inr gs" "fs = f @ gs"
    using 2(2) by (auto simp: bindR_Inr_iff)
  have "subseq gs (drop 1 pending)" using 2(1) e by simp
  then show ?case using e(2,4) by (cases pending) (auto split: if_splits)
qed simp

lemma failed_records_part: "failed_records r pending = Inr fs \<Longrightarrow> subseq fs pending"
  by (auto simp: failed_records_def bindR_Inr_iff dest: pick_failed_part)

lemma put_record_batch_state:
  "put_record_batch put stream recs s = (r, s') \<Longrightarrow>
     \<exists>a v. put stream recs (fh_world (world s)) = (a, v) \<and> fh_world (world s') = v \<and>
       batches (world s') = batches (world s) @ [recs] \<and> r = (case a of Put_Raises e \<Rightarrow> Inl e | Put_Response x \<Rightarrow> Inr x)"
  by (auto simp: put_record_batch_def Let_def split: prod.splits)

text \<open>One attempt, whatever it answers, hands over one batch; then the loop either ends or goes on
  with the records of that batch which are to be sent again.\<close>

lemma put_attempts_cases:
  assumes "put_attempts put stream (Suc n) pending s = (r, s')"
  obtains (ends) a v where "put stream pending (fh_world (world s)) = (a, v)" "fh_world (world s') = v"
      "batches (world s') = batches (world s) @ [pending]"
      "r = Inr () \<Longrightarrow> \<exists>x c. a = Put_Response x \<and> json_get_default x ''FailedPutCount'' (JInt 0) = Inr c \<and> py_eq c (JInt 0)"
  | (again) x v still t c where "put stream pending (fh_world (world s)) = (Put_Response x, v)" "fh_world (world t) = v"
      "batches (world t) = batches (world s) @ [pending]" "failed_records x pending = Inr still"
      "json_get_default x ''FailedPutCount'' (JInt 0) = Inr c" "\<not> py_eq c (JInt 0)"
      "n \<noteq> 0" "put_attempts put stream n still t = (r, s')"
proof -
  obtain q t where p: "put_record_batch put stream pending s = (q, t)" by fastforce
  obtain a v where av: "put stream pending (fh_world (world s)) = (a, v)" "fh_world (world t) = v"
    "batches (world t) = batches (world s) @ [pending]" "q = (case a of Put_Raises e \<Rightarrow> Inl e | Put_Response x \<Rightarrow> Inr x)"
    using put_record_batch_state [OF p] by blast
  show ?thesis
  proof (cases a)
    case (Put_Raises e)
    then have "r = Inl e" "s' = t" using assms p av(4) by (auto simp: bindC_def)
    then show ?thesis using ends av by simp
  next
    case (Put_Response x)
    then have q: "q = Inr x" using av(4) by simp
    show ?thesis
    proof (cases "json_get_default x ''FailedPutCount'' (JInt 0)")
      case (Inl e)
      then have "r = Inl e" "s' = t" using assms p q by (auto simp: bindC_def)
      then show ?thesis using ends av by simp
    next
      case (Inr c)
      show ?thesis
      proof (cases "py_eq c (JInt 0)")
        case True
        then have "s' = t" using assms p q Inr by (auto simp: bindC_def)
        then show ?thesis using ends av True Put_Response Inr by blast
      next
        case False
        show ?thesis
        proof (cases "failed_records x pending")
          case (Inl e)
          then have "r = Inl e" "s' = t" using assms p q Inr False \<open>json_get_default x _ _ = Inr c\<close> by (auto simp: bindC_def)
          then show ?thesis using ends av by simp
        next
          case (Inr still)
          then show ?thesis using assms p q False \<open>json_get_default x _ _ = Inr c\<close> av Put_Response ends again
            by (cases "n = 0") (auto simp: bindC_def)
        qed
      qed
    qed
  qed
qed

lemma put_attempts_batches:
  "put_attempts put stream n pending s = (r, s') \<Longrightarrow>
     \<exists>bs. batches (world s') = batches (world s) @ bs \<and> length bs \<le> n \<and> (\<forall>b \<in> set bs. subseq b pending)"
proof (induction n arbitrary: pending s)
  case (Suc n)
  from Suc.prems show ?case
  proof (cases rule: put_attempts_cases)
    case (ends a v)
    then show ?thesis by auto
  next
    case (again x v still t c)
    obtain bs where bs: "batches (world s') = batches (world t) @ bs" "length bs \<le> n" "\<forall>b \<in> set bs. subseq b still"
      using Suc.IH [OF again(8)] by blast
    have "\<forall>b \<in> set (pending # bs). subseq b pending"
      using bs(3) failed_records_part [OF again(4)] by (auto intro: subseq_order.trans)
    then show ?thesis using bs again(3) by (intro exI [of _ "pending # bs"]) auto
  qed
qed simp

lemma put_chunks_batches:
  "put_chunks put ctx cs s = (r, s') \<Longrightarrow>
     \<exists>bs. batches (world s') = batches (world s) @ bs \<and> length bs \<le> nat (max_attempts ctx) * length cs \<and>
       (\<forall>b \<in> set bs. \<exists>c \<in> set cs. subseq b c)"
proof (induction cs arbitrary: s)
  case (Cons c cs)
  obtain q t where q: "put_attempts put (stream_name ctx) (nat (max_attempts ctx)) c s = (q, t)" by fastforce
  obtain bs where bs: "batches (world t) = batches (world s) @ bs" "length bs \<le> nat (max_attempts ctx)" "\<forall>b \<in> set bs. subseq b c"
    using put_attempts_batches [OF q] by blast
  show ?case
  proof (cases q)
    case (Inl e)
    then have "s' = t" using Cons.prems q by (simp add: thenC_def bindC_def)
    then show ?thesis using bs by (intro exI [of _ bs]) auto
  next
    case (Inr u)
    then have "put_chunks put ctx cs t = (r, s')" using Cons.prems q by (simp add: thenC_def bindC_def)
    then obtain ds where "batches (world s') = batches (world t) @ ds" "length ds \<le> nat (max_attempts ctx) * length cs"
      "\<forall>b \<in> set ds. \<exists>c \<in> set cs. subseq b c" using Cons.IH by blast
    then show ?thesis using bs by (intro exI [of _ "bs @ ds"]) auto
  qed
qed simp

subsection \<open>What the service stores\<close>

text \<open>The documented answer of \<open>PutRecordBatch\<close>: one entry per record, in order, an entry with an
  \<open>ErrorCode\<close> for a record that was not stored, and the number of those. \<open>stored\<close> reads the
  contents of the stream off the state of the service; a call that raises may or may not have
  stored its records.\<close>

definition error_code :: "json \<Rightarrow> json" where
  "error_code r = (case r of JObj kvs \<Rightarrow> dict_get kvs ''ErrorCode'' | _ \<Rightarrow> JNull)"

definition accepted :: "json list \<Rightarrow> string list \<Rightarrow> string list" where
  "accepted rs recs = map snd (filter (\<lambda>(r, x). \<not> truthy (error_code r)) (zip rs recs))"

definition rejected :: "json list \<Rightarrow> string list \<Rightarrow> string list" where
  "rejected rs recs = map snd (filter (\<lambda>(r, x). truthy (error_code r)) (zip rs recs))"

definition batch_response :: "json \<Rightarrow> string list \<Rightarrow> json list \<Rightarrow> bool" where
  "batch_response response recs rs = (case response of
      JObj kvs \<Rightarrow> map_of kvs ''RequestResponses'' = Some (JList rs) \<and> length rs = length recs \<and> list_all is_dict rs \<and>
        map_of kvs ''FailedPutCount'' = Some (JInt (int (length (rejected rs recs))))
    | _ \<Rightarrow> False)"

definition acknowledges :: "'v firehose \<Rightarrow> ('v \<Rightarrow> string multiset) \<Rightarrow> bool" where
  "acknowledges put stored = (\<forall>stream recs v. case put stream recs v of
      (Put_Raises e, v') \<Rightarrow> is_exception e \<and> stored v \<subseteq># stored v'
    | (Put_Response response, v') \<Rightarrow> \<exists>rs. batch_response response recs rs \<and> stored v' = stored v + mset (accepted rs recs))"

lemma acknowledges_raise:
  "acknowledges put stored \<Longrightarrow> put stream recs v = (Put_Raises e, v') \<Longrightarrow> is_exception e \<and> stored v \<subseteq># stored v'"
  unfolding acknowledges_def by (drule spec [of _ stream], drule spec [of _ recs], drule spec [of _ v]) simp

lemma acknowledges_response:
  "acknowledges put stored \<Longrightarrow> put stream recs v = (Put_Response response, v') \<Longrightarrow>
     \<exists>rs. batch_response response recs rs \<and> stored v' = stored v + mset (accepted rs recs)"
  unfolding acknowledges_def by (drule spec [of _ stream], drule spec [of _ recs], drule spec [of _ v]) simp

lemma accepted_rejected: "length rs = length recs \<Longrightarrow> mset (accepted rs recs) + mset (rejected rs recs) = mset recs"
  by (induction rs recs rule: list_induct2) (auto simp: accepted_def rejected_def)

lemma pick_failed_rejected: "length rs = length recs \<Longrightarrow> list_all is_dict rs \<Longrightarrow> pick_failed rs recs = Inr (rejected rs recs)"
proof (induction rs recs rule: list_induct2)
  case (Cons r rs x recs)
  obtain kvs where "r = JObj kvs" using Cons.prems by (cases r) auto
  then show ?case using Cons by (auto simp: rejected_def error_code_def json_get_def dict_get_def split: option.splits)
qed (simp add: rejected_def)

lemma batch_response_reads:
  assumes "batch_response response recs rs"
  shows "json_get_default response ''FailedPutCount'' (JInt 0) = Inr (JInt (int (length (rejected rs recs))))"
    and "failed_records response recs = Inr (rejected rs recs)" and "length rs = length recs"
  using assms pick_failed_rejected [of rs recs]
  by (auto simp: batch_response_def json_get_default_def failed_records_def json_index_def json_iter_def split: json.splits)

lemma num_eq_JInt [simp]: "num_eq (JInt a) (JInt b) = (a = b)"
  by (simp add: num_eq_def num_of_def)

abbreviation in_lake :: "('v \<Rightarrow> string multiset) \<Rightarrow> 'v fh ci_state \<Rightarrow> string multiset" where
  "in_lake stored s \<equiv> stored (fh_world (world s))"

lemma put_attempts_stores:
  assumes ack: "acknowledges put stored"
  shows "put_attempts put stream n pending s = (r, s') \<Longrightarrow>
     in_lake stored s \<subseteq># in_lake stored s' \<and>
     (0 < n \<longrightarrow> r = Inr () \<longrightarrow> in_lake stored s' = in_lake stored s + mset pending)"
proof (induction n arbitrary: pending s)
  case (Suc n)
  from Suc.prems show ?case
  proof (cases rule: put_attempts_cases)
    case (ends a v)
    show ?thesis
    proof (cases a)
      case (Put_Raises e)
      then show ?thesis using ends acknowledges_raise [OF ack] by auto
    next
      case (Put_Response x)
      then obtain rs where rs: "batch_response x pending rs" "stored v = in_lake stored s + mset (accepted rs pending)"
        using acknowledges_response [OF ack] ends(1,2) by blast
      have "r = Inr () \<Longrightarrow> rejected rs pending = []"
        using ends(4) batch_response_reads(1) [OF rs(1)] Put_Response by auto
      then show ?thesis using rs ends(2) accepted_rejected [OF batch_response_reads(3) [OF rs(1)]] by auto
    qed
  next
    case (again x v still t c)
    obtain rs where rs: "batch_response x pending rs" "stored v = in_lake stored s + mset (accepted rs pending)"
      using acknowledges_response [OF ack again(1)] by blast
    have still: "still = rejected rs pending" using again(4) batch_response_reads(2) [OF rs(1)] by simp
    note ih = Suc.IH [OF again(8)]
    show ?thesis
      using ih again(2,7) rs(2) still accepted_rejected [OF batch_response_reads(3) [OF rs(1)]]
      by (auto simp: add.assoc intro: subset_mset.order_trans [OF mset_subset_eq_add_left])
  qed
qed simp

lemma put_chunks_stores:
  assumes ack: "acknowledges put stored" and n: "0 < max_attempts ctx"
  shows "put_chunks put ctx cs s = (r, s') \<Longrightarrow>
     in_lake stored s \<subseteq># in_lake stored s' \<and> (r = Inr () \<longrightarrow> in_lake stored s' = in_lake stored s + mset (concat cs))"
proof (induction cs arbitrary: s)
  case (Cons c cs)
  obtain q t where q: "put_attempts put (stream_name ctx) (nat (max_attempts ctx)) c s = (q, t)" by fastforce
  note st = put_attempts_stores [OF ack q]
  show ?case
  proof (cases q)
    case (Inl e)
    then have "s' = t" "r = Inl e" using Cons.prems q by (simp_all add: thenC_def bindC_def)
    then show ?thesis using st by simp
  next
    case (Inr u)
    then have "put_chunks put ctx cs t = (r, s')" using Cons.prems q by (simp add: thenC_def bindC_def)
    then show ?thesis using Cons.IH [of t] st n Inr by (auto simp: add.assoc intro: subset_mset.order_trans)
  qed
qed simp

lemma reingest_stores:
  assumes "acknowledges put stored" "0 < max_attempts ctx" "reingest put ctx records s = (r, s')"
  shows "in_lake stored s \<subseteq># in_lake stored s'"
    and "r = Inr () \<Longrightarrow> in_lake stored s' = in_lake stored s + mset records"
  using put_chunks_stores [OF assms(1,2)] assms(3) by (auto simp: reingest_def concat_chunks PUT_RECORD_BATCH_MAX_def)

lemma put_attempts_raises:
  assumes ack: "acknowledges put stored"
  shows "put_attempts put stream n pending s = (Inl e, s') \<Longrightarrow> is_exception e"
proof (induction n arbitrary: pending s)
  case (Suc n)
  obtain q t where p: "put_record_batch put stream pending s = (q, t)" by fastforce
  obtain a v where av: "put stream pending (fh_world (world s)) = (a, v)"
    "q = (case a of Put_Raises e \<Rightarrow> Inl e | Put_Response x \<Rightarrow> Inr x)" using put_record_batch_state [OF p] by blast
  show ?case
  proof (cases a)
    case (Put_Raises x)
    then show ?thesis using Suc.prems p av acknowledges_raise [OF ack] by (auto simp: bindC_def)
  next
    case (Put_Response x)
    then obtain rs where rs: "batch_response x pending rs" using acknowledges_response [OF ack] av(1) by blast
    show ?thesis using Suc p av Put_Response batch_response_reads(1,2) [OF rs] by (auto simp: bindC_def split: if_splits)
  qed
qed simp

lemma put_chunks_raises:
  assumes ack: "acknowledges put stored"
  shows "put_chunks put ctx cs s = (Inl e, s') \<Longrightarrow> is_exception e"
  by (induction cs arbitrary: s) (auto simp: thenC_Inl_iff dest: put_attempts_raises [OF ack])

section \<open>The handler\<close>

text \<open>The events a delivery record carries, once reshaped.\<close>

definition record_events :: "(string \<Rightarrow> exn + string) \<Rightarrow> split_ctx \<Rightarrow> json \<Rightarrow> string list" where
  "record_events gunzip ctx rec =
     (case bindR (json_index rec ''data'') (\<lambda>raw. bindR (b64decode raw) (\<lambda>d.
        if \<not> is_gzip d then Inr []
        else bindR (bindR (gunzip d) json_loads) (\<lambda>envelope.
          bindR (json_get envelope ''messageType'') (\<lambda>mt.
            if mt = JStr ''CONTROL_MESSAGE'' then Inr [] else envelope_events ctx envelope)))) of
        Inr es \<Rightarrow> es | Inl e \<Rightarrow> [])"

lemma mapC_Inr: "mapC f xs s = (Inr ys, s') \<Longrightarrow> length ys = length xs"
  by (induction xs arbitrary: ys s) (auto simp: bindC_Inr_iff)

lemma mapC_all2: "mapC f xs s = (Inr ys, s') \<Longrightarrow> (\<And>x y t t'. f x t = (Inr y, t') \<Longrightarrow> P x y) \<Longrightarrow> list_all2 P xs ys"
  by (induction xs arbitrary: ys s) (auto simp: bindC_Inr_iff)

lemma mapC_total: "(\<And>x t. x \<in> set xs \<Longrightarrow> \<exists>y t'. f x t = (Inr y, t')) \<Longrightarrow> \<exists>ys s'. mapC f xs s = (Inr ys, s')"
proof (induction xs arbitrary: s)
  case (Cons x xs)
  obtain y t where f: "f x s = (Inr y, t)" using Cons.prems [of x s] by auto
  obtain ys u where m: "mapC f xs t = (Inr ys, u)" using Cons.IH [of t] Cons.prems by force
  show ?case using f m by (simp add: bindC_def)
qed simp

lemma handle_record_cases:
  assumes "handle_record put gunzip ctx rec s = (Inr (rid, res), s')"
  obtains (pass) raw d where "json_index rec ''recordId'' = Inr rid" "json_index rec ''data'' = Inr raw"
      "b64decode raw = Inr d" "\<not> is_gzip d" "res = Ok raw" "s' = s"
  | (control) raw d where "json_index rec ''recordId'' = Inr rid" "json_index rec ''data'' = Inr raw"
      "b64decode raw = Inr d" "is_gzip d" "res = Dropped" "s' = s" "record_events gunzip ctx rec = []"
  | (events) raw d r where "json_index rec ''recordId'' = Inr rid" "json_index rec ''data'' = Inr raw"
      "b64decode raw = Inr d" "is_gzip d" "reingest put ctx (record_events gunzip ctx rec) s = (r, s')"
      "res = (case r of Inr _ \<Rightarrow> Dropped | Inl _ \<Rightarrow> ProcessingFailed)"
proof -
  obtain raw d where r: "json_index rec ''recordId'' = Inr rid" "json_index rec ''data'' = Inr raw" "b64decode raw = Inr d"
    using assms by (auto simp: handle_record_def bindC_Inr_iff try_except_Inr_iff thenC_Inr_iff split: if_splits)
  show ?thesis
  proof (cases "is_gzip d")
    case False
    then show ?thesis using assms r pass by (simp add: handle_record_def bindC_def)
  next
    case True
    obtain envelope mt where e: "bindR (gunzip d) json_loads = Inr envelope" "json_get envelope ''messageType'' = Inr mt"
      using assms r True by (auto simp: handle_record_def bindC_Inr_iff)
    show ?thesis
    proof (cases "mt = JStr ''CONTROL_MESSAGE''")
      case ctl: True
      have "record_events gunzip ctx rec = []" using r e True ctl by (simp add: record_events_def)
      then show ?thesis using assms r e True ctl control by (simp add: handle_record_def bindC_def)
    next
      case ctl: False
      obtain es where es: "envelope_events ctx envelope = Inr es"
        using assms r True e ctl by (auto simp: handle_record_def bindC_Inr_iff)
      have re: "record_events gunzip ctx rec = es" using r e True ctl es by (simp add: record_events_def)
      obtain q t where q: "reingest put ctx es s = (q, t)" by fastforce
      have "(case q of Inl x \<Rightarrow> if is_exception x then (Inr (rid, ProcessingFailed), t) else (Inl x, t)
          | Inr _ \<Rightarrow> (Inr (rid, Dropped), t)) = (Inr (rid, res), s')"
      proof (cases "es = []")
        case True
        then have "q = Inr ()" "t = s" using q by (auto simp: reingest_def)
        then show ?thesis using assms r e \<open>is_gzip d\<close> ctl es True by (simp add: handle_record_def bindC_def try_except_def)
      next
        case False
        then show ?thesis using assms r e True ctl es q
          by (cases q) (auto simp: handle_record_def bindC_def try_except_def thenC_def split: if_splits)
      qed
      then show ?thesis using events [OF r True] re q by (cases q) (auto split: if_splits)
    qed
  qed
qed

text \<open>C20. A transform returns exactly one status per input record, under the record's own id and in
  the order received: a record that is not compressed comes back \<open>Ok\<close> with its data untouched, a
  compressed delivery is \<open>Dropped\<close> or \<open>ProcessingFailed\<close> and never returned as data.\<close>

theorem handler_one_to_one:
  assumes "json_index event ''records'' = Inr (JList records)"
    and "handler put gunzip ctx event s = (Inr out, s')"
  shows "list_all2 (\<lambda>rec (rid, result). json_index rec ''recordId'' = Inr rid \<and>
      (\<exists>raw d. json_index rec ''data'' = Inr raw \<and> b64decode raw = Inr d \<and>
        (if is_gzip d then result = Dropped \<or> result = ProcessingFailed else result = Ok raw))) records out"
proof -
  have m: "mapC (handle_record put gunzip ctx) records s = (Inr out, s')"
    using assms by (simp add: handler_def bindC_def json_iter_def)
  show ?thesis
  proof (rule mapC_all2 [OF m], clarify)
    fix rec rid result t t'
    assume "handle_record put gunzip ctx rec t = (Inr (rid, result), t')"
    then show "json_index rec ''recordId'' = Inr rid \<and>
      (\<exists>raw d. json_index rec ''data'' = Inr raw \<and> b64decode raw = Inr d \<and>
        (if is_gzip d then result = Dropped \<or> result = ProcessingFailed else result = Ok raw))"
      by (cases rule: handle_record_cases) (auto split: sum.splits)
  qed
qed

subsection \<open>Delivery\<close>

definition delivered :: "(string \<Rightarrow> exn + string) \<Rightarrow> split_ctx \<Rightarrow> json list \<Rightarrow> (json \<times> transform_result) list \<Rightarrow> string multiset" where
  "delivered gunzip ctx records out =
     (\<Sum>(rec, o') \<leftarrow> zip records out. if snd o' = Dropped then mset (record_events gunzip ctx rec) else {#})"

lemma handle_record_stores:
  assumes ack: "acknowledges put stored" "0 < max_attempts ctx"
    and h: "handle_record put gunzip ctx rec s = (Inr o', s')"
  shows "in_lake stored s + (if snd o' = Dropped then mset (record_events gunzip ctx rec) else {#}) \<subseteq># in_lake stored s'"
    and "snd o' \<noteq> ProcessingFailed \<Longrightarrow>
      in_lake stored s' = in_lake stored s + (if snd o' = Dropped then mset (record_events gunzip ctx rec) else {#})"
proof -
  obtain rid res where o: "o' = (rid, res)" by (cases o')
  have "in_lake stored s + (if res = Dropped then mset (record_events gunzip ctx rec) else {#}) \<subseteq># in_lake stored s' \<and>
    (res \<noteq> ProcessingFailed \<longrightarrow> in_lake stored s' = in_lake stored s + (if res = Dropped then mset (record_events gunzip ctx rec) else {#}))"
    using h unfolding o
  proof (cases rule: handle_record_cases)
    case (events raw d r)
    then show ?thesis using reingest_stores [OF ack events(5)] by (cases r) auto
  qed auto
  then show "in_lake stored s + (if snd o' = Dropped then mset (record_events gunzip ctx rec) else {#}) \<subseteq># in_lake stored s'"
    and "snd o' \<noteq> ProcessingFailed \<Longrightarrow>
      in_lake stored s' = in_lake stored s + (if snd o' = Dropped then mset (record_events gunzip ctx rec) else {#})"
    by (simp_all add: o)
qed

lemma mapC_stores:
  assumes ack: "acknowledges put stored" "0 < max_attempts ctx"
  shows "mapC (handle_record put gunzip ctx) records s = (Inr out, s') \<Longrightarrow>
    in_lake stored s + delivered gunzip ctx records out \<subseteq># in_lake stored s' \<and>
    (ProcessingFailed \<notin> snd ` set out \<longrightarrow> in_lake stored s' = in_lake stored s + delivered gunzip ctx records out)"
proof (induction records arbitrary: s out)
  case (Cons rec records)
  obtain o' os t where h: "handle_record put gunzip ctx rec s = (Inr o', t)"
    "mapC (handle_record put gunzip ctx) records t = (Inr os, s')" "out = o' # os"
    using Cons.prems by (auto simp: bindC_Inr_iff)
  let ?e = "if snd o' = Dropped then mset (record_events gunzip ctx rec) else {#}"
  have d: "delivered gunzip ctx (rec # records) out = ?e + delivered gunzip ctx records os"
    by (simp add: delivered_def h(3))
  note st = handle_record_stores [OF ack h(1)] and ih = Cons.IH [OF h(2)]
  have "in_lake stored s + ?e + delivered gunzip ctx records os \<subseteq># in_lake stored t + delivered gunzip ctx records os"
    using st(1) by simp
  then have "in_lake stored s + delivered gunzip ctx (rec # records) out \<subseteq># in_lake stored s'"
    using subset_mset.order_trans [OF _ conjunct1 [OF ih]] unfolding d by (simp only: add.assoc)
  moreover have "ProcessingFailed \<notin> snd ` set out \<Longrightarrow> in_lake stored s' = in_lake stored s + delivered gunzip ctx (rec # records) out"
    using ih st(2) h(3) unfolding d by (auto simp: add.assoc)
  ultimately show ?case by blast
qed (simp add: delivered_def)

text \<open>C2. With at least one attempt configured, and a stream that answers as documented, every event
  of every delivery reported \<open>Dropped\<close> is in the stream when the handler returns, and when no record
  is reported \<open>ProcessingFailed\<close> the stream has gained exactly those events, each of them once, retries
  included.\<close>

theorem dropped_means_delivered:
  assumes "acknowledges put stored" and "0 < max_attempts ctx"
    and "json_index event ''records'' = Inr (JList records)"
    and "handler put gunzip ctx event s = (Inr out, s')"
  shows "in_lake stored s + delivered gunzip ctx records out \<subseteq># in_lake stored s' \<and>
    (ProcessingFailed \<notin> snd ` set out \<longrightarrow> in_lake stored s' = in_lake stored s + delivered gunzip ctx records out)"
proof -
  have "mapC (handle_record put gunzip ctx) records s = (Inr out, s')"
    using assms(3,4) by (simp add: handler_def bindC_def json_iter_def)
  then show ?thesis by (rule mapC_stores [OF assms(1,2)])
qed

subsection \<open>Isolation\<close>

text \<open>A delivery the service can send: an id, base64 data, and, when the data is compressed, an
  envelope whose \<open>logEvents\<close> is a list of objects. Nothing is asked of the messages.\<close>

definition deliverable :: "(string \<Rightarrow> exn + string) \<Rightarrow> json \<Rightarrow> bool" where
  "deliverable gunzip rec = (case rec of
      JObj kvs \<Rightarrow> map_of kvs ''recordId'' \<noteq> None \<and> (case map_of kvs ''data'' of
          Some (JStr t) \<Rightarrow> (case b64_loop 0 0 0 t of
              Inr d \<Rightarrow> is_gzip d \<longrightarrow> (case gunzip d of
                  Inr u \<Rightarrow> (case loads u of
                      Some (JObj env) \<Rightarrow> (case map_of env ''logEvents'' of
                          None \<Rightarrow> True | Some (JList es) \<Rightarrow> list_all is_dict es | _ \<Rightarrow> False)
                    | _ \<Rightarrow> False)
                | Inl e \<Rightarrow> False)
            | Inl e \<Rightarrow> False)
        | _ \<Rightarrow> False)
    | _ \<Rightarrow> False)"

lemma mapM_log_message: "list_all is_dict es \<Longrightarrow> \<exists>ms. mapM log_message es = Inr ms"
proof (induction es)
  case (Cons e es)
  then show ?case by (cases e) (auto simp: log_message_def json_get_default_def)
qed simp

lemma deliverable_events:
  assumes "deliverable gunzip rec"
  obtains rid raw d where "json_index rec ''recordId'' = Inr rid" "json_index rec ''data'' = Inr raw" "b64decode raw = Inr d"
    "is_gzip d \<Longrightarrow> \<exists>envelope mt es. bindR (gunzip d) json_loads = Inr envelope \<and> json_get envelope ''messageType'' = Inr mt \<and>
       envelope_events ctx envelope = Inr es"
proof -
  obtain kvs where kvs: "rec = JObj kvs" using assms by (cases rec) (simp_all add: deliverable_def)
  then obtain rid v where v: "map_of kvs ''recordId'' = Some rid" "map_of kvs ''data'' = Some v"
    using assms by (cases "map_of kvs ''data''") (auto simp: deliverable_def)
  obtain t where t: "v = JStr t" using assms kvs v by (cases v) (simp_all add: deliverable_def)
  obtain d where "b64_loop 0 0 0 t = Inr d" using assms kvs v t by (cases "b64_loop 0 0 0 t") (simp_all add: deliverable_def)
  note k = kvs v(1) v(2) [unfolded t] this
  have "\<exists>envelope mt es. bindR (gunzip d) json_loads = Inr envelope \<and> json_get envelope ''messageType'' = Inr mt \<and>
      envelope_events ctx envelope = Inr es" if g: "is_gzip d"
  proof -
    obtain u where u: "gunzip d = Inr u" using assms k g by (cases "gunzip d") (simp_all add: deliverable_def)
    obtain w where w: "loads u = Some w" using assms k g u by (cases "loads u") (simp_all add: deliverable_def)
    obtain env where "w = JObj env" using assms k g u w by (cases w) (simp_all add: deliverable_def)
    note e = u w [unfolded this]
    have "\<exists>es. json_get_default (JObj env) ''logEvents'' (JList []) = Inr (JList es) \<and> list_all is_dict es"
    proof (cases "map_of env ''logEvents''")
      case (Some l)
      then show ?thesis using assms k g e by (cases l) (simp_all add: deliverable_def json_get_default_def)
    qed (simp add: json_get_default_def)
    then obtain es ms where "json_get_default (JObj env) ''logEvents'' (JList []) = Inr (JList es)" "mapM log_message es = Inr ms"
      using mapM_log_message by blast
    then have "envelope_events ctx (JObj env) = Inr (concat (map (events_of_message ctx) ms))"
      by (simp add: envelope_events_def json_iter_def)
    then show ?thesis using e by (auto simp: json_loads_def json_get_def)
  qed
  then show ?thesis using k by (intro that [of rid "JStr t" d]) (simp_all add: json_index_def b64decode_def)
qed

lemma handle_record_total:
  assumes ack: "acknowledges put stored" and "deliverable gunzip rec"
  shows "\<exists>o' s'. handle_record put gunzip ctx rec s = (Inr o', s')"
proof -
  obtain rid raw d where r: "json_index rec ''recordId'' = Inr rid" "json_index rec ''data'' = Inr raw" "b64decode raw = Inr d"
    "is_gzip d \<Longrightarrow> \<exists>envelope mt es. bindR (gunzip d) json_loads = Inr envelope \<and> json_get envelope ''messageType'' = Inr mt \<and>
       envelope_events ctx envelope = Inr es"
    using deliverable_events [OF assms(2)] by blast
  show ?thesis
  proof (cases "is_gzip d")
    case True
    obtain envelope mt es where e: "bindR (gunzip d) json_loads = Inr envelope" "json_get envelope ''messageType'' = Inr mt"
      "envelope_events ctx envelope = Inr es" using r(4) [OF True] by blast
    obtain q t where q: "reingest put ctx es s = (q, t)" by fastforce
    have "is_exception x" if "q = Inl x" for x using put_chunks_raises [OF ack] q that by (auto simp: reingest_def)
    then show ?thesis using r(1-3) e True q
      by (cases q; cases "es = []"; cases "mt = JStr ''CONTROL_MESSAGE''")
        (auto simp: handle_record_def bindC_def try_except_def thenC_def)
  qed (use r in \<open>simp add: handle_record_def bindC_def\<close>)
qed


section \<open>Messages\<close>

lemma utf8_inj: "utf8 s = utf8 t \<Longrightarrow> s = t"
proof (induction s arbitrary: t)
  case Nil
  then show ?case by (cases t) auto
next
  case (Cons c s)
  obtain d u where t: "t = d # u" using Cons.prems by (cases t) auto
  obtain x xs where x: "utf8_char c = x # xs" by (cases "utf8_char c") auto
  obtain y ys where y: "utf8_char d = y # ys" by (cases "utf8_char d") auto
  have e: "utf8_char c @ utf8 s = utf8_char d @ utf8 u" using Cons.prems t by simp
  then have "x = y" using x y by simp
  then have "length (utf8_char c) = length (utf8_char d)" using utf8_char_lead [OF x] utf8_char_lead [OF y] x y by simp
  then have "utf8_char c = utf8_char d" "utf8 s = utf8 u" using e by auto
  then show ?case using Cons.IH t utf8_char_inj by blast
qed

definition structured :: "(string, json) dict \<Rightarrow> bool" where
  "structured obj = (is_str (dict_get obj ''body'') \<and>
     (is_dict (dict_get obj ''resource'') \<or> is_list (dict_get obj ''resource'')) \<and>
     (is_dict (dict_get obj ''attributes'') \<or> is_list (dict_get obj ''attributes'')))"

lemma reshape_message_pass:
  "loads m = Some (JObj obj) \<Longrightarrow> map_of obj ''tool'' \<noteq> None \<or> \<not> structured obj \<Longrightarrow> reshape_message ctx m = Inr (utf8 m)"
  by (cases "dict_get obj ''body''") (auto simp: reshape_message_def structured_def)

lemma reshape_message_structured:
  "loads m = Some (JObj obj) \<Longrightarrow> map_of obj ''tool'' = None \<Longrightarrow> structured obj \<Longrightarrow> dict_get obj ''body'' = JStr body \<Longrightarrow>
     reshape_message ctx m = reshape_claude ctx obj body"
  by (simp add: reshape_message_def structured_def)

text \<open>A message of a tool that follows the body contract, that is an object with a \<open>tool\<close> key, and
  every message that is neither a structured record nor a metric event, JSON or not, is re-ingested
  byte for byte: the single event is the encoding of that message and of no other text.\<close>

theorem body_contract_untouched:
  assumes "\<forall>obj. loads m = Some (JObj obj) \<longrightarrow> map_of obj ''tool'' \<noteq> None \<or> \<not> is_emf_event obj \<and> \<not> structured obj"
  shows "events_of_message ctx m = [utf8 m] \<and> (\<forall>m'. utf8 m' = utf8 m \<longrightarrow> m' = m)"
proof (intro conjI allI impI)
  show "events_of_message ctx m = [utf8 m]"
  proof (cases "\<exists>obj. loads m = Some (JObj obj)")
    case True
    then obtain obj where o: "loads m = Some (JObj obj)" by blast
    have "\<not> is_emf_event obj" using assms o by (auto simp: is_emf_event_def)
    then show ?thesis using o assms reshape_message_pass [OF o] by (auto simp: events_of_message_def reshape_records_def)
  next
    case False
    then have "reshape_records ctx m = Inr [utf8 m]"
      by (cases "loads m") (auto simp: reshape_records_def reshape_message_def split: json.splits)
    then show ?thesis by (simp add: events_of_message_def)
  qed
qed (rule utf8_inj)

subsection \<open>Which tool a row is filed under\<close>

definition service_of :: "(string, json) dict \<Rightarrow> exn + string" where
  "service_of obj = (if is_emf_event obj then Inr (py_str (the_default (JStr []) (map_of obj ''service.name'')))
     else bindR (to_map (dict_get obj ''resource'')) (\<lambda>r. Inr (py_str (the_default (JStr []) (map_of r ''service.name'')))))"

lemma reshape_emf_rows:
  assumes "reshape_emf ctx obj = Inr rows" "is_emf_event obj"
  obtains a ts decls tool where "dict_get obj ''_aws'' = JObj a" "emf_timestamp_iso ctx a = Inr ts" "metric_decls a = Inr decls"
    "json_index (service_tool_map ctx) (py_str (the_default (JStr []) (map_of obj ''service.name''))) = Inr tool"
    "rows = map (\<lambda>(name, metric). canonical_row ts tool name
       (emf_payload obj (emf_base obj (dict_keys (metric_by_name decls))) name metric)) (metric_by_name decls)"
proof -
  obtain a where a: "dict_get obj ''_aws'' = JObj a" using assms(2)
    by (cases "dict_get obj ''_aws''") (simp_all add: is_emf_event_def)
  then obtain ts decls tool where "emf_timestamp_iso ctx a = Inr ts" "metric_decls a = Inr decls"
    "json_index (service_tool_map ctx) (py_str (the_default (JStr []) (map_of obj ''service.name''))) = Inr tool"
    "rows = map (\<lambda>(name, metric). canonical_row ts tool name
       (emf_payload obj (emf_base obj (dict_keys (metric_by_name decls))) name metric)) (metric_by_name decls)"
    using assms(1) by (auto simp: reshape_emf_def bindR_Inr_iff Let_def)
  then show ?thesis by (rule that [OF a])
qed

lemma reshape_claude_row:
  assumes "reshape_claude ctx obj body = Inr r"
  obtains attrs resource tool ts where "to_map (dict_get obj ''attributes'') = Inr attrs" "to_map (dict_get obj ''resource'') = Inr resource"
    "json_index (service_tool_map ctx) (py_str (the_default (JStr []) (map_of resource ''service.name''))) = Inr tool"
    "event_time ctx attrs obj = Inr ts" "r = canonical_row ts tool (event_name attrs body) (claude_payload obj attrs resource body)"
  using assms by (auto simp: reshape_claude_def bindR_Inr_iff)

lemma fold_setdefault_lookup:
  "map_of (fold (\<lambda>(n, m) d. setdefault n m d) ds d) k = (case map_of d k of Some v \<Rightarrow> Some v | None \<Rightarrow> map_of ds k)"
  by (induction ds arbitrary: d) (auto simp: setdefault_lookup split: option.splits if_splits)

lemma fold_setdefault_wf: "dict_wf d \<Longrightarrow> dict_wf (fold (\<lambda>(n, m) d. setdefault n m d) ds d)"
  by (induction ds arbitrary: d) (auto simp: dict_wf_setdefault)

lemma metric_by_name_lookup: "map_of (metric_by_name decls) = map_of decls" and metric_by_name_wf: "dict_wf (metric_by_name decls)"
  by (auto simp: metric_by_name_def fold_setdefault_lookup fold_setdefault_wf fun_eq_iff)

lemma metric_by_name_keys: "fst ` set (metric_by_name decls) = fst ` set decls"
  by (metis dom_map_of_conv_image_fst metric_by_name_lookup)

lemma metric_by_name_Nil: "metric_by_name decls = [] \<Longrightarrow> decls = []"
  using metric_by_name_keys [of decls] by simp

text \<open>C21. Whatever a message holds, each event made of it is either the message's own bytes or a row
  filed under the tool its service name is registered for, never under a catch-all tool; and the only
  messages that give no event at all are metric events that declare no metric.\<close>

theorem message_kept_or_filed:
  shows "(\<forall>e \<in> set (events_of_message ctx m). e = utf8 m \<or>
      (\<exists>obj service tool ts ty payload. loads m = Some (JObj obj) \<and> service_of obj = Inr service \<and>
         json_index (service_tool_map ctx) service = Inr tool \<and> e = canonical_row ts tool ty payload))
    \<and> (events_of_message ctx m = [] \<longrightarrow>
      (\<exists>obj a. loads m = Some (JObj obj) \<and> is_emf_event obj \<and> dict_get obj ''_aws'' = JObj a \<and> metric_decls a = Inr []))"
proof (cases "reshape_records ctx m")
  case (Inl e)
  then show ?thesis by (simp add: events_of_message_def)
next
  case (Inr rows)
  then have ev: "events_of_message ctx m = rows" by (simp add: events_of_message_def)
  show ?thesis
  proof (cases "\<exists>obj. loads m = Some (JObj obj) \<and> is_emf_event obj")
    case True
    then obtain obj where o: "loads m = Some (JObj obj)" "is_emf_event obj" by blast
    then have r: "reshape_emf ctx obj = Inr rows" using Inr by (simp add: reshape_records_def)
    obtain a ts decls tool where d: "dict_get obj ''_aws'' = JObj a" "emf_timestamp_iso ctx a = Inr ts" "metric_decls a = Inr decls"
      "json_index (service_tool_map ctx) (py_str (the_default (JStr []) (map_of obj ''service.name''))) = Inr tool"
      "rows = map (\<lambda>(name, metric). canonical_row ts tool name
         (emf_payload obj (emf_base obj (dict_keys (metric_by_name decls))) name metric)) (metric_by_name decls)"
      using reshape_emf_rows [OF r o(2)] by blast
    have sv: "service_of obj = Inr (py_str (the_default (JStr []) (map_of obj ''service.name'')))"
      using o by (simp add: service_of_def)
    have "rows = [] \<Longrightarrow> decls = []" using d(5) metric_by_name_Nil by auto
    moreover have "\<forall>e \<in> set rows. \<exists>ty payload. e = canonical_row ts tool ty payload" using d(5) by auto
    ultimately show ?thesis unfolding ev using o sv d(1,3,4) by blast
  next
    case False
    have rm: "bindR (reshape_message ctx m) (\<lambda>r. Inr [r]) = Inr rows"
      using Inr False by (auto simp: reshape_records_def split: option.splits json.splits)
    then obtain r where r: "reshape_message ctx m = Inr r" "rows = [r]" by (auto simp: bindR_Inr_iff)
    have "r = utf8 m \<or> (\<exists>obj service tool ts ty payload. loads m = Some (JObj obj) \<and> service_of obj = Inr service \<and>
         json_index (service_tool_map ctx) service = Inr tool \<and> r = canonical_row ts tool ty payload)"
    proof (cases "\<exists>obj body. loads m = Some (JObj obj) \<and> map_of obj ''tool'' = None \<and> structured obj \<and> dict_get obj ''body'' = JStr body")
      case True
      then obtain obj body where o: "loads m = Some (JObj obj)" "map_of obj ''tool'' = None" "structured obj" "dict_get obj ''body'' = JStr body"
        by blast
      have emf: "\<not> is_emf_event obj" using False o(1) by simp
      have "reshape_claude ctx obj body = Inr r" using r(1) reshape_message_structured [OF o] by simp
      then obtain attrs resource tool ts where "to_map (dict_get obj ''resource'') = Inr resource"
        "json_index (service_tool_map ctx) (py_str (the_default (JStr []) (map_of resource ''service.name''))) = Inr tool"
        "r = canonical_row ts tool (event_name attrs body) (claude_payload obj attrs resource body)"
        by (rule reshape_claude_row)
      moreover from this have "service_of obj = Inr (py_str (the_default (JStr []) (map_of resource ''service.name'')))"
        using emf by (simp add: service_of_def)
      ultimately show ?thesis using o(1) by blast
    next
      case no: False
      show ?thesis
      proof (cases "\<exists>obj. loads m = Some (JObj obj)")
        case True
        then obtain obj where o: "loads m = Some (JObj obj)" by blast
        have "map_of obj ''tool'' \<noteq> None \<or> \<not> structured obj"
          using no o by (cases "dict_get obj ''body''") (auto simp: structured_def)
        then show ?thesis using reshape_message_pass [OF o] r(1) by simp
      next
        case False
        then show ?thesis using r(1) by (auto simp: reshape_message_def split: option.splits json.splits)
      qed
    qed
    then show ?thesis unfolding ev r(2) by simp
  qed
qed

section \<open>Rows\<close>

subsection \<open>Renaming the keys of a dictionary\<close>

definition rename_into :: "(string \<Rightarrow> string) \<Rightarrow> (string, json) dict \<Rightarrow> (string, json) dict \<Rightarrow> (string, json) dict" where
  "rename_into f kvs d = fold (\<lambda>(k, v) d. AList.update (f k) v d) kvs d"

lemma rename_into_other: "x \<notin> f ` fst ` set kvs \<Longrightarrow> map_of (rename_into f kvs d) x = map_of d x"
  by (induction kvs arbitrary: d) (auto simp: rename_into_def update_conv')

lemma rename_into_lookup:
  "distinct (map (f \<circ> fst) kvs) \<Longrightarrow> (k, v) \<in> set kvs \<Longrightarrow> map_of (rename_into f kvs d) (f k) = Some v"
proof (induction kvs arbitrary: d)
  case (Cons x kvs)
  obtain a b where x: "x = (a, b)" by force
  have step: "rename_into f (x # kvs) d = rename_into f kvs (AList.update (f a) b d)" by (simp add: rename_into_def x)
  show ?case
  proof (cases "(k, v) \<in> set kvs")
    case True
    then show ?thesis using Cons step by simp
  next
    case False
    then have "k = a" "v = b" using Cons.prems(2) x by auto
    moreover have "f a \<notin> f ` fst ` set kvs" using Cons.prems(1) x by (auto simp: image_image)
    ultimately show ?thesis unfolding step using rename_into_other [of "f a" f kvs] by (simp add: update_conv')
  qed
qed simp

lemma wf_update: "wf_json (JObj d) \<Longrightarrow> wf_json v \<Longrightarrow> wf_json (JObj (AList.update k v d))"
  by (induction d) (auto simp: dom_update)

lemma wf_rename_into: "wf_json (JObj d) \<Longrightarrow> \<forall>(k, v) \<in> set kvs. wf_json v \<Longrightarrow> wf_json (JObj (rename_into f kvs d))"
  by (induction kvs arbitrary: d) (auto simp: rename_into_def intro: wf_update simp del: wf_json.simps)

lemma wf_dict_get: "wf_json (JObj d) \<Longrightarrow> wf_json (dict_get d k)"
  by (cases "map_of d k") (auto simp: dict_get_def dest: map_of_SomeD)

subsection \<open>The envelope\<close>

definition canonical_event :: "string \<Rightarrow> string \<Rightarrow> json \<Rightarrow> string \<Rightarrow> (string, json) dict \<Rightarrow> bool" where
  "canonical_event e ts tool ty payload = (\<exists>row p. e = utf8 row \<and> loads p = Some (JObj payload) \<and>
     loads row = Some (JObj [(''timestamp'', JStr ts), (''tool'', tool), (''event_type'', JStr ty), (''payload'', JStr p)]))"

lemma canonical_row_event:
  assumes "wf_json tool" "wf_json (JObj payload)"
  shows "canonical_event (canonical_row ts tool ty payload) ts tool ty payload"
proof -
  let ?p = "dumps compact_opts (JObj payload)"
  let ?o = "JObj [(''timestamp'', JStr ts), (''tool'', tool), (''event_type'', JStr ty), (''payload'', JStr ?p)]"
  have "loads ?p = Some (JObj payload)" by (rule loads_dumps) (use assms in simp_all)
  moreover have "loads (dumps compact_opts ?o) = Some ?o" by (rule loads_dumps) (use assms in simp_all)
  ultimately show ?thesis unfolding canonical_event_def canonical_row_def by blast
qed

subsection \<open>Structured records\<close>

text \<open>The keys a row's payload may get; two equal ones would overwrite each other.\<close>

definition payload_keys :: "(string, json) dict \<Rightarrow> (string, json) dict \<Rightarrow> string list" where
  "payload_keys attrs resource = map (norm_key \<circ> fst) attrs @ map ((\<lambda>k. ''resource_'' @ norm_key k) \<circ> fst) resource @
     [''otel_body'', ''otel_scope_name'', ''otel_scope_version'']"

lemma claude_payload_rename:
  "claude_payload obj attrs resource body = scope_fields obj (AList.update ''otel_body'' (JStr body)
     (rename_into (\<lambda>k. ''resource_'' @ norm_key k) resource (rename_into norm_key attrs [])))"
  by (simp add: claude_payload_def rename_into_def)

lemma scope_fields_other:
  "x \<noteq> ''otel_scope_name'' \<Longrightarrow> x \<noteq> ''otel_scope_version'' \<Longrightarrow> map_of (scope_fields obj p) x = map_of p x"
  by (auto simp: scope_fields_def Let_def update_conv' split: json.splits)

lemma wf_scope_fields:
  assumes o: "wf_json (JObj obj)" and "wf_json (JObj p)"
  shows "wf_json (JObj (scope_fields obj p))"
proof -
  let ?s = "if truthy (dict_get obj ''scope'') then dict_get obj ''scope'' else dict_get obj ''instrumentationScope''"
  have s: "wf_json ?s" using wf_dict_get [OF o] by simp
  show ?thesis
  proof (cases ?s)
    case (JObj sc)
    then have "wf_json (JObj sc)" using s by simp
    then have "wf_json (dict_get sc k)" for k by (rule wf_dict_get)
    then show ?thesis using JObj assms(2) by (simp add: scope_fields_def Let_def wf_update del: wf_json.simps)
  qed (use assms(2) in \<open>auto simp: scope_fields_def Let_def simp del: wf_json.simps\<close>)
qed

lemma claude_payload_wf:
  assumes "wf_json (JObj obj)" "wf_json (JObj attrs)" "wf_json (JObj resource)"
  shows "wf_json (JObj (claude_payload obj attrs resource body))"
proof -
  have "wf_json (JObj (rename_into norm_key attrs []))" by (rule wf_rename_into) (use assms in auto)
  then have "wf_json (JObj (rename_into (\<lambda>k. ''resource_'' @ norm_key k) resource (rename_into norm_key attrs [])))"
    by (rule wf_rename_into) (use assms in auto)
  then show ?thesis unfolding claude_payload_rename by (intro wf_scope_fields wf_update assms) simp_all
qed

lemma claude_payload_attr:
  assumes d: "distinct (payload_keys attrs resource)" and "(k, v) \<in> set attrs"
  shows "map_of (claude_payload obj attrs resource body) (norm_key k) = Some v"
proof -
  have m: "norm_key k \<in> set (map (norm_key \<circ> fst) attrs)" using assms(2) by force
  have "norm_key k \<notin> set (map ((\<lambda>k. ''resource_'' @ norm_key k) \<circ> fst) resource)"
    "norm_key k \<notin> set [''otel_body'', ''otel_scope_name'', ''otel_scope_version'']"
    using d m unfolding payload_keys_def distinct_append set_append by blast+
  then have n: "norm_key k \<notin> (\<lambda>k. ''resource_'' @ norm_key k) ` fst ` set resource" "norm_key k \<noteq> ''otel_body''"
    "norm_key k \<noteq> ''otel_scope_name''" "norm_key k \<noteq> ''otel_scope_version''"
    unfolding set_map image_comp [symmetric] by simp_all
  have "map_of (rename_into norm_key attrs []) (norm_key k) = Some v"
    by (rule rename_into_lookup) (use d assms(2) in \<open>simp_all add: payload_keys_def\<close>)
  then show ?thesis unfolding claude_payload_rename using n
    by (simp add: scope_fields_other update_conv' rename_into_other)
qed

lemma claude_payload_resource:
  assumes d: "distinct (payload_keys attrs resource)" and "(k, v) \<in> set resource"
  shows "map_of (claude_payload obj attrs resource body) (''resource_'' @ norm_key k) = Some v"
proof -
  have "map_of (rename_into (\<lambda>k. ''resource_'' @ norm_key k) resource (rename_into norm_key attrs [])) (''resource_'' @ norm_key k) = Some v"
    by (rule rename_into_lookup) (use d assms(2) in \<open>simp_all add: payload_keys_def\<close>)
  then show ?thesis unfolding claude_payload_rename by (simp add: scope_fields_other update_conv')
qed

text \<open>A structured record whose service is registered gives one row of the lake's envelope: the
  time, the registered tool, the event name, and a payload that decodes to an object with the body, every
  attribute under its key with dots replaced, and every resource field under \<open>resource_\<close> and its key,
  each with its value, as long as no two of those keys coincide.\<close>

theorem structured_row_complete:
  assumes "loads m = Some (JObj obj)" and "wf_json (JObj obj)"
    and "map_of obj ''tool'' = None" and "\<not> is_emf_event obj"
    and "dict_get obj ''body'' = JStr body"
    and "dict_get obj ''attributes'' = JObj attrs" and "dict_get obj ''resource'' = JObj resource"
    and "json_index (service_tool_map ctx) (py_str (the_default (JStr []) (map_of resource ''service.name''))) = Inr tool"
    and "wf_json tool" and "event_time ctx attrs obj = Inr ts"
    and "distinct (payload_keys attrs resource)"
  shows "\<exists>e payload. events_of_message ctx m = [e] \<and> canonical_event e ts tool (event_name attrs body) payload \<and>
     map_of payload ''otel_body'' = Some (JStr body) \<and>
     (\<forall>(k, v) \<in> set attrs. map_of payload (norm_key k) = Some v) \<and>
     (\<forall>(k, v) \<in> set resource. map_of payload (''resource_'' @ norm_key k) = Some v)"
proof (intro exI conjI)
  let ?p = "claude_payload obj attrs resource body"
  have "structured obj" using assms(5-7) by (simp add: structured_def)
  then have "reshape_message ctx m = Inr (canonical_row ts tool (event_name attrs body) ?p)"
    using reshape_message_structured [OF assms(1,3) _ assms(5)] assms(6-8,10) by (simp add: reshape_claude_def to_map_def)
  then show "events_of_message ctx m = [canonical_row ts tool (event_name attrs body) ?p]"
    using assms(1,4) by (simp add: events_of_message_def reshape_records_def)
  have "wf_json (JObj attrs)" "wf_json (JObj resource)"
    using wf_dict_get [OF assms(2), of "''attributes''"] wf_dict_get [OF assms(2), of "''resource''"] assms(6,7) by simp_all
  then show "canonical_event (canonical_row ts tool (event_name attrs body) ?p) ts tool (event_name attrs body) ?p"
    by (intro canonical_row_event claude_payload_wf assms)
  show "map_of ?p ''otel_body'' = Some (JStr body)"
    unfolding claude_payload_rename by (simp add: scope_fields_other update_conv')
  show "\<forall>(k, v) \<in> set attrs. map_of ?p (norm_key k) = Some v" using claude_payload_attr [OF assms(11)] by blast
  show "\<forall>(k, v) \<in> set resource. map_of ?p (''resource_'' @ norm_key k) = Some v" using claude_payload_resource [OF assms(11)] by blast
qed

subsection \<open>Metric events\<close>

definition emf_kept :: "(string, json) dict \<Rightarrow> string list \<Rightarrow> (string, json) dict" where
  "emf_kept obj metric_names = filter (\<lambda>(k, v). k \<notin> set [''_aws'', ''OTelLib'', ''Version''] \<and> k \<notin> set metric_names) obj"

definition emf_keys :: "(string, json) dict \<Rightarrow> string list \<Rightarrow> string list" where
  "emf_keys obj metric_names = map (emf_key \<circ> fst) (emf_kept obj metric_names) @
     [''otel_scope_name'', ''value'', ''unit'', ''metric_type'', ''otel_signal'']"

lemma emf_base_rename:
  "emf_base obj names = (let base = rename_into emf_key (emf_kept obj names) [] in
     if dict_get obj ''OTelLib'' \<noteq> JNull then AList.update ''otel_scope_name'' (dict_get obj ''OTelLib'') base else base)"
  by (simp add: emf_base_def rename_into_def emf_kept_def)

lemma emf_kept_wf: "wf_json (JObj obj) \<Longrightarrow> \<forall>(k, v) \<in> set (emf_kept obj names). wf_json v"
  by (auto simp: emf_kept_def)

lemma emf_payload_wf:
  assumes "wf_json (JObj obj)" "wf_json (JObj metric)"
  shows "wf_json (JObj (emf_payload obj (emf_base obj names) name metric))"
proof -
  have "wf_json (JObj (rename_into emf_key (emf_kept obj names) []))"
    by (rule wf_rename_into) (use assms emf_kept_wf [of obj names] in auto)
  then have "wf_json (JObj (emf_base obj names))"
    unfolding emf_base_rename by (simp add: Let_def wf_update wf_dict_get [OF assms(1)] del: wf_json.simps)
  then show ?thesis unfolding emf_payload_def by (intro wf_update wf_dict_get assms) simp_all
qed

lemma emf_payload_field:
  assumes d: "distinct (emf_keys obj names)" and m: "(k, v) \<in> set (emf_kept obj names)"
  shows "map_of (emf_payload obj (emf_base obj names) name metric) (emf_key k) = Some v"
proof -
  have "emf_key k \<in> set (map (emf_key \<circ> fst) (emf_kept obj names))" using m by force
  then have n: "emf_key k \<notin> set [''otel_scope_name'', ''value'', ''unit'', ''metric_type'', ''otel_signal'']"
    using d unfolding emf_keys_def distinct_append by blast
  have "map_of (rename_into emf_key (emf_kept obj names) []) (emf_key k) = Some v"
    by (rule rename_into_lookup) (use d m in \<open>simp_all add: emf_keys_def\<close>)
  then show ?thesis using n by (simp add: emf_payload_def emf_base_rename Let_def update_conv')
qed

lemma emf_payload_metric:
  "map_of (emf_payload obj base name metric) ''value'' = Some (dict_get obj name)"
  "map_of (emf_payload obj base name metric) ''unit'' = Some (dict_get metric ''Unit'')"
  "map_of (emf_payload obj base name metric) ''otel_signal'' = Some (JStr ''metric'')"
  by (simp_all add: emf_payload_def update_conv')

lemma mapM_Inr_member: "mapM f xs = Inr ys \<Longrightarrow> y \<in> set ys \<Longrightarrow> \<exists>x \<in> set xs. f x = Inr y"
  by (induction xs arbitrary: ys) (auto simp: bindR_Inr_iff)

lemma metric_decls_wf:
  assumes "wf_json (JObj a)" "metric_decls a = Inr decls" "(n, metric) \<in> set decls"
  shows "wf_json (JObj metric)"
proof -
  have it: "iter_or_empty v = Inr xs \<Longrightarrow> wf_json v \<Longrightarrow> \<forall>x \<in> set xs. wf_json x" for v xs
    by (auto simp: iter_or_empty_def dest: wf_iter split: if_splits)
  obtain sets dss where s: "iter_or_empty (dict_get a ''CloudWatchMetrics'') = Inr sets"
    "mapM (\<lambda>cw. case cw of JObj c \<Rightarrow> bindR (iter_or_empty (dict_get c ''Metrics'')) (\<lambda>ms. Inr (List.map_filter metric_name ms))
       | _ \<Rightarrow> Inr []) sets = Inr dss" "decls = concat dss"
    using assms(2) by (auto simp: metric_decls_def bindR_Inr_iff)
  obtain ds where ds: "ds \<in> set dss" "(n, metric) \<in> set ds" using assms(3) s(3) by auto
  then obtain cw where cw: "cw \<in> set sets" "(case cw of JObj c \<Rightarrow> bindR (iter_or_empty (dict_get c ''Metrics'')) (\<lambda>ms. Inr (List.map_filter metric_name ms))
       | _ \<Rightarrow> Inr []) = Inr ds"
    using mapM_Inr_member [OF s(2)] by blast
  obtain c where c: "cw = JObj c" using cw(2) ds(2) by (cases cw) simp_all
  obtain ms where ms: "iter_or_empty (dict_get c ''Metrics'') = Inr ms" "ds = List.map_filter metric_name ms"
    using cw c by (auto simp: bindR_Inr_iff)
  have "wf_json (JObj c)" using it [OF s(1) wf_dict_get [OF assms(1)]] cw c by blast
  then have "\<forall>x \<in> set ms. wf_json x" using it [OF ms(1)] wf_dict_get by blast
  moreover obtain x where "x \<in> set ms" "metric_name x = Some (n, metric)"
    using ds(2) ms(2) by (auto simp: List.map_filter_def)
  moreover from this have "x = JObj metric" by (auto simp: metric_name_def split: json.splits if_splits)
  ultimately show ?thesis by blast
qed

text \<open>A metric event whose service is registered gives exactly one row per distinct metric name it
  declares, however often the name is declared: the row's type is the name, its payload decodes to an
  object with the metric's value, the unit of the first declaration and the metric marker, and with every
  other field of the event under its normalised key, as long as no two of those keys coincide.\<close>

theorem emf_row_per_metric:
  assumes "loads m = Some (JObj obj)" and "wf_json (JObj obj)" and "is_emf_event obj"
    and "dict_get obj ''_aws'' = JObj a" and "emf_timestamp_iso ctx a = Inr ts" and "metric_decls a = Inr decls"
    and "json_index (service_tool_map ctx) (py_str (the_default (JStr []) (map_of obj ''service.name''))) = Inr tool"
    and "wf_json tool" and "distinct (emf_keys obj (map fst decls))"
  shows "\<exists>names. distinct names \<and> set names = fst ` set decls \<and>
     list_all2 (\<lambda>name e. \<exists>metric payload. map_of decls name = Some metric \<and> canonical_event e ts tool name payload \<and>
        map_of payload ''value'' = Some (dict_get obj name) \<and> map_of payload ''unit'' = Some (dict_get metric ''Unit'') \<and>
        map_of payload ''otel_signal'' = Some (JStr ''metric'') \<and>
        (\<forall>(k, v) \<in> set (emf_kept obj names). map_of payload (emf_key k) = Some v))
       names (events_of_message ctx m)"
proof (intro exI conjI)
  let ?ms = "metric_by_name decls"
  let ?names = "dict_keys ?ms"
  show "distinct ?names" by (simp add: dict_keys_def metric_by_name_wf)
  show s: "set ?names = fst ` set decls" by (simp add: dict_keys_def metric_by_name_keys)
  then have d: "distinct (emf_keys obj ?names)" using assms(9) by (simp add: emf_keys_def emf_kept_def)
  have "reshape_emf ctx obj = Inr (map (\<lambda>(name, metric). canonical_row ts tool name (emf_payload obj (emf_base obj ?names) name metric)) ?ms)"
    using assms(4-7) by (simp add: reshape_emf_def Let_def)
  then have ev: "events_of_message ctx m = map (\<lambda>(name, metric). canonical_row ts tool name (emf_payload obj (emf_base obj ?names) name metric)) ?ms"
    using assms(1,3) by (simp add: events_of_message_def reshape_records_def)
  have row: "\<exists>metric' payload. map_of decls name = Some metric' \<and>
      canonical_event (canonical_row ts tool name (emf_payload obj (emf_base obj ?names) name metric)) ts tool name payload \<and>
      map_of payload ''value'' = Some (dict_get obj name) \<and> map_of payload ''unit'' = Some (dict_get metric' ''Unit'') \<and>
      map_of payload ''otel_signal'' = Some (JStr ''metric'') \<and>
      (\<forall>(k, v) \<in> set (emf_kept obj ?names). map_of payload (emf_key k) = Some v)"
    if "(name, metric) \<in> set ?ms" for name metric
  proof (intro exI conjI)
    show l: "map_of decls name = Some metric" using map_of_is_SomeI [OF metric_by_name_wf that] by (simp add: metric_by_name_lookup)
    have "wf_json (JObj metric)"
      using metric_decls_wf [OF _ assms(6) map_of_SomeD [OF l]] wf_dict_get [OF assms(2), of "''_aws''"] assms(4) by simp
    then show "canonical_event (canonical_row ts tool name (emf_payload obj (emf_base obj ?names) name metric)) ts tool name
        (emf_payload obj (emf_base obj ?names) name metric)"
      by (intro canonical_row_event emf_payload_wf assms)
  qed (use d in \<open>auto simp: emf_payload_metric emf_payload_field\<close>)
  show "list_all2 (\<lambda>name e. \<exists>metric payload. map_of decls name = Some metric \<and> canonical_event e ts tool name payload \<and>
        map_of payload ''value'' = Some (dict_get obj name) \<and> map_of payload ''unit'' = Some (dict_get metric ''Unit'') \<and>
        map_of payload ''otel_signal'' = Some (JStr ''metric'') \<and>
        (\<forall>(k, v) \<in> set (emf_kept obj ?names). map_of payload (emf_key k) = Some v))
       ?names (events_of_message ctx m)"
    unfolding ev dict_keys_def list_all2_map1 list_all2_map2
  proof (rule list.rel_refl_strong)
    fix x
    assume x: "x \<in> set ?ms"
    obtain name metric where n: "x = (name, metric)" by force
    show "\<exists>metric payload. map_of decls (fst x) = Some metric \<and>
        canonical_event (case x of (name, metric) \<Rightarrow> canonical_row ts tool name (emf_payload obj (emf_base obj (map fst ?ms)) name metric))
          ts tool (fst x) payload \<and>
        map_of payload ''value'' = Some (dict_get obj (fst x)) \<and> map_of payload ''unit'' = Some (dict_get metric ''Unit'') \<and>
        map_of payload ''otel_signal'' = Some (JStr ''metric'') \<and>
        (\<forall>(k, v) \<in> set (emf_kept obj (map fst ?ms)). map_of payload (emf_key k) = Some v)"
      unfolding n split fst_conv by (rule row [OF x [unfolded n], unfolded dict_keys_def])
  qed
qed

section \<open>Bounds\<close>

text \<open>C22. Re-ingestion always ends, whatever the stream answers: it makes at most \<open>max_attempts\<close> calls
  for each group of 500 events, and every call hands over at most 500 of the events it was given, in
  their order.\<close>

theorem reingest_bounded:
  assumes "reingest put ctx records s = (r, s')"
  shows "\<exists>calls. batches (world s') = batches (world s) @ calls \<and>
     length calls \<le> nat (max_attempts ctx) * ((length records + 499) div 500) \<and>
     (\<forall>b \<in> set calls. length b \<le> 500 \<and> subseq b records)"
proof -
  let ?cs = "chunks PUT_RECORD_BATCH_MAX records"
  have k: "0 < PUT_RECORD_BATCH_MAX" by (simp add: PUT_RECORD_BATCH_MAX_def)
  obtain bs where bs: "batches (world s') = batches (world s) @ bs" "length bs \<le> nat (max_attempts ctx) * length ?cs"
    "\<forall>b \<in> set bs. \<exists>c \<in> set ?cs. subseq b c"
    using put_chunks_batches [of put ctx ?cs s r s'] assms by (auto simp: reingest_def)
  have "length b \<le> 500 \<and> subseq b records" if b: "b \<in> set bs" for b
  proof -
    obtain c where c: "c \<in> set ?cs" "subseq b c" using bs(3) b by blast
    obtain xs ys where "?cs = xs @ c # ys" using split_list [OF c(1)] by blast
    then have "records = concat xs @ c @ concat ys" using concat_chunks [OF k, of records] by simp
    then have "subseq c records" by (metis list_emb_append2 prefixI prefix_imp_subseq)
    then have "subseq b records" using c(2) by (rule subseq_order.trans [rotated])
    moreover have "length b \<le> 500"
      using list_emb_length [OF c(2)] chunk_sizes [OF c(1)] by (simp add: PUT_RECORD_BATCH_MAX_def)
    ultimately show ?thesis by blast
  qed
  then show ?thesis using bs(1,2) chunk_count [OF k, of records] by (auto simp: PUT_RECORD_BATCH_MAX_def add.commute)
qed

text \<open>Without an attempt nothing is sent, and yet the call succeeds: a configured
  \<open>REINGEST_MAX_ATTEMPTS\<close> of 0 drops every delivery.\<close>

lemma reingest_no_attempts:
  assumes "max_attempts ctx \<le> 0"
  shows "reingest put ctx records s = (Inr (), s)"
proof -
  have "put_chunks put ctx cs s = (Inr (), s)" for cs
    using assms by (induction cs) (simp_all add: thenC_def bindC_def)
  then show ?thesis by (simp add: reingest_def)
qed

text \<open>Two attributes whose keys differ only in dots overwrite each other.\<close>

lemma colliding_attributes:
  "claude_payload [] [(''a.b'', JInt 1), (''a_b'', JInt 2)] [] ''x'' = [(''a_b'', JInt 2), (''otel_body'', JStr ''x'')]"
  by code_simp

section \<open>An example\<close>

text \<open>A stream that refuses the first record of its first batch.\<close>

definition ex_put :: "(nat \<times> string list) firehose" where
  "ex_put stream recs v = (let rs = (if fst v = 0 \<and> recs \<noteq> [] then JObj [(''ErrorCode'', JStr ''Busy'')] # map (\<lambda>_. JObj []) (tl recs)
       else map (\<lambda>_. JObj []) recs) in
     (Put_Response (JObj [(''FailedPutCount'', JInt (int (length (rejected rs recs)))), (''RequestResponses'', JList rs)]),
      (Suc (fst v), snd v @ accepted rs recs)))"

lemma ex_put_acknowledges: "acknowledges ex_put (\<lambda>v. mset (snd v))"
proof -
  have "\<exists>rs. batch_response response recs rs \<and> mset (snd v') = mset (snd v) + mset (accepted rs recs)"
    if "ex_put stream recs v = (Put_Response response, v')" for stream recs v response v'
  proof (intro exI conjI)
    let ?rs = "if fst v = 0 \<and> recs \<noteq> [] then JObj [(''ErrorCode'', JStr ''Busy'')] # map (\<lambda>_. JObj []) (tl recs) else map (\<lambda>_. JObj []) recs"
    show "batch_response response recs ?rs" using that
      by (cases recs) (auto simp: ex_put_def Let_def batch_response_def list_all_iff)
    show "mset (snd v') = mset (snd v) + mset (accepted ?rs recs)" using that
      by (auto simp: ex_put_def Let_def)
  qed
  moreover have "ex_put stream recs v \<noteq> (Put_Raises e, v')" for stream recs v e v' by (auto simp: ex_put_def Let_def)
  ultimately show ?thesis unfolding acknowledges_def by (auto split: prod.splits put_answer.splits)
qed

definition ex_ctx :: split_ctx where
  "ex_ctx = \<lparr>stream_name = ''lake'', max_attempts = 2, service_tool_map = JObj [(''agent'', JStr ''agent'')],
     epoch_iso = (\<lambda>n d. Inl ValueError), now_iso = ''now''\<rparr>"

definition ex_envelope :: json where
  "ex_envelope = JObj [(''messageType'', JStr ''DATA_MESSAGE''), (''logEvents'', JList [JObj [(''message'', JStr ''hi'')], JObj [(''message'', JStr ''yo'')]])]"

definition ex_gunzip :: "string \<Rightarrow> exn + string" where
  "ex_gunzip d = Inr (dumps compact_opts ex_envelope)"

definition ex_records :: "json list" where
  "ex_records = [JObj [(''recordId'', JStr ''r1''), (''data'', JStr ''eA=='')], JObj [(''recordId'', JStr ''r2''), (''data'', JStr ''H4s='')]]"

definition ex_out :: "(json \<times> transform_result) list" where
  "ex_out = [(JStr ''r1'', Ok (JStr ''eA=='')), (JStr ''r2'', Dropped)]"

definition ex_fh :: "(nat \<times> string list) fh ci_state" where
  "ex_fh = \<lparr>world = \<lparr>fh_world = (0, []), batches = []\<rparr>, cmds = [], environ = [], files = [], readonly = [], printed = []\<rparr>"

definition ex_fh' :: "(nat \<times> string list) fh ci_state" where
  "ex_fh' = ex_fh\<lparr>world := \<lparr>fh_world = (2, [''yo'', ''hi'']), batches = [[''hi'', ''yo''], [''hi'']]\<rparr>\<rparr>"

lemma ex_handler: "handler ex_put ex_gunzip ex_ctx (JObj [(''records'', JList ex_records)]) ex_fh = (Inr ex_out, ex_fh')"
  by code_simp

lemma ex_event: "json_index (JObj [(''records'', JList ex_records)]) ''records'' = Inr (JList ex_records)"
  by (simp add: json_index_def)

theorem handler_one_to_one_witness:
  "list_all2 (\<lambda>rec (rid, result). json_index rec ''recordId'' = Inr rid \<and>
      (\<exists>raw d. json_index rec ''data'' = Inr raw \<and> b64decode raw = Inr d \<and>
        (if is_gzip d then result = Dropped \<or> result = ProcessingFailed else result = Ok raw))) ex_records ex_out"
  by (rule handler_one_to_one [OF ex_event ex_handler])

lemma ex_delivered: "delivered ex_gunzip ex_ctx ex_records ex_out = {#''hi'', ''yo''#}"
proof -
  have "record_events ex_gunzip ex_ctx (ex_records ! 0) = []" "record_events ex_gunzip ex_ctx (ex_records ! 1) = [''hi'', ''yo'']"
    by code_simp+
  then show ?thesis by (simp add: delivered_def ex_records_def ex_out_def)
qed

theorem dropped_means_delivered_witness: "mset (snd (fh_world (world ex_fh'))) = mset (snd (fh_world (world ex_fh))) + {#''hi'', ''yo''#}"
proof -
  have "ProcessingFailed \<notin> snd ` set ex_out" "0 < max_attempts ex_ctx" by (simp_all add: ex_out_def ex_ctx_def)
  then show ?thesis using dropped_means_delivered [OF ex_put_acknowledges _ ex_event ex_handler] by (simp add: ex_delivered)
qed


theorem reingest_bounded_witness:
  "\<exists>calls. batches (world ex_fh') = batches (world ex_fh) @ calls \<and>
     length calls \<le> nat (max_attempts ex_ctx) * ((length [''hi'', ''yo''] + 499) div 500) \<and>
     list_all (\<lambda>b. length b \<le> 500 \<and> subseq b [''hi'', ''yo'']) calls"
proof -
  have "reingest ex_put ex_ctx [''hi'', ''yo''] ex_fh = (Inr (), ex_fh')" by code_simp
  from reingest_bounded [OF this] show ?thesis by (simp add: list_all_iff)
qed

definition ex_attrs :: "(string, json) dict" where
  "ex_attrs = [(''event.name'', JStr ''prompt''), (''event.timestamp'', JStr ''t0''), (''tokens'', JInt 7)]"

definition ex_resource :: "(string, json) dict" where
  "ex_resource = [(''service.name'', JStr ''agent'')]"

definition ex_obj :: "(string, json) dict" where
  "ex_obj = [(''body'', JStr ''b''), (''attributes'', JObj ex_attrs), (''resource'', JObj ex_resource)]"

definition ex_metrics :: json where
  "ex_metrics = JList [JObj [(''Name'', JStr ''m.a''), (''Unit'', JStr ''Count'')], JObj [(''Name'', JStr ''m.a''), (''Unit'', JNull)]]"

definition ex_aws :: "(string, json) dict" where
  "ex_aws = [(''CloudWatchMetrics'', JList [JObj [(''Metrics'', ex_metrics)]])]"

definition ex_emf :: "(string, json) dict" where
  "ex_emf = [(''_aws'', JObj ex_aws), (''service.name'', JStr ''agent''), (''user'', JStr ''u1''), (''m.a'', JInt 5)]"

lemmas ex_obj_defs = ex_attrs_def ex_resource_def ex_obj_def
lemmas ex_emf_defs = ex_metrics_def ex_aws_def ex_emf_def

lemma ex_obj_wf: "wf_json (JObj ex_obj)" by (simp add: ex_obj_defs)

lemma ex_emf_wf: "wf_json (JObj ex_emf)" by (simp add: ex_emf_defs)

lemma ex_text: "wf_json v \<Longrightarrow> loads (dumps compact_opts v) = Some v"
  by (simp add: loads_dumps)

theorem body_contract_untouched_witness:
  "events_of_message ex_ctx (dumps compact_opts (JObj [(''tool'', JStr ''cli'')])) = [utf8 (dumps compact_opts (JObj [(''tool'', JStr ''cli'')]))] \<and>
   \<not> (\<exists>m'. utf8 m' = utf8 (dumps compact_opts (JObj [(''tool'', JStr ''cli'')])) \<and> m' \<noteq> dumps compact_opts (JObj [(''tool'', JStr ''cli'')]))"
proof -
  have "loads (dumps compact_opts (JObj [(''tool'', JStr ''cli'')])) = Some (JObj [(''tool'', JStr ''cli'')])" by (rule ex_text) simp
  then have "\<forall>obj. loads (dumps compact_opts (JObj [(''tool'', JStr ''cli'')])) = Some (JObj obj) \<longrightarrow>
      map_of obj ''tool'' \<noteq> None \<or> \<not> is_emf_event obj \<and> \<not> structured obj"
    by (simp del: dumps.simps)
  from body_contract_untouched [OF this] show ?thesis by blast
qed

theorem message_kept_or_filed_witness: "\<not> (\<exists>e \<in> set (events_of_message ex_ctx ''hello''). e \<noteq> utf8 ''hello'') \<and> events_of_message ex_ctx ''hello'' \<noteq> []"
proof -
  have l: "loads ''hello'' = None" by code_simp
  show ?thesis using message_kept_or_filed [of ex_ctx "''hello''"] unfolding l by blast
qed

theorem structured_row_complete_witness:
  "\<exists>e payload. events_of_message ex_ctx (dumps compact_opts (JObj ex_obj)) = [e] \<and>
     canonical_event e ''t0'' (JStr ''agent'') (event_name ex_attrs ''b'') payload \<and> map_of payload ''otel_body'' = Some (JStr ''b'') \<and>
     map_of payload ''tokens'' = Some (JInt 7) \<and> map_of payload ''resource_service_name'' = Some (JStr ''agent'')"
proof -
  have t: "json_index (service_tool_map ex_ctx) (py_str (the_default (JStr []) (map_of ex_resource ''service.name''))) = Inr (JStr ''agent'')"
    by code_simp
  have e: "event_time ex_ctx ex_attrs ex_obj = Inr ''t0''" by code_simp
  have k: "distinct (payload_keys ex_attrs ex_resource)" by code_simp
  have o: "map_of ex_obj ''tool'' = None" "\<not> is_emf_event ex_obj" "dict_get ex_obj ''body'' = JStr ''b''"
    "dict_get ex_obj ''attributes'' = JObj ex_attrs" "dict_get ex_obj ''resource'' = JObj ex_resource" by code_simp+
  have n: "norm_key ''tokens'' = ''tokens''" "norm_key ''service.name'' = ''service_name''" by code_simp+
  have m: "(''tokens'', JInt 7) \<in> set ex_attrs" "(''service.name'', JStr ''agent'') \<in> set ex_resource"
    by (simp_all add: ex_attrs_def ex_resource_def)
  obtain e payload where "events_of_message ex_ctx (dumps compact_opts (JObj ex_obj)) = [e]"
    "canonical_event e ''t0'' (JStr ''agent'') (event_name ex_attrs ''b'') payload" "map_of payload ''otel_body'' = Some (JStr ''b'')"
    and a: "\<forall>(k, v) \<in> set ex_attrs. map_of payload (norm_key k) = Some v"
    and r: "\<forall>(k, v) \<in> set ex_resource. map_of payload (''resource_'' @ norm_key k) = Some v"
    using structured_row_complete [OF ex_text [OF ex_obj_wf] ex_obj_wf o t _ e k] by auto
  moreover have "map_of payload ''tokens'' = Some (JInt 7)" using bspec [OF a m(1)] by (simp add: n)
  moreover have "map_of payload ''resource_service_name'' = Some (JStr ''agent'')" using bspec [OF r m(2)] by (simp add: n)
  ultimately show ?thesis by blast
qed

theorem emf_row_per_metric_witness:
  "\<exists>e payload. events_of_message ex_ctx (dumps compact_opts (JObj ex_emf)) = [e] \<and>
     canonical_event e ''now'' (JStr ''agent'') ''m.a'' payload \<and> map_of payload ''value'' = Some (JInt 5) \<and>
     map_of payload ''unit'' = Some (JStr ''Count'') \<and> map_of payload ''otel_signal'' = Some (JStr ''metric'') \<and>
     map_of payload ''user'' = Some (JStr ''u1'')"
proof -
  let ?decls = "[(''m.a'', [(''Name'', JStr ''m.a''), (''Unit'', JStr ''Count'')]), (''m.a'', [(''Name'', JStr ''m.a''), (''Unit'', JNull)])]"
  have d: "metric_decls ex_aws = Inr ?decls" by code_simp
  have e: "is_emf_event ex_emf" "dict_get ex_emf ''_aws'' = JObj ex_aws" "emf_timestamp_iso ex_ctx ex_aws = Inr ''now''" by code_simp+
  have t: "json_index (service_tool_map ex_ctx) (py_str (the_default (JStr []) (map_of ex_emf ''service.name''))) = Inr (JStr ''agent'')" by code_simp
  have k: "distinct (emf_keys ex_emf (map fst ?decls))" by code_simp
  have n: "emf_key ''user'' = ''user''" "dict_get ex_emf ''m.a'' = JInt 5" by code_simp+
  obtain names where names: "distinct names" "set names = {''m.a''}"
    and rows: "list_all2 (\<lambda>name e. \<exists>metric payload. map_of ?decls name = Some metric \<and>
        canonical_event e ''now'' (JStr ''agent'') name payload \<and>
        map_of payload ''value'' = Some (dict_get ex_emf name) \<and> map_of payload ''unit'' = Some (dict_get metric ''Unit'') \<and>
        map_of payload ''otel_signal'' = Some (JStr ''metric'') \<and>
        (\<forall>(k, v) \<in> set (emf_kept ex_emf names). map_of payload (emf_key k) = Some v))
       names (events_of_message ex_ctx (dumps compact_opts (JObj ex_emf)))"
    using emf_row_per_metric [OF ex_text [OF ex_emf_wf] ex_emf_wf e d t _ k] by auto
  have "names = [''m.a'']" using names by (cases names; cases "tl names") auto
  moreover have "(''user'', JStr ''u1'') \<in> set (emf_kept ex_emf [''m.a''])" by code_simp
  ultimately show ?thesis using rows n by (fastforce simp: list_all2_Cons1 dict_get_def)
qed

end
