(* ===== verification/Cloud.thy ===== *)
theory Cloud
  imports Accounts
begin

text \<open>
  What the scripts that drive AWS see of it: a client call by its name and keyword arguments, its
  answer, and the log of all calls made.

  A call of \<open>client.m(**kw)\<close> on a client of service \<open>sv\<close> is \<open>aws_call aws (sv, m) kw\<close>. The service is an
  arbitrary function on an outside world \<open>'v\<close>, so it may change between two calls in any way, as it
  does when other clients are at work. A paginator is one call that answers the pages it yields and the
  error that ends the iteration, if any. A \<open>ClientError\<close> is its error code.
\<close>

section \<open>Calls\<close>

datatype aws_answer = Aws_Ok json | Aws_Pages "json list" "exn option" | Aws_Raises exn

type_synonym op = "string \<times> string"
type_synonym kwargs = "(string, json) dict"
type_synonym 'v aws = "op \<Rightarrow> kwargs \<Rightarrow> 'v \<Rightarrow> aws_answer \<times> 'v"

record 'v cloud =
  outside :: 'v
  calls :: "(op \<times> kwargs) list"

definition log_call :: "'v aws \<Rightarrow> op \<Rightarrow> kwargs \<Rightarrow> ('v cloud, aws_answer) ci" where
  "log_call aws f kw = (\<lambda>s.
     let (a, v) = aws f kw (outside (world s))
     in (Inr a, s\<lparr>world := \<lparr>outside = v, calls = calls (world s) @ [(f, kw)]\<rparr>\<rparr>))"

text \<open>An operation answers a value, a paginator its pages; an answer of the other kind is no value the
  caller can use.\<close>

definition aws_call :: "'v aws \<Rightarrow> op \<Rightarrow> kwargs \<Rightarrow> ('v cloud, json) ci" where
  "aws_call aws f kw = bindC (log_call aws f kw) (\<lambda>a. case a of
      Aws_Ok v \<Rightarrow> ret v | Aws_Raises e \<Rightarrow> raise e | Aws_Pages ps e \<Rightarrow> raise TypeError)"

definition aws_pages :: "'v aws \<Rightarrow> op \<Rightarrow> kwargs \<Rightarrow> ('v cloud, json list \<times> exn option) ci" where
  "aws_pages aws f kw = bindC (log_call aws f kw) (\<lambda>a. case a of
      Aws_Pages ps e \<Rightarrow> ret (ps, e) | Aws_Raises e \<Rightarrow> raise e | Aws_Ok v \<Rightarrow> raise TypeError)"

fun iterC :: "('a \<Rightarrow> ('w, unit) ci) \<Rightarrow> 'a list \<Rightarrow> ('w, unit) ci" where
  "iterC f [] = ret ()"
| "iterC f (x # xs) = thenC (f x) (iterC f xs)"

text \<open>\<open>for page in client.get_paginator(m).paginate(**kw): body(page)\<close>.\<close>

definition for_pages :: "'v aws \<Rightarrow> op \<Rightarrow> kwargs \<Rightarrow> (json \<Rightarrow> ('v cloud, unit) ci) \<Rightarrow> ('v cloud, unit) ci" where
  "for_pages aws f kw body = bindC (aws_pages aws f kw) (\<lambda>(ps, e).
     thenC (iterC body ps) (case e of None \<Rightarrow> ret () | Some x \<Rightarrow> raise x))"

text \<open>\<open>v.get(k, d)\<close> and \<open>v[k]\<close> as steps, and iterating over \<open>v.get(k, [])\<close>.\<close>

definition getd :: "json \<Rightarrow> string \<Rightarrow> json \<Rightarrow> ('w, json) ci" where
  "getd v k d = lift (json_get_default v k d)"

definition items_of :: "json \<Rightarrow> string \<Rightarrow> exn + json list" where
  "items_of v k = bindR (json_get_default v k (JList [])) json_iter"

definition is_client_error :: "exn \<Rightarrow> bool" where
  "is_client_error e = (case e of ClientError _ \<Rightarrow> True | _ \<Rightarrow> False)"

definition has_code :: "string list \<Rightarrow> exn \<Rightarrow> bool" where
  "has_code codes e = (case e of ClientError c \<Rightarrow> c \<in> set codes | _ \<Rightarrow> False)"

lemma aws_call_Inr_iff:
  "aws_call aws f kw s = (Inr r, s') \<longleftrightarrow> (\<exists>v. aws f kw (outside (world s)) = (Aws_Ok r, v) \<and>
     s' = s\<lparr>world := \<lparr>outside = v, calls = calls (world s) @ [(f, kw)]\<rparr>\<rparr>)"
  by (auto simp: aws_call_def log_call_def bindC_def Let_def split: prod.splits aws_answer.splits)

section \<open>Evidence files\<close>

text \<open>\<open>json.dumps(v, indent=2)\<close>.\<close>

fun dumps_indent :: "nat \<Rightarrow> json \<Rightarrow> string" where
  "dumps_indent n (JList xs) = (if xs = [] then ''[]'' else
     ''['' @ [CHR 0x0A] @ join ('','' @ [CHR 0x0A]) (map (\<lambda>x. replicate (n + 2) (CHR '' '') @ dumps_indent (n + 2) x) xs)
       @ [CHR 0x0A] @ replicate n (CHR '' '') @ '']'')"
| "dumps_indent n (JObj kvs) = (if kvs = [] then [CHR 0x7B, CHR 0x7D] else
     [CHR 0x7B, CHR 0x0A] @ join ('','' @ [CHR 0x0A])
       (map (\<lambda>(k, v). replicate (n + 2) (CHR '' '') @ dump_str True k @ '': '' @ dumps_indent (n + 2) v) kvs)
       @ [CHR 0x0A] @ replicate n (CHR '' '') @ [CHR 0x7D])"
| "dumps_indent n v = dumps dflt_opts v"

text \<open>\<open>p.parent.mkdir(parents=True, exist_ok=True)\<close>: directories are not stored, so it only fails on a file
  in the way.\<close>

definition make_parents :: "path \<Rightarrow> ('w, unit) ci" where
  "make_parents p = bindC get_files (\<lambda>fs.
     if list_ex (\<lambda>(q, t). anchored q = anchored p \<and> strict_prefix (parts q) (parts p) \<and> parts q \<noteq> []) fs then raise OSError else ret ())"

section \<open>Which calls a step makes\<close>

definition calls_only :: "(op \<times> kwargs \<Rightarrow> bool) \<Rightarrow> ('v cloud, 'a) ci \<Rightarrow> bool" where
  "calls_only P m = (\<forall>s. \<exists>cs. calls (world (snd (m s))) = calls (world s) @ cs \<and> list_all P cs)"

named_theorems calls_intros "closure of calls_only under the step combinators"

lemma calls_onlyD: "calls_only P m \<Longrightarrow> m s = (r, s') \<Longrightarrow> \<exists>cs. calls (world s') = calls (world s) @ cs \<and> list_all P cs"
  unfolding calls_only_def by (metis snd_conv)

lemma calls_onlyI:
  "(\<And>s r s'. m s = (r, s') \<Longrightarrow> \<exists>cs. calls (world s') = calls (world s) @ cs \<and> list_all P cs) \<Longrightarrow> calls_only P m"
  unfolding calls_only_def by (metis prod.collapse)

lemma calls_mono: "calls_only P m \<Longrightarrow> (\<And>c. P c \<Longrightarrow> Q c) \<Longrightarrow> calls_only Q m"
  unfolding calls_only_def by (metis (no_types, lifting) list_all_iff)

lemma calls_append:
  assumes "calls (world t) = calls (world s) @ cs" "list_all P cs" "\<exists>ds. calls (world u) = calls (world t) @ ds \<and> list_all P ds"
  shows "\<exists>es. calls (world u) = calls (world s) @ es \<and> list_all P es"
proof -
  obtain ds where "calls (world u) = calls (world t) @ ds" "list_all P ds" using assms(3) by blast
  then show ?thesis using assms(1,2) by (intro exI [of _ "cs @ ds"]) simp
qed

lemma calls_bind_result:
  assumes m: "calls_only P m" and k: "\<And>s x s'. m s = (Inr x, s') \<Longrightarrow> calls_only P (k x)"
  shows "calls_only P (bindC m k)"
proof (rule calls_onlyI)
  fix s r s'
  assume b: "bindC m k s = (r, s')"
  obtain q t where q: "m s = (q, t)" by fastforce
  obtain cs where cs: "calls (world t) = calls (world s) @ cs" "list_all P cs" using calls_onlyD [OF m q] by blast
  show "\<exists>cs. calls (world s') = calls (world s) @ cs \<and> list_all P cs"
  proof (cases q)
    case (Inl e)
    then have "s' = t" using b q by (simp add: bindC_def)
    then show ?thesis using cs by blast
  next
    case (Inr x)
    then have "k x t = (r, s')" using b q by (simp add: bindC_def)
    from calls_append [OF cs calls_onlyD [OF k [OF q [unfolded Inr]] this]] show ?thesis .
  qed
qed

lemma calls_bind [calls_intros]: "calls_only P m \<Longrightarrow> (\<And>x. calls_only P (k x)) \<Longrightarrow> calls_only P (bindC m k)"
  by (rule calls_bind_result)

lemma calls_then [calls_intros]: "calls_only P m \<Longrightarrow> calls_only P k \<Longrightarrow> calls_only P (thenC m k)"
  unfolding thenC_def by (rule calls_bind)

lemma calls_try [calls_intros]:
  assumes m: "calls_only P m" and h: "calls_only P h"
  shows "calls_only P (try_except m p h)"
proof (rule calls_onlyI)
  fix s r s'
  assume b: "try_except m p h s = (r, s')"
  obtain q t where q: "m s = (q, t)" by fastforce
  obtain cs where cs: "calls (world t) = calls (world s) @ cs" "list_all P cs" using calls_onlyD [OF m q] by blast
  show "\<exists>cs. calls (world s') = calls (world s) @ cs \<and> list_all P cs"
  proof (cases "\<exists>e. q = Inl e \<and> p e")
    case True
    then have "h t = (r, s')" using b q by (auto simp: try_except_def)
    from calls_append [OF cs calls_onlyD [OF h this]] show ?thesis .
  next
    case False
    then have "s' = t" using b q by (cases q) (auto simp: try_except_def split: if_splits)
    then show ?thesis using cs by blast
  qed
qed

lemma calls_none [calls_intros]:
  "calls_only P (ret x)" "calls_only P (raise e)" "calls_only P (lift r)" "calls_only P die"
  "calls_only P (getenv n)" "calls_only P get_files" "calls_only P (read_text p)" "calls_only P (put_line l)"
  "calls_only P environ_of" "calls_only P (write_text p t)" "calls_only P (getd v k d)" "calls_only P (load_json p)"
  "calls_only P (make_parents p)"
  by (auto simp: calls_only_def ci_defs read_text_def write_text_def environ_of_def getd_def load_json_def make_parents_def
      split: option.splits)

lemma calls_if [calls_intros]:
  "(b \<Longrightarrow> calls_only P m) \<Longrightarrow> (\<not> b \<Longrightarrow> calls_only P k) \<Longrightarrow> calls_only P (if b then m else k)"
  by simp

lemma calls_option [calls_intros]:
  "(x = None \<Longrightarrow> calls_only P m) \<Longrightarrow> (\<And>y. x = Some y \<Longrightarrow> calls_only P (k y)) \<Longrightarrow> calls_only P (case x of None \<Rightarrow> m | Some y \<Rightarrow> k y)"
  by (cases x) simp_all

lemma calls_pair [calls_intros]: "(\<And>a b. x = (a, b) \<Longrightarrow> calls_only P (k a b)) \<Longrightarrow> calls_only P (case x of (a, b) \<Rightarrow> k a b)"
  by (cases x) simp

lemma calls_let [calls_intros]: "calls_only P (k x) \<Longrightarrow> calls_only P (let y = x in k y)"
  by simp

lemma calls_log [calls_intros]: "P (f, kw) \<Longrightarrow> calls_only P (log_call aws f kw)"
  by (auto simp: calls_only_def log_call_def Let_def split: prod.splits)

lemma calls_aws [calls_intros]: "P (f, kw) \<Longrightarrow> calls_only P (aws_call aws f kw)"
  unfolding aws_call_def by (intro calls_bind calls_log) (auto intro: calls_none split: aws_answer.split)

lemma calls_pages [calls_intros]: "P (f, kw) \<Longrightarrow> calls_only P (aws_pages aws f kw)"
  unfolding aws_pages_def by (intro calls_bind calls_log) (auto intro: calls_none split: aws_answer.split)

lemma calls_iter [calls_intros]: "(\<And>x. x \<in> set xs \<Longrightarrow> calls_only P (f x)) \<Longrightarrow> calls_only P (iterC f xs)"
  by (induction xs) (auto intro!: calls_intros)

lemma calls_map [calls_intros]: "(\<And>x. x \<in> set xs \<Longrightarrow> calls_only P (f x)) \<Longrightarrow> calls_only P (mapC f xs)"
  by (induction xs) (auto intro!: calls_intros)

lemma calls_for_pages [calls_intros]:
  "P (f, kw) \<Longrightarrow> (\<And>p. calls_only P (body p)) \<Longrightarrow> calls_only P (for_pages aws f kw body)"
  unfolding for_pages_def by (intro calls_intros) auto

section \<open>How many calls a step makes\<close>

definition calls_within :: "nat \<Rightarrow> ('v cloud, 'a) ci \<Rightarrow> bool" where
  "calls_within n m = (\<forall>s. length (calls (world (snd (m s)))) \<le> length (calls (world s)) + n)"

lemma withinD: "calls_within n m \<Longrightarrow> m s = (r, s') \<Longrightarrow> length (calls (world s')) \<le> length (calls (world s)) + n"
  unfolding calls_within_def by (metis snd_conv)

lemma within_mono: "calls_within k m \<Longrightarrow> k \<le> n \<Longrightarrow> calls_within n m"
  unfolding calls_within_def by (meson add_left_mono le_trans)

lemma within_bind: "calls_within k m \<Longrightarrow> (\<And>x. calls_within n (f x)) \<Longrightarrow> calls_within (k + n) (bindC m f)"
proof -
  assume m: "calls_within k m" and f: "\<And>x. calls_within n (f x)"
  have "length (calls (world (snd (bindC m f s)))) \<le> length (calls (world s)) + (k + n)" for s
  proof -
    obtain q t where q: "m s = (q, t)" by fastforce
    note a = withinD [OF m q]
    show ?thesis
    proof (cases q)
      case (Inr x)
      then show ?thesis using a q withinD [OF f [of x], of t] by (cases "f x t") (auto simp: bindC_def)
    qed (use a q in \<open>simp add: bindC_def\<close>)
  qed
  then show ?thesis by (simp add: calls_within_def)
qed

lemma within_then: "calls_within k m \<Longrightarrow> calls_within n f \<Longrightarrow> calls_within (k + n) (thenC m f)"
  unfolding thenC_def by (rule within_bind)

lemma within_try: "calls_within k m \<Longrightarrow> calls_within n h \<Longrightarrow> calls_within (k + n) (try_except m p h)"
proof -
  assume m: "calls_within k m" and h: "calls_within n h"
  have "length (calls (world (snd (try_except m p h s)))) \<le> length (calls (world s)) + (k + n)" for s
  proof -
    obtain q t where q: "m s = (q, t)" by fastforce
    obtain r u where u: "h t = (r, u)" by fastforce
    show ?thesis using withinD [OF m q] withinD [OF h u] q u
      by (cases q) (auto simp: try_except_def)
  qed
  then show ?thesis by (simp add: calls_within_def)
qed

lemma within_aws: "calls_within 1 (aws_call aws f kw)"
  by (auto simp: calls_within_def aws_call_def log_call_def bindC_def Let_def split: prod.splits aws_answer.splits)

lemma within_none: "calls_only (\<lambda>_. False) m \<Longrightarrow> calls_within n m"
proof -
  assume m: "calls_only (\<lambda>_. False) m"
  have "length (calls (world (snd (m s)))) = length (calls (world s))" for s
  proof -
    obtain cs where "calls (world (snd (m s))) = calls (world s) @ cs" "list_all (\<lambda>_. False) cs"
      using m unfolding calls_only_def by blast
    then show ?thesis by (cases cs) simp_all
  qed
  then show ?thesis by (simp add: calls_within_def)
qed

lemma within_first: "calls_within n m \<Longrightarrow> (\<And>x. calls_only (\<lambda>_. False) (f x)) \<Longrightarrow> calls_within n (bindC m f)"
  by (rule within_bind [of n m 0 f, unfolded add_0_right]) (auto intro: within_none)

lemma within_last: "calls_only (\<lambda>_. False) m \<Longrightarrow> (\<And>x. calls_within n (f x)) \<Longrightarrow> calls_within n (bindC m f)"
  by (rule within_bind [of 0 m n f, unfolded add_0]) (auto intro: within_none)

lemma within_if: "calls_within n m \<Longrightarrow> calls_within n k \<Longrightarrow> calls_within n (if b then m else k)"
  by simp

end
