(* ===== verification/Sweepers.thy ===== *)
theory Sweepers
  imports Cloud
begin

text \<open>
  The per-service deletion handlers of the test-resource sweeper, \<open>scripts/terratest_sweep.py\<close>: how a
  resource name is taken apart, which calls delete it, and the probes that tell a live resource from one
  the tagging index still lists. A client bound to a region has the region in its service name.
  Float arithmetic of the retry budget is exact here.
\<close>

section \<open>Texts\<close>

text \<open>\<open>s.split(sep, 1)\<close> when \<open>sep\<close> occurs, \<open>s.split(sep)\<close>, and the forms the handlers use.\<close>

fun cut :: "string \<Rightarrow> string \<Rightarrow> (string \<times> string) option" where
  "cut sep [] = None"
| "cut sep (c # s) = (if prefix sep (c # s) then Some ([], drop (length sep) (c # s))
     else map_option (\<lambda>(a, b). (c # a, b)) (cut sep s))"

definition after :: "string \<Rightarrow> string \<Rightarrow> string" where
  "after sep s = (case cut sep s of None \<Rightarrow> s | Some (a, b) \<Rightarrow> b)"

fun split_by :: "string \<Rightarrow> nat \<Rightarrow> string \<Rightarrow> string \<Rightarrow> string list" where
  "split_by sep skip cur [] = [rev cur]"
| "split_by sep (Suc k) cur (c # s) = split_by sep k cur s"
| "split_by sep 0 cur (c # s) = (if prefix sep (c # s) then rev cur # split_by sep (length sep - 1) [] s
     else split_by sep 0 (c # cur) s)"

definition split_str :: "string \<Rightarrow> string \<Rightarrow> string list" where
  "split_str sep s = split_by sep 0 [] s"

definition last_seg :: "char \<Rightarrow> string \<Rightarrow> string" where
  "last_seg c s = last (split_on c s)"

definition nth_seg :: "char \<Rightarrow> string \<Rightarrow> nat \<Rightarrow> exn + string" where
  "nth_seg c s n = (let xs = split_on c s in if n < length xs then Inr (xs ! n) else Inl IndexError)"

definition service_prefix_from_arn :: "string \<Rightarrow> string" where
  "service_prefix_from_arn arn = (let ps = split_on (CHR '':'') arn in if length ps < 6 then [] else ps ! 2)"

text \<open>\<open>arn.split(":", 5)[-1] if arn.count(":") >= 5 else arn\<close>.\<close>

definition resource_segment :: "string \<Rightarrow> string" where
  "resource_segment arn = (let ps = split_on (CHR '':'') arn in if 6 \<le> length ps then join '':'' (drop 5 ps) else arn)"

definition ec2_resource_type :: "string \<Rightarrow> string" where
  "ec2_resource_type arn = takeWhile (\<lambda>c. c \<noteq> CHR ''/'') (resource_segment arn)"

definition ec2_resource_id :: "string \<Rightarrow> string" where
  "ec2_resource_id arn = (case cut ''/'' (resource_segment arn) of None \<Rightarrow> [] | Some (a, b) \<Rightarrow> b)"

section \<open>Clients\<close>

definition float_div :: "pyfloat \<Rightarrow> pyfloat \<Rightarrow> pyfloat" where
  "float_div a b = (case (a, b) of
      (Fin x, Fin y) \<Rightarrow> Fin (x / y) | (Fin x, PosInf) \<Rightarrow> Fin 0 | (PosInf, Fin y) \<Rightarrow> PosInf | (NegInf, Fin y) \<Rightarrow> NegInf | _ \<Rightarrow> NaN)"

definition float_to_int :: "(rat \<Rightarrow> int) \<Rightarrow> pyfloat \<Rightarrow> exn + int" where
  "float_to_int f x = (case x of Fin q \<Rightarrow> Inr (f q) | NaN \<Rightarrow> Inl ValueError | _ \<Rightarrow> Inl OtherError)"

definition not_positive :: "pyfloat \<Rightarrow> bool" where
  "not_positive x = (case x of Fin q \<Rightarrow> q \<le> 0 | NegInf \<Rightarrow> True | _ \<Rightarrow> False)"

definition compute_max_attempts :: "pyfloat \<Rightarrow> pyfloat \<Rightarrow> exn + int" where
  "compute_max_attempts poll_timeout poll_interval =
     (if not_positive poll_interval then bindR (float_to_int to_zero poll_timeout) (\<lambda>n. Inr (max 1 (n + 1)))
      else bindR (float_to_int ceiling (float_div poll_timeout poll_interval)) (\<lambda>n. Inr (max 1 (n + 1))))"

definition env_float :: "(string, string) dict \<Rightarrow> string \<Rightarrow> string \<Rightarrow> exn + pyfloat" where
  "env_float env name dflt = (case float_of_str (the_default dflt (map_of env name)) of None \<Rightarrow> Inl ValueError | Some f \<Rightarrow> Inr f)"

definition get_poll_timeout :: "(string, string) dict \<Rightarrow> exn + pyfloat" where
  "get_poll_timeout env = env_float env ''TT_SWEEP_POLL_TIMEOUT'' ''300''"

definition get_poll_interval :: "(string, string) dict \<Rightarrow> exn + pyfloat" where
  "get_poll_interval env = env_float env ''TT_SWEEP_POLL_INTERVAL'' ''10''"

definition client_retry_config :: "(string, string) dict \<Rightarrow> exn + int" where
  "client_retry_config env = bindR (get_poll_timeout env) (\<lambda>t. bindR (get_poll_interval env) (\<lambda>i. compute_max_attempts t i))"

text \<open>Building a client only computes its retry configuration.\<close>

definition make_client :: "('w, unit) ci" where
  "make_client = bindC environ_of (\<lambda>env. bindC (lift (client_retry_config env)) (\<lambda>_. ret ()))"

definition act :: "'v aws \<Rightarrow> op \<Rightarrow> kwargs \<Rightarrow> ('v cloud, unit) ci" where
  "act aws f kw = bindC (aws_call aws f kw) (\<lambda>_. ret ())"

definition each :: "json \<Rightarrow> string \<Rightarrow> (json \<Rightarrow> ('w, unit) ci) \<Rightarrow> ('w, unit) ci" where
  "each v k body = bindC (lift (items_of v k)) (iterC body)"

definition key :: "json \<Rightarrow> string \<Rightarrow> ('w, json) ci" where
  "key v k = lift (json_index v k)"

definition giving :: "string \<Rightarrow> ('w, unit) ci \<Rightarrow> ('w, string) ci" where
  "giving result m = thenC m (ret result)"

definition is_benign_not_found :: "exn \<Rightarrow> bool" where
  "is_benign_not_found e = (case e of ClientError code \<Rightarrow>
      code \<in> set [''InvalidSubnetID.NotFound'', ''InvalidRouteTableID.NotFound'', ''InvalidVpcID.NotFound'', ''InvalidVpcEndpointId.NotFound'',
        ''InvalidInternetGatewayID.NotFound'', ''InvalidGroup.NotFound'', ''InvalidAllocationID.NotFound'', ''InvalidNatGatewayID.NotFound'',
        ''NatGatewayNotFound'', ''InvalidFlowLogId.NotFound'', ''ClusterNotFoundException'', ''ServiceNotFoundException'',
        ''ServiceNotActiveException'', ''ResourceNotFoundException'', ''NoSuchEntity'', ''NoSuchBucket'', ''NoSuchDistribution'',
        ''NoSuchCloudFrontOriginAccessIdentity'', ''NoSuchOriginAccessControl'', ''NoSuchResponseHeadersPolicy'',
        ''WAFNonexistentItemException'', ''NotFoundException'', ''ParameterNotFound''] \<or> contains ''NotFound'' code
    | _ \<Rightarrow> False)"

definition is_dependency_violation :: "exn \<Rightarrow> bool" where
  "is_dependency_violation e = has_code [''DependencyViolation'', ''ResourceInUseException'', ''ResourceInUse''] e"

section \<open>Storage, keys and identities\<close>

definition s3_purge_page :: "'v aws \<Rightarrow> string \<Rightarrow> json \<Rightarrow> ('v cloud, unit) ci" where
  "s3_purge_page aws bucket page =
     bindC (lift (json_get_default page ''Versions'' (JList []))) (\<lambda>a.
     bindC (lift (json_get_default page ''DeleteMarkers'' (JList []))) (\<lambda>b. case (a, b) of
       (JList xs, JList ys) \<Rightarrow>
         if xs @ ys = [] then ret ()
         else bindC (lift (mapM (\<lambda>v. bindR (json_index v ''Key'') (\<lambda>k. bindR (json_index v ''VersionId'') (\<lambda>i.
             Inr (JObj [(''Key'', k), (''VersionId'', i)])))) (xs @ ys))) (\<lambda>objects.
           act aws (''s3'', ''delete_objects'') [(''Bucket'', JStr bucket), (''Delete'', JObj [(''Objects'', JList objects), (''Quiet'', JBool True)])])
     | _ \<Rightarrow> raise TypeError))"

definition s3_delete :: "'v aws \<Rightarrow> string \<Rightarrow> ('v cloud, string) ci" where
  "s3_delete aws arn = (let bucket = hd (split_on (CHR ''/'') (last (split_str '':::'' arn))) in
     giving ''deleted'' (thenC make_client
       (thenC (for_pages aws (''s3'', ''list_object_versions'') [(''Bucket'', JStr bucket)] (s3_purge_page aws bucket))
         (act aws (''s3'', ''delete_bucket'') [(''Bucket'', JStr bucket)]))))"

definition KMS_PENDING_DELETION_STATES :: "json list" where
  "KMS_PENDING_DELETION_STATES = [JStr ''PendingDeletion'', JStr ''PendingReplicaDeletion'']"

definition kms_delete_alias :: "'v aws \<Rightarrow> json \<Rightarrow> ('v cloud, unit) ci" where
  "kms_delete_alias aws alias = bindC (getd alias ''AliasName'' (JStr [])) (\<lambda>n.
     if \<not> truthy n then ret ()
     else case n of
         JStr a \<Rightarrow> if startswith a ''alias/aws/'' then ret ()
           else try_except (act aws (''kms'', ''delete_alias'') [(''AliasName'', n)]) (has_code [''NotFoundException'']) (ret ())
       | _ \<Rightarrow> raise AttributeError)"

definition delete_key_aliases :: "'v aws \<Rightarrow> string \<Rightarrow> ('v cloud, unit) ci" where
  "delete_key_aliases aws key_id = for_pages aws (''kms'', ''list_aliases'') [(''KeyId'', JStr key_id)]
     (\<lambda>page. each page ''Aliases'' (kms_delete_alias aws))"

definition kms_key_state :: "'v aws \<Rightarrow> string \<Rightarrow> ('v cloud, json) ci" where
  "kms_key_state aws key_id = bindC (aws_call aws (''kms'', ''describe_key'') [(''KeyId'', JStr key_id)]) (\<lambda>r.
     bindC (getd r ''KeyMetadata'' (JObj [])) (\<lambda>m. getd m ''KeyState'' (JStr [])))"

definition kms_delete :: "'v aws \<Rightarrow> string \<Rightarrow> ('v cloud, string) ci" where
  "kms_delete aws arn = thenC make_client
     (case cut '':alias/'' arn of
        Some (a, b) \<Rightarrow> giving ''deleted'' (act aws (''kms'', ''delete_alias'') [(''AliasName'', JStr (''alias/'' @ b))])
      | None \<Rightarrow> (let key_id = last_seg (CHR ''/'') arn in
          thenC (delete_key_aliases aws key_id)
          (bindC (try_except (kms_key_state aws key_id) is_client_error (ret (JStr []))) (\<lambda>st.
             if st \<in> set KMS_PENDING_DELETION_STATES then ret ''scheduled''
             else giving ''scheduled'' (act aws (''kms'', ''schedule_key_deletion'') [(''KeyId'', JStr key_id), (''PendingWindowInDays'', JInt 7)])))))"

definition iam_delete_role :: "'v aws \<Rightarrow> string \<Rightarrow> ('v cloud, unit) ci" where
  "iam_delete_role aws role_name =
     bindC (aws_call aws (''iam'', ''list_instance_profiles_for_role'') [(''RoleName'', JStr role_name)]) (\<lambda>r.
     thenC (each r ''InstanceProfiles'' (\<lambda>p. bindC (key p ''InstanceProfileName'') (\<lambda>n.
       act aws (''iam'', ''remove_role_from_instance_profile'') [(''InstanceProfileName'', n), (''RoleName'', JStr role_name)])))
     (bindC (aws_call aws (''iam'', ''list_attached_role_policies'') [(''RoleName'', JStr role_name)]) (\<lambda>q.
     thenC (each q ''AttachedPolicies'' (\<lambda>p. bindC (key p ''PolicyArn'') (\<lambda>a.
       act aws (''iam'', ''detach_role_policy'') [(''RoleName'', JStr role_name), (''PolicyArn'', a)])))
     (bindC (aws_call aws (''iam'', ''list_role_policies'') [(''RoleName'', JStr role_name)]) (\<lambda>u.
     thenC (each u ''PolicyNames'' (\<lambda>n. act aws (''iam'', ''delete_role_policy'') [(''RoleName'', JStr role_name), (''PolicyName'', n)]))
       (act aws (''iam'', ''delete_role'') [(''RoleName'', JStr role_name)]))))))"

definition iam_delete :: "'v aws \<Rightarrow> string \<Rightarrow> ('v cloud, string) ci" where
  "iam_delete aws arn = giving ''deleted'' (thenC make_client
     (if contains '':role/'' arn then iam_delete_role aws (after '':role/'' arn)
      else if contains '':policy/'' arn then
        bindC (aws_call aws (''iam'', ''list_entities_for_policy'') [(''PolicyArn'', JStr arn)]) (\<lambda>r.
        thenC (each r ''PolicyRoles'' (\<lambda>e. bindC (key e ''RoleName'') (\<lambda>n.
          act aws (''iam'', ''detach_role_policy'') [(''RoleName'', n), (''PolicyArn'', JStr arn)])))
        (act aws (''iam'', ''delete_policy'') [(''PolicyArn'', JStr arn)]))
      else if contains '':instance-profile/'' arn then
        (let n = JStr (after '':instance-profile/'' arn) in
         bindC (aws_call aws (''iam'', ''get_instance_profile'') [(''InstanceProfileName'', n)]) (\<lambda>r.
         bindC (getd r ''InstanceProfile'' (JObj [])) (\<lambda>p.
         thenC (each p ''Roles'' (\<lambda>x. bindC (key x ''RoleName'') (\<lambda>rn.
           act aws (''iam'', ''remove_role_from_instance_profile'') [(''InstanceProfileName'', n), (''RoleName'', rn)])))
         (act aws (''iam'', ''delete_instance_profile'') [(''InstanceProfileName'', n)]))))
      else ret ()))"

section \<open>Edge\<close>

definition set_disabled :: "json \<Rightarrow> exn + json" where
  "set_disabled config = (case config of JObj kvs \<Rightarrow> Inr (JObj (AList.update ''Enabled'' (JBool False) kvs)) | _ \<Rightarrow> Inl TypeError)"

definition cloudfront_disable :: "'v aws \<Rightarrow> json \<Rightarrow> json \<Rightarrow> json \<Rightarrow> ('v cloud, json) ci" where
  "cloudfront_disable aws i config etag =
     bindC (lift (set_disabled config)) (\<lambda>off.
     bindC (aws_call aws (''cloudfront'', ''update_distribution'') [(''Id'', i), (''DistributionConfig'', off), (''IfMatch'', etag)]) (\<lambda>u.
     bindC (key u ''ETag'') (\<lambda>_.
     bindC environ_of (\<lambda>env.
     bindC (lift (get_poll_timeout env)) (\<lambda>t.
     bindC (lift (get_poll_interval env)) (\<lambda>p.
     bindC (lift (if not_positive p \<or> p = NaN then Inr 1 else bindR (float_to_int to_zero p) (\<lambda>n. Inr (max 1 n)))) (\<lambda>delay.
     bindC (lift (compute_max_attempts t p)) (\<lambda>n.
     thenC (try_except (act aws (''cloudfront'', ''wait distribution_deployed'')
         [(''Id'', i), (''WaiterConfig'', JObj [(''Delay'', JInt delay), (''MaxAttempts'', JInt n)])])
       (\<lambda>e. e = WaiterError) (raise TimeoutError))
     (bindC (aws_call aws (''cloudfront'', ''get_distribution'') [(''Id'', i)]) (\<lambda>d. key d ''ETag''))))))))))"

definition cloudfront_delete :: "'v aws \<Rightarrow> string \<Rightarrow> ('v cloud, string) ci" where
  "cloudfront_delete aws arn = (let i = JStr (last_seg (CHR ''/'') arn) in
     giving ''deleted'' (thenC make_client
       (bindC (aws_call aws (''cloudfront'', ''get_distribution_config'') [(''Id'', i)]) (\<lambda>resp.
        bindC (key resp ''ETag'') (\<lambda>etag.
        bindC (key resp ''DistributionConfig'') (\<lambda>config.
        bindC (getd config ''Enabled'' (JBool True)) (\<lambda>on.
        bindC (if truthy on then cloudfront_disable aws i config etag else ret etag) (\<lambda>tag.
          act aws (''cloudfront'', ''delete_distribution'') [(''Id'', i), (''IfMatch'', tag)]))))))))"

definition cloudfront_is_live :: "'v aws \<Rightarrow> string \<Rightarrow> ('v cloud, bool) ci" where
  "cloudfront_is_live aws arn = thenC make_client
     (try_except (thenC (act aws (''cloudfront'', ''get_distribution'') [(''Id'', JStr (last_seg (CHR ''/'') arn))]) (ret True))
       is_benign_not_found (ret False))"

definition acm_delete :: "'v aws \<Rightarrow> string \<Rightarrow> ('v cloud, string) ci" where
  "acm_delete aws arn = giving ''deleted'' (thenC make_client (act aws (''acm'', ''delete_certificate'') [(''CertificateArn'', JStr arn)]))"

section \<open>DNS\<close>

definition zone_name :: "'v aws \<Rightarrow> string \<Rightarrow> ('v cloud, string) ci" where
  "zone_name aws zone_id = try_except
     (bindC (aws_call aws (''route53'', ''get_hosted_zone'') [(''Id'', JStr zone_id)]) (\<lambda>r.
      bindC (getd r ''HostedZone'' (JObj [])) (\<lambda>z.
      bindC (getd z ''Name'' (JStr [])) (\<lambda>n. ret (py_str n)))))
     is_client_error (ret [])"

definition delete_change :: "json \<Rightarrow> json" where
  "delete_change rrs = JObj [(''Action'', JStr ''DELETE''), (''ResourceRecordSet'', rrs)]"

text \<open>The loop over the parent's answer: the first matching record is deleted and the search ends.\<close>

fun delete_first_ns :: "'v aws \<Rightarrow> string \<Rightarrow> string \<Rightarrow> json list \<Rightarrow> ('v cloud, bool) ci" where
  "delete_first_ns aws parent_id name [] = ret False"
| "delete_first_ns aws parent_id name (rrs # rest) =
     bindC (lift (json_get rrs ''Name'')) (\<lambda>n.
     bindC (if py_eq n (JStr name) then lift (json_get rrs ''Type'') else ret JNull) (\<lambda>t.
       if py_eq n (JStr name) \<and> py_eq t (JStr ''NS'') then
         thenC (act aws (''route53'', ''change_resource_record_sets'') [(''HostedZoneId'', JStr parent_id),
           (''ChangeBatch'', JObj [(''Changes'', JList [delete_change rrs])])]) (ret True)
       else delete_first_ns aws parent_id name rest))"

definition delegation_in_zone :: "'v aws \<Rightarrow> string \<Rightarrow> string \<Rightarrow> json \<Rightarrow> ('v cloud, bool) ci" where
  "delegation_in_zone aws child name zone =
     bindC (getd zone ''Id'' (JStr [])) (\<lambda>i. case i of
       JStr z \<Rightarrow> (let parent_id = last_seg (CHR ''/'') z in
         if parent_id = child then ret False
         else bindC (getd zone ''Name'' (JStr [])) (\<lambda>pn. let parent_name = py_str pn in
           if \<not> endswith name (''.'' @ parent_name) \<and> name \<noteq> parent_name then ret False
           else bindC (aws_call aws (''route53'', ''list_resource_record_sets'') [(''HostedZoneId'', JStr parent_id),
               (''StartRecordName'', JStr name), (''StartRecordType'', JStr ''NS''), (''MaxItems'', JStr ''1'')]) (\<lambda>r.
             bindC (lift (items_of r ''ResourceRecordSets'')) (\<lambda>rrsets. delete_first_ns aws parent_id name rrsets))))
     | _ \<Rightarrow> raise AttributeError)"

fun untilC :: "('a \<Rightarrow> ('w, bool) ci) \<Rightarrow> 'a list \<Rightarrow> ('w, bool) ci" where
  "untilC f [] = ret False"
| "untilC f (x # xs) = bindC (f x) (\<lambda>b. if b then ret True else untilC f xs)"

definition delete_parent_delegation :: "'v aws \<Rightarrow> string \<Rightarrow> string \<Rightarrow> ('v cloud, unit) ci" where
  "delete_parent_delegation aws child_zone_id name =
     bindC (aws_pages aws (''route53'', ''list_hosted_zones'') []) (\<lambda>(ps, e).
     bindC (untilC (\<lambda>page. bindC (lift (items_of page ''HostedZones'')) (untilC (delegation_in_zone aws (last_seg (CHR ''/'') child_zone_id) name))) ps) (\<lambda>found.
       if found then ret () else case e of None \<Rightarrow> ret () | Some x \<Rightarrow> raise x))"

definition route53_delete :: "'v aws \<Rightarrow> string \<Rightarrow> ('v cloud, string) ci" where
  "route53_delete aws arn = thenC make_client
     (case cut '':hostedzone/'' arn of
        None \<Rightarrow> raise ValueError
      | Some (a, zone_id) \<Rightarrow>
          bindC (zone_name aws zone_id) (\<lambda>name.
          bindC (aws_call aws (''route53'', ''list_resource_record_sets'') [(''HostedZoneId'', JStr zone_id)]) (\<lambda>response.
          bindC (lift (items_of response ''ResourceRecordSets'')) (\<lambda>rrsets.
          bindC (lift (mapM (\<lambda>r. json_index r ''Type'') rrsets)) (\<lambda>types.
          let changes = map (delete_change \<circ> fst) (filter (\<lambda>(r, t). t \<notin> {JStr ''SOA'', JStr ''NS''}) (zip rrsets types)) in
          thenC (if changes \<noteq> [] then act aws (''route53'', ''change_resource_record_sets'') [(''HostedZoneId'', JStr zone_id),
              (''ChangeBatch'', JObj [(''Changes'', JList changes)])] else ret ())
          (thenC (act aws (''route53'', ''delete_hosted_zone'') [(''Id'', JStr zone_id)])
          (thenC (if name \<noteq> [] then delete_parent_delegation aws zone_id name else ret ())
            (ret ''deleted''))))))))"

section \<open>Networks\<close>

definition is_default_security_group :: "'v aws \<Rightarrow> string \<Rightarrow> ('v cloud, bool) ci" where
  "is_default_security_group aws resource_id = try_except
     (thenC make_client
     (bindC (aws_call aws (''ec2'', ''describe_security_groups'') [(''GroupIds'', JList [JStr resource_id])]) (\<lambda>r.
      bindC (lift (items_of r ''SecurityGroups'')) (untilC (\<lambda>g. bindC (getd g ''GroupName'' (JStr [])) (\<lambda>n. ret (py_eq n (JStr ''default''))))))))
     is_client_error (ret False)"

definition GONE_STATES :: "json list" where "GONE_STATES = [JStr ''deleted'', JStr ''deleting'']"

definition nat_delete :: "'v aws \<Rightarrow> json \<Rightarrow> ('v cloud, unit) ci" where
  "nat_delete aws i =
     bindC (aws_call aws (''ec2'', ''describe_nat_gateways'') [(''NatGatewayIds'', JList [i])]) (\<lambda>r.
     bindC (lift (items_of r ''NatGateways'')) (\<lambda>ns.
     bindC (lift (mapM (\<lambda>n. json_get_default n ''State'' (JStr [])) ns)) (\<lambda>states.
       if (if states = [] then JStr [] else last states) \<in> set GONE_STATES then ret ()
       else act aws (''ec2'', ''delete_nat_gateway'') [(''NatGatewayId'', i)])))"

definition igw_delete :: "'v aws \<Rightarrow> json \<Rightarrow> ('v cloud, unit) ci" where
  "igw_delete aws i =
     bindC (aws_call aws (''ec2'', ''describe_internet_gateways'') [(''InternetGatewayIds'', JList [i])]) (\<lambda>r.
     thenC (each r ''InternetGateways'' (\<lambda>g. each g ''Attachments'' (\<lambda>a. bindC (key a ''VpcId'') (\<lambda>v.
       act aws (''ec2'', ''detach_internet_gateway'') [(''InternetGatewayId'', i), (''VpcId'', v)]))))
     (act aws (''ec2'', ''delete_internet_gateway'') [(''InternetGatewayId'', i)]))"

definition vpce_delete :: "'v aws \<Rightarrow> json \<Rightarrow> ('v cloud, unit) ci" where
  "vpce_delete aws i = try_except
     (bindC (aws_call aws (''ec2'', ''describe_vpc_endpoints'') [(''VpcEndpointIds'', JList [i])]) (\<lambda>r.
      bindC (lift (items_of r ''VpcEndpoints'')) (\<lambda>es.
      bindC (case es of [] \<Rightarrow> ret (JStr ''deleted'') | e # _ \<Rightarrow> getd e ''State'' (JStr [])) (\<lambda>st.
        if st \<in> set GONE_STATES then ret () else act aws (''ec2'', ''delete_vpc_endpoints'') [(''VpcEndpointIds'', JList [i])]))))
     (has_code [''InvalidVpcEndpointId.NotFound'']) (ret ())"

definition ec2_delete :: "'v aws \<Rightarrow> string \<Rightarrow> ('v cloud, string) ci" where
  "ec2_delete aws arn = (let ty = ec2_resource_type arn; rid = ec2_resource_id arn; i = JStr rid in
     giving ''deleted'' (thenC make_client
       (if ty = ''natgateway'' then nat_delete aws i
        else if ty = ''vpc-flow-log'' then
          try_except (act aws (''ec2'', ''delete_flow_logs'') [(''FlowLogIds'', JList [i])]) (has_code [''InvalidFlowLogId.NotFound'']) (ret ())
        else if ty = ''elastic-ip'' \<or> ty = ''eip-allocation'' then act aws (''ec2'', ''release_address'') [(''AllocationId'', i)]
        else if ty = ''subnet'' then act aws (''ec2'', ''delete_subnet'') [(''SubnetId'', i)]
        else if ty = ''route-table'' then act aws (''ec2'', ''delete_route_table'') [(''RouteTableId'', i)]
        else if ty = ''internet-gateway'' then igw_delete aws i
        else if ty = ''security-group'' then
          bindC (is_default_security_group aws rid) (\<lambda>d. if d then raise DefaultSecurityGroupSkipError
            else act aws (''ec2'', ''delete_security_group'') [(''GroupId'', i)])
        else if ty = ''vpc-endpoint'' then vpce_delete aws i
        else if ty = ''vpc'' then act aws (''ec2'', ''delete_vpc'') [(''VpcId'', i)]
        else raise ValueError)))"

section \<open>Compute\<close>

text \<open>The cluster and service of a service name; the source splits the last part of the ARN.\<close>

definition ecs_service_parts :: "string \<Rightarrow> string \<times> string" where
  "ecs_service_parts arn = (let ps = split_on (CHR ''/'') (last_seg (CHR '':'') arn) in
     (if 3 \<le> length ps then ps ! 1 else ps ! 0, last ps))"

definition ecs_delete :: "'v aws \<Rightarrow> string \<Rightarrow> ('v cloud, string) ci" where
  "ecs_delete aws arn = giving ''deleted'' (thenC make_client
     (if contains '':cluster/'' arn then act aws (''ecs'', ''delete_cluster'') [(''cluster'', JStr (after '':cluster/'' arn))]
      else if contains '':service/'' arn then (let (c, sv) = ecs_service_parts arn in
        thenC (act aws (''ecs'', ''update_service'') [(''cluster'', JStr c), (''service'', JStr sv), (''desiredCount'', JInt 0)])
          (act aws (''ecs'', ''delete_service'') [(''cluster'', JStr c), (''service'', JStr sv), (''force'', JBool True)]))
      else if contains '':task-definition/'' arn then
        act aws (''ecs'', ''deregister_task_definition'') [(''taskDefinition'', JStr (after '':task-definition/'' arn))]
      else raise ValueError))"

definition first_active :: "json list \<Rightarrow> ('w, bool) ci" where
  "first_active xs = (case xs of [] \<Rightarrow> ret False
     | x # _ \<Rightarrow> bindC (getd x ''status'' (JStr [])) (\<lambda>st. ret (py_str st = ''ACTIVE'')))"

definition ecs_is_live :: "'v aws \<Rightarrow> string \<Rightarrow> ('v cloud, bool) ci" where
  "ecs_is_live aws arn = thenC make_client (try_except
     (if contains '':cluster/'' arn then
        bindC (aws_call aws (''ecs'', ''describe_clusters'') [(''clusters'', JList [JStr (after '':cluster/'' arn)])]) (\<lambda>r.
        bindC (lift (items_of r ''clusters'')) first_active)
      else if contains '':service/'' arn then (let (c, sv) = ecs_service_parts arn in
        bindC (aws_call aws (''ecs'', ''describe_services'') [(''cluster'', JStr c), (''services'', JList [JStr sv])]) (\<lambda>r.
        bindC (lift (items_of r ''services'')) first_active))
      else if contains '':task-definition/'' arn then
        bindC (aws_call aws (''ecs'', ''describe_task_definition'') [(''taskDefinition'', JStr (after '':task-definition/'' arn))]) (\<lambda>r.
        bindC (getd r ''taskDefinition'' (JObj [])) (\<lambda>t. bindC (getd t ''status'' (JStr [])) (\<lambda>st. ret (py_str st = ''ACTIVE''))))
      else ret True)
     is_client_error (ret False))"

definition elb_delete :: "'v aws \<Rightarrow> string \<Rightarrow> ('v cloud, string) ci" where
  "elb_delete aws arn = giving ''deleted'' (thenC make_client
     (if contains '':loadbalancer/'' arn then
        bindC (aws_call aws (''elbv2'', ''describe_listeners'') [(''LoadBalancerArn'', JStr arn)]) (\<lambda>r.
        thenC (each r ''Listeners'' (\<lambda>l. bindC (key l ''ListenerArn'') (\<lambda>a. act aws (''elbv2'', ''delete_listener'') [(''ListenerArn'', a)])))
          (act aws (''elbv2'', ''delete_load_balancer'') [(''LoadBalancerArn'', JStr arn)]))
      else if contains '':targetgroup/'' arn then act aws (''elbv2'', ''delete_target_group'') [(''TargetGroupArn'', JStr arn)]
      else ret ()))"

definition lambda_delete :: "'v aws \<Rightarrow> string \<Rightarrow> ('v cloud, string) ci" where
  "lambda_delete aws arn = giving ''deleted'' (thenC make_client (act aws (''lambda'', ''delete_function'') [(''FunctionName'', JStr arn)]))"

section \<open>Data and messaging\<close>

definition firehose_delete :: "'v aws \<Rightarrow> string \<Rightarrow> ('v cloud, string) ci" where
  "firehose_delete aws arn = giving ''deleted'' (thenC make_client
     (act aws (''firehose'', ''delete_delivery_stream'') [(''DeliveryStreamName'', JStr (after ''/'' arn)), (''AllowForceDelete'', JBool True)]))"

definition glue_delete :: "'v aws \<Rightarrow> string \<Rightarrow> ('v cloud, string) ci" where
  "glue_delete aws arn = giving ''deleted'' (thenC make_client
     (if contains '':database/'' arn then (let db = JStr (after '':database/'' arn) in
        bindC (aws_call aws (''glue'', ''get_tables'') [(''DatabaseName'', db)]) (\<lambda>r.
        thenC (each r ''TableList'' (\<lambda>t. bindC (key t ''Name'') (\<lambda>n. act aws (''glue'', ''delete_table'') [(''DatabaseName'', db), (''Name'', n)])))
          (act aws (''glue'', ''delete_database'') [(''Name'', db)])))
      else if contains '':table/'' arn then (let ps = split_on (CHR ''/'') (after '':table/'' arn) in
        act aws (''glue'', ''delete_table'') [(''DatabaseName'', JStr (ps ! 0)), (''Name'', JStr (if 1 < length ps then ps ! 1 else ps ! 0))])
      else raise ValueError))"

definition athena_delete :: "'v aws \<Rightarrow> string \<Rightarrow> ('v cloud, string) ci" where
  "athena_delete aws arn = giving ''deleted'' (thenC make_client
     (if contains '':workgroup/'' arn
      then act aws (''athena'', ''delete_work_group'') [(''WorkGroup'', JStr (after '':workgroup/'' arn)), (''RecursiveDeleteOption'', JBool True)]
      else ret ()))"

definition sns_delete :: "'v aws \<Rightarrow> string \<Rightarrow> ('v cloud, string) ci" where
  "sns_delete aws arn = giving ''deleted'' (thenC make_client (act aws (''sns'', ''delete_topic'') [(''TopicArn'', JStr arn)]))"

definition ssm_delete :: "'v aws \<Rightarrow> string \<Rightarrow> ('v cloud, string) ci" where
  "ssm_delete aws arn = giving ''deleted'' (thenC make_client
     (act aws (''ssm'', ''delete_parameter'') [(''Name'', JStr (case cut '':parameter/'' arn of Some (a, b) \<Rightarrow> ''/'' @ b | None \<Rightarrow> after ''/'' arn))]))"

definition logs_delete :: "'v aws \<Rightarrow> string \<Rightarrow> ('v cloud, string) ci" where
  "logs_delete aws arn = giving ''deleted'' (thenC make_client
     (act aws (''logs'', ''delete_log_group'') [(''logGroupName'', JStr (hd (split_on (CHR '':'') (after '':log-group:'' arn))))]))"

definition cloudwatch_delete :: "'v aws \<Rightarrow> string \<Rightarrow> ('v cloud, string) ci" where
  "cloudwatch_delete aws arn = giving ''deleted'' (thenC make_client
     (act aws (''cloudwatch'', ''delete_alarms'') [(''AlarmNames'', JList [JStr (last_seg (CHR '':'') arn)])]))"

definition quicksight_delete :: "'v aws \<Rightarrow> string \<Rightarrow> ('v cloud, string) ci" where
  "quicksight_delete aws arn = giving ''deleted'' (thenC make_client
     (bindC (lift (nth_seg (CHR '':'') arn 4)) (\<lambda>account.
      let seg = (case nth_seg (CHR '':'') arn 5 of Inr x \<Rightarrow> x | Inl e \<Rightarrow> []); i = JStr (last_seg (CHR ''/'') seg) in
      if startswith seg ''dataset/'' then act aws (''quicksight'', ''delete_data_set'') [(''AwsAccountId'', JStr account), (''DataSetId'', i)]
      else if startswith seg ''datasource/'' then act aws (''quicksight'', ''delete_data_source'') [(''AwsAccountId'', JStr account), (''DataSourceId'', i)]
      else raise ValueError)))"

definition budgets_delete :: "'v aws \<Rightarrow> string \<Rightarrow> ('v cloud, string) ci" where
  "budgets_delete aws arn = giving ''deleted'' (thenC make_client
     (case cut '':budget/'' arn of
        Some (a, b) \<Rightarrow> bindC (lift (nth_seg (CHR '':'') arn 4)) (\<lambda>account.
          act aws (''budgets'', ''delete_budget'') [(''AccountId'', JStr account), (''BudgetName'', JStr b)])
      | None \<Rightarrow> act aws (''ce'', ''delete_anomaly_monitor'') [(''MonitorArn'', JStr arn)]))"

definition ce_delete :: "'v aws \<Rightarrow> string \<Rightarrow> ('v cloud, string) ci" where
  "ce_delete aws arn = giving ''deleted'' (thenC make_client
     (if contains '':anomalysubscription/'' arn then act aws (''ce'', ''delete_anomaly_subscription'') [(''SubscriptionArn'', JStr arn)]
      else act aws (''ce'', ''delete_anomaly_monitor'') [(''MonitorArn'', JStr arn)]))"

section \<open>Firewalls and user pools\<close>

definition wafv2_parse_arn :: "string \<Rightarrow> exn + string \<times> string \<times> string" where
  "wafv2_parse_arn arn =
     (if length (split_on (CHR '':'') arn) < 6 then Inl ValueError
      else let seg = split_on (CHR ''/'') (resource_segment arn) in
        if length seg < 4 \<or> seg ! 1 \<noteq> ''webacl'' then Inl ValueError
        else if seg ! 0 = ''regional'' then Inr (seg ! 2, ''REGIONAL'', seg ! 3)
        else if seg ! 0 = ''global'' then Inr (seg ! 2, ''CLOUDFRONT'', seg ! 3)
        else Inl ValueError)"

definition regional :: "string \<Rightarrow> string \<Rightarrow> string" where
  "regional sv region = sv @ ''@'' @ region"

text \<open>\<open>try: m except ClientError as exc: if exc.code == code: return r else raise\<close>, continuing otherwise.\<close>

definition unless_code :: "string \<Rightarrow> 'b \<Rightarrow> ('w, 'a) ci \<Rightarrow> ('a \<Rightarrow> ('w, 'b) ci) \<Rightarrow> ('w, 'b) ci" where
  "unless_code code r m k = bindC (try_except (bindC m (\<lambda>x. ret (Some x))) (has_code [code]) (ret None)) (\<lambda>o'.
     case o' of None \<Rightarrow> ret r | Some x \<Rightarrow> k x)"

definition wafv2_delete :: "'v aws \<Rightarrow> string \<Rightarrow> ('v cloud, string) ci" where
  "wafv2_delete aws arn =
     bindC (lift (wafv2_parse_arn arn)) (\<lambda>(name, scp, i).
     let sv = regional ''wafv2'' (if scp = ''CLOUDFRONT'' then ''us-east-1'' else split_on (CHR '':'') arn ! 3);
         kw = [(''Name'', JStr name), (''Scope'', JStr scp), (''Id'', JStr i)] in
     thenC make_client
     (unless_code ''WAFNonexistentItemException'' ''already-deleted'' (aws_call aws (sv, ''get_web_acl'') kw) (\<lambda>response.
      bindC (key response ''LockToken'') (\<lambda>lock.
      unless_code ''WAFNonexistentItemException'' ''already-deleted'' (aws_call aws (sv, ''delete_web_acl'') (kw @ [(''LockToken'', lock)])) (\<lambda>_.
        ret ''deleted'')))))"

definition pool_id_and_region :: "string \<Rightarrow> exn + string \<times> string" where
  "pool_id_and_region arn = bindR (nth_seg (CHR '':'') arn 3) (\<lambda>region.
     case cut '':userpool/'' arn of None \<Rightarrow> Inl IndexError | Some (a, b) \<Rightarrow> Inr (b, region))"

definition cognito_is_live :: "'v aws \<Rightarrow> string \<Rightarrow> ('v cloud, bool) ci" where
  "cognito_is_live aws arn = bindC (lift (pool_id_and_region arn)) (\<lambda>(pool, region). thenC make_client
     (unless_code ''ResourceNotFoundException'' False
       (aws_call aws (regional ''cognito-idp'' region, ''describe_user_pool'') [(''UserPoolId'', JStr pool)]) (\<lambda>_. ret True)))"

definition cognito_delete :: "'v aws \<Rightarrow> string \<Rightarrow> ('v cloud, string) ci" where
  "cognito_delete aws arn = bindC (lift (pool_id_and_region arn)) (\<lambda>(pool, region).
     let sv = regional ''cognito-idp'' region; i = (''UserPoolId'', JStr pool) in
     thenC make_client
     (unless_code ''ResourceNotFoundException'' ''already-deleted''
       (bindC (aws_call aws (sv, ''describe_user_pool'') [i]) (\<lambda>r. getd r ''UserPool'' (JObj []))) (\<lambda>p.
      bindC (lift (json_get p ''DeletionProtection'')) (\<lambda>dp.
      thenC (if py_eq dp (JStr ''ACTIVE'') then act aws (sv, ''update_user_pool'') [i, (''DeletionProtection'', JStr ''INACTIVE'')] else ret ())
      (bindC (lift (json_get p ''Domain'')) (\<lambda>dom.
      thenC (if truthy dom then try_except (act aws (sv, ''delete_user_pool_domain'') [(''Domain'', dom), i])
               (has_code [''ResourceNotFoundException'']) (ret ()) else ret ())
      (unless_code ''ResourceNotFoundException'' ''already-deleted'' (aws_call aws (sv, ''delete_user_pool'') [i]) (\<lambda>_.
        ret ''deleted''))))))))"

section \<open>The table\<close>

definition HANDLERS :: "'v aws \<Rightarrow> (string, string \<Rightarrow> ('v cloud, string) ci) dict" where
  "HANDLERS aws = [(''s3'', s3_delete aws), (''kms'', kms_delete aws), (''iam'', iam_delete aws), (''cloudfront'', cloudfront_delete aws),
     (''acm'', acm_delete aws), (''route53'', route53_delete aws), (''ec2'', ec2_delete aws), (''ecs'', ecs_delete aws),
     (''elasticloadbalancing'', elb_delete aws), (''firehose'', firehose_delete aws), (''glue'', glue_delete aws),
     (''athena'', athena_delete aws), (''sns'', sns_delete aws), (''ssm'', ssm_delete aws), (''lambda'', lambda_delete aws),
     (''logs'', logs_delete aws), (''cloudwatch'', cloudwatch_delete aws), (''quicksight'', quicksight_delete aws),
     (''budgets'', budgets_delete aws), (''ce'', ce_delete aws), (''wafv2'', wafv2_delete aws), (''cognito-idp'', cognito_delete aws)]"

definition handler_reports_live :: "'v aws \<Rightarrow> string \<Rightarrow> ('v cloud, bool) ci" where
  "handler_reports_live aws arn = (let sv = service_prefix_from_arn arn in
     if sv = ''cloudfront'' then cloudfront_is_live aws arn else if sv = ''ecs'' then ecs_is_live aws arn
     else if sv = ''cognito-idp'' then cognito_is_live aws arn else ret True)"

section \<open>Probes for resources that are gone\<close>

definition is_kms_key_in_pending_deletion :: "'v aws \<Rightarrow> string \<Rightarrow> ('v cloud, bool) ci" where
  "is_kms_key_in_pending_deletion aws arn =
     (if contains '':alias/'' arn then ret False
      else try_except (thenC make_client (bindC (kms_key_state aws (last_seg (CHR ''/'') arn)) (\<lambda>st. ret (st \<in> set KMS_PENDING_DELETION_STATES))))
        is_client_error (ret False))"

text \<open>A probe answers \<open>True\<close> on the given error code, \<open>False\<close> on any other client error.\<close>

definition probe :: "string list \<Rightarrow> ('w, bool) ci \<Rightarrow> ('w, bool) ci" where
  "probe codes m = try_except (try_except (thenC make_client m) (has_code codes) (ret True)) is_client_error (ret False)"

definition any_gone :: "json list \<Rightarrow> ('w, bool) ci" where
  "any_gone xs = untilC (\<lambda>x. bindC (getd x ''State'' (JStr [])) (\<lambda>st. ret (st \<in> set GONE_STATES))) xs"

definition is_nat_gateway_deleted :: "'v aws \<Rightarrow> string \<Rightarrow> ('v cloud, bool) ci" where
  "is_nat_gateway_deleted aws arn = probe [''NatGatewayNotFound'']
     (bindC (aws_call aws (''ec2'', ''describe_nat_gateways'') [(''NatGatewayIds'', JList [JStr (last_seg (CHR ''/'') arn)])]) (\<lambda>r.
      bindC (lift (items_of r ''NatGateways'')) any_gone))"

definition is_vpc_flow_log_deleted :: "'v aws \<Rightarrow> string \<Rightarrow> ('v cloud, bool) ci" where
  "is_vpc_flow_log_deleted aws arn = probe []
     (bindC (aws_call aws (''ec2'', ''describe_flow_logs'') [(''FlowLogIds'', JList [JStr (last_seg (CHR ''/'') arn)])]) (\<lambda>r.
      bindC (lift (items_of r ''FlowLogs'')) (\<lambda>xs. ret (xs = []))))"

definition is_vpc_endpoint_deleted :: "'v aws \<Rightarrow> string \<Rightarrow> ('v cloud, bool) ci" where
  "is_vpc_endpoint_deleted aws arn = probe [''InvalidVpcEndpointId.NotFound'']
     (bindC (aws_call aws (''ec2'', ''describe_vpc_endpoints'') [(''VpcEndpointIds'', JList [JStr (last_seg (CHR ''/'') arn)])]) (\<lambda>r.
      bindC (lift (items_of r ''VpcEndpoints'')) (\<lambda>xs. bindC (any_gone xs) (\<lambda>g. ret (g \<or> xs = [])))))"

definition is_security_group_deleted :: "'v aws \<Rightarrow> string \<Rightarrow> ('v cloud, bool) ci" where
  "is_security_group_deleted aws arn = probe [''InvalidGroup.NotFound'']
     (thenC (act aws (''ec2'', ''describe_security_groups'') [(''GroupIds'', JList [JStr (last_seg (CHR ''/'') arn)])]) (ret False))"

end
