(* ===== verification/Sweep.thy ===== *)
theory Sweep
  imports Sweepers
begin

text \<open>
  The test-resource sweeper, \<open>scripts/terratest_sweep.py\<close>: the account allowlist, the tagged inventory with
  its age guard, the untaggable cost monitors, the delete passes and the report.

  A time is an integer number of microseconds since the epoch. \<open>now_at p\<close> is the clock at the enumeration
  of pass \<open>p\<close>, and the texts of the clock in the report and its name are given. The loop over the pages of
  the cost API may not end and has fuel; running out is the outcome \<open>Diverges\<close>. Progress lines are not
  modelled.
\<close>

section \<open>Time\<close>

definition leap :: "int \<Rightarrow> bool" where
  "leap y = (y mod 4 = 0 \<and> (y mod 100 \<noteq> 0 \<or> y mod 400 = 0))"

definition days_in_month :: "int \<Rightarrow> nat \<Rightarrow> nat" where
  "days_in_month y m = (if m = 2 then (if leap y then 29 else 28) else if m \<in> {4, 6, 9, 11} then 30 else 31)"

definition days_before_month :: "int \<Rightarrow> nat \<Rightarrow> nat" where
  "days_before_month y m = (\<Sum>k\<leftarrow>[1..<m]. days_in_month y k)"

text \<open>The proleptic Gregorian ordinal of a date; the epoch is day 719163.\<close>

definition date_ordinal :: "int \<Rightarrow> nat \<Rightarrow> nat \<Rightarrow> int" where
  "date_ordinal y m d = (let p = y - 1 in p * 365 + p div 4 - p div 100 + p div 400 + int (days_before_month y m) + int d)"

definition utc_micros :: "int \<Rightarrow> nat \<Rightarrow> nat \<Rightarrow> nat \<Rightarrow> nat \<Rightarrow> nat \<Rightarrow> int" where
  "utc_micros y mo d h mi se =
     (((date_ordinal y mo d - 719163) * 24 + int h) * 3600 + int mi * 60 + int se) * 1000000"

definition valid_time :: "int \<Rightarrow> nat \<Rightarrow> nat \<Rightarrow> nat \<Rightarrow> nat \<Rightarrow> nat \<Rightarrow> bool" where
  "valid_time y mo d h mi se =
     (1 \<le> y \<and> y \<le> 9999 \<and> 1 \<le> mo \<and> mo \<le> 12 \<and> 1 \<le> d \<and> d \<le> days_in_month y mo \<and> h < 24 \<and> mi < 60 \<and> se < 60)"

text \<open>\<open>datetime.strptime(s, "%Y%m%d%H%M%S")\<close> on fourteen digits, which fill the fields exactly.\<close>

definition strptime14 :: "string \<Rightarrow> int option" where
  "strptime14 s = (let f = (\<lambda>i n. nat_of_digits (take n (drop i s)));
       y = int (f 0 4); mo = f 4 2; d = f 6 2; h = f 8 2; mi = f 10 2; se = f 12 2 in
     if valid_time y mo d h mi se then Some (utc_micros y mo d h mi se) else None)"

section \<open>Ages\<close>

definition TERRATEST_RUN_ID_PREFIX :: string where "TERRATEST_RUN_ID_PREFIX = ''tt''"

definition PROJECT_TAG_KEY :: string where "PROJECT_TAG_KEY = ''Project''"
definition PROJECT_TAG_VALUE :: string where "PROJECT_TAG_VALUE = ''telemetry-platform''"
definition RUN_ID_TAG_KEY :: string where "RUN_ID_TAG_KEY = ''terratest-run''"

definition env_int_or :: "(string, string) dict \<Rightarrow> string \<Rightarrow> string \<Rightarrow> exn + int" where
  "env_int_or env name dflt = (case py_int (the_default dflt (map_of env name)) of None \<Rightarrow> Inl ValueError | Some i \<Rightarrow> Inr i)"

definition get_min_age_minutes :: "(string, string) dict \<Rightarrow> exn + int" where
  "get_min_age_minutes env = env_int_or env ''TT_SWEEP_MIN_AGE_MINUTES'' ''120''"

fun find_run_tag :: "json list \<Rightarrow> exn + string option" where
  "find_run_tag [] = Inr None"
| "find_run_tag (tag # tags) = bindR (json_get tag ''Key'') (\<lambda>k.
     if k = JStr RUN_ID_TAG_KEY then bindR (json_get tag ''Value'') (\<lambda>v. Inr (if v = JNull then None else Some (py_str v)))
     else find_run_tag tags)"

definition run_id_tag_value :: "json \<Rightarrow> exn + string option" where
  "run_id_tag_value resource = bindR (items_of resource ''Tags'') find_run_tag"

definition run_id_age :: "string \<Rightarrow> int \<Rightarrow> int option" where
  "run_id_age run_id now =
     (if \<not> startswith run_id (TERRATEST_RUN_ID_PREFIX @ ''-'') then None
      else let ps = split_on (CHR ''-'') run_id in
        if length ps < 3 then None
        else if length (ps ! 1) \<noteq> 14 \<or> \<not> all_digits (ps ! 1) then None
        else map_option (\<lambda>ts. now - ts) (strptime14 (ps ! 1)))"

text \<open>\<open>age is not None and age < min_age_minutes\<close>, the age in microseconds.\<close>

definition too_young :: "int option \<Rightarrow> int \<Rightarrow> bool" where
  "too_young age min_age = (case age of None \<Rightarrow> False | Some a \<Rightarrow> a < min_age * 60000000)"

definition is_spared :: "int \<Rightarrow> int \<Rightarrow> json \<Rightarrow> exn + bool" where
  "is_spared min_age now resource = bindR (run_id_tag_value resource) (\<lambda>v.
     Inr (case v of None \<Rightarrow> False | Some x \<Rightarrow> too_young (run_id_age x now) min_age))"

fun partition_by_min_age :: "json list \<Rightarrow> int \<Rightarrow> int \<Rightarrow> exn + json list \<times> json list" where
  "partition_by_min_age [] min_age now = Inr ([], [])"
| "partition_by_min_age (r # rs) min_age now = bindR (is_spared min_age now r) (\<lambda>b.
     bindR (partition_by_min_age rs min_age now) (\<lambda>(sweepable, spared).
       Inr (if b then (sweepable, r # spared) else (r # sweepable, spared))))"

section \<open>Inventory\<close>

definition tag_filters :: "string option \<Rightarrow> json" where
  "tag_filters run_id = JList [JObj [(''Key'', JStr PROJECT_TAG_KEY), (''Values'', JList [JStr PROJECT_TAG_VALUE])],
     JObj [(''Key'', JStr RUN_ID_TAG_KEY), (''Values'', JList (case run_id of None \<Rightarrow> [] | Some r \<Rightarrow> [JStr r]))]]"

definition enumerate_resources :: "'v aws \<Rightarrow> string option \<Rightarrow> pyfloat \<Rightarrow> pyfloat \<Rightarrow> ('v cloud, json list) ci" where
  "enumerate_resources aws run_id poll_timeout poll_interval =
     bindC (lift (compute_max_attempts poll_timeout poll_interval)) (\<lambda>_.
     try_except
       (bindC (aws_pages aws (''resourcegroupstaggingapi'', ''get_resources'') [(''TagFilters'', tag_filters run_id)]) (\<lambda>(ps, e).
        bindC (lift (mapM (\<lambda>p. items_of p ''ResourceTagMappingList'') ps)) (\<lambda>xss.
          case e of None \<Rightarrow> ret (concat xss) | Some x \<Rightarrow> raise x)))
       (has_code [''ThrottlingException'', ''RequestThrottled'', ''Throttling'']) die)"

definition enumerate_and_spare :: "'v aws \<Rightarrow> string option \<Rightarrow> pyfloat \<Rightarrow> pyfloat \<Rightarrow> int \<Rightarrow> ('v cloud, json list) ci" where
  "enumerate_and_spare aws run_id poll_timeout poll_interval now =
     bindC (enumerate_resources aws run_id poll_timeout poll_interval) (\<lambda>resources.
       if run_id \<noteq> None then ret resources
       else bindC environ_of (\<lambda>env.
         bindC (lift (get_min_age_minutes env)) (\<lambda>min_age.
         bindC (lift (partition_by_min_age resources min_age now)) (\<lambda>(sweepable, spared). ret sweepable))))"

section \<open>Cost monitors\<close>

definition CE_MONITOR_NAME_PREFIXES :: "string list" where "CE_MONITOR_NAME_PREFIXES = [''test-monitor-'']"
definition CE_MONITOR_NAME_SUFFIXES :: "string list" where "CE_MONITOR_NAME_SUFFIXES = [''-monitor'']"
definition CE_SUBSCRIPTION_NAME_PREFIXES :: "string list" where "CE_SUBSCRIPTION_NAME_PREFIXES = [''test-sub-'']"
definition CE_SUBSCRIPTION_NAME_SUFFIXES :: "string list" where "CE_SUBSCRIPTION_NAME_SUFFIXES = [''-subscription'']"

definition ce_name_matches :: "string \<Rightarrow> string list \<Rightarrow> string list \<Rightarrow> bool" where
  "ce_name_matches name pres sufs =
     (list_ex (\<lambda>p. startswith name p) pres \<or> list_ex (\<lambda>s. endswith name s) sufs)"

text \<open>\<open>datetime.fromtimestamp\<close> refuses seconds after the year 9999.\<close>

definition ce_epoch_age :: "string \<Rightarrow> int \<Rightarrow> int option" where
  "ce_epoch_age name now = (let token = last_seg (CHR ''-'') name in
     if all_digits token \<and> 9 \<le> length token \<and> nat_of_digits token \<le> 253402300799
     then Some (now - int (nat_of_digits token) * 1000000) else None)"

definition page_token :: "json \<Rightarrow> exn + string option" where
  "page_token response = bindR (json_get response ''NextPageToken'') (\<lambda>t. Inr (case t of JStr x \<Rightarrow> if x = [] then None else Some x | _ \<Rightarrow> None))"

fun ce_paginate :: "nat \<Rightarrow> 'v aws \<Rightarrow> string \<Rightarrow> string \<Rightarrow> string option \<Rightarrow> ('v cloud, json list) ci" where
  "ce_paginate 0 aws m result_key token = raise Diverges"
| "ce_paginate (Suc fuel) aws m result_key token =
     bindC (aws_call aws (''ce'', m) (case token of None \<Rightarrow> [] | Some t \<Rightarrow> [(''NextPageToken'', JStr t)])) (\<lambda>response.
     bindC (getd response result_key (JList [])) (\<lambda>page.
     let items = (case page of JList xs \<Rightarrow> xs | _ \<Rightarrow> []) in
     bindC (lift (page_token response)) (\<lambda>tk. case tk of
         None \<Rightarrow> ret items
       | Some t \<Rightarrow> bindC (ce_paginate fuel aws m result_key (Some t)) (\<lambda>rest. ret (items @ rest)))))"

definition ce_entry :: "json \<Rightarrow> string \<Rightarrow> string \<Rightarrow> json" where
  "ce_entry arn action name = JObj [(''arn'', arn), (''type'', JStr ''ce''), (''action'', JStr action), (''name'', JStr name)]"

text \<open>\<open>try: m except Exception-class as exc: h(exc)\<close>.\<close>

definition catchC :: "('w, 'a) ci \<Rightarrow> (exn \<Rightarrow> ('w, 'a) ci) \<Rightarrow> ('w, 'a) ci" where
  "catchC m h = (\<lambda>s. case m s of (Inl e, s') \<Rightarrow> h e s' | (Inr x, s') \<Rightarrow> (Inr x, s'))"

definition ce_act :: "'v aws \<Rightarrow> string \<Rightarrow> json \<Rightarrow> string \<Rightarrow> string \<Rightarrow> string \<Rightarrow> ('v cloud, json) ci" where
  "ce_act aws mode arn name delete_method arn_kwarg =
     (if mode = ''check'' then ret (ce_entry arn ''found'' name)
      else catchC (thenC (act aws (''ce'', delete_method) [(arn_kwarg, arn)]) (ret (ce_entry arn ''deleted'' name)))
        (\<lambda>e. if \<not> is_client_error e then raise e
             else ret (ce_entry arn (if is_benign_not_found e then ''already-gone'' else ''failed'') name)))"

fun ce_loop :: "'v aws \<Rightarrow> string \<Rightarrow> int \<Rightarrow> int \<Rightarrow> string \<Rightarrow> string \<Rightarrow> string list \<Rightarrow> string list \<Rightarrow> string \<Rightarrow> json list \<Rightarrow> ('v cloud, json list) ci" where
  "ce_loop aws mode min_age now nk ak pres sufs m [] = ret []"
| "ce_loop aws mode min_age now nk ak pres sufs m (x # xs) =
     bindC (getd x nk (JStr [])) (\<lambda>n. bindC (getd x ak (JStr [])) (\<lambda>arn. case n of
       JStr name \<Rightarrow>
         if \<not> ce_name_matches name pres sufs \<or> too_young (ce_epoch_age name now) min_age
         then ce_loop aws mode min_age now nk ak pres sufs m xs
         else bindC (ce_act aws mode arn name m ak) (\<lambda>entry.
           bindC (ce_loop aws mode min_age now nk ak pres sufs m xs) (\<lambda>rest. ret (entry # rest)))
     | _ \<Rightarrow> raise AttributeError))"

definition sweep_ce_anomaly_monitors :: "nat \<Rightarrow> 'v aws \<Rightarrow> string \<Rightarrow> int \<Rightarrow> int \<Rightarrow> ('v cloud, json list) ci" where
  "sweep_ce_anomaly_monitors fuel aws mode min_age now =
     thenC make_client
     (bindC (ce_paginate fuel aws ''get_anomaly_subscriptions'' ''AnomalySubscriptions'' None) (\<lambda>subs.
      bindC (ce_loop aws mode min_age now ''SubscriptionName'' ''SubscriptionArn''
        CE_SUBSCRIPTION_NAME_PREFIXES CE_SUBSCRIPTION_NAME_SUFFIXES ''delete_anomaly_subscription'' subs) (\<lambda>xs.
      bindC (ce_paginate fuel aws ''get_anomaly_monitors'' ''AnomalyMonitors'' None) (\<lambda>mons.
      bindC (ce_loop aws mode min_age now ''MonitorName'' ''MonitorArn''
        CE_MONITOR_NAME_PREFIXES CE_MONITOR_NAME_SUFFIXES ''delete_anomaly_monitor'' mons) (\<lambda>ys.
        ret (xs @ ys))))))"

section \<open>Passes\<close>

definition arn_of :: "json \<Rightarrow> exn + string" where
  "arn_of r = bindR (json_get_default r ''ResourceARN'' (JStr [])) (\<lambda>v. case v of JStr a \<Rightarrow> Inr a | _ \<Rightarrow> Inl AttributeError)"

definition EC2_TIER1_TYPES :: "string list" where
  "EC2_TIER1_TYPES = [''natgateway'', ''elastic-ip'', ''eip-allocation'', ''vpc-flow-log'']"

definition EC2_TIER3_TYPES :: "string list" where "EC2_TIER3_TYPES = [''vpc'']"

text \<open>The tier of a resource: 0 outside EC2.\<close>

definition tier_of :: "string \<Rightarrow> nat" where
  "tier_of arn = (if service_prefix_from_arn arn \<noteq> ''ec2'' then 0
     else if ec2_resource_type arn \<in> set EC2_TIER1_TYPES then 1
     else if ec2_resource_type arn \<in> set EC2_TIER3_TYPES then 3 else 2)"

fun partition_ec2_by_tier :: "json list \<Rightarrow> exn + json list \<times> json list \<times> json list \<times> json list" where
  "partition_ec2_by_tier [] = Inr ([], [], [], [])"
| "partition_ec2_by_tier (r # rs) = bindR (arn_of r) (\<lambda>arn.
     bindR (partition_ec2_by_tier rs) (\<lambda>(n, a, b, c).
       Inr (if tier_of arn = 0 then (r # n, a, b, c) else if tier_of arn = 1 then (n, r # a, b, c)
            else if tier_of arn = 3 then (n, a, b, r # c) else (n, a, r # b, c))))"

definition entry :: "string \<Rightarrow> string \<Rightarrow> json" where
  "entry arn action = JObj [(''arn'', JStr arn), (''type'', JStr (service_prefix_from_arn arn)), (''action'', JStr action)]"

text \<open>What becomes of a deletion that raised: the action to record and whether it is retried; \<open>None\<close> is
  an exception that is not handled.\<close>

definition delete_outcome :: "bool \<Rightarrow> exn \<Rightarrow> (string \<times> bool) option" where
  "delete_outcome is_final_pass e =
     (if e = DefaultSecurityGroupSkipError then Some (''skipped-default-sg'', False)
      else if is_client_error e then
        (if is_benign_not_found e then Some (''already-deleted'', False)
         else if is_dependency_violation e \<and> \<not> is_final_pass then Some (''deferred'', True)
         else Some (''failed'', False))
      else if is_exception e then Some (''failed'', False) else None)"

definition dispatch_delete :: "'v aws \<Rightarrow> bool \<Rightarrow> json \<Rightarrow> ('v cloud, json \<times> bool) ci" where
  "dispatch_delete aws is_final_pass resource =
     bindC (lift (arn_of resource)) (\<lambda>arn.
     case map_of (HANDLERS aws) (service_prefix_from_arn arn) of
       None \<Rightarrow> ret (entry arn ''reported-unsupported'', False)
     | Some delete \<Rightarrow> catchC (bindC (delete arn) (\<lambda>action. ret (entry arn action, False)))
         (\<lambda>e. case delete_outcome is_final_pass e of None \<Rightarrow> raise e | Some (action, defer) \<Rightarrow> ret (entry arn action, defer)))"

fun pass_loop :: "'v aws \<Rightarrow> bool \<Rightarrow> json list \<Rightarrow> ('v cloud, json list \<times> json list) ci" where
  "pass_loop aws is_final_pass [] = ret ([], [])"
| "pass_loop aws is_final_pass (r # rs) = bindC (dispatch_delete aws is_final_pass r) (\<lambda>(e, defer).
     bindC (pass_loop aws is_final_pass rs) (\<lambda>(entries, pending).
       ret (if defer then (entries, r # pending) else (e # entries, pending))))"

definition delete_pass :: "'v aws \<Rightarrow> bool \<Rightarrow> json list \<Rightarrow> ('v cloud, json list \<times> json list) ci" where
  "delete_pass aws is_final_pass resources =
     bindC (lift (partition_ec2_by_tier resources)) (\<lambda>(n, a, b, c). pass_loop aws is_final_pass (n @ a @ b @ c))"

definition get_max_delete_passes :: "(string, string) dict \<Rightarrow> nat" where
  "get_max_delete_passes env = nat (max 1 (the_default 6 (py_int (the_default ''6'' (map_of env ''TT_SWEEP_MAX_DELETE_PASSES'')))))"

text \<open>The loop of the passes: \<open>left\<close> passes from pass \<open>p\<close> on, over the inventory read before it.\<close>

fun delete_loop :: "'v aws \<Rightarrow> string option \<Rightarrow> pyfloat \<Rightarrow> pyfloat \<Rightarrow> (nat \<Rightarrow> int) \<Rightarrow> nat \<Rightarrow> nat \<Rightarrow> json list \<Rightarrow> ('v cloud, json list) ci" where
  "delete_loop aws run_id t i now_at 0 p resources = ret []"
| "delete_loop aws run_id t i now_at (Suc left) p resources =
     (if resources = [] then ret []
      else bindC (delete_pass aws (left = 0) resources) (\<lambda>(entries, pending).
        if left = 0 \<or> pending = [] then ret entries
        else bindC (enumerate_and_spare aws run_id t i (now_at (Suc p))) (delete_loop aws run_id t i now_at left (Suc p))))"

section \<open>Report\<close>

definition sweep_report :: "string \<Rightarrow> string \<Rightarrow> string \<Rightarrow> string option \<Rightarrow> json list \<Rightarrow> nat \<Rightarrow> json" where
  "sweep_report run_at account_id mode run_id found remaining =
     JObj [(''run_at'', JStr run_at), (''account_id'', JStr account_id), (''mode'', JStr mode),
       (''filter'', JObj [(PROJECT_TAG_KEY, JStr PROJECT_TAG_VALUE), (RUN_ID_TAG_KEY, JStr (the_default ''*'' run_id))]),
       (''found'', JList found), (''remaining'', JInt (int remaining))]"

definition write_report :: "string \<Rightarrow> string \<Rightarrow> string \<Rightarrow> string \<Rightarrow> string option \<Rightarrow> json list \<Rightarrow> nat \<Rightarrow> ('w, unit) ci" where
  "write_report report_path run_at account_id mode run_id found remaining =
     thenC (make_parents (path_of report_path))
       (write_text (path_of report_path) (dumps_indent 0 (sweep_report run_at account_id mode run_id found remaining)))"

definition default_report_path :: "string \<Rightarrow> string" where
  "default_report_path stamp = ''.sweep-reports/sweep-'' @ stamp @ ''.json''"

section \<open>The command\<close>

definition ALLOWED_ROLES :: "json list" where "ALLOWED_ROLES = [JStr ''sandbox'', JStr ''qa-infra'']"

definition role_allowed :: "json \<Rightarrow> exn + bool" where
  "role_allowed row = bindR (json_get row ''account_role'') (\<lambda>v. case v of
     JList _ \<Rightarrow> Inl TypeError | JObj _ \<Rightarrow> Inl TypeError | _ \<Rightarrow> Inr (v \<in> set ALLOWED_ROLES))"

definition allowed_accounts :: "json \<Rightarrow> exn + string list" where
  "allowed_accounts data = (case data of
      JObj kvs \<Rightarrow> bindR (mapM (\<lambda>(k, row). bindR (role_allowed row) (\<lambda>b. Inr (k, b))) kvs) (\<lambda>xs. Inr (map fst (filter snd xs)))
    | _ \<Rightarrow> Inl AttributeError)"

definition load_allowlist :: "string \<Rightarrow> ('w, string list) ci" where
  "load_allowlist accounts_json = (let p = path_of accounts_json in
     bindC get_files (\<lambda>fs.
       if \<not> path_exists fs p then die
       else bindC (try_except (bindC (read_text p) (\<lambda>t. lift (json_loads t))) (\<lambda>e. e = JSONDecodeError) die) (\<lambda>data.
         lift (allowed_accounts data))))"

text \<open>The terminal states the tagging index may still list.\<close>

definition looks_gone :: "'v aws \<Rightarrow> string \<Rightarrow> ('v cloud, bool) ci" where
  "looks_gone aws arn = (let sv = service_prefix_from_arn arn; ty = ec2_resource_type arn in
     if sv = ''kms'' then is_kms_key_in_pending_deletion aws arn
     else if sv \<noteq> ''ec2'' then ret False
     else if ty = ''natgateway'' then is_nat_gateway_deleted aws arn
     else if ty = ''vpc-flow-log'' then is_vpc_flow_log_deleted aws arn
     else if ty = ''vpc-endpoint'' then is_vpc_endpoint_deleted aws arn
     else if ty = ''security-group'' then is_security_group_deleted aws arn
     else ret False)"

fun residue :: "'v aws \<Rightarrow> json list \<Rightarrow> ('v cloud, json list) ci" where
  "residue aws [] = ret []"
| "residue aws (r # rs) =
     bindC (lift (arn_of r)) (\<lambda>arn.
     bindC (looks_gone aws arn) (\<lambda>gone.
     bindC (if gone then ret False else handler_reports_live aws arn) (\<lambda>live.
     bindC (residue aws rs) (\<lambda>rest. ret (if live then r # rest else rest)))))"

record sweep_args =
  sw_accounts :: string
  sw_report :: "string option"
  sw_run_id :: "string option"
  sw_now :: "nat \<Rightarrow> int"
  sw_stamp :: string
  sw_run_at :: string
  sw_fuel :: nat

definition report_path_of :: "sweep_args \<Rightarrow> string" where
  "report_path_of a = the_default (default_report_path (sw_stamp a)) (sw_report a)"

definition entry_arn :: "json \<Rightarrow> string" where
  "entry_arn e = (case json_get_default e ''arn'' (JStr ''<unknown>'') of Inr v \<Rightarrow> py_str v | Inl _ \<Rightarrow> [])"

definition swept_monitors :: "sweep_args \<Rightarrow> 'v aws \<Rightarrow> string \<Rightarrow> ('v cloud, json list) ci" where
  "swept_monitors a aws mode = (if sw_run_id a \<noteq> None then ret []
     else bindC environ_of (\<lambda>env. bindC (lift (get_min_age_minutes env)) (\<lambda>min_age.
       sweep_ce_anomaly_monitors (sw_fuel a) aws mode min_age (sw_now a 1))))"

definition check_mode :: "sweep_args \<Rightarrow> 'v aws \<Rightarrow> string \<Rightarrow> string \<Rightarrow> json list \<Rightarrow> ('v cloud, unit) ci" where
  "check_mode a aws mode account resources =
     bindC (residue aws resources) (\<lambda>residue_resources.
     bindC (swept_monitors a aws ''check'') (\<lambda>ce_entries.
     bindC (lift (mapM (\<lambda>r. bindR (arn_of r) (\<lambda>arn. Inr (entry arn ''found''))) residue_resources)) (\<lambda>tagged.
     let all_found = tagged @ ce_entries in
     thenC (iterC (\<lambda>e. put_line (entry_arn e)) all_found)
     (thenC (write_report (report_path_of a) (sw_run_at a) account mode (sw_run_id a) all_found (length all_found))
       (raise (SystemExit (int (length all_found))))))))"

definition action_is :: "string list \<Rightarrow> json \<Rightarrow> bool" where
  "action_is xs e = (case json_get e ''action'' of Inr (JStr x) \<Rightarrow> x \<in> set xs | _ \<Rightarrow> False)"

definition delete_mode :: "sweep_args \<Rightarrow> 'v aws \<Rightarrow> string \<Rightarrow> string \<Rightarrow> pyfloat \<Rightarrow> pyfloat \<Rightarrow> json list \<Rightarrow> ('v cloud, unit) ci" where
  "delete_mode a aws mode account t i resources =
     bindC environ_of (\<lambda>env.
     bindC (delete_loop aws (sw_run_id a) t i (sw_now a) (get_max_delete_passes env) 1 resources) (\<lambda>entries.
     bindC (swept_monitors a aws ''delete'') (\<lambda>ce_entries.
     let found = entries @ ce_entries;
         bad = filter (action_is [''reported-unsupported'', ''failed'']) found in
     thenC (write_report (report_path_of a) (sw_run_at a) account mode (sw_run_id a) found (length bad))
       (raise (SystemExit (if bad \<noteq> [] then 1 else 0))))))"

definition account_in :: "json \<Rightarrow> string list \<Rightarrow> exn + string option" where
  "account_in v allowlist = (case v of JStr x \<Rightarrow> Inr (if x \<in> set allowlist then Some x else None)
     | JList _ \<Rightarrow> Inl TypeError | JObj _ \<Rightarrow> Inl TypeError | _ \<Rightarrow> Inr None)"

definition sweep_main :: "sweep_args \<Rightarrow> 'v aws \<Rightarrow> string \<Rightarrow> ('v cloud, unit) ci" where
  "sweep_main a aws mode =
     bindC (load_allowlist (sw_accounts a)) (\<lambda>allowlist.
     thenC make_client
     (bindC (aws_call aws (''sts'', ''get_caller_identity'') []) (\<lambda>identity.
      bindC (key identity ''Account'') (\<lambda>caller_account.
      bindC (lift (account_in caller_account allowlist)) (\<lambda>ok. case ok of
        None \<Rightarrow> die
      | Some account \<Rightarrow>
          bindC environ_of (\<lambda>env.
          bindC (lift (get_poll_timeout env)) (\<lambda>t.
          bindC (lift (get_poll_interval env)) (\<lambda>i.
          bindC (enumerate_and_spare aws (sw_run_id a) t i (sw_now a 1)) (\<lambda>resources.
            if mode = ''check'' then check_mode a aws mode account resources
            else delete_mode a aws mode account t i resources)))))))))"

definition read_run_id_from_file :: "string \<Rightarrow> ('w, string) ci" where
  "read_run_id_from_file run_id_file = (let p = path_of run_id_file in
     bindC get_files (\<lambda>fs.
       if \<not> is_file fs p then die
       else bindC (try_except (bindC (read_text p) (\<lambda>t. ret (strip t))) is_os_error die) (\<lambda>run_id.
         if run_id = [] then die else ret run_id)))"

definition cli_main :: "sweep_args \<Rightarrow> 'v aws \<Rightarrow> string option \<Rightarrow> string option \<Rightarrow> ('v cloud, unit) ci" where
  "cli_main a aws mode_arg run_id_file =
     bindC (getenv ''SWEEP_MODE'') (\<lambda>env_mode.
     bindC (getenv ''SWEEP_RUN_ID'') (\<lambda>env_run_id.
     let mode = (case mode_arg of Some m \<Rightarrow> m | None \<Rightarrow> the_default ''check'' env_mode);
         arg_run_id = (case sw_run_id a of Some r \<Rightarrow> Some r | None \<Rightarrow> env_run_id) in
     case run_id_file of
       None \<Rightarrow> sweep_main (a\<lparr>sw_run_id := arg_run_id\<rparr>) aws mode
     | Some f \<Rightarrow> if arg_run_id \<noteq> None then die
         else bindC (read_run_id_from_file f) (\<lambda>r. sweep_main (a\<lparr>sw_run_id := Some r\<rparr>) aws mode)))"

end
