(* ===== verification/Sweeping.thy ===== *)
theory Sweeping
  imports Sweep "HOL-Library.Multiset"
begin

text \<open>
  What the test-resource sweeper guarantees: check mode only reads, nothing but the identity call is made
  outside the listed accounts, resources of recent runs are spared, every resource of the last inventory has
  an outcome, and exit status zero means a clean report. The run ids of \<open>run_terratest.py\<close> are the other
  side of the age guard.
\<close>

section \<open>Check mode only reads\<close>

definition reads :: "op \<times> kwargs \<Rightarrow> bool" where
  "reads c = (startswith (snd (fst c)) ''get_'' \<or> startswith (snd (fst c)) ''describe_'')"

lemma calls_make_client [calls_intros]: "calls_only P make_client"
  unfolding make_client_def by (intro calls_intros)

lemma calls_act [calls_intros]: "P (f, kw) \<Longrightarrow> calls_only P (act aws f kw)"
  unfolding act_def by (intro calls_intros)

lemma calls_key [calls_intros]: "calls_only P (key v k)"
  unfolding key_def by (intro calls_intros)

lemma calls_until [calls_intros]: "(\<And>x. calls_only P (f x)) \<Longrightarrow> calls_only P (untilC f xs)"
  by (induction xs) (auto intro!: calls_intros)

lemma calls_first_active [calls_intros]: "calls_only P (first_active xs)"
  unfolding first_active_def by (cases xs) (auto intro!: calls_intros)

lemma calls_unless_code [calls_intros]:
  "calls_only P m \<Longrightarrow> (\<And>x. calls_only P (k x)) \<Longrightarrow> calls_only P (unless_code code r m k)"
  unfolding unless_code_def by (intro calls_intros)

lemma calls_probe [calls_intros]: "calls_only P m \<Longrightarrow> calls_only P (probe codes m)"
  unfolding probe_def by (intro calls_intros)

lemma calls_any_gone [calls_intros]: "calls_only P (any_gone xs)"
  unfolding any_gone_def by (intro calls_intros)

lemma reads_kms [calls_intros]: "calls_only reads (is_kms_key_in_pending_deletion aws arn)"
  unfolding is_kms_key_in_pending_deletion_def kms_key_state_def by (intro calls_intros) (simp add: reads_def)

lemma reads_nat [calls_intros]: "calls_only reads (is_nat_gateway_deleted aws arn)"
  unfolding is_nat_gateway_deleted_def by (intro calls_intros) (simp add: reads_def)

lemma reads_flow_log [calls_intros]: "calls_only reads (is_vpc_flow_log_deleted aws arn)"
  unfolding is_vpc_flow_log_deleted_def by (intro calls_intros) (simp add: reads_def)

lemma reads_vpce [calls_intros]: "calls_only reads (is_vpc_endpoint_deleted aws arn)"
  unfolding is_vpc_endpoint_deleted_def by (intro calls_intros) (simp add: reads_def)

lemma reads_sg [calls_intros]: "calls_only reads (is_security_group_deleted aws arn)"
  unfolding is_security_group_deleted_def by (intro calls_intros) (simp add: reads_def)

lemma reads_looks_gone [calls_intros]: "calls_only reads (looks_gone aws arn)"
  unfolding looks_gone_def by (intro calls_intros)

lemma reads_live [calls_intros]: "calls_only reads (handler_reports_live aws arn)"
  unfolding handler_reports_live_def cloudfront_is_live_def ecs_is_live_def cognito_is_live_def
  by (intro calls_intros; simp add: reads_def)

lemma reads_residue [calls_intros]: "calls_only reads (residue aws rs)"
proof (induction rs)
  case (Cons r rs)
  then show ?case unfolding residue.simps by (intro calls_intros)
qed (unfold residue.simps, intro calls_intros)

lemma reads_enumerate [calls_intros]: "calls_only reads (enumerate_resources aws run_id t i)"
  unfolding enumerate_resources_def by (intro calls_intros) (simp add: reads_def)

lemma reads_enumerate_and_spare [calls_intros]: "calls_only reads (enumerate_and_spare aws run_id t i now)"
  unfolding enumerate_and_spare_def by (intro calls_intros)

lemma reads_paginate [calls_intros]: "startswith m ''get_'' \<Longrightarrow> calls_only reads (ce_paginate fuel aws m k token)"
proof (induction fuel arbitrary: token)
  case (Suc n)
  show ?case unfolding ce_paginate.simps
    by (intro calls_intros Suc.IH Suc.prems) (simp add: reads_def Suc.prems)
qed (simp add: calls_intros)

lemma reads_ce_loop [calls_intros]: "calls_only reads (ce_loop aws ''check'' min_age now nk ak pres sufs m xs)"
proof (induction xs)
  case (Cons x xs)
  have "calls_only reads (case n of JStr name \<Rightarrow>
      if \<not> ce_name_matches name pres sufs \<or> too_young (ce_epoch_age name now) min_age
      then ce_loop aws ''check'' min_age now nk ak pres sufs m xs
      else bindC (ce_act aws ''check'' arn name m ak) (\<lambda>entry.
        bindC (ce_loop aws ''check'' min_age now nk ak pres sufs m xs) (\<lambda>rest. ret (entry # rest)))
    | _ \<Rightarrow> raise AttributeError)" for n arn
    using Cons.IH by (cases n) (auto simp: ce_act_def intro!: calls_intros)
  then show ?case unfolding ce_loop.simps by (intro calls_intros)
qed (unfold ce_loop.simps, intro calls_intros)

lemma reads_monitors [calls_intros]: "calls_only reads (swept_monitors a aws ''check'')"
  unfolding swept_monitors_def sweep_ce_anomaly_monitors_def by (intro calls_intros) auto

lemma calls_write_report [calls_intros]: "calls_only P (write_report p r acc mode rid found n)"
  unfolding write_report_def by (intro calls_intros)

lemma reads_check_mode [calls_intros]: "calls_only reads (check_mode a aws mode account rs)"
  unfolding check_mode_def by (intro calls_intros)

lemma calls_load_allowlist [calls_intros]: "calls_only P (load_allowlist p)"
  unfolding load_allowlist_def by (intro calls_intros)

lemma reads_check: "calls_only reads (sweep_main a aws ''check'')"
  unfolding sweep_main_def by (intro calls_intros) (auto simp: reads_def)

text \<open>In check mode the sweeper only asks: every call it makes is a get or a describe operation,
  whatever the inventory holds and whatever the services answer.\<close>

theorem check_mode_only_reads:
  "\<exists>cs. calls (world (snd (sweep_main a aws ''check'' s))) = calls (world s) @ cs \<and> list_all reads cs"
  using reads_check [of a aws] unfolding calls_only_def by blast

section \<open>The account guard\<close>

lemma role_allowed_True: "role_allowed row = Inr True \<Longrightarrow> \<exists>r. json_get row ''account_role'' = Inr r \<and> r \<in> set ALLOWED_ROLES"
proof -
  assume "role_allowed row = Inr True"
  then obtain v where "json_get row ''account_role'' = Inr v" "(case v of JList _ \<Rightarrow> Inl TypeError | JObj _ \<Rightarrow> Inl TypeError
      | _ \<Rightarrow> Inr (v \<in> set ALLOWED_ROLES)) = Inr True"
    by (auto simp: role_allowed_def bindR_Inr_iff)
  then show ?thesis by (cases v) simp_all
qed

lemma allowed_accounts_sound:
  "allowed_accounts (JObj kvs) = Inr xs \<Longrightarrow> x \<in> set xs \<Longrightarrow> \<exists>row r. (x, row) \<in> set kvs \<and> json_get row ''account_role'' = Inr r \<and> r \<in> set ALLOWED_ROLES"
proof (induction kvs arbitrary: xs)
  case (Cons kv kvs)
  obtain k row where kv: "kv = (k, row)" by fastforce
  from Cons.prems(1) obtain b ys where b: "role_allowed row = Inr b" and ys: "allowed_accounts (JObj kvs) = Inr ys"
    and xs: "xs = (if b then k # ys else ys)"
    by (fastforce simp: kv allowed_accounts_def bindR_Inr_iff split: if_splits)
  show ?case
  proof (cases "x \<in> set ys")
    case True
    from Cons.IH [OF ys this] show ?thesis by (auto simp: kv)
  next
    case False
    then have "b" "x = k" using Cons.prems(2) xs by (auto split: if_splits)
    then show ?thesis using role_allowed_True [of row] b by (auto simp: kv)
  qed
qed (simp add: allowed_accounts_def)

lemma load_allowlist_state: "load_allowlist p s = (r, t) \<Longrightarrow> t = s"
  by (auto simp: load_allowlist_def bindC_def try_except_def read_text_def Let_def split: if_splits option.splits sum.splits prod.splits)

lemma load_allowlist_Inr:
  "load_allowlist p s = (Inr xs, t) \<Longrightarrow>
     \<exists>body v. map_of (files s) (path_of p) = Some body \<and> loads body = Some v \<and> allowed_accounts v = Inr xs"
  by (auto simp: load_allowlist_def bindC_def try_except_def read_text_def json_loads_def Let_def
      split: if_splits option.splits sum.splits prod.splits)

lemma allowed_accounts_dict: "allowed_accounts v = Inr xs \<Longrightarrow> \<exists>kvs. v = JObj kvs"
  by (auto simp: allowed_accounts_def split: json.splits)

lemma make_client_state: "make_client s = (r, t) \<Longrightarrow> t = s"
  by (auto simp: make_client_def bindC_def environ_of_def split: sum.splits prod.splits)

abbreviation sts_call :: "op \<times> kwargs" where
  "sts_call \<equiv> ((''sts'', ''get_caller_identity''), [])"

text \<open>Up to the guard a run makes one call at most; past it the account is listed.\<close>

lemma aws_call_cases:
  assumes "aws_call aws f kw s = (r, t)"
  shows "calls (world t) = calls (world s) @ [(f, kw)]"
  using assms by (auto simp: aws_call_def log_call_def bindC_def Let_def split: prod.splits aws_answer.splits)

lemma account_in_Some: "account_in v xs = Inr (Some x) \<Longrightarrow> v = JStr x \<and> x \<in> set xs"
  by (auto simp: account_in_def split: json.splits if_splits)

lemma past_the_guard:
  assumes m: "sweep_main a aws mode s = (r, s')"
    and c: "calls (world s') \<noteq> calls (world s)" "calls (world s') \<noteq> calls (world s) @ [sts_call]"
  shows "\<exists>allowlist identity v account. load_allowlist (sw_accounts a) s = (Inr allowlist, s) \<and>
     aws (''sts'', ''get_caller_identity'') [] (outside (world s)) = (Aws_Ok identity, v) \<and>
     json_index identity ''Account'' = Inr (JStr account) \<and> account \<in> set allowlist"
proof -
  obtain q t where q: "load_allowlist (sw_accounts a) s = (q, t)" by fastforce
  have t: "t = s" using load_allowlist_state [OF q] .
  obtain allowlist where al: "q = Inr allowlist" using m c(1) q t by (cases q) (auto simp: sweep_main_def bindC_def)
  obtain q2 where q2: "make_client s = (q2, s)" using make_client_state by (metis surj_pair)
  have q2i: "q2 = Inr ()" using m c(1) q q2 t al by (cases q2) (auto simp: sweep_main_def bindC_def thenC_def)
  obtain q3 t3 where q3: "aws_call aws (''sts'', ''get_caller_identity'') [] s = (q3, t3)" by fastforce
  note one = aws_call_cases [OF q3]
  obtain identity where i: "q3 = Inr identity"
    using m c(2) q q2 q2i q3 t al one by (cases q3) (auto simp: sweep_main_def bindC_def thenC_def)
  obtain acc where acc: "json_index identity ''Account'' = Inr acc"
    using m c(2) q q2 q2i q3 t al one i by (cases "json_index identity ''Account''") (auto simp: sweep_main_def bindC_def thenC_def key_def)
  obtain ok where ok: "account_in acc allowlist = Inr ok"
    using m c(2) q q2 q2i q3 t al one i acc by (cases "account_in acc allowlist") (auto simp: sweep_main_def bindC_def thenC_def key_def)
  obtain account where "ok = Some account"
    using m c(2) q q2 q2i q3 t al one i acc ok by (cases ok) (auto simp: sweep_main_def bindC_def thenC_def key_def)
  then have "acc = JStr account" "account \<in> set allowlist" using account_in_Some ok by auto
  then show ?thesis using q t al q3 i acc by (auto simp: aws_call_Inr_iff)
qed

text \<open>C10. The sweeper asks for the caller's account first. It makes any further call, in either mode, only
  if that account is listed in the accounts file as a sandbox or a QA infrastructure account.\<close>

theorem sweep_only_listed_accounts:
  assumes "sweep_main a aws mode s = (r, s')"
    and "calls (world s') \<noteq> calls (world s)" "calls (world s') \<noteq> calls (world s) @ [sts_call]"
  shows "\<exists>body accounts identity v account row role. map_of (files s) (path_of (sw_accounts a)) = Some body \<and>
     loads body = Some (JObj accounts) \<and> (account, row) \<in> set accounts \<and>
     json_get row ''account_role'' = Inr role \<and> role \<in> {JStr ''sandbox'', JStr ''qa-infra''} \<and>
     aws (''sts'', ''get_caller_identity'') [] (outside (world s)) = (Aws_Ok identity, v) \<and>
     json_index identity ''Account'' = Inr (JStr account)"
proof -
  from past_the_guard [OF assms] obtain allowlist identity v account where
    g: "load_allowlist (sw_accounts a) s = (Inr allowlist, s)"
      "aws (''sts'', ''get_caller_identity'') [] (outside (world s)) = (Aws_Ok identity, v)"
      "json_index identity ''Account'' = Inr (JStr account)" "account \<in> set allowlist" by blast
  from load_allowlist_Inr [OF g(1)] obtain body w where
    w: "map_of (files s) (path_of (sw_accounts a)) = Some body" "loads body = Some w" "allowed_accounts w = Inr allowlist" by blast
  obtain kvs where kvs: "w = JObj kvs" using allowed_accounts_dict [OF w(3)] by blast
  then obtain row role where "(account, row) \<in> set kvs" "json_get row ''account_role'' = Inr role" "role \<in> set ALLOWED_ROLES"
    using allowed_accounts_sound [of kvs allowlist account] w(3) g(4) by auto
  then show ?thesis using w(1,2) g(2,3) kvs unfolding ALLOWED_ROLES_def by (simp only: list.set) blast
qed

section \<open>Run ids and ages\<close>

text \<open>A number printed with exactly \<open>k\<close> digits, and the run id of the test runner
  (\<open>run_terratest.py\<close>, \<open>_generate_run_id\<close>) at a time with a year of four digits.\<close>

fun pad :: "nat \<Rightarrow> nat \<Rightarrow> string" where
  "pad 0 n = []"
| "pad (Suc k) n = pad k (n div 10) @ [digit_char (n mod 10)]"

definition stamp14 :: "nat \<Rightarrow> nat \<Rightarrow> nat \<Rightarrow> nat \<Rightarrow> nat \<Rightarrow> nat \<Rightarrow> string" where
  "stamp14 y mo d h mi se = pad 4 y @ pad 2 mo @ pad 2 d @ pad 2 h @ pad 2 mi @ pad 2 se"

definition generate_run_id :: "(string, string) dict \<Rightarrow> nat \<Rightarrow> nat \<Rightarrow> nat \<Rightarrow> nat \<Rightarrow> nat \<Rightarrow> nat \<Rightarrow> string \<Rightarrow> string" where
  "generate_run_id env y mo d h mi se rand_chars = (case map_of env ''TERRATEST_RUN_ID'' of
      Some (c # cs) \<Rightarrow> c # cs
    | _ \<Rightarrow> TERRATEST_RUN_ID_PREFIX @ ''-'' @ stamp14 y mo d h mi se @ ''-'' @ rand_chars)"

lemma length_pad [simp]: "length (pad k n) = k"
  by (induction k arbitrary: n) auto

lemma pad_digits: "all_digits (pad k n)"
  by (induction k arbitrary: n) (auto simp: all_digits_def)

lemma nat_of_digits_snoc: "nat_of_digits (s @ [c]) = 10 * nat_of_digits s + digit_val c"
  by (simp add: nat_of_digits_def)

lemma nat_of_digits_pad: "nat_of_digits (pad k n) = n mod 10 ^ k"
proof (induction k arbitrary: n)
  case (Suc k)
  have "10 * (n div 10 mod 10 ^ k) + n mod 10 = n mod (10 * 10 ^ k)" by (simp add: mod_mult2_eq)
  then show ?case by (simp add: nat_of_digits_snoc Suc.IH)
qed (simp add: nat_of_digits_def)

lemma digit_char_val: "is_digit c \<Longrightarrow> digit_char (digit_val c) = c \<and> digit_val c < 10"
  by (auto simp: is_digit_def digit_char_def digit_val_def Let_def)

lemma pad_nat_of_digits: "all_digits s \<Longrightarrow> pad (length s) (nat_of_digits s) = s"
proof (induction s rule: rev_induct)
  case (snoc c s)
  then have "is_digit c" "all_digits s" by (simp_all add: all_digits_def)
  then show ?case using snoc.IH digit_char_val [of c] by (simp add: nat_of_digits_snoc)
qed simp

lemma strptime14_stamp:
  assumes "valid_time (int y) mo d h mi se"
  shows "strptime14 (stamp14 y mo d h mi se) = Some (utc_micros (int y) mo d h mi se)"
proof -
  have "days_in_month (int y) mo \<le> 31" by (simp add: days_in_month_def)
  then have b: "y < 10 ^ 4" "mo < 10 ^ 2" "d < 10 ^ 2" "h < 10 ^ 2" "mi < 10 ^ 2" "se < 10 ^ 2"
    using assms by (auto simp: valid_time_def)
  show ?thesis using assms b
    by (simp add: strptime14_def stamp14_def Let_def nat_of_digits_pad del: power_numeral)
qed

lemma stamp14_strptime:
  assumes "length s = 14" "all_digits s" "strptime14 s = Some ts"
  shows "\<exists>y mo d h mi se. s = stamp14 y mo d h mi se \<and> valid_time (int y) mo d h mi se \<and> ts = utc_micros (int y) mo d h mi se"
proof -
  define f where "f i n = nat_of_digits (take n (drop i s))" for i n
  have p: "pad n (f i n) = take n (drop i s)" if "i + n \<le> 14" for i n
  proof -
    have "set (take n (drop i s)) \<subseteq> set s" by (meson order_trans set_drop_subset set_take_subset)
    then have "all_digits (take n (drop i s))" using assms(2) by (auto simp: all_digits_def list_all_iff)
    from pad_nat_of_digits [OF this] show ?thesis using that assms(1) by (simp add: f_def)
  qed
  have "s = take 4 s @ take 2 (drop 4 s) @ take 2 (drop 6 s) @ take 2 (drop 8 s) @ take 2 (drop 10 s) @ take 2 (drop 12 s)"
  proof -
    have c: "drop i s = take n (drop i s) @ drop (n + i) s" for i n by (metis append_take_drop_id drop_drop)
    show ?thesis using c [of 0 4] c [of 4 2] c [of 6 2] c [of 8 2] c [of 10 2] assms(1) by simp
  qed
  then have "s = stamp14 (f 0 4) (f 4 2) (f 6 2) (f 8 2) (f 10 2) (f 12 2)"
    unfolding stamp14_def using p [of 0 4] p [of 4 2] p [of 6 2] p [of 8 2] p [of 10 2] p [of 12 2] by simp
  moreover have "valid_time (int (f 0 4)) (f 4 2) (f 6 2) (f 8 2) (f 10 2) (f 12 2)"
    "ts = utc_micros (int (f 0 4)) (f 4 2) (f 6 2) (f 8 2) (f 10 2) (f 12 2)"
    using assms(3) by (auto simp: strptime14_def f_def Let_def split: if_splits)
  ultimately show ?thesis by blast
qed


lemma run_id_age_iff:
  "run_id_age x now = Some age \<longleftrightarrow> (\<exists>y mo d h mi se rand_chars.
     x = TERRATEST_RUN_ID_PREFIX @ ''-'' @ stamp14 y mo d h mi se @ ''-'' @ rand_chars \<and> valid_time (int y) mo d h mi se \<and>
     age = now - utc_micros (int y) mo d h mi se)"
  (is "?l \<longleftrightarrow> ?r")
proof
  assume ?l
  then obtain ts where pre: "startswith x ''tt-''" and len: "3 \<le> length (split_on (CHR ''-'') x)"
    and dig: "length (split_on (CHR ''-'') x ! 1) = 14" "all_digits (split_on (CHR ''-'') x ! 1)"
    and ts: "strptime14 (split_on (CHR ''-'') x ! 1) = Some ts" and age: "age = now - ts"
    by (auto simp: run_id_age_def TERRATEST_RUN_ID_PREFIX_def Let_def split: if_splits)
  obtain z where z: "x = ''tt'' @ CHR ''-'' # z" using pre by (auto simp: prefix_def)
  have sz: "split_on (CHR ''-'') x = ''tt'' # split_on (CHR ''-'') z" unfolding z by (rule split_on_append) simp
  obtain w ws where ws: "split_on (CHR ''-'') z = w # ws" "ws \<noteq> []" using len sz
    by (cases "split_on (CHR ''-'') z") (auto simp: Suc_le_eq)
  have "z = w @ ''-'' @ join ''-'' ws" using join_split_on [of "CHR ''-''" z] ws by (simp add: join_Cons)
  moreover obtain y mo d h mi se where "w = stamp14 y mo d h mi se" "valid_time (int y) mo d h mi se" "ts = utc_micros (int y) mo d h mi se"
    using stamp14_strptime [of w ts] dig ts sz ws by auto
  ultimately show ?r using z age
    by (intro exI [of _ y] exI [of _ mo] exI [of _ d] exI [of _ h] exI [of _ mi] exI [of _ se] exI [of _ "join ''-'' ws"])
      (simp add: TERRATEST_RUN_ID_PREFIX_def)
next
  assume ?r
  then obtain y mo d h mi se rc where x: "x = ''tt'' @ CHR ''-'' # stamp14 y mo d h mi se @ CHR ''-'' # rc"
    and v: "valid_time (int y) mo d h mi se" "age = now - utc_micros (int y) mo d h mi se"
    by (auto simp: TERRATEST_RUN_ID_PREFIX_def)
  have dig: "all_digits (stamp14 y mo d h mi se)" using pad_digits by (simp add: stamp14_def all_digits_def)
  have "CHR ''-'' \<notin> set (stamp14 y mo d h mi se)"
    using dig by (auto simp: all_digits_def list_all_iff is_digit_def)
  then have "split_on (CHR ''-'') x = ''tt'' # stamp14 y mo d h mi se # split_on (CHR ''-'') rc"
    unfolding x by (simp add: split_on_append)
  moreover have "1 \<le> length (split_on (CHR ''-'') rc)" by (simp add: Suc_le_eq)
  moreover have "length (stamp14 y mo d h mi se) = 14" by (simp add: stamp14_def)
  ultimately show ?l using dig strptime14_stamp [OF v(1)] v(2)
    by (auto simp: run_id_age_def x TERRATEST_RUN_ID_PREFIX_def Let_def)
qed

text \<open>A resource is young when its run id was generated less than \<open>min_age\<close> minutes ago.\<close>

definition young :: "int \<Rightarrow> int \<Rightarrow> json \<Rightarrow> bool" where
  "young min_age now resource = (\<exists>y mo d h mi se rand_chars.
     run_id_tag_value resource = Inr (Some (TERRATEST_RUN_ID_PREFIX @ ''-'' @ stamp14 y mo d h mi se @ ''-'' @ rand_chars)) \<and>
     valid_time (int y) mo d h mi se \<and> now - utc_micros (int y) mo d h mi se < min_age * 60000000)"

lemma is_spared_young: "is_spared min_age now r = Inr b \<Longrightarrow> b \<longleftrightarrow> young min_age now r"
proof -
  assume "is_spared min_age now r = Inr b"
  then obtain v where v: "run_id_tag_value r = Inr v"
    and b: "b \<longleftrightarrow> (case v of None \<Rightarrow> False | Some x \<Rightarrow> too_young (run_id_age x now) min_age)"
    by (auto simp: is_spared_def bindR_Inr_iff)
  show ?thesis
  proof (cases v)
    case (Some x)
    have "too_young (run_id_age x now) min_age \<longleftrightarrow> (\<exists>age. run_id_age x now = Some age \<and> age < min_age * 60000000)"
      by (auto simp: too_young_def split: option.splits)
    also have "\<dots> \<longleftrightarrow> young min_age now r"
      unfolding run_id_age_iff young_def v Some by (simp only: sum.inject option.inject) blast
    finally show ?thesis using b Some by simp
  qed (use v b in \<open>simp add: young_def\<close>)
qed

lemma partition_by_min_age_exact:
  "partition_by_min_age rs min_age now = Inr (xs, ys) \<Longrightarrow>
     xs = filter (\<lambda>r. \<not> young min_age now r) rs \<and> ys = filter (young min_age now) rs"
proof (induction rs arbitrary: xs ys)
  case (Cons r rs)
  then obtain b us vs where b: "is_spared min_age now r = Inr b" and u: "partition_by_min_age rs min_age now = Inr (us, vs)"
    and x: "(xs, ys) = (if b then (us, r # vs) else (r # us, vs))"
    by (auto simp: bindR_Inr_iff)
  show ?case using Cons.IH [OF u] is_spared_young [OF b] x by (auto split: if_splits)
qed simp

lemma enumerate_environ: "enumerate_resources aws run_id t i s = (r, u) \<Longrightarrow> environ u = environ s"
  by (auto simp: enumerate_resources_def aws_pages_def log_call_def bindC_def try_except_def Let_def
      split: prod.splits sum.splits if_splits aws_answer.splits option.splits)

text \<open>C13. The inventory of a sweep over all runs is exactly the tagged resources less those whose run id was
  generated by the test runner within the minimum age; a resource without such a run id is kept.\<close>

theorem global_sweep_spares_young:
  assumes "enumerate_and_spare aws None t i now s = (Inr resources, s')"
  shows "\<exists>listed min_age. enumerate_resources aws None t i s = (Inr listed, s') \<and>
     get_min_age_minutes (environ s) = Inr min_age \<and> resources = filter (\<lambda>r. \<not> young min_age now r) listed"
proof -
  obtain q u where q: "enumerate_resources aws None t i s = (q, u)" by fastforce
  obtain listed where l: "q = Inr listed" using assms q by (cases q) (auto simp: enumerate_and_spare_def bindC_def)
  have "bindC environ_of (\<lambda>env. bindC (lift (get_min_age_minutes env)) (\<lambda>min_age.
      bindC (lift (partition_by_min_age listed min_age now)) (\<lambda>(sweepable, spared). ret sweepable))) u = (Inr resources, s')"
    using assms q l by (simp add: enumerate_and_spare_def bindC_def)
  then obtain min_age spared where "get_min_age_minutes (environ u) = Inr min_age"
    "partition_by_min_age listed min_age now = Inr (resources, spared)" "s' = u"
    by (auto simp: bindC_def environ_of_def split: sum.splits)
  then show ?thesis using q l enumerate_environ [OF q] partition_by_min_age_exact by auto
qed

text \<open>The run ids the test runner generates carry their time: the sweeper computes the exact age from
  the id, unless the id was given from outside.\<close>

theorem run_id_roundtrip:
  assumes "valid_time (int y) mo d h mi se" and "map_of env ''TERRATEST_RUN_ID'' = None"
  shows "run_id_age (generate_run_id env y mo d h mi se rand_chars) now = Some (now - utc_micros (int y) mo d h mi se)"
  unfolding run_id_age_iff using assms by (simp only: generate_run_id_def option.case) blast

section \<open>Delete passes\<close>

definition entry_for :: "json \<Rightarrow> json \<Rightarrow> bool" where
  "entry_for r e = (\<exists>arn action. arn_of r = Inr arn \<and> e = entry arn action)"

lemma dispatch_entry:
  assumes "dispatch_delete aws final r s = (Inr (e, dfr), s')"
  shows "entry_for r e \<and> (dfr \<longrightarrow> \<not> final)"
  using assms by (auto simp: dispatch_delete_def bindC_def catchC_def delete_outcome_def entry_for_def
      split: option.splits prod.splits sum.splits if_splits)

lemma pass_loop_splits:
  "pass_loop aws final rs s = (Inr (entries, pending), s') \<Longrightarrow>
     \<exists>defers. length defers = length rs \<and> list_all2 entry_for (map fst (filter (\<lambda>x. \<not> snd x) (zip rs defers))) entries \<and>
       pending = map fst (filter snd (zip rs defers)) \<and> (final \<longrightarrow> pending = [])"
proof (induction rs arbitrary: entries pending s)
  case (Cons r rs)
  from Cons.prems obtain e dfr u es ps where
    d: "dispatch_delete aws final r s = (Inr (e, dfr), u)" and l: "pass_loop aws final rs u = (Inr (es, ps), s')"
    and eq: "(entries, pending) = (if dfr then (es, r # ps) else (e # es, ps))"
    by (auto simp: bindC_Inr_iff split: prod.splits) 
  from Cons.IH [OF l] obtain ds where ds: "length ds = length rs"
    "list_all2 entry_for (map fst (filter (\<lambda>x. \<not> snd x) (zip rs ds))) es" "ps = map fst (filter snd (zip rs ds))" "final \<longrightarrow> ps = []" by blast
  show ?case using ds dispatch_entry [OF d] eq by (intro exI [of _ "dfr # ds"]) (auto split: if_splits)
qed (simp add: ret_def)

lemma all_handled:
  assumes "pass_loop aws final rs s = (Inr (entries, []), s')"
  shows "list_all2 entry_for rs entries"
proof -
  obtain ds where ds: "length ds = length rs" "list_all2 entry_for (map fst (filter (\<lambda>x. \<not> snd x) (zip rs ds))) entries"
    "[] = map fst (filter snd (zip rs ds))" using pass_loop_splits [OF assms] by blast
  have "\<forall>x \<in> set (zip rs ds). \<not> snd x" using ds(3) by (metis (no_types) filter_empty_conv list.map_disc_iff)
  then have "filter (\<lambda>x. \<not> snd x) (zip rs ds) = zip rs ds" by (simp add: filter_True)
  then show ?thesis using ds(1,2) by simp
qed

definition tier_key :: "json \<Rightarrow> nat" where
  "tier_key r = (case arn_of r of Inr arn \<Rightarrow> tier_of arn | Inl e \<Rightarrow> 0)"

lemma partition_tiers:
  "partition_ec2_by_tier rs = Inr (n, a, b, c) \<Longrightarrow>
     n = filter (\<lambda>r. tier_key r = 0) rs \<and> a = filter (\<lambda>r. tier_key r = 1) rs \<and>
     b = filter (\<lambda>r. tier_key r = 2) rs \<and> c = filter (\<lambda>r. tier_key r = 3) rs"
proof (induction rs arbitrary: n a b c)
  case (Cons r rs)
  then obtain arn n' a' b' c' where "arn_of r = Inr arn" "partition_ec2_by_tier rs = Inr (n', a', b', c')"
    "(n, a, b, c) = (if tier_of arn = 0 then (r # n', a', b', c') else if tier_of arn = 1 then (n', r # a', b', c')
        else if tier_of arn = 3 then (n', a', b', r # c') else (n', a', r # b', c'))"
    by (auto simp: bindR_Inr_iff)
  moreover have "tier_of arn \<in> {0, 1, 2, 3}" by (simp add: tier_of_def)
  ultimately show ?case using Cons.IH by (auto simp: tier_key_def split: if_splits)
qed simp

lemma tier_key_le: "tier_key r \<le> 3"
  by (auto simp: tier_key_def tier_of_def split: sum.splits)

text \<open>The order of a pass is the stable sort by tier.\<close>

lemma tiers_sorted:
  "filter (\<lambda>r. tier_key r = 0) rs @ filter (\<lambda>r. tier_key r = 1) rs @ filter (\<lambda>r. tier_key r = 2) rs @ filter (\<lambda>r. tier_key r = 3) rs
     = sort_key tier_key rs" (is "?l = _")
proof (rule properties_for_sort_key [symmetric])
  show "sorted (map tier_key ?l)" by (simp add: sorted_append o_def) (auto simp: sorted_map_same intro: sorted_map_same)
next
  have "mset (filter (\<lambda>r. tier_key r = 0) rs) + mset (filter (\<lambda>r. tier_key r = 1) rs)
      + mset (filter (\<lambda>r. tier_key r = 2) rs) + mset (filter (\<lambda>r. tier_key r = 3) rs) = mset rs"
  proof (induction rs)
    case (Cons r rs)
    have "tier_key r = 0 \<or> tier_key r = 1 \<or> tier_key r = 2 \<or> tier_key r = 3" using tier_key_le [of r] by linarith
    then show ?case using Cons.IH by auto
  qed simp
  then show "mset ?l = mset rs" by (simp add: add.assoc)
next
  fix k assume "k \<in> set ?l"
  have "tier_key k = 0 \<or> tier_key k = 1 \<or> tier_key k = 2 \<or> tier_key k = 3" using tier_key_le [of k] by linarith
  then show "filter (\<lambda>x. tier_key k = tier_key x) ?l = filter (\<lambda>x. tier_key k = tier_key x) rs"
    by (elim disjE) (simp_all add: filter_empty_conv conj_commute eq_commute [of _ "tier_key _"] cong: filter_cong, auto)
qed

lemma delete_pass_order:
  assumes "delete_pass aws final rs s = (Inr (entries, pending), s')"
  shows "pass_loop aws final (sort_key tier_key rs) s = (Inr (entries, pending), s')"
proof -
  obtain n a b c where p: "partition_ec2_by_tier rs = Inr (n, a, b, c)"
    and l: "pass_loop aws final (n @ a @ b @ c) s = (Inr (entries, pending), s')"
    using assms by (auto simp: delete_pass_def bindC_Inr_iff)
  show ?thesis using l partition_tiers [OF p] tiers_sorted [of rs] by simp
qed

text \<open>The inventory of a pass: the one given, or a later reading of the tags.\<close>

lemma delete_loop_last:
  "delete_loop aws run_id t i now_at n p rs s = (Inr entries, s') \<Longrightarrow> n \<noteq> 0 \<Longrightarrow>
     \<exists>latest. (latest = rs \<or> (\<exists>q u u'. p < q \<and> q < p + n \<and> enumerate_and_spare aws run_id t i (now_at q) u = (Inr latest, u'))) \<and>
       list_all2 entry_for (sort_key tier_key latest) entries"
proof (induction n arbitrary: p rs s)
  case (Suc n)
  show ?case
  proof (cases "rs = []")
    case True
    then show ?thesis using Suc.prems by (intro exI [of _ "[]"]) simp
  next
    case False
    then obtain es ps u where d: "delete_pass aws (n = 0) rs s = (Inr (es, ps), u)"
      and r: "(if n = 0 \<or> ps = [] then ret es
        else bindC (enumerate_and_spare aws run_id t i (now_at (Suc p))) (delete_loop aws run_id t i now_at n (Suc p))) u = (Inr entries, s')"
      using Suc.prems(1) by (auto simp: bindC_Inr_iff)
    note o = delete_pass_order [OF d]
    have fin: "n = 0 \<Longrightarrow> ps = []" using pass_loop_splits [OF o] by blast
    show ?thesis
    proof (cases "ps = []")
      case True
      then show ?thesis using r o all_handled [of aws "n = 0" "sort_key tier_key rs" s es u] by (intro exI [of _ rs]) auto
    next
      case False
      then have n: "n \<noteq> 0" using fin by blast
      then obtain rs' v where e: "enumerate_and_spare aws run_id t i (now_at (Suc p)) u = (Inr rs', v)"
        and l: "delete_loop aws run_id t i now_at n (Suc p) rs' v = (Inr entries, s')"
        using r False by (auto simp: bindC_Inr_iff)
      from Suc.IH [OF l n] obtain latest where
        "latest = rs' \<or> (\<exists>q u u'. Suc p < q \<and> q < Suc p + n \<and> enumerate_and_spare aws run_id t i (now_at q) u = (Inr latest, u'))"
        and la: "list_all2 entry_for (sort_key tier_key latest) entries" by blast
      then have "\<exists>q u u'. p < q \<and> q < p + Suc n \<and> enumerate_and_spare aws run_id t i (now_at q) u = (Inr latest, u')"
      proof (elim disjE exE conjE)
        assume "latest = rs'"
        then show ?thesis using e n by (intro exI [of _ "Suc p"] exI [of _ u] exI [of _ v]) simp
      next
        fix q u u' assume "Suc p < q" "q < Suc p + n" "enumerate_and_spare aws run_id t i (now_at q) u = (Inr latest, u')"
        then show ?thesis by (intro exI [of _ q] exI [of _ u] exI [of _ u']) simp
      qed
      then show ?thesis using la by blast
    qed
  qed
qed simp

section \<open>Exit status zero\<close>

text \<open>Steps and computations that do not end the process with status zero. A client call raises an
  exception, it does not exit.\<close>

definition unended :: "exn + 'a \<Rightarrow> bool" where
  "unended r = (r \<noteq> Inl (SystemExit 0))"

definition goes_on :: "('w, 'a) ci \<Rightarrow> bool" where
  "goes_on m = (\<forall>s. unended (fst (m s)))"

definition answers :: "'v aws \<Rightarrow> bool" where
  "answers aws = (\<forall>f kw v. case fst (aws f kw v) of Aws_Ok _ \<Rightarrow> True | Aws_Raises e \<Rightarrow> is_exception e
     | Aws_Pages ps e \<Rightarrow> (case e of None \<Rightarrow> True | Some x \<Rightarrow> is_exception x))"

named_theorems on_intros "closure of unended and goes_on"

lemma unended_simps [simp]: "unended (Inr x)" "unended (Inl e) \<longleftrightarrow> e \<noteq> SystemExit 0"
  by (simp_all add: unended_def)

lemma unended_bind [on_intros]: "unended r \<Longrightarrow> (\<And>x. unended (f x)) \<Longrightarrow> unended (bindR r f)"
  by (cases r) auto

lemma unended_mapM [on_intros]: "(\<And>x. unended (f x)) \<Longrightarrow> unended (mapM f xs)"
  by (induction xs) (auto intro!: on_intros)

lemma unended_if [on_intros]: "(b \<Longrightarrow> unended x) \<Longrightarrow> (\<not> b \<Longrightarrow> unended y) \<Longrightarrow> unended (if b then x else y)"
  by simp

lemma unended_json [on_intros]:
  "unended (json_get v k)" "unended (json_get_default v k d)" "unended (json_index v k)" "unended (json_iter v)"
  "unended (json_loads body)" "unended (nth_seg c z n)"
  by (auto simp: json_get_def json_get_default_def json_index_def json_iter_def json_loads_def nth_seg_def Let_def
      split: json.splits option.splits)

lemma unended_items [on_intros]: "unended (items_of v k)"
  unfolding items_of_def by (intro on_intros)

lemma unended_floats [on_intros]: "unended (float_to_int g x)" "unended (env_float env n d)"
  by (auto simp: float_to_int_def env_float_def split: pyfloat.splits option.splits)

lemma unended_budget [on_intros]:
  "unended (compute_max_attempts a b)" "unended (get_poll_timeout env)" "unended (get_poll_interval env)" "unended (get_min_age_minutes env)"
  by (auto simp: compute_max_attempts_def get_poll_timeout_def get_poll_interval_def get_min_age_minutes_def env_int_or_def
      intro!: on_intros split: option.splits)

lemma unended_retry [on_intros]: "unended (client_retry_config env)"
  unfolding client_retry_config_def by (intro on_intros)

lemma on_bind [on_intros]: "goes_on m \<Longrightarrow> (\<And>x. goes_on (k x)) \<Longrightarrow> goes_on (bindC m k)"
  unfolding goes_on_def by (auto simp: bindC_def unended_def split: prod.splits sum.splits) (metis fst_conv)

lemma on_then [on_intros]: "goes_on m \<Longrightarrow> goes_on k \<Longrightarrow> goes_on (thenC m k)"
  unfolding thenC_def by (rule on_bind)

lemma on_try [on_intros]: "goes_on m \<Longrightarrow> goes_on h \<Longrightarrow> goes_on (try_except m p h)"
  unfolding goes_on_def by (auto simp: try_except_def unended_def split: prod.splits sum.splits) (metis fst_conv)

lemma on_none [on_intros]:
  "goes_on (ret x)" "goes_on die" "goes_on get_files" "goes_on (read_text p)" "goes_on (write_text p b)" "goes_on (put_line l)"
  "goes_on environ_of"
  by (auto simp: goes_on_def read_text_def write_text_def environ_of_def split: option.splits)

lemma on_raise [on_intros]: "e \<noteq> SystemExit 0 \<Longrightarrow> goes_on (raise e)"
  by (simp add: goes_on_def)

lemma on_lift [on_intros]: "unended r \<Longrightarrow> goes_on (lift r)"
  by (simp add: goes_on_def)

lemma on_if [on_intros]: "(b \<Longrightarrow> goes_on m) \<Longrightarrow> (\<not> b \<Longrightarrow> goes_on k) \<Longrightarrow> goes_on (if b then m else k)"
  by simp

lemma on_option [on_intros]:
  "(x = None \<Longrightarrow> goes_on m) \<Longrightarrow> (\<And>y. x = Some y \<Longrightarrow> goes_on (k y)) \<Longrightarrow> goes_on (case x of None \<Rightarrow> m | Some y \<Rightarrow> k y)"
  by (cases x) simp_all

lemma on_pair [on_intros]: "(\<And>a b. goes_on (k a b)) \<Longrightarrow> goes_on (case x of (a, b) \<Rightarrow> k a b)"
  by (cases x) simp

lemma on_let [on_intros]: "goes_on (k x) \<Longrightarrow> goes_on (let y = x in k y)"
  by simp

lemma on_json [on_intros]:
  "(\<And>z. goes_on (k z)) \<Longrightarrow> goes_on m \<Longrightarrow> goes_on (case v of JStr z \<Rightarrow> k z | _ \<Rightarrow> m)"
  by (cases v) simp_all

lemma on_getd [on_intros]: "goes_on (getd v k d)" "goes_on (key v k)"
  unfolding getd_def key_def by (intro on_intros)+

lemma on_iter [on_intros]: "(\<And>x. goes_on (f x)) \<Longrightarrow> goes_on (iterC f xs)"
proof (induction xs)
  case (Cons x xs)
  then show ?case unfolding iterC.simps by (intro on_intros) auto
qed (unfold iterC.simps, intro on_intros)

lemma on_until [on_intros]: "(\<And>x. goes_on (f x)) \<Longrightarrow> goes_on (untilC f xs)"
proof (induction xs)
  case (Cons x xs)
  then show ?case unfolding untilC.simps by (intro on_intros) auto
qed (unfold untilC.simps, intro on_intros)

lemma on_each [on_intros]: "(\<And>x. goes_on (f x)) \<Longrightarrow> goes_on (each v k f)"
  unfolding each_def by (intro on_intros)

lemma on_giving [on_intros]: "goes_on m \<Longrightarrow> goes_on (giving r m)"
  unfolding giving_def by (intro on_intros)

lemma on_make_client [on_intros]: "goes_on make_client"
  unfolding make_client_def by (intro on_intros)

lemma answers_simps:
  assumes "answers aws"
  shows "aws f kw v = (Aws_Raises e, w) \<Longrightarrow> e \<noteq> SystemExit 0"
    and "aws f kw v = (Aws_Pages ps (Some e), w) \<Longrightarrow> e \<noteq> SystemExit 0"
  using assms [unfolded answers_def, rule_format, of f kw v] by auto

lemma on_call [on_intros]: "answers aws \<Longrightarrow> goes_on (aws_call aws f kw)"
  by (auto simp: goes_on_def aws_call_def log_call_def bindC_def Let_def dest: answers_simps split: prod.splits aws_answer.splits)

lemma on_pages:
  assumes a: "answers aws" and k: "\<And>ps e. (\<And>x. e = Some x \<Longrightarrow> x \<noteq> SystemExit 0) \<Longrightarrow> goes_on (k (ps, e))"
  shows "goes_on (bindC (aws_pages aws f kw) k)"
  unfolding goes_on_def
proof
  fix s :: "'a cloud ci_state"
  obtain ans v where v: "aws f kw (outside (world s)) = (ans, v)" by fastforce
  show "unended (fst (bindC (aws_pages aws f kw) k s))"
  proof (cases ans)
    case (Aws_Pages ps e)
    have "goes_on (k (ps, e))" using answers_simps(2) [OF a] v Aws_Pages by (intro k) blast
    then show ?thesis using v Aws_Pages by (simp add: goes_on_def aws_pages_def log_call_def bindC_def)
  qed (use v answers_simps(1) [OF a] in \<open>auto simp: aws_pages_def log_call_def bindC_def\<close>)
qed

lemma on_for_pages [on_intros]: "answers aws \<Longrightarrow> (\<And>p. goes_on (body p)) \<Longrightarrow> goes_on (for_pages aws f kw body)"
  unfolding for_pages_def by (rule on_pages) (auto intro!: on_intros)

lemma on_act [on_intros]: "answers aws \<Longrightarrow> goes_on (act aws f kw)"
  unfolding act_def by (intro on_intros)

lemma on_catch [on_intros]: "goes_on m \<Longrightarrow> (\<And>e. e \<noteq> SystemExit 0 \<Longrightarrow> goes_on (h e)) \<Longrightarrow> goes_on (catchC m h)"
  unfolding goes_on_def by (auto simp: catchC_def unended_def split: prod.splits sum.splits) (metis fst_conv)

lemma on_unless [on_intros]: "goes_on m \<Longrightarrow> (\<And>x. goes_on (k x)) \<Longrightarrow> goes_on (unless_code code r m k)"
  unfolding unless_code_def by (intro on_intros)

lemma on_probe [on_intros]: "goes_on m \<Longrightarrow> goes_on (probe codes m)"
  unfolding probe_def by (intro on_intros)

lemma on_first_active [on_intros]: "goes_on (first_active xs)"
  unfolding first_active_def by (cases xs) (auto intro!: on_intros)

lemma on_any_gone [on_intros]: "goes_on (any_gone xs)"
  unfolding any_gone_def by (intro on_intros)

lemma on_s3_page [on_intros]: "answers aws \<Longrightarrow> goes_on (s3_purge_page aws bucket page)"
  unfolding s3_purge_page_def by (intro on_intros) (auto intro!: on_intros split: prod.splits json.splits)

lemma on_s3 [on_intros]: "answers aws \<Longrightarrow> goes_on (s3_delete aws arn)"
  unfolding s3_delete_def by (intro on_intros)

lemma on_kms_state [on_intros]: "answers aws \<Longrightarrow> goes_on (kms_key_state aws k)"
  unfolding kms_key_state_def by (intro on_intros)

lemma on_kms_alias [on_intros]: "answers aws \<Longrightarrow> goes_on (kms_delete_alias aws v)"
  unfolding kms_delete_alias_def by (intro on_intros) simp_all

lemma on_kms [on_intros]: "answers aws \<Longrightarrow> goes_on (kms_delete aws arn)"
  unfolding kms_delete_def delete_key_aliases_def by (intro on_intros)

lemma on_iam_role [on_intros]: "answers aws \<Longrightarrow> goes_on (iam_delete_role aws n)"
  unfolding iam_delete_role_def by (intro on_intros)

lemma on_iam [on_intros]: "answers aws \<Longrightarrow> goes_on (iam_delete aws arn)"
  unfolding iam_delete_def by (intro on_intros)

lemma unended_disabled [on_intros]: "unended (set_disabled v)"
  by (auto simp: set_disabled_def split: json.splits)

lemma on_cf_disable [on_intros]: "answers aws \<Longrightarrow> goes_on (cloudfront_disable aws i c e)"
  unfolding cloudfront_disable_def by (intro on_intros) simp_all

lemma on_cloudfront [on_intros]: "answers aws \<Longrightarrow> goes_on (cloudfront_delete aws arn)"
  unfolding cloudfront_delete_def by (intro on_intros)

lemma on_first_ns [on_intros]: "answers aws \<Longrightarrow> goes_on (delete_first_ns aws p n rs)"
proof (induction rs)
  case (Cons r rs)
  then show ?case unfolding delete_first_ns.simps by (intro on_intros) auto
qed (unfold delete_first_ns.simps, intro on_intros)

lemma on_delegation [on_intros]: "answers aws \<Longrightarrow> goes_on (delegation_in_zone aws c n z)"
  unfolding delegation_in_zone_def by (intro on_intros) simp_all

lemma on_parent [on_intros]: "answers aws \<Longrightarrow> goes_on (delete_parent_delegation aws c n)"
  unfolding delete_parent_delegation_def by (rule on_pages) (auto intro!: on_intros)

lemma on_zone_name [on_intros]: "answers aws \<Longrightarrow> goes_on (zone_name aws z)"
  unfolding zone_name_def by (intro on_intros)

lemma on_route53 [on_intros]: "answers aws \<Longrightarrow> goes_on (route53_delete aws arn)"
  unfolding route53_delete_def by (intro on_intros) simp_all

lemma on_ec2_parts [on_intros]:
  "answers aws \<Longrightarrow> goes_on (nat_delete aws i)" "answers aws \<Longrightarrow> goes_on (igw_delete aws i)"
  "answers aws \<Longrightarrow> goes_on (is_default_security_group aws g)"
  unfolding nat_delete_def igw_delete_def is_default_security_group_def by (intro on_intros; simp)+

lemma on_vpce [on_intros]: "answers aws \<Longrightarrow> goes_on (vpce_delete aws i)"
  unfolding vpce_delete_def by (intro on_intros) (auto intro!: on_intros split: list.splits)

lemma on_ec2 [on_intros]: "answers aws \<Longrightarrow> goes_on (ec2_delete aws arn)"
  unfolding ec2_delete_def by (intro on_intros) simp_all

lemma on_ecs [on_intros]: "answers aws \<Longrightarrow> goes_on (ecs_delete aws arn)"
  unfolding ecs_delete_def by (intro on_intros) simp_all

lemma on_simple [on_intros]:
  assumes "answers aws"
  shows "goes_on (acm_delete aws arn)" "goes_on (elb_delete aws arn)" "goes_on (lambda_delete aws arn)"
    "goes_on (firehose_delete aws arn)" "goes_on (athena_delete aws arn)" "goes_on (sns_delete aws arn)" "goes_on (ssm_delete aws arn)"
    "goes_on (logs_delete aws arn)" "goes_on (cloudwatch_delete aws arn)" "goes_on (budgets_delete aws arn)" "goes_on (ce_delete aws arn)"
  unfolding acm_delete_def elb_delete_def lambda_delete_def firehose_delete_def athena_delete_def sns_delete_def ssm_delete_def
    logs_delete_def cloudwatch_delete_def budgets_delete_def ce_delete_def
  by (intro on_intros assms)+

lemma on_glue [on_intros]: "answers aws \<Longrightarrow> goes_on (glue_delete aws arn)"
  unfolding glue_delete_def by (intro on_intros) simp_all

lemma on_quicksight [on_intros]: "answers aws \<Longrightarrow> goes_on (quicksight_delete aws arn)"
  unfolding quicksight_delete_def by (intro on_intros) simp_all

lemma unended_arns [on_intros]: "unended (wafv2_parse_arn arn)" "unended (pool_id_and_region arn)"
  by (auto simp: wafv2_parse_arn_def pool_id_and_region_def Let_def intro!: on_intros split: option.splits)

lemma on_wafv2 [on_intros]: "answers aws \<Longrightarrow> goes_on (wafv2_delete aws arn)"
  unfolding wafv2_delete_def by (intro on_intros)

lemma on_cognito [on_intros]: "answers aws \<Longrightarrow> goes_on (cognito_delete aws arn)" "answers aws \<Longrightarrow> goes_on (cognito_is_live aws arn)"
  unfolding cognito_delete_def cognito_is_live_def by (intro on_intros; simp)+

lemma on_handler: "answers aws \<Longrightarrow> map_of (HANDLERS aws) sv = Some h \<Longrightarrow> goes_on (h arn)"
  unfolding HANDLERS_def by (drule map_of_SomeD) (auto intro: on_intros)

lemma on_dispatch [on_intros]: "answers aws \<Longrightarrow> goes_on (dispatch_delete aws final r)"
proof -
  assume a: "answers aws"
  have arn: "unended (arn_of r)" by (auto simp: arn_of_def intro!: on_intros split: json.splits)
  have "goes_on (case delete_outcome final e of None \<Rightarrow> raise e | Some (action, dfr) \<Rightarrow> ret (entry arn action, dfr))"
    if "e \<noteq> SystemExit 0" for e arn
    using that by (intro on_intros)
  then show ?thesis unfolding dispatch_delete_def
    by (intro on_bind on_lift arn on_option on_catch on_none on_handler [OF a]) (auto intro: on_raise on_none)
qed

lemma on_pass_loop [on_intros]: "answers aws \<Longrightarrow> goes_on (pass_loop aws final rs)"
proof (induction rs)
  case (Cons r rs)
  then show ?case unfolding pass_loop.simps by (intro on_intros) auto
qed (unfold pass_loop.simps, intro on_intros)

lemma unended_arn [on_intros]: "unended (arn_of r)"
  by (auto simp: arn_of_def intro!: on_intros split: json.splits)

lemma unended_tiers [on_intros]: "unended (partition_ec2_by_tier rs)"
  by (induction rs) (auto intro!: on_intros split: prod.splits)

lemma on_delete_pass [on_intros]: "answers aws \<Longrightarrow> goes_on (delete_pass aws final rs)"
  unfolding delete_pass_def by (intro on_intros)

lemma unended_spared [on_intros]: "unended (is_spared min_age now r)"
proof -
  have "unended (find_run_tag tags)" for tags by (induction tags) (auto intro!: on_intros)
  then show ?thesis unfolding is_spared_def run_id_tag_value_def by (intro on_intros) auto
qed

lemma unended_partition [on_intros]: "unended (partition_by_min_age rs min_age now)"
  by (induction rs) (auto intro!: on_intros split: prod.splits)

lemma on_enumerate [on_intros]: "answers aws \<Longrightarrow> goes_on (enumerate_resources aws run_id t i)"
  unfolding enumerate_resources_def
  by (intro on_bind [OF on_lift] on_try on_pages on_none unended_budget) (auto intro!: on_intros)

lemma on_spare [on_intros]: "answers aws \<Longrightarrow> goes_on (enumerate_and_spare aws run_id t i now)"
  unfolding enumerate_and_spare_def by (intro on_intros)

lemma on_delete_loop [on_intros]: "answers aws \<Longrightarrow> goes_on (delete_loop aws run_id t i now_at n p rs)"
proof (induction n arbitrary: p rs)
  case (Suc n)
  then show ?case unfolding delete_loop.simps by (intro on_intros) auto
qed (unfold delete_loop.simps, intro on_intros)

lemma unended_token [on_intros]: "unended (page_token v)"
  unfolding page_token_def by (intro on_intros) simp

lemma on_paginate [on_intros]: "answers aws \<Longrightarrow> goes_on (ce_paginate fuel aws m k token)"
proof (induction fuel arbitrary: token)
  case (Suc n)
  then show ?case unfolding ce_paginate.simps by (intro on_intros) auto
qed (unfold ce_paginate.simps, intro on_intros, simp)

lemma on_ce_act [on_intros]: "answers aws \<Longrightarrow> goes_on (ce_act aws mode arn n m k)"
  unfolding ce_act_def by (intro on_intros)

lemma on_ce_loop [on_intros]: "answers aws \<Longrightarrow> goes_on (ce_loop aws mode min_age now nk ak pres sufs m xs)"
proof (induction xs)
  case (Cons x xs)
  then show ?case unfolding ce_loop.simps by (intro on_intros) auto
qed (unfold ce_loop.simps, intro on_intros)

lemma on_monitors [on_intros]: "answers aws \<Longrightarrow> goes_on (swept_monitors a aws mode)"
  unfolding swept_monitors_def sweep_ce_anomaly_monitors_def by (intro on_intros)

lemma on_looks_gone [on_intros]: "answers aws \<Longrightarrow> goes_on (looks_gone aws arn)"
  unfolding looks_gone_def is_kms_key_in_pending_deletion_def is_nat_gateway_deleted_def is_vpc_flow_log_deleted_def
    is_vpc_endpoint_deleted_def is_security_group_deleted_def by (intro on_intros)

lemma on_live [on_intros]: "answers aws \<Longrightarrow> goes_on (handler_reports_live aws arn)"
  unfolding handler_reports_live_def cloudfront_is_live_def ecs_is_live_def by (intro on_intros)

lemma on_residue [on_intros]: "answers aws \<Longrightarrow> goes_on (residue aws rs)"
proof (induction rs)
  case (Cons r rs)
  then show ?case unfolding residue.simps by (intro on_intros) auto
qed (unfold residue.simps, intro on_intros)

lemma on_report [on_intros]: "goes_on (write_report p r acc mode rid found n)"
proof -
  have "goes_on (make_parents q)" for q :: path unfolding make_parents_def by (intro on_intros) simp
  then show ?thesis unfolding write_report_def by (intro on_intros)
qed

lemma on_allowlist [on_intros]: "goes_on (load_allowlist p)"
proof -
  have "unended (role_allowed row)" for row
    unfolding role_allowed_def by (intro on_intros) (auto split: json.splits)
  then have "unended (allowed_accounts data)" for data
    by (auto simp: allowed_accounts_def intro!: on_intros split: json.splits prod.splits)
  then show ?thesis unfolding load_allowlist_def by (intro on_intros)
qed

text \<open>Past a step that goes on, an exit with status zero comes from the rest.\<close>

lemma exit_bind:
  "goes_on m \<Longrightarrow> bindC m k s = (Inl (SystemExit 0), s') \<longleftrightarrow> (\<exists>x t. m s = (Inr x, t) \<and> k x t = (Inl (SystemExit 0), s'))"
  unfolding bindC_Inl_iff goes_on_def unended_def by (metis fst_conv)

lemma exit_then:
  "goes_on m \<Longrightarrow> thenC m k s = (Inl (SystemExit 0), s') \<longleftrightarrow> (\<exists>x t. m s = (Inr x, t) \<and> k t = (Inl (SystemExit 0), s'))"
  unfolding thenC_def by (rule exit_bind)

lemma report_written:
  assumes "write_report p r acc mode rid found n s = (Inr (), t)"
  shows "map_of (files t) (path_of p) = Some (dumps_indent 0 (sweep_report r acc mode rid found n))"
  using assms by (auto simp: write_report_def thenC_def bindC_def write_text_def update_conv' split: prod.splits sum.splits if_splits)

definition clean_report :: "sweep_args \<Rightarrow> string \<Rightarrow> 'w ci_state \<Rightarrow> bool" where
  "clean_report a mode s = (\<exists>account found.
     map_of (files s) (path_of (report_path_of a)) = Some (dumps_indent 0 (sweep_report (sw_run_at a) account mode (sw_run_id a) found 0)) \<and>
     (if mode = ''check'' then found = [] else list_all (\<lambda>e. \<not> action_is [''reported-unsupported'', ''failed''] e) found))"

lemma check_exit_zero:
  assumes a: "answers aws" and m: "check_mode a aws ''check'' account rs s = (Inl (SystemExit 0), s')"
  shows "clean_report a ''check'' s'"
proof -
  obtain xs ys v where w: "write_report (report_path_of a) (sw_run_at a) account ''check'' (sw_run_id a) (xs @ ys) (length xs + length ys) v = (Inr (), s')"
    and z: "int (length xs) + int (length ys) = 0"
    using m by (auto simp: check_mode_def Let_def exit_bind exit_then on_intros a)
  have "xs = []" "ys = []" using z by (auto simp: add_nonneg_eq_0_iff)
  then show ?thesis using report_written [OF w] unfolding clean_report_def by auto
qed

lemma delete_exit_zero:
  assumes a: "answers aws" and n: "mode \<noteq> ''check''" and m: "delete_mode a aws mode account t i rs s = (Inl (SystemExit 0), s')"
  shows "clean_report a mode s'"
proof -
  let ?bad = "filter (action_is [''reported-unsupported'', ''failed''])"
  obtain found v where w: "write_report (report_path_of a) (sw_run_at a) account mode (sw_run_id a) found (length (?bad found)) v = (Inr (), s')"
    and z: "?bad found = []"
    using m by (auto simp: delete_mode_def Let_def exit_bind exit_then on_intros a split: if_splits)
  have "list_all (\<lambda>e. \<not> action_is [''reported-unsupported'', ''failed''] e) found"
    using z by (simp only: filter_empty_conv list_all_iff)
  then show ?thesis using report_written w n z unfolding clean_report_def by fastforce
qed

lemma exit_zero_clean:
  assumes "answers aws" and "sweep_main a aws mode s = (Inl (SystemExit 0), s')"
  shows "clean_report a mode s'"
proof -
  have "unended (account_in v xs)" for v xs by (auto simp: account_in_def split: json.splits)
  then obtain account t i rs u where
    "(if mode = ''check'' then check_mode a aws mode account rs else delete_mode a aws mode account t i rs) u = (Inl (SystemExit 0), s')"
    using assms by (auto simp: sweep_main_def exit_bind exit_then on_intros split: option.splits)
  then show ?thesis using check_exit_zero [OF assms(1)] delete_exit_zero [OF assms(1)] by (auto split: if_splits)
qed


text \<open>C15. When the passes end, every resource of the last inventory has exactly one recorded outcome, in the
  order non-network resources, gateways and addresses, network parts, networks; a dependency that never
  clears is among them. The last inventory is the first one or a later reading of the tags, at most one per
  further pass.\<close>

theorem delete_loop_accounts_for_all:
  assumes "delete_loop aws run_id t i now_at n 1 rs s = (Inr entries, s')" and "n \<noteq> 0"
  shows "\<exists>latest. (latest = rs \<or> (\<exists>q u u'. 1 < q \<and> q < 1 + n \<and> enumerate_and_spare aws run_id t i (now_at q) u = (Inr latest, u'))) \<and>
    list_all2 entry_for (sort_key tier_key latest) entries"
  using delete_loop_last [OF assms] .

section \<open>Paging ends\<close>

lemma ce_paginate_ends:
  assumes a: "answers aws"
    and less: "\<And>kw v r w token. aws (''ce'', m) kw v = (Aws_Ok r, w) \<Longrightarrow> page_token r = Inr (Some token) \<Longrightarrow> pages_left w < pages_left v"
  shows "pages_left (outside (world s)) < fuel \<Longrightarrow> fst (ce_paginate fuel aws m k token s) \<noteq> Inl Diverges"
proof (induction fuel arbitrary: token s)
  case (Suc n)
  define kw where "kw = (case token of None \<Rightarrow> [] | Some t \<Rightarrow> [(''NextPageToken'', JStr t)])"
  obtain ans v where v: "aws (''ce'', m) kw (outside (world s)) = (ans, v)" by fastforce
  have r: "ans \<noteq> Aws_Raises Diverges"
    using a [unfolded answers_def, rule_format, of "(''ce'', m)" kw "outside (world s)"] v by auto
  show ?case
  proof (cases ans)
    case (Aws_Ok r)
    let ?s = "s\<lparr>world := \<lparr>outside = v, calls = calls (world s) @ [((''ce'', m), kw)]\<rparr>\<rparr>"
    have c: "aws_call aws (''ce'', m) kw s = (Inr r, ?s)" using v Aws_Ok by (auto simp: aws_call_Inr_iff)
    have p: "page_token r \<noteq> Inl Diverges" and g: "json_get_default r k (JList []) \<noteq> Inl Diverges"
      by (auto simp: page_token_def json_get_def json_get_default_def split: json.splits option.splits)
    have rec: "fst (ce_paginate n aws m k (Some t) ?s) \<noteq> Inl Diverges" if "page_token r = Inr (Some t)" for t
    proof (rule Suc.IH)
      show "pages_left (outside (world ?s)) < n" using less [OF v [unfolded Aws_Ok] that] Suc.prems by simp
    qed
    show ?thesis unfolding ce_paginate.simps kw_def [symmetric] using c p g rec
      by (auto simp: bindC_def getd_def Let_def split: prod.splits sum.splits option.splits)
  qed (use v r in \<open>auto simp: bindC_def aws_call_def log_call_def kw_def\<close>)
qed simp

section \<open>A sweep\<close>

definition ex_arn :: "string \<Rightarrow> string" where "ex_arn r = ''arn:aws:ec2:us-east-1:111:'' @ r"

definition ex_resource :: "string \<Rightarrow> string \<Rightarrow> json" where
  "ex_resource r rid = JObj [(''ResourceARN'', JStr (ex_arn r)),
     (''Tags'', JList [JObj [(''Key'', JStr RUN_ID_TAG_KEY), (''Value'', JStr rid)]])]"

text \<open>An account with a network and a subnet of a finished run and a subnet of a run one hour old; deleting the
  network fails as long as the old subnet is there.\<close>

definition ex_sweep_aws :: "bool aws" where
  "ex_sweep_aws f kw subnet = (let (sv, m) = f in
     if m = ''get_caller_identity'' then (Aws_Ok (JObj [(''Account'', JStr ''111'')]), subnet)
     else if m = ''get_resources'' then (Aws_Pages [JObj [(''ResourceTagMappingList'', JList
       ([ex_resource ''vpc/v'' ''tt-20240101000000-aaaaaa'', ex_resource ''subnet/y'' ''tt-20240102110000-bbbbbb''] @
        (if subnet then [ex_resource ''subnet/o'' ''tt-20240101000000-aaaaaa''] else [])))]] None, subnet)
     else if m = ''delete_subnet'' then (Aws_Ok (JObj []), False)
     else if m = ''delete_vpc'' then (if subnet then Aws_Raises (ClientError ''DependencyViolation'') else Aws_Ok (JObj []), subnet)
     else (Aws_Ok (JObj []), subnet))"

definition ex_sweep_accounts :: json where
  "ex_sweep_accounts = JObj [(''111'', JObj [(''account_role'', JStr ''sandbox'')])]"

definition ex_sweep_state :: "bool cloud ci_state" where
  "ex_sweep_state = \<lparr>world = \<lparr>outside = True, calls = []\<rparr>, cmds = [], environ = [],
     files = [(path_of ''accounts.json'', dumps dflt_opts ex_sweep_accounts)], readonly = [], printed = []\<rparr>"

definition ex_sweep_args :: sweep_args where
  "ex_sweep_args = \<lparr>sw_accounts = ''accounts.json'', sw_report = Some ''r.json'', sw_run_id = None,
     sw_now = (\<lambda>p. utc_micros 2024 1 2 12 0 0), sw_stamp = [], sw_run_at = ''now'', sw_fuel = 2\<rparr>"

abbreviation ex_sweep :: "(exn + unit) \<times> bool cloud ci_state" where
  "ex_sweep \<equiv> sweep_main ex_sweep_args ex_sweep_aws ''delete'' ex_sweep_state"

lemma ex_sweep_run:
  "fst ex_sweep = Inl (SystemExit 0) \<and> map fst (calls (world (snd ex_sweep))) =
     [(''sts'', ''get_caller_identity''), (''resourcegroupstaggingapi'', ''get_resources''), (''ec2'', ''delete_subnet''), (''ec2'', ''delete_vpc''),
      (''ce'', ''get_anomaly_subscriptions''), (''ce'', ''get_anomaly_monitors'')]"
  by code_simp

lemma ex_answers: "answers ex_sweep_aws"
  by (auto simp: answers_def ex_sweep_aws_def)

lemma ex_sweep_past_guard:
  "calls (world (snd ex_sweep)) \<noteq> calls (world ex_sweep_state)" "calls (world (snd ex_sweep)) \<noteq> calls (world ex_sweep_state) @ [sts_call]"
  using ex_sweep_run by (auto simp: ex_sweep_state_def dest!: arg_cong [where f = length])

theorem sweep_only_listed_accounts_witness:
  "\<exists>body accounts identity v account row role. map_of (files ex_sweep_state) (path_of ''accounts.json'') = Some body \<and>
     loads body = Some (JObj accounts) \<and> (account, row) \<in> set accounts \<and>
     json_get row ''account_role'' = Inr role \<and> role \<in> {JStr ''sandbox'', JStr ''qa-infra''} \<and>
     ex_sweep_aws (''sts'', ''get_caller_identity'') [] (outside (world ex_sweep_state)) = (Aws_Ok identity, v) \<and>
     json_index identity ''Account'' = Inr (JStr account)"
  using sweep_only_listed_accounts [of ex_sweep_args ex_sweep_aws "''delete''" ex_sweep_state "fst ex_sweep" "snd ex_sweep"] ex_sweep_past_guard
  by (simp add: ex_sweep_args_def)


definition ex_now :: int where "ex_now = utc_micros 2024 1 2 12 0 0"

lemma ex_spare_run:
  "enumerate_and_spare ex_sweep_aws None (Fin 300) (Fin 10) ex_now ex_sweep_state =
     (Inr [ex_resource ''vpc/v'' ''tt-20240101000000-aaaaaa'', ex_resource ''subnet/o'' ''tt-20240101000000-aaaaaa''],
      snd (enumerate_and_spare ex_sweep_aws None (Fin 300) (Fin 10) ex_now ex_sweep_state))"
proof -
  have "fst (enumerate_and_spare ex_sweep_aws None (Fin 300) (Fin 10) ex_now ex_sweep_state) =
     Inr [ex_resource ''vpc/v'' ''tt-20240101000000-aaaaaa'', ex_resource ''subnet/o'' ''tt-20240101000000-aaaaaa'']" by code_simp
  then show ?thesis by (simp add: prod_eq_iff)
qed

theorem global_sweep_spares_young_witness:
  "\<exists>listed min_age. get_min_age_minutes (environ ex_sweep_state) = Inr min_age \<and>
     [ex_resource ''vpc/v'' ''tt-20240101000000-aaaaaa'', ex_resource ''subnet/o'' ''tt-20240101000000-aaaaaa''] =
       filter (\<lambda>r. \<not> young min_age ex_now r) listed"
  using global_sweep_spares_young [OF ex_spare_run] by blast

theorem run_id_roundtrip_witness:
  "run_id_age (generate_run_id [] 2024 1 2 11 0 0 ''bbbbbb'') ex_now = Some (ex_now - utc_micros 2024 1 2 11 0 0)"
  using run_id_roundtrip [of 2024 1 2 11 0 0 "[]" "''bbbbbb''" ex_now] by (simp add: valid_time_def days_in_month_def)

definition ex_entries :: "json list" where
  "ex_entries = [entry (ex_arn ''subnet/o'') ''deleted'', entry (ex_arn ''vpc/v'') ''deleted'']"

definition ex_inventory :: "json list" where
  "ex_inventory = [ex_resource ''vpc/v'' ''tt-20240101000000-aaaaaa'']"

text \<open>The first pass meets the dependency; the second one, with the inventory read again, clears it.\<close>

lemma ex_passes:
  "delete_loop ex_sweep_aws None (Fin 300) (Fin 10) (\<lambda>_. ex_now) 6 1 ex_inventory ex_sweep_state =
     (Inr ex_entries, snd (delete_loop ex_sweep_aws None (Fin 300) (Fin 10) (\<lambda>_. ex_now) 6 1 ex_inventory ex_sweep_state))"
proof -
  have "fst (delete_loop ex_sweep_aws None (Fin 300) (Fin 10) (\<lambda>_. ex_now) 6 1 ex_inventory ex_sweep_state) = Inr ex_entries" by code_simp
  then show ?thesis by (simp add: prod_eq_iff)
qed

theorem delete_loop_accounts_for_all_witness:
  "\<exists>latest. list_all2 entry_for (sort_key tier_key latest) ex_entries"
  using delete_loop_accounts_for_all [OF ex_passes] by auto

end
