(* ===== verification/Runner.thy ===== *)
theory Runner
  imports Sweeping
begin

text \<open>
  The test runner, \<open>scripts/run_terratest.py\<close>: validation of a module, the account guard, the run id, the Go
  tests with the cleanup that follows them, the sweeps of the run, and the suite over all modules.

  A subprocess is a call of \<open>tools\<close>: command line, working directory and environment, and it may change the
  files and the outside world. It is recorded in the same log as the AWS calls, so the order of tests, cleanup
  and sweeps can be stated. The clock, the random characters and the process table are given.
\<close>

section \<open>Subprocesses\<close>

type_synonym fs = "(path, string) dict"
type_synonym 'v tools = "string list \<Rightarrow> string \<Rightarrow> (string, string) dict \<Rightarrow> fs \<Rightarrow> 'v \<Rightarrow> int option \<times> fs \<times> 'v"

definition note_call :: "op \<Rightarrow> kwargs \<Rightarrow> ('v cloud, unit) ci" where
  "note_call f kw = (\<lambda>s. (Inr (), s\<lparr>world := (world s)\<lparr>calls := calls (world s) @ [(f, kw)]\<rparr>\<rparr>))"

definition run_tool :: "'v tools \<Rightarrow> string list \<Rightarrow> string \<Rightarrow> (string, string) dict \<Rightarrow> ('v cloud, int) ci" where
  "run_tool tools argl cwd env = (\<lambda>s. let (r, fs, v) = tools argl cwd env (files s) (outside (world s)) in
     (case r of None \<Rightarrow> Inl FileNotFoundError | Some n \<Rightarrow> Inr n, s\<lparr>files := fs, world := (world s)\<lparr>outside := v\<rparr>\<rparr>))"

definition proc_call :: "string list \<Rightarrow> string \<Rightarrow> op \<times> kwargs" where
  "proc_call argl cwd = ((''subprocess'', ''run''), [(''argv'', JList (map JStr argl)), (''cwd'', JStr cwd)])"

definition invoke_pinned_binary :: "'v tools \<Rightarrow> string \<Rightarrow> string list \<Rightarrow> string \<Rightarrow> (string, string) dict \<Rightarrow> ('v cloud, int) ci" where
  "invoke_pinned_binary tools binary arguments cwd env =
     thenC (note_call (fst (proc_call (binary # arguments) cwd)) (snd (proc_call (binary # arguments) cwd)))
       (run_tool tools (binary # arguments) cwd env)"

section \<open>Validation and configuration\<close>

definition REQUIRED_GO_MODULE :: string where
  "REQUIRED_GO_MODULE = ''github.com/caylent-solutions/terraform-terratest-framework''"

definition validate_module_path :: "string \<Rightarrow> ('w, unit) ci" where
  "validate_module_path module_path = (let p = path_of module_path in
     bindC get_files (\<lambda>fs.
       if \<not> path_exists fs p \<or> \<not> path_exists fs (path_div p ''tests'') \<or> \<not> path_exists fs (path_div p ''go.mod'') then die
       else bindC (read_text (path_div p ''go.mod'')) (\<lambda>body. if contains REQUIRED_GO_MODULE body then ret () else die)))"

definition config_line :: "string \<Rightarrow> (string \<times> string) option" where
  "config_line line = (let stripped = strip line in
     if stripped = [] \<or> startswith stripped ''#'' \<or> CHR ''='' \<notin> set stripped then None
     else let k = strip (takeWhile (\<lambda>c. c \<noteq> CHR ''='') stripped) in
       if k = [] then None else Some (k, strip (tl (dropWhile (\<lambda>c. c \<noteq> CHR ''='') stripped))))"

definition read_config :: "string list \<Rightarrow> (string, string) dict" where
  "read_config lines = fold (\<lambda>line d. case config_line line of None \<Rightarrow> d | Some (k, v) \<Rightarrow> AList.update k v d) lines []"

definition env_wins :: "(string, string) dict \<Rightarrow> string \<Rightarrow> (string, string) dict \<Rightarrow> (string, string) dict" where
  "env_wins env k d = (case map_of env k of None \<Rightarrow> d | Some v \<Rightarrow> AList.update k v d)"

definition parse_test_config :: "string \<Rightarrow> ('w, (string, string) dict) ci" where
  "parse_test_config module_path = (let p = path_div (path_of module_path) ''test.config'' in
     bindC get_files (\<lambda>fs.
       if \<not> path_exists fs p then die
       else bindC (read_text p) (\<lambda>body. bindC environ_of (\<lambda>env.
         ret (env_wins env ''GO_TEST_TIMEOUT'' (env_wins env ''TERRATEST_IDEMPOTENCY'' (read_config (splitlines body))))))))"

definition RUN_ID_FILE_NAME :: string where "RUN_ID_FILE_NAME = ''.terratest-run-id''"

definition write_run_id_file :: "string \<Rightarrow> string \<Rightarrow> ('w, unit) ci" where
  "write_run_id_file module_path run_id =
     try_except (write_text (path_div (path_of module_path) RUN_ID_FILE_NAME) (run_id @ [CHR 0x0A])) is_os_error die"

section \<open>The account guard\<close>

definition DENIED_ROLES :: "json list" where "DENIED_ROLES = [JStr ''prod-infra'', JStr ''dns-owner'']"

definition role_denied :: "json \<Rightarrow> string \<Rightarrow> exn + bool" where
  "role_denied accounts_data account =
     bindR (json_get_default accounts_data account (JObj [])) (\<lambda>row.
     bindR (json_get_default row ''account_role'' (JStr [])) (\<lambda>role. case role of
       JList _ \<Rightarrow> Inl TypeError | JObj _ \<Rightarrow> Inl TypeError | _ \<Rightarrow> Inr (role \<in> set DENIED_ROLES)))"

definition check_deny_set :: "'v aws \<Rightarrow> string \<Rightarrow> ('v cloud, string) ci" where
  "check_deny_set aws accounts_json = (let p = path_of accounts_json in
     bindC get_files (\<lambda>fs.
       if \<not> path_exists fs p then die
       else bindC (try_except (bindC (read_text p) (\<lambda>t. lift (json_loads t))) (\<lambda>e. e = JSONDecodeError) die) (\<lambda>accounts_data.
         bindC (aws_call aws (''sts'', ''get_caller_identity'') []) (\<lambda>identity.
         bindC (key identity ''Account'') (\<lambda>v. let account = py_str v in
         bindC (lift (role_denied accounts_data account)) (\<lambda>denied. if denied then die else ret account))))))"

section \<open>The provider cache\<close>

definition PLUGIN_CACHE_DIR_NAME :: string where "PLUGIN_CACHE_DIR_NAME = ''.tf-plugin-cache''"

definition make_dirs :: "path \<Rightarrow> ('w, unit) ci" where
  "make_dirs p = thenC (make_parents p) (bindC get_files (\<lambda>fs. if is_file fs p then raise OSError else ret ()))"

definition get_or_create_plugin_cache_dir :: "string \<Rightarrow> ('w, string) ci" where
  "get_or_create_plugin_cache_dir home = bindC (getenv ''TF_PLUGIN_CACHE_DIR'') (\<lambda>o'.
     let p = (case o' of Some (c # cs) \<Rightarrow> path_of (c # cs) | _ \<Rightarrow> path_div (path_of home) PLUGIN_CACHE_DIR_NAME) in
     thenC (make_dirs p) (ret (path_str p)))"

definition lies_below :: "path \<Rightarrow> path \<Rightarrow> bool" where
  "lies_below p q = (anchored q = anchored p \<and> strict_prefix (parts p) (parts q))"

text \<open>The running processes with the inode of their executable, and the inode of a file, if it can be read.\<close>

record processes =
  inode_of :: "path \<Rightarrow> int option"
  proc_table :: "(string \<times> int option) list option"

definition stale_processes :: "processes \<Rightarrow> fs \<Rightarrow> path \<Rightarrow> string list" where
  "stale_processes ps fs cache = (case proc_table ps of None \<Rightarrow> []
     | Some table \<Rightarrow>
         let inodes = List.map_filter (inode_of ps) (filter (\<lambda>q. lies_below cache q \<and> startswith (path_name q) ''terraform-provider-'') (map fst fs))
         in map fst (filter (\<lambda>(pid, i). pid \<noteq> [] \<and> all_digits pid \<and> (case i of None \<Rightarrow> False | Some n \<Rightarrow> n \<in> set inodes)) table))"

definition kill_stale_provider_processes :: "processes \<Rightarrow> string \<Rightarrow> ('v cloud, unit) ci" where
  "kill_stale_provider_processes ps cache = bindC get_files (\<lambda>fs.
     iterC (\<lambda>pid. note_call (''os'', ''kill'') [(''pid'', JStr pid)]) (stale_processes ps fs (path_of cache)))"

definition has_terraform_files :: "fs \<Rightarrow> path \<Rightarrow> bool" where
  "has_terraform_files fs p = list_ex (\<lambda>n. endswith n ''.tf'') (list_dir fs p)"

definition prewarm_provider_cache :: "'v tools \<Rightarrow> string \<Rightarrow> string \<Rightarrow> ('v cloud, unit) ci" where
  "prewarm_provider_cache tools module_path cache = (let examples = path_div (path_of module_path) ''examples'' in
     bindC get_files (\<lambda>fs. bindC environ_of (\<lambda>environment.
       if is_file fs examples then raise OSError
       else iterC (\<lambda>n. let d = path_div examples n in
         bindC get_files (\<lambda>fs'. if is_dir fs' d \<and> has_terraform_files fs' d
           then bindC (invoke_pinned_binary tools ''terraform'' [''init'', ''-upgrade=false''] (path_str d)
             (AList.update ''TF_PLUGIN_CACHE_DIR'' cache environment)) (\<lambda>_. ret ())
           else ret ())) (sort (list_dir fs examples)))))"

section \<open>Leaked state\<close>

definition state_has_resources :: "path \<Rightarrow> ('w, bool) ci" where
  "state_has_resources p = bindC (try_except (bindC (read_text p) (\<lambda>t. ret (Some t))) is_os_error (ret None)) (\<lambda>raw.
     case raw of None \<Rightarrow> ret False
     | Some t \<Rightarrow> if strip t = [] then ret False
         else case json_loads t of
           Inl e \<Rightarrow> ret False
         | Inr v \<Rightarrow> bindC (getd v ''resources'' (JList [])) (\<lambda>rs. ret (truthy rs)))"

fun filterC :: "('a \<Rightarrow> ('w, bool) ci) \<Rightarrow> 'a list \<Rightarrow> ('w, 'a list) ci" where
  "filterC f [] = ret []"
| "filterC f (x # xs) = bindC (f x) (\<lambda>b. bindC (filterC f xs) (\<lambda>ys. ret (if b then x # ys else ys)))"

definition STATE_FILE :: string where "STATE_FILE = ''terraform.tfstate''"

definition state_files :: "fs \<Rightarrow> path \<Rightarrow> path list" where
  "state_files fs examples = filter (\<lambda>q. lies_below examples q \<and> path_name q = STATE_FILE) (map fst fs)"

definition find_leaked_terraform_dirs :: "path \<Rightarrow> string \<Rightarrow> ('w, string list) ci" where
  "find_leaked_terraform_dirs cwd module_path = bindC get_files (\<lambda>fs.
     bindC (filterC state_has_resources (state_files fs (path_div (path_of module_path) ''examples''))) (\<lambda>leaked.
       ret (sort (remdups (map (\<lambda>q. path_str (path_resolve cwd (path_parent q))) leaked)))))"

fun retry_dirs :: "'v tools \<Rightarrow> (string, string) dict \<Rightarrow> string list \<Rightarrow> ('v cloud, int) ci" where
  "retry_dirs tools env [] = ret 0"
| "retry_dirs tools env (work_dir # dirs) =
     thenC (invoke_pinned_binary tools ''terraform'' [''init'', ''-upgrade=false''] work_dir env)
     (thenC (invoke_pinned_binary tools ''terraform'' [''destroy'', ''-auto-approve''] work_dir env)
     (bindC get_files (\<lambda>fs. let p = path_div (path_of work_dir) STATE_FILE in
      bindC (if is_file fs p then state_has_resources p else ret False) (\<lambda>leaked.
      bindC (retry_dirs tools env dirs) (\<lambda>n. ret (if leaked then n + 1 else n))))))"

definition retry_terraform_destroy :: "'v tools \<Rightarrow> path \<Rightarrow> string \<Rightarrow> (string, string) dict \<Rightarrow> ('v cloud, int) ci" where
  "retry_terraform_destroy tools cwd module_path env = bindC (find_leaked_terraform_dirs cwd module_path) (retry_dirs tools env)"

text \<open>A file below \<open>examples\<close> that the cleanup removes: below a \<open>.terraform\<close> directory, a state file or a lock file.\<close>

definition is_example_cache :: "path \<Rightarrow> path \<Rightarrow> bool" where
  "is_example_cache examples q = (lies_below examples q \<and>
     (''.terraform'' \<in> set (butlast (drop (length (parts examples)) (parts q))) \<or>
      startswith (path_name q) STATE_FILE \<or> path_name q = ''.terraform.lock.hcl''))"

definition clean_example_caches :: "string \<Rightarrow> ('w, unit) ci" where
  "clean_example_caches module_path = (let examples = path_div (path_of module_path) ''examples'' in
     (\<lambda>s. (Inr (), s\<lparr>files := filter (\<lambda>(q, t). \<not> is_example_cache examples q) (files s)\<rparr>)))"

section \<open>Sweeps and tests\<close>

definition exit_code :: "('w, unit) ci \<Rightarrow> ('w, int) ci" where
  "exit_code m = catchC (thenC m (ret 0)) (\<lambda>e. case e of SystemExit n \<Rightarrow> ret n | _ \<Rightarrow> raise e)"

definition sweep_check :: "sweep_args \<Rightarrow> 'v aws \<Rightarrow> string \<Rightarrow> ('v cloud, int) ci" where
  "sweep_check a aws run_id = exit_code (sweep_main (a\<lparr>sw_report := None, sw_run_id := Some run_id\<rparr>) aws ''check'')"

definition sweep_delete :: "sweep_args \<Rightarrow> 'v aws \<Rightarrow> string \<Rightarrow> ('v cloud, int) ci" where
  "sweep_delete a aws run_id = exit_code (sweep_main (a\<lparr>sw_report := None, sw_run_id := Some run_id\<rparr>) aws ''delete'')"

definition go_test_args :: "string \<Rightarrow> string list" where
  "go_test_args timeout = [''test'', ''-tags'', ''terratest'', ''-p=1'', ''./tests/...'', ''-timeout='' @ timeout, ''-count=1'', ''-v'']"

definition invoke_go_test :: "'v tools \<Rightarrow> string \<Rightarrow> string \<Rightarrow> (string, string) dict \<Rightarrow> ('v cloud, int) ci" where
  "invoke_go_test tools module_path timeout env = bindC (getenv ''GO_BINARY'') (\<lambda>b.
     invoke_pinned_binary tools (the_default ''go'' b) (go_test_args timeout) module_path env)"

section \<open>One module\<close>

record 'v run_args =
  tt_tools :: "'v tools"
  tt_aws :: "'v aws"
  tt_cwd :: path
  tt_home :: string
  tt_time :: "nat \<times> nat \<times> nat \<times> nat \<times> nat \<times> nat"
  tt_rand :: string
  tt_procs :: processes
  tt_sweeps :: "nat \<Rightarrow> sweep_args"

definition go_env :: "(string, string) dict \<Rightarrow> (string, string) dict \<Rightarrow> string \<Rightarrow> string \<Rightarrow> string \<Rightarrow> (string, string) dict" where
  "go_env environment config run_id cache account =
     (let e = fold (\<lambda>(k, v) d. AList.update k v d)
        [(''TERRATEST_RUN_ID'', run_id), (''TF_VAR_terratest_run_id'', run_id), (''PROJECT_TAG'', PROJECT_TAG_VALUE),
         (''TF_VAR_project_tag'', PROJECT_TAG_VALUE), (''TF_PLUGIN_CACHE_DIR'', cache), (''AWS_ACCOUNT_ID'', account)] environment in
      case map_of config ''TERRATEST_IDEMPOTENCY'' of None \<Rightarrow> e | Some v \<Rightarrow> AList.update ''TERRATEST_IDEMPOTENCY'' v e)"

definition run_id_of :: "'v run_args \<Rightarrow> (string, string) dict \<Rightarrow> string" where
  "run_id_of a env = (case tt_time a of (y, mo, d, h, mi, se) \<Rightarrow> generate_run_id env y mo d h mi se (tt_rand a))"

text \<open>\<open>try: r = m finally: ...\<close>: the outcome of \<open>m\<close> as a value.\<close>

definition outcome_of :: "('w, 'a) ci \<Rightarrow> ('w, exn + 'a) ci" where
  "outcome_of m = (\<lambda>s. case m s of (r, s') \<Rightarrow> (Inr r, s'))"

definition sweep_args_of :: "'v run_args \<Rightarrow> string \<Rightarrow> nat \<Rightarrow> sweep_args" where
  "sweep_args_of a accounts_json n = (tt_sweeps a n)\<lparr>sw_accounts := accounts_json\<rparr>"

definition sweep_run :: "'v run_args \<Rightarrow> string \<Rightarrow> string \<Rightarrow> ('v cloud, int) ci" where
  "sweep_run a accounts_json run_id =
     bindC (sweep_check (sweep_args_of a accounts_json 0) (tt_aws a) run_id) (\<lambda>residue.
       if residue = 0 then ret 0
       else thenC (sweep_delete (sweep_args_of a accounts_json 1) (tt_aws a) run_id)
         (sweep_check (sweep_args_of a accounts_json 2) (tt_aws a) run_id))"

definition test_and_clean :: "'v run_args \<Rightarrow> string \<Rightarrow> string \<Rightarrow> string \<Rightarrow> string \<Rightarrow> (string, string) dict \<Rightarrow> ('v cloud, unit) ci" where
  "test_and_clean a module_path accounts_json run_id timeout env =
     bindC (outcome_of (invoke_go_test (tt_tools a) module_path timeout env)) (\<lambda>g.
     let go_exit = (case g of Inr n \<Rightarrow> n | Inl e \<Rightarrow> 0) in
     bindC (if go_exit \<noteq> 0 then retry_terraform_destroy (tt_tools a) (tt_cwd a) module_path env else ret 0) (\<lambda>leaks.
     thenC (clean_example_caches module_path)
     (bindC (sweep_run a accounts_json run_id) (\<lambda>residue.
       case g of
         Inl e \<Rightarrow> raise e
       | Inr n \<Rightarrow> raise (SystemExit (if n \<noteq> 0 \<or> residue \<noteq> 0 \<or> leaks \<noteq> 0 then max (max n residue) (max leaks 1) else 0))))))"

definition run_module :: "'v run_args \<Rightarrow> string \<Rightarrow> string \<Rightarrow> ('v cloud, unit) ci" where
  "run_module a module_path accounts_json =
     thenC (validate_module_path module_path)
     (bindC (parse_test_config module_path) (\<lambda>config.
      bindC (check_deny_set (tt_aws a) accounts_json) (\<lambda>account.
      bindC environ_of (\<lambda>env.
      let run_id = run_id_of a env in
      thenC (write_run_id_file module_path run_id)
      (bindC (get_or_create_plugin_cache_dir (tt_home a)) (\<lambda>cache.
       thenC (kill_stale_provider_processes (tt_procs a) cache)
       (thenC (prewarm_provider_cache (tt_tools a) module_path cache)
         (test_and_clean a module_path accounts_json run_id (the_default ''20m'' (map_of config ''GO_TEST_TIMEOUT''))
           (go_env env config run_id cache account)))))))))"

section \<open>The suite\<close>

definition discover_suite_modules :: "string \<Rightarrow> ('w, string list) ci" where
  "discover_suite_modules providers_root = bindC get_files (\<lambda>fs. let root = path_of providers_root;
     modules = sort (map (\<lambda>q. path_str (path_parent q)) (filter (\<lambda>q. lies_below root q \<and> path_name q = ''go.mod'' \<and>
       path_exists fs (path_div (path_parent q) ''tests'')) (map fst fs))) in
     if modules = [] then die
     else bindC (getenv ''TERRATEST_MODULE_ROSTER_COUNT'') (\<lambda>roster. case roster of
         None \<Rightarrow> ret modules
       | Some r \<Rightarrow> (case py_int r of None \<Rightarrow> raise ValueError
           | Some expected \<Rightarrow> if expected \<noteq> int (length modules) then die else ret modules)))"

fun run_modules :: "(string \<Rightarrow> ('w, unit) ci) \<Rightarrow> string list \<Rightarrow> ('w, (string \<times> int) list) ci" where
  "run_modules single [] = ret []"
| "run_modules single (m # ms) = bindC (exit_code (single m)) (\<lambda>n. bindC (run_modules single ms) (\<lambda>rs. ret ((m, n) # rs)))"

definition status_of :: "int \<Rightarrow> string" where
  "status_of n = (if n = 0 then ''PASS'' else ''FAIL'')"

definition ljust :: "nat \<Rightarrow> string \<Rightarrow> string" where
  "ljust w z = z @ replicate (w - length z) (CHR '' '')"

definition suite_table :: "(string \<times> int) list \<Rightarrow> string list" where
  "suite_table results = (let names = map (path_name \<circ> path_of \<circ> fst) results;
     w = (if names = [] then 20 else Max (set (map length names)));
     header = ljust w ''MODULE'' @ ''  STATUS''; separator = replicate (length header) (CHR ''-'') in
     [separator, header, separator] @ map (\<lambda>(m, n). ljust w (path_name (path_of m)) @ ''  '' @ status_of n) results @ [separator])"

definition summary_json :: "(string \<times> int) list \<Rightarrow> json" where
  "summary_json results = JObj [(''results'', JList (map (\<lambda>(m, n).
     JObj [(''module'', JStr m), (''status'', JStr (status_of n)), (''exit_code'', JInt n)]) results))]"

definition write_or_die :: "string \<Rightarrow> string \<Rightarrow> ('w, unit) ci" where
  "write_or_die p body = try_except (write_text (path_of p) body) is_os_error die"

definition check_summary_path :: "string \<Rightarrow> ('w, unit) ci" where
  "check_summary_path p = bindC get_files (\<lambda>fs. let d = path_parent (path_of p) in
     if parts d \<noteq> [] \<and> \<not> path_exists fs d then die else write_or_die p [CHR 0x7B, CHR 0x7D])"

definition run_suite :: "(string \<Rightarrow> ('w, unit) ci) \<Rightarrow> string list \<Rightarrow> string option \<Rightarrow> ('w, unit) ci" where
  "run_suite single module_paths summary_path =
     thenC (case summary_path of None \<Rightarrow> ret () | Some p \<Rightarrow> check_summary_path p)
     (bindC (run_modules single module_paths) (\<lambda>results.
      thenC (iterC put_line (suite_table results))
      (thenC (case summary_path of None \<Rightarrow> ret () | Some p \<Rightarrow> write_or_die p (dumps_indent 0 (summary_json results)))
        (raise (SystemExit (if list_ex (\<lambda>(m, n). n \<noteq> 0) results then 1 else 0))))))"

definition run_terratest_main :: "(string \<Rightarrow> 'v run_args) \<Rightarrow> string \<Rightarrow> string \<Rightarrow> bool \<Rightarrow> string option \<Rightarrow> string option \<Rightarrow> ('v cloud, unit) ci" where
  "run_terratest_main a module_path accounts_json all_mode summary_path providers_root =
     (if all_mode then
        (let root = (case providers_root of Some r \<Rightarrow> r
           | None \<Rightarrow> path_str (path_div (path_parent (path_parent (path_parent (path_of accounts_json)))) ''providers/aws'')) in
         bindC (discover_suite_modules root) (\<lambda>ms. run_suite (\<lambda>m. run_module (a m) m accounts_json) ms summary_path))
      else run_module (a module_path) module_path accounts_json)"

end
