(* ===== verification/Running.thy ===== *)
theory Running
  imports Runner
begin

text \<open>
  What the test runner guarantees: it sweeps its own run only, never starts a process with the credentials of
  a production account, and exit status zero, of a module or of the suite, means passed tests and a check that
  found nothing. The run-id file is read back by the sweeper.
\<close>

section \<open>Exit status zero of a run\<close>

lemma on_note [on_intros]: "goes_on (note_call f kw)"
  by (simp add: goes_on_def note_call_def)

lemma on_tool [on_intros]: "goes_on (invoke_pinned_binary tools b args cwd env)"
proof -
  have "goes_on (run_tool tools x cwd env)" for x
    by (auto simp: goes_on_def run_tool_def Let_def split: prod.splits option.splits)
  then show ?thesis unfolding invoke_pinned_binary_def by (intro on_intros)
qed

lemma on_getenv [on_intros]: "goes_on (getenv n)"
  by (simp add: goes_on_def)

lemma on_config [on_intros]: "goes_on (validate_module_path p)" "goes_on (parse_test_config p)" "goes_on (write_run_id_file p rid)"
  unfolding validate_module_path_def parse_test_config_def write_run_id_file_def by (intro on_intros)+

lemma unended_denied [on_intros]: "unended (role_denied v n)"
  unfolding role_denied_def by (intro on_intros) (auto split: json.splits)

lemma on_deny [on_intros]: "answers aws \<Longrightarrow> goes_on (check_deny_set aws p)"
  unfolding check_deny_set_def by (intro on_intros)

lemma on_make_dirs [on_intros]: "goes_on (make_dirs p)"
  unfolding make_dirs_def make_parents_def by (intro on_intros) simp_all

lemma on_cache [on_intros]: "goes_on (get_or_create_plugin_cache_dir h)" "goes_on (kill_stale_provider_processes ps c)"
  "goes_on (prewarm_provider_cache tools mp c)"
  unfolding get_or_create_plugin_cache_dir_def kill_stale_provider_processes_def prewarm_provider_cache_def
  by (intro on_intros; simp)+

lemma on_state [on_intros]: "goes_on (state_has_resources p)"
  unfolding state_has_resources_def by (intro on_intros) (auto intro!: on_intros split: sum.splits)

lemma on_filter [on_intros]: "(\<And>x. goes_on (f x)) \<Longrightarrow> goes_on (filterC f xs)"
proof (induction xs)
  case (Cons x xs)
  then show ?case unfolding filterC.simps by (intro on_intros) auto
qed (unfold filterC.simps, intro on_intros)

lemma on_retry [on_intros]: "goes_on (retry_terraform_destroy tools cwd mp env)"
proof -
  have "goes_on (retry_dirs tools env dirs)" for dirs
  proof (induction dirs)
    case (Cons d dirs)
    then show ?case unfolding retry_dirs.simps by (intro on_intros) auto
  qed (unfold retry_dirs.simps, intro on_intros)
  then show ?thesis unfolding retry_terraform_destroy_def find_leaked_terraform_dirs_def by (intro on_intros)
qed

lemma on_clean [on_intros]: "goes_on (clean_example_caches mp)"
  by (simp add: goes_on_def clean_example_caches_def)

lemma on_exit_code [on_intros]: "goes_on (exit_code m)"
  by (auto simp: goes_on_def exit_code_def catchC_def thenC_def bindC_def split: prod.splits sum.splits exn.splits)

lemma on_go_test [on_intros]: "goes_on (invoke_go_test tools mp t env)"
  unfolding invoke_go_test_def by (intro on_intros)

lemma on_outcome [on_intros]: "goes_on (outcome_of m)"
  by (auto simp: goes_on_def outcome_of_def split: prod.splits)

lemma on_sweep_run [on_intros]: "goes_on (sweep_run a acc rid)"
  unfolding sweep_run_def sweep_check_def sweep_delete_def by (intro on_intros)

lemma outcome_apply [simp]: "outcome_of m s = (Inr (fst (m s)), snd (m s))"
  by (simp add: outcome_of_def split: prod.splits)

text \<open>The sweeper never returns, it exits or raises.\<close>

lemma sweep_never_returns [simp]: "sweep_main a aws mode s \<noteq> (Inr (), s')"
  by (auto simp: sweep_main_def check_mode_def delete_mode_def Let_def ci_Inr_iffs split: option.splits)

lemma sweep_check_zero:
  assumes "answers aws" "sweep_check a aws rid s = (Inr 0, s')"
  shows "clean_report (a\<lparr>sw_report := None, sw_run_id := Some rid\<rparr>) ''check'' s'"
proof -
  have "sweep_main (a\<lparr>sw_report := None, sw_run_id := Some rid\<rparr>) aws ''check'' s = (Inl (SystemExit 0), s')"
    using assms(2)
    by (auto simp: sweep_check_def exit_code_def catchC_def thenC_def bindC_def split: prod.splits sum.splits exn.splits)
  then show ?thesis by (rule exit_zero_clean [OF assms(1)])
qed

lemma test_and_clean_zero:
  assumes a: "answers (tt_aws a)" and m: "test_and_clean a mp acc rid timeout env s = (Inl (SystemExit 0), s')"
  shows "\<exists>u k. invoke_go_test (tt_tools a) mp timeout env s = (Inr 0, u) \<and>
     clean_report ((sweep_args_of a acc k)\<lparr>sw_report := None, sw_run_id := Some rid\<rparr>) ''check'' s'"
proof -
  obtain g u where g: "invoke_go_test (tt_tools a) mp timeout env s = (g, u)" by fastforce
  have ge: "g \<noteq> Inl (SystemExit 0)" using on_go_test [of "tt_tools a" mp timeout env] g
    by (metis fst_conv goes_on_def unended_def)
  obtain leaks residue v t where r: "sweep_run a acc rid v = (Inr residue, t)"
    and e: "(case g of Inl e \<Rightarrow> raise e | Inr n \<Rightarrow>
        raise (SystemExit (if n \<noteq> 0 \<or> residue \<noteq> 0 \<or> leaks \<noteq> 0 then max (max n residue) (max leaks 1) else 0))) t = (Inl (SystemExit 0) :: exn + unit, s')"
    using m g by (auto simp: test_and_clean_def Let_def exit_bind exit_then on_intros)
  have n: "g = Inr 0" "residue = 0" "t = s'" using e ge by (auto split: sum.splits if_splits)
  show ?thesis
  proof (cases "\<exists>c t. sweep_check (sweep_args_of a acc 0) (tt_aws a) rid v = (Inr c, t) \<and> c \<noteq> 0")
    case True
    then obtain t where "sweep_check (sweep_args_of a acc 2) (tt_aws a) rid t = (Inr 0, s')"
      using r n(2,3) by (auto simp: sweep_run_def bindC_Inr_iff thenC_Inr_iff)
    then show ?thesis using sweep_check_zero [OF a] g n(1) by blast
  next
    case False
    then have "sweep_check (sweep_args_of a acc 0) (tt_aws a) rid v = (Inr 0, s')"
      using r n(2,3) by (auto simp: sweep_run_def bindC_Inr_iff split: if_splits)
    then show ?thesis using sweep_check_zero [OF a] g n(1) by blast
  qed
qed

section \<open>Which calls a run makes\<close>

text \<open>The operations that list more than one named resource of an account.\<close>

definition LISTINGS :: "string list" where
  "LISTINGS = [''get_resources'', ''get_anomaly_subscriptions'', ''get_anomaly_monitors'']"

definition scoped_to :: "string \<Rightarrow> op \<times> kwargs \<Rightarrow> bool" where
  "scoped_to run_id c = (snd (fst c) \<in> set LISTINGS \<longrightarrow>
     c = ((''resourcegroupstaggingapi'', ''get_resources''), [(''TagFilters'', tag_filters (Some run_id))]))"

lemma scoped_other [simp]: "snd f \<notin> set LISTINGS \<Longrightarrow> scoped_to rid (f, kw)"
  by (simp add: scoped_to_def)

lemma scoped_listing [simp]: "scoped_to rid ((''resourcegroupstaggingapi'', ''get_resources''), [(''TagFilters'', tag_filters (Some rid))])"
  by (simp add: scoped_to_def)

lemma calls_json [calls_intros]:
  "(\<And>z. calls_only P (k z)) \<Longrightarrow> calls_only P m \<Longrightarrow> calls_only P (case v of JStr z \<Rightarrow> k z | _ \<Rightarrow> m)"
  by (cases v) simp_all

lemma calls_catch [calls_intros]:
  assumes m: "calls_only P m" and h: "\<And>e. calls_only P (h e)"
  shows "calls_only P (catchC m h)"
proof (rule calls_onlyI)
  fix s r s'
  assume b: "catchC m h s = (r, s')"
  obtain q t where q: "m s = (q, t)" by fastforce
  obtain cs where cs: "calls (world t) = calls (world s) @ cs" "list_all P cs" using calls_onlyD [OF m q] by blast
  show "\<exists>cs. calls (world s') = calls (world s) @ cs \<and> list_all P cs"
  proof (cases q)
    case (Inl e)
    then have "h e t = (r, s')" using b q by (simp add: catchC_def)
    from calls_append [OF cs calls_onlyD [OF h this]] show ?thesis .
  next
    case (Inr x)
    then have "s' = t" using b q by (simp add: catchC_def)
    then show ?thesis using cs by blast
  qed
qed

lemma calls_each [calls_intros]: "(\<And>x. calls_only P (f x)) \<Longrightarrow> calls_only P (each v k f)"
  unfolding each_def by (intro calls_intros)

lemma calls_giving [calls_intros]: "calls_only P m \<Longrightarrow> calls_only P (giving r m)"
  unfolding giving_def by (intro calls_intros)

lemmas listing_simps = LISTINGS_def regional_def

lemma scoped_s3 [calls_intros]: "calls_only (scoped_to rid) (s3_delete aws arn)"
proof -
  have "calls_only (scoped_to rid) (s3_purge_page aws b page)" for b page
    unfolding s3_purge_page_def by (intro calls_intros) (auto intro!: calls_intros simp: listing_simps split: prod.splits json.splits)
  then show ?thesis unfolding s3_delete_def by (intro calls_intros) (simp_all add: listing_simps)
qed

lemma scoped_kms [calls_intros]: "calls_only (scoped_to rid) (kms_delete aws arn)"
  unfolding kms_delete_def delete_key_aliases_def kms_delete_alias_def kms_key_state_def
  by (intro calls_intros) (simp_all add: listing_simps)

lemma scoped_iam [calls_intros]: "calls_only (scoped_to rid) (iam_delete aws arn)"
  unfolding iam_delete_def iam_delete_role_def by (intro calls_intros) (simp_all add: listing_simps)

lemma scoped_cloudfront [calls_intros]: "calls_only (scoped_to rid) (cloudfront_delete aws arn)"
  unfolding cloudfront_delete_def cloudfront_disable_def by (intro calls_intros) (simp_all add: listing_simps)

lemma scoped_route53 [calls_intros]: "calls_only (scoped_to rid) (route53_delete aws arn)"
proof -
  have ns: "calls_only (scoped_to rid) (delete_first_ns aws p n rs)" for p n rs
  proof (induction rs)
    case (Cons r rs)
    then show ?case unfolding delete_first_ns.simps by (intro calls_intros) (simp_all add: listing_simps)
  qed (unfold delete_first_ns.simps, intro calls_intros)
  have "calls_only (scoped_to rid) (delete_parent_delegation aws c n)" for c n
    unfolding delete_parent_delegation_def delegation_in_zone_def by (intro calls_intros ns) (simp_all add: listing_simps)
  then show ?thesis unfolding route53_delete_def zone_name_def by (intro calls_intros) (simp_all add: listing_simps)
qed

lemma scoped_ec2 [calls_intros]: "calls_only (scoped_to rid) (ec2_delete aws arn)"
proof -
  have "calls_only (scoped_to rid) (vpce_delete aws i)" for i
    unfolding vpce_delete_def by (intro calls_intros) (auto intro!: calls_intros simp: listing_simps split: list.splits)
  then show ?thesis unfolding ec2_delete_def nat_delete_def igw_delete_def is_default_security_group_def
    by (intro calls_intros) (simp_all add: listing_simps)
qed

lemma scoped_ecs [calls_intros]: "calls_only (scoped_to rid) (ecs_delete aws arn)"
  unfolding ecs_delete_def by (intro calls_intros) (simp_all add: listing_simps)

lemma scoped_simple [calls_intros]:
  "calls_only (scoped_to rid) (acm_delete aws arn)" "calls_only (scoped_to rid) (elb_delete aws arn)"
  "calls_only (scoped_to rid) (lambda_delete aws arn)" "calls_only (scoped_to rid) (firehose_delete aws arn)"
  "calls_only (scoped_to rid) (athena_delete aws arn)" "calls_only (scoped_to rid) (sns_delete aws arn)"
  "calls_only (scoped_to rid) (ssm_delete aws arn)" "calls_only (scoped_to rid) (logs_delete aws arn)"
  "calls_only (scoped_to rid) (cloudwatch_delete aws arn)" "calls_only (scoped_to rid) (budgets_delete aws arn)"
  "calls_only (scoped_to rid) (ce_delete aws arn)" "calls_only (scoped_to rid) (glue_delete aws arn)"
  "calls_only (scoped_to rid) (quicksight_delete aws arn)" "calls_only (scoped_to rid) (wafv2_delete aws arn)"
  unfolding acm_delete_def elb_delete_def lambda_delete_def firehose_delete_def athena_delete_def sns_delete_def ssm_delete_def
    logs_delete_def cloudwatch_delete_def budgets_delete_def ce_delete_def glue_delete_def quicksight_delete_def wafv2_delete_def
  by (intro calls_intros; simp add: listing_simps)+

lemma scoped_cognito [calls_intros]: "calls_only (scoped_to rid) (cognito_delete aws arn)"
  unfolding cognito_delete_def by (intro calls_intros) (simp_all add: listing_simps)

lemma scoped_handler: "map_of (HANDLERS aws) sv = Some h \<Longrightarrow> calls_only (scoped_to rid) (h arn)"
  unfolding HANDLERS_def by (drule map_of_SomeD) (auto intro: calls_intros)

lemma scoped_dispatch [calls_intros]: "calls_only (scoped_to rid) (dispatch_delete aws final r)"
  unfolding dispatch_delete_def by (intro calls_intros scoped_handler)

lemma scoped_delete_pass [calls_intros]: "calls_only (scoped_to rid) (delete_pass aws final rs)"
proof -
  have "calls_only (scoped_to rid) (pass_loop aws final rs)" for rs
  proof (induction rs)
    case (Cons r rs)
    then show ?case unfolding pass_loop.simps by (intro calls_intros)
  qed (unfold pass_loop.simps, intro calls_intros)
  then show ?thesis unfolding delete_pass_def by (intro calls_intros)
qed

lemma scoped_enumerate [calls_intros]: "calls_only (scoped_to rid) (enumerate_and_spare aws (Some rid) t i now)"
  unfolding enumerate_and_spare_def enumerate_resources_def by (intro calls_intros) simp

lemma scoped_delete_loop [calls_intros]: "calls_only (scoped_to rid) (delete_loop aws (Some rid) t i now_at n p rs)"
proof (induction n arbitrary: p rs)
  case (Suc n)
  then show ?case unfolding delete_loop.simps by (intro calls_intros)
qed (unfold delete_loop.simps, intro calls_intros)

lemma scoped_probes [calls_intros]: "calls_only (scoped_to rid) (looks_gone aws arn)" "calls_only (scoped_to rid) (handler_reports_live aws arn)"
  unfolding looks_gone_def is_kms_key_in_pending_deletion_def kms_key_state_def is_nat_gateway_deleted_def is_vpc_flow_log_deleted_def
    is_vpc_endpoint_deleted_def is_security_group_deleted_def handler_reports_live_def cloudfront_is_live_def ecs_is_live_def cognito_is_live_def
  by (intro calls_intros; simp add: listing_simps)+

lemma scoped_residue [calls_intros]: "calls_only (scoped_to rid) (residue aws rs)"
proof (induction rs)
  case (Cons r rs)
  then show ?case unfolding residue.simps by (intro calls_intros)
qed (unfold residue.simps, intro calls_intros)

lemma scoped_sweep [calls_intros]: "sw_run_id a = Some rid \<Longrightarrow> calls_only (scoped_to rid) (sweep_main a aws mode)"
  unfolding sweep_main_def check_mode_def delete_mode_def swept_monitors_def
  by (simp only:) (intro calls_intros; simp add: listing_simps)

lemma calls_note [calls_intros]: "P (f, kw) \<Longrightarrow> calls_only P (note_call f kw)"
  by (auto simp: calls_only_def note_call_def)

lemma calls_tool [calls_intros]: "P (proc_call (b # args) cwd) \<Longrightarrow> calls_only P (invoke_pinned_binary tools b args cwd env)"
proof -
  assume "P (proc_call (b # args) cwd)"
  moreover have "calls_only P (run_tool tools x cwd env)" for x
    by (auto simp: calls_only_def run_tool_def Let_def split: prod.splits)
  ultimately show ?thesis unfolding invoke_pinned_binary_def by (intro calls_intros) simp
qed

lemma scoped_proc [simp]: "scoped_to rid (proc_call argl cwd)"
  by (simp add: scoped_to_def proc_call_def LISTINGS_def)

lemma calls_filter [calls_intros]: "(\<And>x. calls_only P (f x)) \<Longrightarrow> calls_only P (filterC f xs)"
proof (induction xs)
  case (Cons x xs)
  then show ?case unfolding filterC.simps by (intro calls_intros) auto
qed (unfold filterC.simps, intro calls_intros)

lemma calls_state [calls_intros]: "calls_only P (state_has_resources p)"
  unfolding state_has_resources_def by (intro calls_intros) (auto intro!: calls_intros split: sum.splits)

lemma scoped_retry [calls_intros]: "calls_only (scoped_to rid) (retry_terraform_destroy tools cwd mp env)"
proof -
  have "calls_only (scoped_to rid) (retry_dirs tools env dirs)" for dirs
  proof (induction dirs)
    case (Cons d dirs)
    then show ?case unfolding retry_dirs.simps by (intro calls_intros) auto
  qed (unfold retry_dirs.simps, intro calls_intros)
  then show ?thesis unfolding retry_terraform_destroy_def find_leaked_terraform_dirs_def by (intro calls_intros)
qed

lemma calls_clean [calls_intros]: "calls_only P (clean_example_caches mp)"
  by (auto simp: calls_only_def clean_example_caches_def)

lemma calls_outcome [calls_intros]: "calls_only P m \<Longrightarrow> calls_only P (outcome_of m)"
  unfolding calls_only_def by simp

lemma calls_exit_code [calls_intros]: "calls_only P m \<Longrightarrow> calls_only P (exit_code m)"
  unfolding exit_code_def by (intro calls_intros) (auto intro!: calls_intros split: exn.splits)

lemma scoped_sweep_run [calls_intros]: "calls_only (scoped_to rid) (sweep_run a acc rid)"
  unfolding sweep_run_def sweep_check_def sweep_delete_def by (intro calls_intros) simp_all

lemma calls_sum [calls_intros]: "(\<And>e. calls_only P (f e)) \<Longrightarrow> (\<And>x. calls_only P (g x)) \<Longrightarrow> calls_only P (case r of Inl e \<Rightarrow> f e | Inr x \<Rightarrow> g x)"
  by (cases r) simp_all

lemma scoped_test [calls_intros]: "calls_only (scoped_to rid) (test_and_clean a mp acc rid timeout env)"
  unfolding test_and_clean_def invoke_go_test_def by (intro calls_intros) simp_all

lemma scoped_cache [calls_intros]: "calls_only (scoped_to rid) (get_or_create_plugin_cache_dir h)"
  "calls_only (scoped_to rid) (kill_stale_provider_processes ps c)" "calls_only (scoped_to rid) (prewarm_provider_cache tools mp c)"
  "calls_only (scoped_to rid) (write_run_id_file mp run_id)"
  unfolding get_or_create_plugin_cache_dir_def make_dirs_def kill_stale_provider_processes_def prewarm_provider_cache_def write_run_id_file_def
  by (intro calls_intros; simp add: LISTINGS_def)+

text \<open>The steps before the tests do not change the environment.\<close>

lemma validate_state: "validate_module_path p s = (r, t) \<Longrightarrow> t = s"
  by (auto simp: validate_module_path_def bindC_def read_text_def Let_def split: if_splits option.splits)

lemma config_state: "parse_test_config p s = (r, t) \<Longrightarrow> t = s"
  by (auto simp: parse_test_config_def bindC_def read_text_def environ_of_def Let_def split: if_splits option.splits)

lemma deny_state:
  "check_deny_set aws p s = (r, t) \<Longrightarrow> environ t = environ s \<and> files t = files s \<and>
     (calls (world t) = calls (world s) \<or> calls (world t) = calls (world s) @ [sts_call])"
  by (auto simp: check_deny_set_def bindC_def read_text_def try_except_def aws_call_def log_call_def key_def Let_def
      split: if_splits option.splits sum.splits prod.splits aws_answer.splits)

definition run_tail :: "'v run_args \<Rightarrow> string \<Rightarrow> string \<Rightarrow> (string, string) dict \<Rightarrow> (string, string) dict \<Rightarrow> string \<Rightarrow> ('v cloud, unit) ci" where
  "run_tail a module_path accounts_json env config account = (let run_id = run_id_of a env in
      thenC (write_run_id_file module_path run_id)
      (bindC (get_or_create_plugin_cache_dir (tt_home a)) (\<lambda>cache.
       thenC (kill_stale_provider_processes (tt_procs a) cache)
       (thenC (prewarm_provider_cache (tt_tools a) module_path cache)
         (test_and_clean a module_path accounts_json run_id (the_default ''20m'' (map_of config ''GO_TEST_TIMEOUT''))
           (go_env env config run_id cache account))))))"

text \<open>A run that gets past the account guard goes on with the environment it started in.\<close>

lemma run_module_cases:
  assumes "run_module a mp acc s = (r, s')"
  obtains (stopped) e t where "check_deny_set (tt_aws a) acc s = (Inl e, t)" "r = Inl e" "s' = t"
  | (invalid) e where "r = Inl e" "s' = s" "validate_module_path mp s = (Inl e, s) \<or> parse_test_config mp s = (Inl e, s)"
  | (runs) config account t where "check_deny_set (tt_aws a) acc s = (Inr account, t)"
      "run_tail a mp acc (environ s) config account t = (r, s')"
proof -
  obtain q1 where q1: "validate_module_path mp s = (q1, s)" using validate_state by (metis surj_pair)
  obtain q2 where q2: "parse_test_config mp s = (q2, s)" using config_state by (metis surj_pair)
  obtain q3 t where q3: "check_deny_set (tt_aws a) acc s = (q3, t)" by fastforce
  have en: "environ t = environ s" using deny_state [OF q3] by simp
  show thesis
  proof (cases "\<exists>e. q1 = Inl e \<or> q2 = Inl e")
    case True
    then show thesis using assms q1 q2 invalid by (cases q1; cases q2) (auto simp: run_module_def thenC_def bindC_def)
  next
    case False
    then obtain config where ok: "q1 = Inr ()" "q2 = Inr config" by (cases q1; cases q2) auto
    show thesis
    proof (cases q3)
      case (Inl e)
      then show thesis using assms q1 q2 q3 ok stopped by (auto simp: run_module_def thenC_def bindC_def)
    next
      case (Inr account)
      then have "run_tail a mp acc (environ t) config account t = (r, s')"
        using assms q1 q2 q3 ok by (auto simp: run_module_def run_tail_def thenC_def bindC_def environ_of_def Let_def)
      then show thesis using runs q3 Inr en by simp
    qed
  qed
qed

lemma scoped_run_tail: "calls_only (scoped_to (run_id_of a env)) (run_tail a mp acc env config account)"
  unfolding run_tail_def Let_def by (intro calls_intros)

lemma run_module_calls:
  "\<exists>cs. calls (world (snd (run_module a mp acc s))) = calls (world s) @ cs \<and> list_all (scoped_to (run_id_of a (environ s))) cs"
proof -
  obtain r s' where m: "run_module a mp acc s = (r, s')" by fastforce
  have one: "list_all (scoped_to rid) [sts_call]" for rid by (simp add: scoped_to_def LISTINGS_def)
  from m show ?thesis
  proof (cases rule: run_module_cases)
    case (stopped e t)
    then show ?thesis using m deny_state [OF stopped(1)] one by auto
  next
    case (invalid e)
    then show ?thesis using m by auto
  next
    case (runs config account t)
    obtain cs where cs: "calls (world t) = calls (world s) @ cs" "list_all (scoped_to (run_id_of a (environ s))) cs"
      using deny_state [OF runs(1)] one by auto
    from calls_append [OF cs calls_onlyD [OF scoped_run_tail runs(2)]] show ?thesis using m by simp
  qed
qed


text \<open>C26. Tests never run with the credentials of a production or DNS account: the run fails, no process is
  started, no file is written, and the identity call is the only call.\<close>

theorem runner_refuses_denied:
  assumes "run_module a mp acc s = (r, s')"
    and "map_of (files s) (path_of acc) = Some body" "loads body = Some accounts"
    and "tt_aws a (''sts'', ''get_caller_identity'') [] (outside (world s)) = (Aws_Ok identity, v)"
    and "json_index identity ''Account'' = Inr (JStr account)"
    and "json_get_default accounts account (JObj []) = Inr row" "json_get_default row ''account_role'' (JStr []) = Inr (JStr role)"
    and "role \<in> {''prod-infra'', ''dns-owner''}"
  shows "(\<exists>e. r = Inl e) \<and> files s' = files s \<and>
     (calls (world s') = calls (world s) \<or> calls (world s') = calls (world s) @ [sts_call])"
  using assms(1)
proof (cases rule: run_module_cases)
  case (stopped e t)
  then show ?thesis using deny_state [OF stopped(1)] by auto
next
  case (runs config acct t)
  have "path_exists (files s) (path_of acc)" using assms(2) by (simp add: path_exists_def is_file_def)
  then have False using runs(1) assms(2-8)
    by (auto simp: check_deny_set_def bindC_def read_text_def try_except_def json_loads_def aws_call_def log_call_def key_def
        role_denied_def DENIED_ROLES_def py_str_def Let_def)
  then show ?thesis ..
qed auto

lemma not_goes_on: "m s = (Inl (SystemExit 0), t) \<Longrightarrow> \<not> goes_on m"
  unfolding goes_on_def by (metis fst_conv unended_simps(2))

text \<open>One state of a run comes before another when the calls up to then are a prefix of the calls of the other.\<close>

definition before :: "'v cloud ci_state \<Rightarrow> 'v cloud ci_state \<Rightarrow> bool" where
  "before s t = prefix (calls (world s)) (calls (world t))"

lemma before_refl [simp]: "before s s" by (simp add: before_def)

lemma before_trans [trans]: "before s t \<Longrightarrow> before t u \<Longrightarrow> before s u"
  unfolding before_def by (rule prefix_order.trans)

lemma before_step: "calls_only P m \<Longrightarrow> m s = (r, t) \<Longrightarrow> before s t"
  using calls_onlyD [of P m s r t] by (auto simp: before_def)

text \<open>A run from \<open>s\<close> to \<open>s'\<close> with run id \<open>rid\<close> in which the Go tests of the module passed, started with that
  run id, and whose last check wrote a report that lists nothing.\<close>

definition passed_run :: "'v run_args \<Rightarrow> string \<Rightarrow> string \<Rightarrow> string \<Rightarrow> 'v cloud ci_state \<Rightarrow> 'v cloud ci_state \<Rightarrow> bool" where
  "passed_run a mp acc rid s s' = (\<exists>u v k timeout env. invoke_go_test (tt_tools a) mp timeout env u = (Inr 0, v) \<and>
     map_of env ''TERRATEST_RUN_ID'' = Some rid \<and> before s u \<and> before v s' \<and>
     clean_report ((sweep_args_of a acc k)\<lparr>sw_report := None, sw_run_id := Some rid\<rparr>) ''check'' s')"

lemma passed_run_later: "passed_run a mp acc rid t s' \<Longrightarrow> before s t \<Longrightarrow> passed_run a mp acc rid s s'"
  unfolding passed_run_def by (meson before_trans)

lemma go_env_run_id: "map_of (go_env env config rid cache account) ''TERRATEST_RUN_ID'' = Some rid"
  by (simp add: go_env_def Let_def update_conv' split: option.splits)

lemma test_and_clean_passed:
  assumes a: "answers (tt_aws a)" and m: "test_and_clean a mp acc rid timeout env s = (Inl (SystemExit 0), s')"
    and e: "map_of env ''TERRATEST_RUN_ID'' = Some rid"
  shows "passed_run a mp acc rid s s'"
proof -
  obtain u k where g: "invoke_go_test (tt_tools a) mp timeout env s = (Inr 0, u)"
    and c: "clean_report ((sweep_args_of a acc k)\<lparr>sw_report := None, sw_run_id := Some rid\<rparr>) ''check'' s'"
    using test_and_clean_zero [OF a m] by blast
  obtain v w where v: "clean_example_caches mp u = (v, w)" by fastforce
  have v': "v = Inr ()" using v by (auto simp: clean_example_caches_def Let_def)
  obtain q x where q: "sweep_run a acc rid w = (q, x)" by fastforce
  have "x = s'" using m g v v' q by (auto simp: test_and_clean_def bindC_def thenC_def outcome_of_def Let_def split: sum.splits)
  then have "before w s'" using before_step [OF scoped_sweep_run q] by simp
  moreover have "before u w" using before_step [OF calls_clean v] .
  ultimately have "before u s'" using before_trans by blast
  then show ?thesis unfolding passed_run_def using g c e before_refl by blast
qed

lemma run_tail_zero:
  assumes "answers (tt_aws a)" "run_tail a mp acc env config account s = (Inl (SystemExit 0), s')"
  shows "passed_run a mp acc (run_id_of a env) s s'"
proof -
  let ?rid = "run_id_of a env"
  obtain t1 t2 t3 t cache where steps: "write_run_id_file mp ?rid s = (Inr (), t1)"
      "get_or_create_plugin_cache_dir (tt_home a) t1 = (Inr cache, t2)"
      "kill_stale_provider_processes (tt_procs a) cache t2 = (Inr (), t3)"
      "prewarm_provider_cache (tt_tools a) mp cache t3 = (Inr (), t)"
    and z: "test_and_clean a mp acc ?rid (the_default ''20m'' (map_of config ''GO_TEST_TIMEOUT'')) (go_env env config ?rid cache account) t
       = (Inl (SystemExit 0), s')"
    using assms(2) by (auto simp: run_tail_def Let_def exit_bind exit_then on_intros)
  have "before s t" using steps by (meson before_step before_trans scoped_cache)
  then show ?thesis using test_and_clean_passed [OF assms(1) z go_env_run_id] passed_run_later by blast
qed

lemma run_module_zero:
  assumes a: "answers (tt_aws a)" and m: "run_module a mp acc s = (Inl (SystemExit 0), s')"
  shows "passed_run a mp acc (run_id_of a (environ s)) s s'"
  using m
proof (cases rule: run_module_cases)
  case (stopped e t)
  then have "\<not> goes_on (check_deny_set (tt_aws a) acc)" by (intro not_goes_on) simp
  then show ?thesis using on_deny [OF a] by blast
next
  case (invalid e)
  then show ?thesis by (auto simp: on_config dest!: not_goes_on)
next
  case (runs config account t)
  have "before s t" using deny_state [OF runs(1)] by (auto simp: before_def)
  with run_tail_zero [OF a runs(2)] show ?thesis by (rule passed_run_later)
qed


section \<open>The run-id file\<close>

lemma split_on_append_sep: "split_on sep (a @ sep # b) = split_on sep a @ split_on sep b"
  by (induction a) (auto split: list.splits)

lemma path_of_below:
  assumes "a \<noteq> []" "CHR ''/'' \<notin> set n" "n \<noteq> []" "n \<noteq> ''.''"
  shows "path_of (a @ ''/'' @ n) = path_div (path_of a) n"
proof -
  have s: "split_on (CHR ''/'') n = [n]" using assms(2) by (rule split_on_noop)
  have n: "path_of n = Path False [n]" using assms s by (cases n) (auto simp: path_of_def)
  have "startswith (a @ ''/'' @ n) ''/'' \<longleftrightarrow> startswith a ''/''" using assms(1) by (cases a) auto
  then show ?thesis unfolding n using assms(3,4)
    by (simp add: path_of_def path_join_def split_on_append_sep s)
qed

lemma strip_first: "strip_by P (c # cs) = c # cs \<Longrightarrow> \<not> P c"
proof
  assume e: "strip_by P (c # cs) = c # cs" and "P c"
  have "length (rstrip_by P z) \<le> length z" for z by (simp add: rstrip_by_def) (metis length_dropWhile_le length_rev)
  moreover have "length (dropWhile P cs) \<le> length cs" by (rule length_dropWhile_le)
  ultimately have "length (strip_by P (c # cs)) \<le> length cs" using \<open>P c\<close> le_trans by (fastforce simp: strip_by_def)
  then show False using e by simp
qed

text \<open>The run id the runner leaves beside a module is the one the sweeper of that module reads back.\<close>

theorem run_id_file_roundtrip:
  assumes "write_run_id_file mp rid s = (Inr (), t)" and "mp \<noteq> []" "rid \<noteq> []" "strip rid = rid"
  shows "read_run_id_from_file (mp @ ''/.terratest-run-id'') t = (Inr rid, t)"
proof -
  let ?p = "path_div (path_of mp) ''.terratest-run-id''"
  have p: "path_of (mp @ ''/.terratest-run-id'') = ?p" using path_of_below [of mp "''.terratest-run-id''"] assms(2) by simp
  have f: "map_of (files t) ?p = Some (rid @ [CHR 0x0A])"
    using assms(1) by (auto simp: write_run_id_file_def RUN_ID_FILE_NAME_def try_except_def write_text_def update_conv' split: if_splits)
  have ws: "is_ws (CHR 0x0A)" by (simp add: is_ws_def)
  have "strip (rid @ [CHR 0x0A]) = rid"
  proof -
    obtain c cs where c: "rid = c # cs" using assms(3) by (cases rid) auto
    have "\<not> is_ws c" using strip_first [of is_ws c cs] assms(4) c by simp
    then have "strip (rid @ [CHR 0x0A]) = rstrip_by is_ws (rid @ [CHR 0x0A])" using c by (simp add: strip_by_def)
    also have "\<dots> = rstrip_by is_ws rid" using ws by (simp add: rstrip_by_def)
    also have "\<dots> = strip rid" using c \<open>\<not> is_ws c\<close> by (simp add: strip_by_def)
    finally show ?thesis using assms(4) by simp
  qed
  then show ?thesis using f p assms(3)
    by (simp add: read_run_id_from_file_def Let_def bindC_def is_file_def try_except_def read_text_def)
qed

section \<open>The suite\<close>

lemma before_exit_module: "exit_code (run_module a mp acc) s = (r, t) \<Longrightarrow> before s t"
proof -
  assume e: "exit_code (run_module a mp acc) s = (r, t)"
  then have "t = snd (run_module a mp acc s)"
    by (auto simp: exit_code_def catchC_def thenC_def bindC_def split: prod.splits sum.splits exn.splits)
  then show ?thesis using run_module_calls [of a mp acc s] by (auto simp: before_def)
qed

lemma run_modules_results:
  "run_modules (\<lambda>m. run_module (a m) m acc) ms s = (Inr rs, t) \<Longrightarrow> map fst rs = ms \<and>
     list_all (\<lambda>(m, n). \<exists>u v. before s u \<and> exit_code (run_module (a m) m acc) u = (Inr n, v) \<and> before v t) rs \<and> before s t"
proof (induction ms arbitrary: rs s)
  case (Cons m ms)
  then obtain n u qs where m: "exit_code (run_module (a m) m acc) s = (Inr n, u)"
    and r: "run_modules (\<lambda>m. run_module (a m) m acc) ms u = (Inr qs, t)" "rs = (m, n) # qs"
    by (auto simp: bindC_Inr_iff)
  have su: "before s u" using before_exit_module [OF m] .
  have IH: "map fst qs = ms" "before u t"
    "list_all (\<lambda>(m, n). \<exists>w v. before u w \<and> exit_code (run_module (a m) m acc) w = (Inr n, v) \<and> before v t) qs"
    using Cons.IH [OF r(1)] by auto
  have "list_all (\<lambda>(m, n). \<exists>w v. before s w \<and> exit_code (run_module (a m) m acc) w = (Inr n, v) \<and> before v t) qs"
    using IH(3) by (rule list.pred_mono_strong) (use su before_trans in blast)
  moreover have "\<exists>w v. before s w \<and> exit_code (run_module (a m) m acc) w = (Inr n, v) \<and> before v t" using m IH(2) before_refl by blast
  ultimately show ?case using r(2) IH(1) before_trans [OF su IH(2)] by simp
qed simp

lemma on_run_modules [on_intros]: "goes_on (run_modules single ms)"
proof (induction ms)
  case (Cons m ms)
  then show ?case unfolding run_modules.simps by (intro on_intros)
qed (unfold run_modules.simps, intro on_intros)

lemma on_suite_steps [on_intros]: "goes_on (write_or_die p body)" "goes_on (check_summary_path p)" "goes_on (discover_suite_modules r)"
proof -
  show w: "goes_on (write_or_die p body)" for p body unfolding write_or_die_def by (intro on_intros)
  show "goes_on (check_summary_path p)" unfolding check_summary_path_def by (intro on_intros w)
  show "goes_on (discover_suite_modules r)" unfolding discover_suite_modules_def by (intro on_intros) simp_all
qed

lemma run_module_never_returns [simp]: "run_module a mp acc s \<noteq> (Inr (), s')"
  by (auto simp: run_module_def test_and_clean_def Let_def ci_Inr_iffs split: sum.splits)

lemma exit_code_zero: "exit_code (run_module a mp acc) u = (Inr 0, v) \<Longrightarrow> run_module a mp acc u = (Inl (SystemExit 0), v)"
  by (auto simp: exit_code_def catchC_def thenC_def bindC_def split: prod.splits sum.splits exn.splits)

lemma run_suite_zero:
  assumes "run_suite (\<lambda>m. run_module (a m) m acc) ms sp s = (Inl (SystemExit 0), s')"
  shows "\<exists>rs u v. run_modules (\<lambda>m. run_module (a m) m acc) ms u = (Inr rs, v) \<and> list_all (\<lambda>(m, n). n = 0) rs \<and> before s u \<and> before v s'"
proof -
  have p: "goes_on (case sp of None \<Rightarrow> ret () | Some p \<Rightarrow> check_summary_path p)"
    "goes_on (case sp of None \<Rightarrow> ret () | Some p \<Rightarrow> write_or_die p body)" for body by (intro on_intros)+
  then obtain rs u v w x where r: "(case sp of None \<Rightarrow> ret () | Some p \<Rightarrow> check_summary_path p) s = (Inr (), u)"
      "run_modules (\<lambda>m. run_module (a m) m acc) ms u = (Inr rs, v)" "iterC put_line (suite_table rs) v = (Inr (), w)"
      "(case sp of None \<Rightarrow> ret () | Some p \<Rightarrow> write_or_die p (dumps_indent 0 (summary_json rs))) w = (Inr (), x)"
      "s' = x" "\<not> list_ex (\<lambda>(m, n). n \<noteq> 0) rs"
    using assms by (auto simp: run_suite_def exit_bind exit_then on_intros split: if_splits)
  have w: "calls_only (\<lambda>_. False) (write_or_die p b)" for p b unfolding write_or_die_def by (intro calls_intros)
  have c: "calls_only (\<lambda>_. False) (check_summary_path p)" for p unfolding check_summary_path_def by (intro calls_intros w)
  have "before s u" using r(1) by (cases sp) (auto intro: before_step [OF c])
  moreover have "before v w" using r(3) by (rule before_step [where P = "\<lambda>_. False", rotated]) (intro calls_intros)
  moreover have "before w x" using r(4) by (cases sp) (auto intro: before_step [OF w])
  ultimately have "before s u" "before v s'" using r(5) before_trans by blast+
  moreover have "list_all (\<lambda>(m, n). n = 0) rs" using r(6) by (auto simp: list_ex_iff list_all_iff)
  ultimately show ?thesis using r(2) by blast
qed

text \<open>A suite run that exits with status zero ran every discovered module, each of them with status zero: its
  tests passed and the last check of its run listed nothing.\<close>

theorem suite_exit_zero:
  assumes a: "list_all (\<lambda>m. answers (tt_aws (a m))) ms"
    and m: "run_terratest_main a mp acc True sp (Some rt) s = (Inl (SystemExit 0), s')"
    and d: "discover_suite_modules rt s = (Inr ms, t)"
  shows "ms \<noteq> [] \<and> list_all (\<lambda>m. \<exists>u v. before s u \<and> run_module (a m) m acc u = (Inl (SystemExit 0), v) \<and> before v s' \<and>
     passed_run (a m) m acc (run_id_of (a m) (environ u)) u v) ms"
proof
  show "ms \<noteq> []" using d by (auto simp: discover_suite_modules_def Let_def bindC_def split: if_splits option.splits)
  have st: "before s t" using d by (auto simp: discover_suite_modules_def Let_def bindC_def getenv_def split: if_splits option.splits)
  have "run_suite (\<lambda>m. run_module (a m) m acc) ms sp t = (Inl (SystemExit 0), s')"
    using m d by (simp add: run_terratest_main_def bindC_def)
  from run_suite_zero [OF this] obtain rs u v where
    rs: "run_modules (\<lambda>m. run_module (a m) m acc) ms u = (Inr rs, v)" and z: "list_all (\<lambda>(m, n). n = 0) rs"
    and tu: "before t u" and vs: "before v s'" by blast
  show "list_all (\<lambda>m. \<exists>u v. before s u \<and> run_module (a m) m acc u = (Inl (SystemExit 0), v) \<and> before v s' \<and>
     passed_run (a m) m acc (run_id_of (a m) (environ u)) u v) ms"
    unfolding list_all_iff
  proof
    fix m assume mm: "m \<in> set ms"
    then have "m \<in> fst ` set rs" using run_modules_results [OF rs] by (metis list.set_map)
    then obtain n where n: "(m, n) \<in> set rs" by force
    have "n = 0" using z n unfolding list_all_iff by fast
    moreover have "list_all (\<lambda>(m, n). \<exists>w x. before u w \<and> exit_code (run_module (a m) m acc) w = (Inr n, x) \<and> before x v) rs"
      using run_modules_results [OF rs] by blast
    ultimately have "\<exists>w x. before u w \<and> exit_code (run_module (a m) m acc) w = (Inr 0, x) \<and> before x v"
      using n unfolding list_all_iff by fast
    then obtain w x where e: "before u w" "exit_code (run_module (a m) m acc) w = (Inr 0, x)" "before x v" by blast
    have "answers (tt_aws (a m))" using a mm by (simp add: list_all_iff)
    from run_module_zero [OF this exit_code_zero [OF e(2)]] exit_code_zero [OF e(2)]
    show "\<exists>u v. before s u \<and> run_module (a m) m acc u = (Inl (SystemExit 0), v) \<and> before v s' \<and>
       passed_run (a m) m acc (run_id_of (a m) (environ u)) u v"
      using st tu vs e(1,3) before_trans by blast
  qed
qed

text \<open>The cleanup after the tests is skipped when the destroy retry raises: the caches stay and the run is not
  swept.\<close>

lemma retry_error_skips_sweep:
  assumes "invoke_go_test (tt_tools a) mp timeout env s = (Inr n, u)" "n \<noteq> 0"
    and "retry_terraform_destroy (tt_tools a) (tt_cwd a) mp env u = (Inl e, v)"
  shows "test_and_clean a mp acc rid timeout env s = (Inl e, v)"
  using assms by (simp add: test_and_clean_def bindC_def)

section \<open>A run\<close>

definition ex_go_tools :: "bool tools" where
  "ex_go_tools argl cwd env fs v = (Some 0, fs, v)"

definition ex_go_aws :: "bool aws" where
  "ex_go_aws f kw v = (if snd f = ''get_caller_identity'' then Aws_Ok (JObj [(''Account'', JStr ''111'')])
     else if snd f = ''get_resources'' then Aws_Pages [] None else Aws_Ok (JObj []), v)"

definition ex_run_args :: "bool run_args" where
  "ex_run_args = \<lparr>tt_tools = ex_go_tools, tt_aws = ex_go_aws, tt_cwd = Path True [''repo''], tt_home = ''/home'',
     tt_time = (2024, 1, 2, 12, 0, 0), tt_rand = ''aaaaaa'', tt_procs = \<lparr>inode_of = (\<lambda>_. None), proc_table = None\<rparr>,
     tt_sweeps = (\<lambda>_. ex_sweep_args)\<rparr>"

definition ex_roles :: "string \<Rightarrow> json" where
  "ex_roles role = JObj [(''111'', JObj [(''account_role'', JStr role)])]"

definition ex_run_state :: "string \<Rightarrow> bool cloud ci_state" where
  "ex_run_state role = \<lparr>world = \<lparr>outside = True, calls = []\<rparr>, cmds = [], environ = [],
     files = [(path_of ''accounts.json'', dumps dflt_opts (ex_roles role)), (path_of ''m/tests/m_test.go'', []),
       (path_of ''m/go.mod'', REQUIRED_GO_MODULE), (path_of ''m/test.config'', []), (path_of ''m/examples/e/main.tf'', [])],
     readonly = [], printed = []\<rparr>"

abbreviation ex_run :: "(exn + unit) \<times> bool cloud ci_state" where
  "ex_run \<equiv> run_module ex_run_args ''m'' ''accounts.json'' (ex_run_state ''sandbox'')"

lemma ex_run_result: "fst ex_run = Inl (SystemExit 0)"
  by code_simp

lemma ex_go_answers: "answers (tt_aws ex_run_args)"
  by (auto simp: answers_def ex_run_args_def ex_go_aws_def)


theorem run_id_file_roundtrip_witness:
  "read_run_id_from_file ''m/.terratest-run-id'' (snd (write_run_id_file ''m'' ''tt-1-a'' (ex_run_state ''sandbox''))) =
     (Inr ''tt-1-a'', snd (write_run_id_file ''m'' ''tt-1-a'' (ex_run_state ''sandbox'')))"
proof -
  have "fst (write_run_id_file ''m'' ''tt-1-a'' (ex_run_state ''sandbox'')) = Inr ()" "strip ''tt-1-a'' = ''tt-1-a''" by code_simp+
  then show ?thesis
    using run_id_file_roundtrip [of "''m''" "''tt-1-a''" "ex_run_state ''sandbox''" "snd (write_run_id_file ''m'' ''tt-1-a'' (ex_run_state ''sandbox''))"]
    by (simp add: prod_eq_iff)
qed

abbreviation ex_denied :: "(exn + unit) \<times> bool cloud ci_state" where
  "ex_denied \<equiv> run_module ex_run_args ''m'' ''accounts.json'' (ex_run_state ''prod-infra'')"

theorem runner_refuses_denied_witness:
  "(\<exists>e. fst ex_denied = Inl e) \<and> files (snd ex_denied) = files (ex_run_state ''prod-infra'') \<and>
     (calls (world (snd ex_denied)) = [] \<or> calls (world (snd ex_denied)) = [sts_call])"
proof -
  have p: "map_of (files (ex_run_state ''prod-infra'')) (path_of ''accounts.json'') = Some (dumps dflt_opts (ex_roles ''prod-infra''))"
    "loads (dumps dflt_opts (ex_roles ''prod-infra'')) = Some (ex_roles ''prod-infra'')" by code_simp+
  have a: "tt_aws ex_run_args (''sts'', ''get_caller_identity'') [] (outside (world (ex_run_state ''prod-infra''))) = (Aws_Ok (JObj [(''Account'', JStr ''111'')]), True)"
    by code_simp
  have d: "json_index (JObj [(''Account'', JStr ''111'')]) ''Account'' = Inr (JStr ''111'')"
    "json_get_default (ex_roles ''prod-infra'') ''111'' (JObj []) = Inr (JObj [(''account_role'', JStr ''prod-infra'')])"
    "json_get_default (JObj [(''account_role'', JStr ''prod-infra'')]) ''account_role'' (JStr []) = Inr (JStr ''prod-infra'')" by code_simp+
  have "ex_denied = (fst ex_denied, snd ex_denied)" by simp
  from runner_refuses_denied [OF this p a d] have "(\<exists>e. fst ex_denied = Inl e) \<and> files (snd ex_denied) = files (ex_run_state ''prod-infra'') \<and>
     (calls (world (snd ex_denied)) = calls (world (ex_run_state ''prod-infra'')) \<or>
      calls (world (snd ex_denied)) = calls (world (ex_run_state ''prod-infra'')) @ [sts_call])" by blast
  moreover have "calls (world (ex_run_state ''prod-infra'')) = []" by (simp add: ex_run_state_def)
  ultimately show ?thesis by (simp only: append_Nil)
qed

abbreviation ex_suite :: "(exn + unit) \<times> bool cloud ci_state" where
  "ex_suite \<equiv> run_terratest_main (\<lambda>_. ex_run_args) [] ''accounts.json'' True None (Some ''.'') (ex_run_state ''sandbox'')"

lemma ex_suite_result:
  "fst ex_suite = Inl (SystemExit 0)" "fst (discover_suite_modules ''.'' (ex_run_state ''sandbox'')) = Inr [''m'']"
  by code_simp+

theorem suite_exit_zero_witness:
  "list_all (\<lambda>m. \<exists>u v. before (ex_run_state ''sandbox'') u \<and> run_module ex_run_args m ''accounts.json'' u = (Inl (SystemExit 0), v) \<and>
     before v (snd ex_suite) \<and> passed_run ex_run_args m ''accounts.json'' (run_id_of ex_run_args (environ u)) u v) [''m'']"
proof -
  have "run_terratest_main (\<lambda>_. ex_run_args) [] ''accounts.json'' True None (Some ''.'') (ex_run_state ''sandbox'') = (Inl (SystemExit 0), snd ex_suite)"
    "discover_suite_modules ''.'' (ex_run_state ''sandbox'') = (Inr [''m''], snd (discover_suite_modules ''.'' (ex_run_state ''sandbox'')))"
    using ex_suite_result by (simp_all add: prod_eq_iff)
  from suite_exit_zero [OF _ this] show ?thesis using ex_go_answers by simp
qed

end
