(* ===== verification/Guards.thy ===== *)
theory Guards
  imports Units
begin

text \<open>
  The guards over the Terraform, Terragrunt and workflow sources: version floors
  (\<open>scripts/tf_guard_version_floor.py\<close>), pinned module sources (\<open>scripts/tf_guard_pinned_sources.py\<close>) and pinned
  actions (\<open>scripts/check_action_sha_pins.py\<close>).

  A guard reads files only, so it is a function of the files and the environment. What it reports is a list
  of findings; the exceptions that carry one (\<open>VersionFloorError\<close> from a file, \<open>UnpinnedSourceError\<close>) are
  caught right around the call that raises them and are modelled by the finding itself.
\<close>

section \<open>Version floors\<close>

definition assignment :: "string \<Rightarrow> rx" where
  "assignment k = Seq (Lit k) (Seq Spaces (Seq (Ch (CHR ''='')) (Seq Spaces (Seq Quote (Seq (Grp ''1'' Unquoted) Quote)))))"

definition REQUIRED_VERSION_RE :: rx where "REQUIRED_VERSION_RE = assignment ''required_version''"
definition PROVIDER_VERSION_RE :: rx where "PROVIDER_VERSION_RE = assignment ''version''"
definition PROVIDER_SOURCE_RE :: rx where "PROVIDER_SOURCE_RE = assignment ''source''"

abbreviation NoBrace :: rx where "NoBrace \<equiv> Star True (Cls (\<lambda>c. c \<noteq> CHR 0x7D))"

definition GENERATE_VERSIONS_RE :: rx where
  "GENERATE_VERSIONS_RE = Seq (Lit ''generate'') (Seq (Plus True (Cls is_ws)) (Seq Quote (Seq (Lit ''versions'') (Seq Quote (Seq Spaces
     (Seq (Ch (CHR 0x7B)) (Seq (Grp ''1'' (Seq NoBrace (Star True (Seq (Ch (CHR 0x7B)) (Seq NoBrace (Seq (Ch (CHR 0x7D)) NoBrace))))))
     (Ch (CHR 0x7D)))))))))"

record floor_config =
  tf_floor :: string
  provider_floor :: string
  provider_source :: string

datatype floor_finding =
    Version_Absent path
  | Version_Low path string
  | Provider_Absent path
  | Provider_Low path string
  | Block_Absent path

definition floor_parse_version :: "string \<Rightarrow> int list option" where
  "floor_parse_version z = those (map py_int (split_on (CHR ''.'') (strip z)))"

text \<open>\<open>xs >= ys\<close> on tuples.\<close>

fun tuple_ge :: "int list \<Rightarrow> int list \<Rightarrow> bool" where
  "tuple_ge xs [] = True"
| "tuple_ge [] (y # ys) = False"
| "tuple_ge (x # xs) (y # ys) = (if x = y then tuple_ge xs ys else y < x)"

definition meets_floor :: "string \<Rightarrow> string \<Rightarrow> bool" where
  "meets_floor constraint floor' = (let c = strip constraint in
     if startswith c ''~>'' then False
     else if startswith c ''>='' then
       (case floor_parse_version (strip (drop 2 c)) of None \<Rightarrow> False
        | Some declared \<Rightarrow> (case floor_parse_version floor' of None \<Rightarrow> False | Some f \<Rightarrow> tuple_ge declared f))
     else False)"

definition group1 :: "mstate \<Rightarrow> string" where
  "group1 st = the_default [] (cap_of ''1'' (snd st))"

text \<open>\<open>_find_provider_version_in_content\<close>: a finding that is raised, or whether a constraint was found.\<close>

definition find_provider_version_in_content :: "floor_config \<Rightarrow> path \<Rightarrow> string \<Rightarrow> floor_finding + bool" where
  "find_provider_version_in_content cfg p content =
     (case filter (\<lambda>(a, st). group1 st = provider_source cfg) (find_from (\<lambda>_. True) PROVIDER_SOURCE_RE None content) of
        [] \<Rightarrow> Inr False
      | (a, st) # _ \<Rightarrow> (case re_search PROVIDER_VERSION_RE (fst st) of
            None \<Rightarrow> Inr False
          | Some v \<Rightarrow> if meets_floor (group1 v) (provider_floor cfg) then Inr True else Inl (Provider_Low p (group1 v))))"

definition check_versions_text :: "floor_config \<Rightarrow> path \<Rightarrow> string \<Rightarrow> floor_finding option" where
  "check_versions_text cfg p content = (case re_search REQUIRED_VERSION_RE content of
      None \<Rightarrow> Some (Version_Absent p)
    | Some st \<Rightarrow> if \<not> meets_floor (group1 st) (tf_floor cfg) then Some (Version_Low p (group1 st))
        else (case find_provider_version_in_content cfg p content of
            Inl f \<Rightarrow> Some f
          | Inr ok \<Rightarrow> if ok then None else Some (Provider_Absent p)))"

definition check_versions_file :: "(path, string) dict \<Rightarrow> floor_config \<Rightarrow> path \<Rightarrow> exn + floor_finding option" where
  "check_versions_file fs cfg p = bindR (file_text fs p) (\<lambda>content. Inr (check_versions_text cfg p content))"

definition check_root_block :: "floor_config \<Rightarrow> path \<Rightarrow> string \<Rightarrow> floor_finding list" where
  "check_root_block cfg p block =
     (case re_search REQUIRED_VERSION_RE block of
        None \<Rightarrow> [Version_Absent p]
      | Some st \<Rightarrow> if meets_floor (group1 st) (tf_floor cfg) then [] else [Version_Low p (group1 st)]) @
     (case re_search PROVIDER_SOURCE_RE block of
        None \<Rightarrow> []
      | Some st \<Rightarrow> if group1 st \<noteq> provider_source cfg then []
          else (case re_search PROVIDER_VERSION_RE (fst st) of
              None \<Rightarrow> []
            | Some v \<Rightarrow> if meets_floor (group1 v) (provider_floor cfg) then [] else [Provider_Low p (group1 v)]))"

definition check_root_hcl :: "(path, string) dict \<Rightarrow> floor_config \<Rightarrow> path \<Rightarrow> exn + floor_finding list" where
  "check_root_hcl fs cfg p = bindR (file_text fs p) (\<lambda>content.
     Inr (case re_search GENERATE_VERSIONS_RE content of
         None \<Rightarrow> [Block_Absent p]
       | Some st \<Rightarrow> check_root_block cfg p (group1 st)))"

definition hidden :: "path \<Rightarrow> bool" where
  "hidden p = list_ex (\<lambda>part. startswith part ''.'') (parts p)"

definition collect_versions_files :: "(path, string) dict \<Rightarrow> path \<Rightarrow> exn + path list" where
  "collect_versions_files fs root' = (if \<not> path_exists fs root' then Inl VersionFloorError
     else Inr (sort_key parts (filter (\<lambda>p. \<not> hidden p) (rglob fs root' ''versions.tf''))))"

definition run_version_floor_guard :: "(path, string) dict \<Rightarrow> path list \<Rightarrow> path option \<Rightarrow> floor_config \<Rightarrow> exn + floor_finding list" where
  "run_version_floor_guard fs providers_roots root_hcl cfg =
     bindR (mapM (\<lambda>r. bindR (collect_versions_files fs r) (\<lambda>ps. mapM (check_versions_file fs cfg) ps)) providers_roots) (\<lambda>rs.
     bindR (case root_hcl of None \<Rightarrow> Inr [] | Some p \<Rightarrow> check_root_hcl fs cfg p) (\<lambda>hs.
       Inr (List.map_filter id (concat rs) @ hs)))"

definition resolve_floor_config :: "(string, string) dict \<Rightarrow> floor_config" where
  "resolve_floor_config env = \<lparr>tf_floor = the_default ''1.15.5'' (map_of env ''TF_FLOOR''),
     provider_floor = the_default ''6.49.0'' (map_of env ''PROVIDER_FLOOR''),
     provider_source = the_default ''hashicorp/aws'' (map_of env ''PROVIDER_SOURCE'')\<rparr>"

definition resolve_providers_roots :: "(path, string) dict \<Rightarrow> (string, string) dict \<Rightarrow> path \<Rightarrow> exn + path list" where
  "resolve_providers_roots fs env repo_root = (case the_default [] (map_of env ''TF_PROVIDERS_ROOTS'') of
      [] \<Rightarrow> (let existing = filter (path_exists fs) [path_div repo_root ''providers/aws/primitives'', path_div repo_root ''providers/aws/references'']
         in if existing = [] then Inl (SystemExit 1) else Inr existing)
    | roots \<Rightarrow> Inr (map (\<lambda>r. path_of (strip r)) (filter (\<lambda>r. strip r \<noteq> []) (split_on (CHR '','') roots))))"

definition resolve_root_hcl :: "(path, string) dict \<Rightarrow> (string, string) dict \<Rightarrow> path \<Rightarrow> path option" where
  "resolve_root_hcl fs env repo_root = (case the_default [] (map_of env ''TF_ROOT_HCL'') of
      [] \<Rightarrow> (let p = path_div repo_root ''terragrunt/root.hcl'' in if path_exists fs p then Some p else None)
    | p \<Rightarrow> Some (path_of p))"

definition version_floor_main :: "(path, string) dict \<Rightarrow> (string, string) dict \<Rightarrow> path \<Rightarrow> exn + int" where
  "version_floor_main fs env repo_root =
     bindR (resolve_providers_roots fs env repo_root) (\<lambda>roots.
       case run_version_floor_guard fs roots (resolve_root_hcl fs env repo_root) (resolve_floor_config env) of
         Inl e \<Rightarrow> if e = VersionFloorError then Inr 1 else Inl e
       | Inr findings \<Rightarrow> Inr (if findings = [] then 0 else 1))"

section \<open>Pinned module sources\<close>

definition SOURCE_RE :: rx where "SOURCE_RE = Seq Spaces (assignment ''source'')"

text \<open>\<open>source = <condition> ? "<true>" : "<false>"\<close>, to the end of the line.\<close>

definition TERNARY_SOURCE_RE :: rx where
  "TERNARY_SOURCE_RE = Seq Spaces (Seq (Lit ''source'') (Seq Spaces (Seq (Ch (CHR ''='')) (Seq Spaces
     (Seq (Plus True (Cls (\<lambda>c. c \<noteq> CHR 0x22 \<and> c \<noteq> CHR ''?''))) (Seq (Ch (CHR ''?'')) (Seq Spaces (Seq Quote (Seq (Grp ''1'' Unquoted) (Seq Quote
     (Seq Spaces (Seq (Ch (CHR '':'')) (Seq Spaces (Seq Quote (Seq (Grp ''2'' Unquoted) (Seq Quote (Seq Spaces LineEnd)))))))))))))))))"

abbreviation Digits :: rx where "Digits \<equiv> Plus True (Cls is_digit)"

definition VALID_REF_RE :: rx where
  "VALID_REF_RE = Seq (Lit ''?ref='') (Seq (Star True (Seq (Star True (Cls (\<lambda>c. c \<noteq> CHR ''/''))) (Ch (CHR ''/''))))
     (Seq (Ch (CHR ''v'')) (Seq Digits (Seq (Ch (CHR ''.'')) (Seq Digits (Seq (Ch (CHR ''.'')) Digits))))))"

definition LOCAL_REPO_ROOT :: string where
  "LOCAL_REPO_ROOT = CHR ''$'' # CHR 0x7B # ''get_repo_root()'' @ [CHR 0x7D]"

definition LOCAL_REPO_ROOT_RE :: rx where "LOCAL_REPO_ROOT_RE = Lit LOCAL_REPO_ROOT"

definition any_case :: "string \<Rightarrow> rx" where
  "any_case z = foldr (\<lambda>c. Seq (Cls (\<lambda>x. lower_char x = c))) z Eps"

definition TOGGLE_RE :: rx where
  "TOGGLE_RE = Seq (any_case ''use_pinned_module_sources'') (Seq Spaces (Seq (Ch (CHR ''='')) (Seq Spaces
     (Grp ''1'' (Alt (any_case ''true'') (any_case ''false''))))))"

datatype source_value = LiteralSource string | TernarySource string string

text \<open>The walk from a leaf towards the live root; it does not return when a directory below the live root
  is its own parent.\<close>

partial_function (option) account_walk :: "(path, string) dict \<Rightarrow> path \<Rightarrow> path \<Rightarrow> path \<Rightarrow> path option option" where
  "account_walk fs cwd live_root candidate =
     (if relative_to (path_resolve cwd candidate) (path_resolve cwd live_root) = None then Some None
      else if path_exists fs (path_div candidate ''account.hcl'') then Some (Some (path_div candidate ''account.hcl''))
      else account_walk fs cwd live_root (path_parent candidate))"

declare account_walk.simps [code]

definition top_of :: "path \<Rightarrow> path" where
  "top_of p = Path (anchored p) []"

definition resolve_env_class :: "(path, string) dict \<Rightarrow> path \<Rightarrow> exn + string" where
  "resolve_env_class fs account_hcl = (case find_up fs (top_of account_hcl) ''environment.hcl'' (path_parent account_hcl) of
      None \<Rightarrow> Inl MissingToggleError | Some d \<Rightarrow> Inr (path_name d))"

definition find_env_accounts_json :: "(path, string) dict \<Rightarrow> path \<Rightarrow> exn + path" where
  "find_env_accounts_json fs start = (case find_up fs (top_of start) ''terragrunt/common/env_accounts.json'' (path_parent start) of
      None \<Rightarrow> Inl MissingToggleError | Some d \<Rightarrow> Inr (path_div d ''terragrunt/common/env_accounts.json''))"

text \<open>\<open>k in v\<close> and \<open>v[k]\<close> for a decoded value and a string key.\<close>

definition py_in :: "string \<Rightarrow> json \<Rightarrow> exn + bool" where
  "py_in k v = (case v of
      JObj kvs \<Rightarrow> Inr (map_of kvs k \<noteq> None)
    | JList xs \<Rightarrow> Inr (JStr k \<in> set xs)
    | JStr z \<Rightarrow> Inr (contains k z)
    | _ \<Rightarrow> Inl TypeError)"

definition env_toggle :: "json \<Rightarrow> string \<Rightarrow> exn + bool" where
  "env_toggle data env_class =
     bindR (json_get_default data ''envs'' (JObj [])) (\<lambda>envs.
     bindR (py_in env_class envs) (\<lambda>known.
       if \<not> known then Inl MissingToggleError
       else bindR (json_index envs env_class) (\<lambda>e.
         bindR (py_in ''use_pinned_module_sources'' e) (\<lambda>has.
           if \<not> has then Inl MissingToggleError
           else bindR (json_index e ''use_pinned_module_sources'') (\<lambda>v. Inr (truthy v))))))"

definition resolve_toggle_from_env_accounts :: "(path, string) dict \<Rightarrow> path \<Rightarrow> exn + bool" where
  "resolve_toggle_from_env_accounts fs account_hcl =
     bindR (resolve_env_class fs account_hcl) (\<lambda>env_class.
     bindR (find_env_accounts_json fs account_hcl) (\<lambda>p.
     bindR (file_text fs p) (\<lambda>t. bindR (json_loads t) (\<lambda>data. env_toggle data env_class))))"

definition extract_toggle_from_file :: "(path, string) dict \<Rightarrow> path \<Rightarrow> exn + bool" where
  "extract_toggle_from_file fs account_hcl = bindR (file_text fs account_hcl) (\<lambda>content.
     case re_search TOGGLE_RE content of
       Some st \<Rightarrow> Inr (lower (group1 st) = ''true'')
     | None \<Rightarrow> if contains ''use_pinned_module_sources'' content \<and> contains ''env_accounts'' content
         then resolve_toggle_from_env_accounts fs account_hcl else Inl MissingToggleError)"

definition resolve_toggle_from_account_hcl :: "(path, string) dict \<Rightarrow> path \<Rightarrow> path \<Rightarrow> path \<Rightarrow> exn + bool" where
  "resolve_toggle_from_account_hcl fs cwd leaf_path live_root = (case account_walk fs cwd live_root (path_parent leaf_path) of
      None \<Rightarrow> Inl Diverges
    | Some None \<Rightarrow> Inl MissingToggleError
    | Some (Some p) \<Rightarrow> extract_toggle_from_file fs p)"

text \<open>\<open>check_source_string\<close>: whether the source passes.\<close>

definition check_source_string :: "string \<Rightarrow> bool \<Rightarrow> bool" where
  "check_source_string source pinned_required =
     (if re_search LOCAL_REPO_ROOT_RE source \<noteq> None then \<not> pinned_required
      else contains ''?ref='' source \<and> re_search VALID_REF_RE source \<noteq> None)"

definition group2 :: "mstate \<Rightarrow> string" where
  "group2 st = the_default [] (cap_of ''2'' (snd st))"

definition sources_of :: "string \<Rightarrow> source_value list" where
  "sources_of content = map (\<lambda>(a, st). TernarySource (group1 st) (group2 st)) (find_from line_start TERNARY_SOURCE_RE None content) @
     map (\<lambda>(a, st). LiteralSource (group1 st)) (find_from line_start SOURCE_RE None content)"

definition leaf_files :: "(path, string) dict \<Rightarrow> path \<Rightarrow> path list" where
  "leaf_files fs root' = filter (\<lambda>p. ''_envcommon'' \<notin> set (parts p) \<and> ''bootstrap'' \<notin> set (parts p)) (rglob fs root' HCL)"

definition collect_leaf_sources :: "(path, string) dict \<Rightarrow> path \<Rightarrow> exn + (path \<times> source_value) list" where
  "collect_leaf_sources fs root' =
     bindR (mapM (\<lambda>p. bindR (file_text fs p) (\<lambda>content. Inr (map (Pair p) (sources_of content)))) (leaf_files fs root')) (\<lambda>rs. Inr (concat rs))"

fun effective_source :: "source_value \<Rightarrow> bool \<Rightarrow> string" where
  "effective_source (TernarySource t f) pinned_required = (if pinned_required then t else f)"
| "effective_source (LiteralSource v) pinned_required = v"

definition check_leaf :: "(path, string) dict \<Rightarrow> path \<Rightarrow> path \<Rightarrow> path \<times> source_value \<Rightarrow> exn + (path \<times> string) option" where
  "check_leaf fs cwd root' = (\<lambda>(p, v). bindR (resolve_toggle_from_account_hcl fs cwd p root') (\<lambda>pinned.
     Inr (if check_source_string (effective_source v pinned) pinned then None else Some (p, effective_source v pinned))))"

definition run_source_guard :: "(path, string) dict \<Rightarrow> path \<Rightarrow> path \<Rightarrow> exn + (path \<times> string) list" where
  "run_source_guard fs cwd root' =
     bindR (collect_leaf_sources fs root') (\<lambda>leaves. bindR (mapM (check_leaf fs cwd root') leaves) (\<lambda>rs. Inr (List.map_filter id rs)))"

definition default_terragrunt_root :: "(path, string) dict \<Rightarrow> (string, string) dict \<Rightarrow> path \<Rightarrow> path option" where
  "default_terragrunt_root fs env repo_root = (case the_default [] (map_of env ''TG_LIVE_ROOT'') of
      [] \<Rightarrow> (let p = path_div repo_root ''terragrunt'' in if path_exists fs p then Some p else None)
    | p \<Rightarrow> Some (path_of p))"

definition pinned_sources_main :: "(path, string) dict \<Rightarrow> (string, string) dict \<Rightarrow> path \<Rightarrow> path \<Rightarrow> exn + int" where
  "pinned_sources_main fs env cwd repo_root = (case default_terragrunt_root fs env repo_root of
      None \<Rightarrow> Inr 1
    | Some r \<Rightarrow> if \<not> path_exists fs r then Inr 1
        else (case run_source_guard fs cwd r of
            Inl e \<Rightarrow> if e = MissingToggleError then Inr 1 else Inl e
          | Inr errors \<Rightarrow> Inr (if errors = [] then 0 else 1)))"

section \<open>Pinned actions\<close>

text \<open>\<open>^\s*-?\s*uses:\s*(?P<ref>[^\s#]+)(?:\s*#\s*(?P<comment>.+))?\s*$\<close>\<close>

definition USES_PATTERN :: rx where
  "USES_PATTERN = Seq Spaces (Seq (Opt (Ch (CHR ''-''))) (Seq Spaces (Seq (Lit ''uses:'') (Seq Spaces
     (Seq (Grp ''ref'' (Plus True (Cls (\<lambda>c. \<not> is_ws c \<and> c \<noteq> CHR ''#''))))
     (Seq (Opt (Seq Spaces (Seq (Ch (CHR ''#'')) (Seq Spaces (Grp ''comment'' (Plus True (Cls dot)))))))
     (Seq Spaces EndD)))))))"

definition sha_hex_digit :: "char \<Rightarrow> bool" where
  "sha_hex_digit c = (is_digit c \<or> between (CHR ''a'') (CHR ''f'') c \<or> between (CHR ''A'') (CHR ''F'') c)"

text \<open>\<open>^[0-9a-fA-F]{40}$\<close>: the end may stand before a final newline, which a reference cannot contain.\<close>

definition sha40 :: "string \<Rightarrow> bool" where
  "sha40 z = (re_match (Seq (foldr (\<lambda>_. Seq (Cls sha_hex_digit)) [0..<40] Eps) EndD) z \<noteq> None)"

definition is_first_party :: "string \<Rightarrow> bool" where
  "is_first_party ref' = startswith ref' ''./''"

definition extract_sha_from_ref :: "string \<Rightarrow> string option" where
  "extract_sha_from_ref ref' = (if CHR ''@'' \<in> set ref' then Some (tl (dropWhile (\<lambda>c. c \<noteq> CHR ''@'') ref')) else None)"

datatype pin_violation = No_Separator nat string | Not_A_Sha nat string | No_Comment nat string

definition check_uses_line :: "nat \<Rightarrow> string \<Rightarrow> pin_violation option" where
  "check_uses_line n line = (case re_match USES_PATTERN line of
      None \<Rightarrow> None
    | Some (u, cs) \<Rightarrow> (let ref' = the_default [] (cap_of ''ref'' cs) in
        if is_first_party ref' then None
        else (case extract_sha_from_ref ref' of
            None \<Rightarrow> Some (No_Separator n ref')
          | Some sha \<Rightarrow> if \<not> sha40 sha then Some (Not_A_Sha n ref')
              else (case cap_of ''comment'' cs of
                  None \<Rightarrow> Some (No_Comment n ref')
                | Some comment \<Rightarrow> if list_ex (\<lambda>c. \<not> is_ws c) comment then None else Some (No_Comment n ref')))))"

definition check_file :: "(path, string) dict \<Rightarrow> path \<Rightarrow> exn + pin_violation list" where
  "check_file fs p = (if \<not> path_exists fs p then Inl FileNotFoundError
     else bindR (file_text fs p) (\<lambda>content.
       Inr (List.map_filter (\<lambda>(n, line). check_uses_line n line) (enumerate 1 (splitlines content)))))"

definition workflow_files :: "(path, string) dict \<Rightarrow> path \<Rightarrow> path list" where
  "workflow_files fs d = map (path_div d) (sort (filter (\<lambda>n. endswith n ''.yml'') (list_dir fs d)) @ sort (filter (\<lambda>n. endswith n ''.yaml'') (list_dir fs d)))"

definition sha_pins_main :: "(path, string) dict \<Rightarrow> path \<Rightarrow> exn + int" where
  "sha_pins_main fs d = (if \<not> path_exists fs d then Inl (SystemExit 2)
     else bindR (mapM (check_file fs) (workflow_files fs d)) (\<lambda>rs. Inl (SystemExit (if concat rs = [] then 0 else 1))))"

end
