(* ===== verification/Wiring.thy ===== *)
theory Wiring
  imports Guards
begin

text \<open>
  The guard over new module variables, \<open>scripts/check_required_var_wiring.py\<close>: a required variable that a change
  adds to a module has to be mentioned by every Terragrunt leaf that uses the module, or by a template the leaf
  includes. Text that cannot be parsed is skipped.
\<close>

section \<open>Masking comments and strings\<close>

text \<open>The blanked text up to the end of a block comment or of a string, and what follows it.\<close>

fun mask_block :: "string \<Rightarrow> string \<times> string" where
  "mask_block [] = ([], [])"
| "mask_block (c # s) = (if c = CHR ''*'' \<and> startswith s ''/'' then ([CHR '' '', CHR '' ''], tl s)
     else (let (b, r) = mask_block s in ((if c = CHR 0x0A then c else CHR '' '') # b, r)))"

fun mask_string :: "string \<Rightarrow> string \<times> string" where
  "mask_string [] = ([], [])"
| "mask_string [c] = ([if c = CHR 0x22 \<or> c = CHR 0x0A then c else CHR '' ''], [])"
| "mask_string (c # d # s) = (if c = CHR 0x22 then ([c], d # s)
     else if c = CHR 0x5C then (let (b, r) = mask_string s in (CHR '' '' # CHR '' '' # b, r))
     else (let (b, r) = mask_string (d # s) in ((if c = CHR 0x0A then c else CHR '' '') # b, r)))"

lemma mask_block_length: "length (fst (mask_block s)) + length (snd (mask_block s)) = length s"
  by (induction s rule: mask_block.induct) (auto simp: prefix_def split: prod.splits)

lemma mask_string_length: "length (fst (mask_string s)) + length (snd (mask_string s)) = length s"
  by (induction s rule: mask_string.induct) (auto split: prod.splits)

abbreviation not_newline :: "char \<Rightarrow> bool" where "not_newline \<equiv> \<lambda>c. c \<noteq> CHR 0x0A"

definition blank_line :: "string \<Rightarrow> string" where
  "blank_line s = map (\<lambda>_. CHR '' '') (takeWhile not_newline s)"

function mask_hcl :: "string \<Rightarrow> string" where
  "mask_hcl [] = []"
| "mask_hcl (c # s) =
     (if c = CHR ''#'' \<or> c = CHR ''/'' \<and> startswith s ''/'' then blank_line (c # s) @ mask_hcl (dropWhile not_newline s)
      else if c = CHR ''/'' \<and> startswith s ''*'' then CHR '' '' # CHR '' '' # fst (mask_block (tl s)) @ mask_hcl (snd (mask_block (tl s)))
      else if c = CHR 0x22 then c # fst (mask_string s) @ mask_hcl (snd (mask_string s))
      else c # mask_hcl s)"
  by pat_completeness auto
termination
proof (relation "measure length", simp_all)
  show "length (dropWhile not_newline s) < Suc (length s)" for s using length_dropWhile_le [of not_newline s] by simp
  show "length (snd (mask_block (tl s))) < Suc (length s)" for s using mask_block_length [of "tl s"] by (cases s) auto
  show "length (snd (mask_string s)) < Suc (length s)" for s using mask_string_length [of s] by simp
qed

section \<open>Variable blocks\<close>

text \<open>\<open>variable\s+"([^"\n]*)"\s*{\<close>; the header pattern is the same without the group.\<close>

definition VARIABLE_NAME :: rx where
  "VARIABLE_NAME = Seq (Lit ''variable'') (Seq (Plus True (Cls is_ws)) (Seq Quote (Seq (Grp ''1'' (Star True (Cls (\<lambda>c. c \<noteq> CHR 0x22 \<and> c \<noteq> CHR 0x0A))))
     (Seq Quote (Seq Spaces (Ch (CHR 0x7B)))))))"

definition VARIABLE_HEADER :: rx where
  "VARIABLE_HEADER = Seq (Lit ''variable'') (Seq (Plus True (Cls is_ws)) (Seq Quote (Seq (Star True (Cls (\<lambda>c. c \<noteq> CHR 0x22 \<and> c \<noteq> CHR 0x0A)))
     (Seq Quote (Seq Spaces (Ch (CHR 0x7B)))))))"

definition token_char :: "char \<Rightarrow> bool" where
  "token_char c = (is_digit c \<or> c = CHR ''_'' \<or> between (CHR ''a'') (CHR ''z'') c \<or> between (CHR ''A'') (CHR ''Z'') c)"

text \<open>Whether \<open>default =\<close> starts here, after the character \<open>prev\<close>.\<close>

definition default_here :: "char \<Rightarrow> string \<Rightarrow> bool" where
  "default_here prev s = (startswith s ''default'' \<and> \<not> token_char prev \<and>
     (let after = drop 7 s in (after = [] \<or> \<not> token_char (hd after)) \<and>
        startswith (dropWhile (\<lambda>c. c = CHR '' '' \<or> c = CHR 0x09) after) ''=''))"

fun scan_block :: "nat \<Rightarrow> char \<Rightarrow> bool \<Rightarrow> string \<Rightarrow> nat \<times> bool" where
  "scan_block depth prev has_default [] = (depth, has_default)"
| "scan_block depth prev has_default (c # s) =
     (if depth = 0 then (depth, has_default)
      else if c = CHR 0x7B then scan_block (depth + 1) c has_default s
      else if c = CHR 0x7D then scan_block (depth - 1) c has_default s
      else scan_block depth c (has_default \<or> depth = 1 \<and> default_here prev (c # s)) s)"

text \<open>The declaration whose header matches at \<open>a\<close> and ends before \<open>u\<close> in the masked text: its name, from the
  original text, and whether it has a default. \<open>None\<close> is the parse error.\<close>

definition variable_at :: "string \<Rightarrow> string \<times> mstate \<Rightarrow> (string \<times> bool) option" where
  "variable_at orig = (\<lambda>(a, u, _). case re_search VARIABLE_NAME (take (length a - length u) (drop (length orig - length a) orig)) of
      None \<Rightarrow> None
    | Some st \<Rightarrow> (case scan_block 1 (CHR 0x7B) False u of (depth, has_default) \<Rightarrow> if depth \<noteq> 0 then None else Some (group1 st, has_default)))"

definition parse_variable_blocks :: "string \<Rightarrow> (string, bool) dict option" where
  "parse_variable_blocks orig =
     map_option (\<lambda>vs. fold (\<lambda>(k, v) d. AList.update k v d) vs []) (those (map (variable_at orig) (find_from (\<lambda>_. True) VARIABLE_HEADER None (mask_hcl orig))))"

definition new_required_variables :: "string option \<Rightarrow> string \<Rightarrow> string list" where
  "new_required_variables base_text head_text = (case parse_variable_blocks head_text of
      None \<Rightarrow> []
    | Some head_vars \<Rightarrow> (case (case base_text of None \<Rightarrow> Some [] | Some b \<Rightarrow> parse_variable_blocks b) of
          None \<Rightarrow> []
        | Some base_vars \<Rightarrow> sort (map fst (filter (\<lambda>(name, has_default). \<not> has_default \<and> name \<notin> fst ` set base_vars) head_vars))))"

section \<open>Modules and their leaves\<close>

definition slashes :: "string \<Rightarrow> string" where
  "slashes z = replace_char (CHR 0x5C) (CHR ''/'') z"

fun module_leaf_for_variables_file :: "string \<Rightarrow> string list \<Rightarrow> string option" where
  "module_leaf_for_variables_file file_path [] = None"
| "module_leaf_for_variables_file file_path (r # roots) =
     (let r' = (if endswith r ''/'' then r else r @ ''/''); normalized = slashes file_path in
      if \<not> startswith normalized r' then module_leaf_for_variables_file file_path roots
      else case split_on (CHR ''/'') (drop (length r') normalized) of
          [leaf, n] \<Rightarrow> if n = ''variables.tf'' \<and> leaf \<noteq> [] then Some (rstrip_char (CHR ''/'') r' @ ''/'' @ leaf) else None
        | _ \<Rightarrow> None)"

definition module_source_pattern :: "string \<Rightarrow> rx" where
  "module_source_pattern module_leaf = Seq (Lit (''//'' @ module_leaf))
     (Peek (\<lambda>s. s = [] \<or> \<not> (token_char (hd s) \<or> hd s = CHR ''/'' \<or> hd s = CHR ''-'')))"

definition source_key :: rx where
  "source_key = Seq (Lit ''source'') (Seq Spaces (Ch (CHR ''='')))"

definition not_in_word :: "char option \<Rightarrow> bool" where
  "not_in_word p = (case p of None \<Rightarrow> True | Some c \<Rightarrow> \<not> word_char c \<and> c \<noteq> CHR ''-'')"

definition leaf_sources_module :: "string \<Rightarrow> string \<Rightarrow> bool" where
  "leaf_sources_module leaf_text module_leaf = list_ex (\<lambda>line. search_from not_in_word source_key None line \<noteq> None \<and>
     re_search (module_source_pattern module_leaf) line \<noteq> None) (splitlines leaf_text)"

definition ENVCOMMON_INCLUDE :: rx where
  "ENVCOMMON_INCLUDE = Seq (Lit ''_envcommon/'') (Grp ''1'' (Seq (Plus True (Cls (\<lambda>c. token_char c \<or> c = CHR ''.'' \<or> c = CHR ''-''))) (Lit ''.hcl'')))"

definition envcommon_includes :: "string \<Rightarrow> string list" where
  "envcommon_includes leaf_text = sort (remdups (map (\<lambda>(a, st). group1 st) (find_from (\<lambda>_. True) ENVCOMMON_INCLUDE None leaf_text)))"

text \<open>\<open>\b\<close> + the variable + \<open>\b\<close>, searched in a text: a boundary lies between a word character and another one, or
  none. An empty name matches at any boundary.\<close>

definition mentions :: "string \<Rightarrow> string \<Rightarrow> bool" where
  "mentions variable s = (if variable = [] then list_ex word_char s
     else search_from (\<lambda>p. (case p of None \<Rightarrow> False | Some c \<Rightarrow> word_char c) \<noteq> word_char (hd variable))
       (Seq (Lit variable) (Peek (\<lambda>r. (r \<noteq> [] \<and> word_char (hd r)) \<noteq> word_char (last variable)))) None s \<noteq> None)"

definition variable_is_wired :: "string \<Rightarrow> string list \<Rightarrow> bool" where
  "variable_is_wired variable surface_texts = list_ex (mentions variable) surface_texts"

section \<open>The evaluation\<close>

record wiring_finding =
  wf_module :: string
  wf_variable :: string
  wf_leaves :: "string list"

definition envcommon_by_name :: "(string, string) dict \<Rightarrow> (string, string) dict" where
  "envcommon_by_name tg = fold (\<lambda>(p, t) d. AList.update (path_name (path_of p)) t d)
     (filter (\<lambda>(p, t). contains ''/_envcommon/'' (slashes p) \<or> startswith (slashes p) ''_envcommon/'') tg) []"

definition surface_of :: "(string, string) dict \<Rightarrow> string \<Rightarrow> string list" where
  "surface_of tg leaf_text = leaf_text # List.map_filter (map_of (envcommon_by_name tg)) (envcommon_includes leaf_text)"

definition consuming_leaves :: "(string, string) dict \<Rightarrow> string \<Rightarrow> string list" where
  "consuming_leaves tg module_leaf = sort (map fst (filter (\<lambda>(p, t). contains ''/live/'' (slashes p) \<and> leaf_sources_module t module_leaf) tg))"

definition unwired_leaves :: "(string, string) dict \<Rightarrow> string \<Rightarrow> string list \<Rightarrow> string list" where
  "unwired_leaves tg variable leaves =
     filter (\<lambda>p. \<not> variable_is_wired variable (surface_of tg (the_default [] (map_of tg p)))) leaves"

definition findings_of_file :: "string list \<Rightarrow> (string, string) dict \<Rightarrow> string \<times> string option \<times> string \<Rightarrow> wiring_finding list" where
  "findings_of_file module_roots tg = (\<lambda>(file_path, base_text, head_text).
     case module_leaf_for_variables_file file_path module_roots of
       None \<Rightarrow> []
     | Some module_leaf \<Rightarrow> List.map_filter (\<lambda>variable.
         let unwired = unwired_leaves tg variable (consuming_leaves tg module_leaf) in
         if unwired = [] then None else Some \<lparr>wf_module = module_leaf, wf_variable = variable, wf_leaves = sort unwired\<rparr>)
         (new_required_variables base_text head_text))"

definition evaluate :: "(string, string option \<times> string) dict \<Rightarrow> string list \<Rightarrow> (string, string) dict \<Rightarrow> wiring_finding list" where
  "evaluate changed module_roots tg =
     sort_key (\<lambda>f. (wf_module f, wf_variable f)) (concat (map (findings_of_file module_roots tg) changed))"

section \<open>Git and files\<close>

definition wiring_git :: "'w runner \<Rightarrow> string list \<Rightarrow> string \<Rightarrow> ('w, completed) ci" where
  "wiring_git runner args repo_root = run runner ([''git'', ''-C'', repo_root] @ args)"

definition wiring_changed_files :: "'w runner \<Rightarrow> string \<Rightarrow> string \<Rightarrow> ('w, string list) ci" where
  "wiring_changed_files runner diff_range repo_root = bindC (wiring_git runner [''diff'', ''--name-only'', diff_range] repo_root) (\<lambda>r.
     if returncode r \<noteq> 0 then raise RuntimeError
     else ret (filter (\<lambda>l. l \<noteq> []) (map strip (splitlines (stdout r)))))"

text \<open>\<open>z.partition(sep)\<close> for a separator that occurs.\<close>

fun cut_at :: "string \<Rightarrow> string \<Rightarrow> string \<times> string" where
  "cut_at sep [] = ([], [])"
| "cut_at sep (c # s) = (if startswith (c # s) sep then ([], drop (length sep) (c # s)) else (let (l, r) = cut_at sep s in (c # l, r)))"

definition or_head :: "string \<Rightarrow> string" where
  "or_head z = (if z = [] then ''HEAD'' else z)"

definition base_ref_for_diff_range :: "'w runner \<Rightarrow> string \<Rightarrow> string \<Rightarrow> ('w, string) ci" where
  "base_ref_for_diff_range runner diff_range repo_root =
     (if contains ''...'' diff_range then (case cut_at ''...'' diff_range of (left, right) \<Rightarrow>
        bindC (wiring_git runner [''merge-base'', or_head left, or_head right] repo_root) (\<lambda>r.
          if returncode r \<noteq> 0 then raise RuntimeError else ret (strip (stdout r))))
      else if contains ''..'' diff_range then ret (or_head (fst (cut_at ''..'' diff_range)))
      else ret diff_range)"

definition file_text_at_ref :: "'w runner \<Rightarrow> string \<Rightarrow> string \<Rightarrow> string \<Rightarrow> ('w, string option) ci" where
  "file_text_at_ref runner p base_ref repo_root =
     bindC (wiring_git runner [''cat-file'', ''-e'', base_ref @ '':'' @ p] repo_root) (\<lambda>exists.
       if returncode exists \<noteq> 0 then ret None
       else bindC (wiring_git runner [''show'', base_ref @ '':'' @ p] repo_root) (\<lambda>r.
         if returncode r \<noteq> 0 then raise RuntimeError else ret (Some (stdout r))))"

definition hcl_files :: "(path, string) dict \<Rightarrow> path \<Rightarrow> path list" where
  "hcl_files fs base = sort_key parts (filter (\<lambda>p. anchored p = anchored base \<and> strict_prefix (parts base) (parts p) \<and> endswith (path_name p) ''.hcl'') (tree_entries fs))"

definition collect_terragrunt_files :: "string \<Rightarrow> string \<Rightarrow> ('w, (string, string) dict) ci" where
  "collect_terragrunt_files repo_root terragrunt_root = bindC get_files (\<lambda>fs.
     let root_path = path_div (path_of repo_root) (rstrip_char (CHR ''/'') terragrunt_root) in
     if \<not> path_exists fs root_path then ret []
     else mapC (\<lambda>p. case relative_to p (path_of repo_root) of
         None \<Rightarrow> raise ValueError
       | Some q \<Rightarrow> bindC (read_text p) (\<lambda>t. ret (path_str q, t))) (hcl_files fs root_path))"

definition changed_variables_file :: "'w runner \<Rightarrow> string list \<Rightarrow> string \<Rightarrow> string \<Rightarrow> string \<Rightarrow> ('w, (string \<times> string option \<times> string) option) ci" where
  "changed_variables_file runner module_roots base_ref repo_root p =
     (if module_leaf_for_variables_file p module_roots = None then ret None
      else bindC get_files (\<lambda>fs. let head_path = path_div (path_of repo_root) p in
        if \<not> is_file fs head_path then ret None
        else bindC (read_text head_path) (\<lambda>head_text.
          bindC (file_text_at_ref runner p base_ref repo_root) (\<lambda>base_text. ret (Some (p, base_text, head_text))))))"

definition build_changed_variables_files ::
  "'w runner \<Rightarrow> string list \<Rightarrow> string list \<Rightarrow> string \<Rightarrow> string \<Rightarrow> ('w, (string, string option \<times> string) dict) ci" where
  "build_changed_variables_files runner changed_files module_roots base_ref repo_root =
     bindC (mapC (changed_variables_file runner module_roots base_ref repo_root) changed_files) (\<lambda>rs.
       ret (fold (\<lambda>(k, v) d. AList.update k v d) (List.map_filter id rs) []))"

definition run_wiring_guard :: "'w runner \<Rightarrow> json \<Rightarrow> string \<Rightarrow> string \<Rightarrow> ('w, wiring_finding list) ci" where
  "run_wiring_guard runner config diff_range repo_root =
     bindC (lift (parse_scope_config config)) (\<lambda>(module_roots, terragrunt_root).
     bindC (wiring_changed_files runner diff_range repo_root) (\<lambda>changed_files.
     bindC (base_ref_for_diff_range runner diff_range repo_root) (\<lambda>base_ref.
     bindC (build_changed_variables_files runner changed_files module_roots base_ref repo_root) (\<lambda>changed.
     bindC (collect_terragrunt_files repo_root terragrunt_root) (\<lambda>tg.
       ret (evaluate changed module_roots tg))))))"

definition wiring_main :: "'w runner \<Rightarrow> string \<Rightarrow> string \<Rightarrow> string \<Rightarrow> ('w, unit) ci" where
  "wiring_main runner config_path diff_range repo_root =
     bindC (load_config config_path) (\<lambda>config.
     bindC (try_except (run_wiring_guard runner config diff_range repo_root) is_runtime_error die) (\<lambda>findings.
       if findings \<noteq> [] then die else raise (SystemExit 0)))"

section \<open>Masking keeps positions\<close>

text \<open>A character is kept or blanked.\<close>

abbreviation masked :: "string \<Rightarrow> string \<Rightarrow> bool" where
  "masked \<equiv> list_all2 (\<lambda>c m. m = c \<or> m = CHR '' '')"

lemma mask_block_masked: "\<exists>u. s = u @ snd (mask_block s) \<and> masked u (fst (mask_block s))"
proof (induction s rule: mask_block.induct)
  case (2 c s)
  show ?case
  proof (cases "c = CHR ''*'' \<and> startswith s ''/''")
    case True
    then show ?thesis by (intro exI [of _ "[c, hd s]"]) (auto simp: prefix_def)
  next
    case False
    then obtain u where "s = u @ snd (mask_block s)" "masked u (fst (mask_block s))" using 2 by blast
    then show ?thesis using False by (intro exI [of _ "c # u"]) (auto split: prod.splits)
  qed
qed simp

lemma mask_string_masked: "\<exists>u. s = u @ snd (mask_string s) \<and> masked u (fst (mask_string s))"
proof (induction s rule: mask_string.induct)
  case (3 c d s)
  consider "c = CHR 0x22" | "c = CHR 0x5C" | "c \<noteq> CHR 0x22" "c \<noteq> CHR 0x5C" by blast
  then show ?case
  proof cases
    case 1
    then show ?thesis by (intro exI [of _ "[c]"]) simp
  next
    case 2
    then obtain u where "s = u @ snd (mask_string s)" "masked u (fst (mask_string s))" using 3(1) by auto
    then show ?thesis using 2 by (intro exI [of _ "c # d # u"]) (auto split: prod.splits)
  next
    case 3
    then obtain u where "d # s = u @ snd (mask_string (d # s))" "masked u (fst (mask_string (d # s)))" using "3.IH"(2) by blast
    then show ?thesis using 3 by (intro exI [of _ "c # u"]) (auto split: prod.splits)
  qed
qed auto

lemma masked_blank_line: "masked (takeWhile not_newline s) (blank_line s)"
  by (induction s) (auto simp: blank_line_def)

lemma mask_hcl_masked: "masked s (mask_hcl s)"
proof (induction s rule: mask_hcl.induct)
  case (2 c s)
  consider (line) "c = CHR ''#'' \<or> c = CHR ''/'' \<and> startswith s ''/''"
    | (block) "\<not> (c = CHR ''#'' \<or> c = CHR ''/'' \<and> startswith s ''/'')" "c = CHR ''/'' \<and> startswith s ''*''"
    | (string) "\<not> (c = CHR ''#'' \<or> c = CHR ''/'' \<and> startswith s ''/'')" "\<not> (c = CHR ''/'' \<and> startswith s ''*'')" "c = CHR 0x22"
    | (code) "\<not> (c = CHR ''#'' \<or> c = CHR ''/'' \<and> startswith s ''/'')" "\<not> (c = CHR ''/'' \<and> startswith s ''*'')" "c \<noteq> CHR 0x22"
    by blast
  then show ?case
  proof cases
    case line
    then have "takeWhile not_newline (c # s) @ dropWhile not_newline s = c # s" by auto
    moreover have "masked (takeWhile not_newline (c # s) @ dropWhile not_newline s) (mask_hcl (c # s))"
      using line 2(1) masked_blank_line [of "c # s"] by (simp add: list_all2_appendI)
    ultimately show ?thesis by simp
  next
    case block
    then obtain r where r: "s = CHR ''*'' # r" by (auto simp: prefix_def)
    obtain u where u: "r = u @ snd (mask_block r)" "masked u (fst (mask_block r))" using mask_block_masked by blast
    have "masked (c # CHR ''*'' # u @ snd (mask_block r)) (mask_hcl (c # s))" using block 2(2) r u(2) by (simp add: list_all2_appendI)
    then show ?thesis using r u(1) by simp
  next
    case string
    obtain u where u: "s = u @ snd (mask_string s)" "masked u (fst (mask_string s))" using mask_string_masked by blast
    have "masked (c # u @ snd (mask_string s)) (mask_hcl (c # s))" using string 2(3) u(2) by (simp add: list_all2_appendI)
    then show ?thesis using u(1) by simp
  next
    case code
    then show ?thesis using 2(4) by auto
  qed
qed simp

text \<open>Masking keeps every character at its position: a character of the masked text is the original one or a
  blank, so positions found in the masked text are positions of the original.\<close>

theorem mask_keeps_positions:
  "length (mask_hcl z) = length z \<and> list_all2 (\<lambda>c m. m = c \<or> m = CHR '' '') z (mask_hcl z)"
  using mask_hcl_masked [of z] by (simp add: list_all2_lengthD [symmetric])

text \<open>Newlines are kept except after a backslash in a string.\<close>

lemma mask_loses_newline: "mask_hcl [CHR 0x22, CHR 0x5C, CHR 0x0A, CHR 0x22] = [CHR 0x22, CHR '' '', CHR '' '', CHR 0x22]"
  by code_simp

section \<open>Mentions\<close>

text \<open>The variable stands in the text as a word of its own.\<close>

definition word_in :: "string \<Rightarrow> string \<Rightarrow> bool" where
  "word_in v s = (\<exists>pre post. s = pre @ v @ post \<and> (pre = [] \<or> \<not> word_char (last pre)) \<and> (post = [] \<or> \<not> word_char (hd post)))"

lemma mentions_word:
  assumes "v \<noteq> []" "list_all word_char v"
  shows "mentions v s \<longleftrightarrow> word_in v s"
proof -
  have w: "word_char (hd v)" "word_char (last v)" using assms by (auto simp: list_all_iff)
  have m: "rmatch (Seq (Lit v) (Peek P)) (q, []) \<noteq> [] \<longleftrightarrow> (\<exists>post. q = v @ post \<and> P post)" for P q
    by (auto simp: rmatch_lit prefix_def split: if_splits)
  show ?thesis unfolding mentions_def search_from_iff m word_in_def using assms(1) w by (auto split: if_splits)
qed

section \<open>What the guard enforces\<close>

lemma in_unwired:
  "p \<in> set (unwired_leaves tg v (consuming_leaves tg m)) \<longleftrightarrow> (\<exists>t. (p, t) \<in> set tg \<and> contains ''/live/'' (slashes p) \<and> leaf_sources_module t m) \<and>
     \<not> variable_is_wired v (surface_of tg (the_default [] (map_of tg p)))"
  unfolding unwired_leaves_def consuming_leaves_def set_filter set_sort set_map by (auto simp: image_iff)

lemma evaluate_in:
  "f \<in> set (evaluate changed roots tg) \<longleftrightarrow> (\<exists>fp base_text head_text. (fp, base_text, head_text) \<in> set changed \<and>
     module_leaf_for_variables_file fp roots = Some (wf_module f) \<and> wf_variable f \<in> set (new_required_variables base_text head_text) \<and>
     wf_leaves f = sort (unwired_leaves tg (wf_variable f) (consuming_leaves tg (wf_module f))) \<and> wf_leaves f \<noteq> [] \<and> more f = ())"
proof -
  have s: "sort xs = [] \<longleftrightarrow> xs = []" for xs :: "string list" by (metis length_0_conv length_sort)
  have "f \<in> set (findings_of_file roots tg (fp, base_text, head_text)) \<longleftrightarrow>
     module_leaf_for_variables_file fp roots = Some (wf_module f) \<and> wf_variable f \<in> set (new_required_variables base_text head_text) \<and>
     wf_leaves f = sort (unwired_leaves tg (wf_variable f) (consuming_leaves tg (wf_module f))) \<and> wf_leaves f \<noteq> [] \<and> more f = ()"
    for fp base_text head_text
    by (cases f) (auto simp: findings_of_file_def in_map_filter Let_def s split: option.splits if_splits)
  then have "(\<exists>x \<in> set changed. f \<in> set (findings_of_file roots tg x)) \<longleftrightarrow> (\<exists>fp base_text head_text. (fp, base_text, head_text) \<in> set changed \<and>
     module_leaf_for_variables_file fp roots = Some (wf_module f) \<and> wf_variable f \<in> set (new_required_variables base_text head_text) \<and>
     wf_leaves f = sort (unwired_leaves tg (wf_variable f) (consuming_leaves tg (wf_module f))) \<and> wf_leaves f \<noteq> [] \<and> more f = ())"
    by (metis prod_cases3)
  then show ?thesis by (simp add: evaluate_def)
qed

lemma new_required_in:
  "v \<in> set (new_required_variables base_text head_text) \<longleftrightarrow> (\<exists>head_vars base_vars. parse_variable_blocks head_text = Some head_vars \<and>
     (case base_text of None \<Rightarrow> base_vars = [] | Some b \<Rightarrow> parse_variable_blocks b = Some base_vars) \<and>
     (v, False) \<in> set head_vars \<and> v \<notin> fst ` set base_vars)"
  by (cases base_text; cases "parse_variable_blocks head_text") (auto simp: new_required_variables_def image_iff split: option.splits, metis)

lemma no_finding_wired:
  assumes e: "evaluate changed roots tg = []" and c: "(fp, base_text, head_text) \<in> set changed"
    and m: "module_leaf_for_variables_file fp roots = Some m" and v: "v \<in> set (new_required_variables base_text head_text)"
    and p: "map_of tg p = Some t" "contains ''/live/'' (slashes p)" "leaf_sources_module t m"
  shows "variable_is_wired v (surface_of tg t)"
proof (rule ccontr)
  assume "\<not> variable_is_wired v (surface_of tg t)"
  then have u: "p \<in> set (unwired_leaves tg v (consuming_leaves tg m))" using p map_of_SomeD [OF p(1)] unfolding in_unwired by auto
  let ?f = "\<lparr>wf_module = m, wf_variable = v, wf_leaves = sort (unwired_leaves tg v (consuming_leaves tg m))\<rparr>"
  have "sort (unwired_leaves tg v (consuming_leaves tg m)) \<noteq> []" using u by (metis empty_iff empty_set set_sort)
  then have "?f \<in> set (evaluate changed roots tg)" unfolding evaluate_in using c m v by auto
  with e show False by simp
qed

lemma wiring_main_evaluates:
  assumes "wiring_main runner cfg rng root' s = (Inl (SystemExit 0), s')"
    and "load_config cfg s = (Inr config, s0)" "parse_scope_config config = Inr (roots, tgr)"
    and "wiring_changed_files runner rng root' s0 = (Inr cf, s1)" "base_ref_for_diff_range runner rng root' s1 = (Inr b, s2)"
    and "build_changed_variables_files runner cf roots b root' s2 = (Inr changed, s3)" "collect_terragrunt_files root' tgr s3 = (Inr tg, s4)"
  shows "evaluate changed roots tg = []"
proof -
  have "run_wiring_guard runner config rng root' s0 = (Inr (evaluate changed roots tg), s4)"
    using assms(3-7) by (simp add: run_wiring_guard_def bindC_def lift_def)
  then show ?thesis using assms(1,2) by (auto simp: wiring_main_def bindC_def try_except_def die_def split: if_splits)
qed


text \<open>Every changed module-level \<open>variables.tf\<close> that is still in the tree is looked at, with its present text.\<close>

lemma fold_update_last: "map_of (fold (\<lambda>(k, v) d. AList.update k v d) xs d) k = map_of (rev xs @ d) k"
  by (induction xs arbitrary: d) (auto simp: update_conv' map_add_def split: option.splits)

lemma git_files: "wiring_git runner args r s = (q, s') \<Longrightarrow> files s' = files s"
  by (auto simp: wiring_git_def run_cmd_def Let_def split: prod.splits)

lemma file_text_at_ref_files: "file_text_at_ref runner p b r s = (q, s') \<Longrightarrow> files s' = files s"
  by (auto simp: file_text_at_ref_def bindC_def split: prod.splits sum.splits if_splits dest!: git_files)

lemma changed_file_entry:
  assumes "changed_variables_file runner roots b r p s = (Inr x, s')"
  shows "files s' = files s \<and> (x \<noteq> None \<longrightarrow> fst (the x) = p) \<and>
    (\<forall>m body. module_leaf_for_variables_file p roots = Some m \<longrightarrow> map_of (files s) (path_div (path_of r) p) = Some body \<longrightarrow> (\<exists>base_text. x = Some (p, base_text, body)))"
  using assms by (auto simp: changed_variables_file_def bindC_def read_text_def is_file_def Let_def
      split: if_splits sum.splits prod.splits option.splits dest: file_text_at_ref_files)

lemma mapC_entries:
  assumes "mapC (changed_variables_file runner roots b r) cf s = (Inr xs, s')"
  shows "list_all2 (\<lambda>p x. (x \<noteq> None \<longrightarrow> fst (the x) = p) \<and>
    (\<forall>m body. module_leaf_for_variables_file p roots = Some m \<longrightarrow> map_of (files s) (path_div (path_of r) p) = Some body \<longrightarrow> (\<exists>base_text. x = Some (p, base_text, body)))) cf xs"
  using assms
proof (induction cf arbitrary: s xs)
  case (Cons p cf)
  then obtain x t ys where x: "changed_variables_file runner roots b r p s = (Inr x, t)"
    "mapC (changed_variables_file runner roots b r) cf t = (Inr ys, s')" "xs = x # ys" by (auto simp: bindC_Inr_iff)
  from changed_file_entry [OF x(1)] Cons.IH [OF x(2)] show ?case unfolding x(3) by simp
qed simp

lemma changed_covers:
  assumes "build_changed_variables_files runner cf roots b r s = (Inr changed, s')" "p \<in> set cf"
    and "module_leaf_for_variables_file p roots = Some m" "map_of (files s) (path_div (path_of r) p) = Some body"
  shows "\<exists>base_text. map_of changed p = Some (base_text, body)"
proof -
  obtain xs where xs: "mapC (changed_variables_file runner roots b r) cf s = (Inr xs, s')"
    and c: "changed = fold (\<lambda>(k, v) d. AList.update k v d) (List.map_filter id xs) []"
    using assms(1) by (auto simp: build_changed_variables_files_def bindC_Inr_iff)
  note l = mapC_entries [OF xs]
  have mem: "\<exists>base_text. x = Some (p, base_text, body)" if x: "x \<in> set xs" "x \<noteq> None" "fst (the x) = p" for x
  proof -
    obtain i where i: "i < length xs" "xs ! i = x" using x(1) unfolding in_set_conv_nth by blast
    have "cf ! i = p" using list_all2_nthD2 [OF l i(1)] i(2) x(2,3) by simp
    then show ?thesis using list_all2_nthD2 [OF l i(1)] i(2) assms(3,4) by auto
  qed
  obtain i where i: "i < length cf" "cf ! i = p" using assms(2) unfolding in_set_conv_nth by blast
  then obtain bt where "xs ! i = Some (p, bt, body)" using list_all2_nthD [OF l i(1)] assms(3,4) by auto
  then have "(p, bt, body) \<in> set (List.map_filter id xs)"
    unfolding in_map_filter using i(1) list_all2_lengthD [OF l] by (metis id_apply nth_mem)
  then have "p \<in> fst ` set (rev (List.map_filter id xs))" by (metis fst_conv image_eqI set_rev)
  then have "map_of (rev (List.map_filter id xs)) p \<noteq> None" unfolding map_of_eq_None_iff by blast
  then obtain y where y: "map_of (rev (List.map_filter id xs)) p = Some y" by blast
  then have "(p, y) \<in> set (List.map_filter id xs)" using map_of_SomeD by fastforce
  then have "Some (p, y) \<in> set xs" unfolding in_map_filter by auto
  then obtain bt' where "y = (bt', body)" using mem [of "Some (p, y)"] by auto
  then show ?thesis using y unfolding c fold_update_last by auto
qed

section \<open>A run\<close>

definition ex_wiring_runner :: "unit runner" where
  "ex_wiring_runner c w = (let a = drop 3 (argv c) in
     (Some (if hd a = ''diff'' then \<lparr>returncode = 0, stdout = ''m/kms/variables.tf'', stderr = []\<rparr>
        else if hd a = ''merge-base'' then \<lparr>returncode = 0, stdout = ''abc'', stderr = []\<rparr>
        else \<lparr>returncode = 1, stdout = [], stderr = []\<rparr>), w))"

definition ex_wiring_state :: "unit ci_state" where
  "ex_wiring_state = \<lparr>world = (), cmds = [], environ = [], files =
     [(path_of ''c.json'', dumps dflt_opts (JObj [(''module_roots'', JList [JStr ''m'']), (''terragrunt_root'', JStr ''tg'')])),
      (path_of ''m/kms/variables.tf'', ''variable '' @ [CHR 0x22] @ ''key'' @ [CHR 0x22] @ '' { type = string }''),
      (path_of ''tg/live/kms/terragrunt.hcl'', ''source = x//m/kms?ref=v1 inputs = { key = 1 }'')], readonly = [], printed = []\<rparr>"


end
