(* ===== verification/Guarding.thy ===== *)
theory Guarding
  imports Guards
begin

text \<open>
  What the guards of \<open>Guards\<close> enforce when they pass: version floors, pinned module sources under the governing
  account file, and pinned actions; with the texts they do not see.
\<close>

section \<open>What an accepted constraint means\<close>

text \<open>Version numbers as terraform compares them: left to right, a missing component counting as less.\<close>

lemma tuple_ge_iff: "tuple_ge xs ys \<longleftrightarrow> ys \<le> xs"
  by (induction xs ys rule: tuple_ge.induct) auto

definition show_version :: "nat list \<Rightarrow> string" where
  "show_version vs = join ''.'' (map show_nat vs)"

lemma those_some: "those (map Some xs) = Some xs"
  by (induction xs) auto

lemma py_int_show_nat [simp]: "py_int (show_nat n) = Some (int n)"
  using py_int_show_int [of "int n"] by (simp add: show_int_def)

lemma show_nat_no_dot: "CHR ''.'' \<notin> set (show_nat n)"
  using show_nat_digits [of n] by (force simp: is_digit_def)

lemma strip_show_version: "vs \<noteq> [] \<Longrightarrow> strip (show_version vs) = show_version vs"
proof -
  assume "vs \<noteq> []"
  have "\<not> is_ws c" if "c \<in> set (show_version vs)" for c
  proof -
    have "c = CHR ''.'' \<or> is_digit c"
      using that unfolding show_version_def by (induction vs rule: induct_list012) (use show_nat_digits in auto)
    then show ?thesis using is_digit_not_ws by (auto simp: is_ws_def)
  qed
  then show ?thesis by (intro strip_by_no) simp
qed

lemma parse_show_version:
  assumes "vs \<noteq> []"
  shows "floor_parse_version (show_version vs) = Some (map int vs)"
proof -
  have "split_on (CHR ''.'') (show_version vs) = map show_nat vs"
    unfolding show_version_def using assms show_nat_no_dot by (intro split_on_join) auto
  then show ?thesis unfolding floor_parse_version_def strip_show_version [OF assms]
    using those_some [of "map int vs"] by (simp add: comp_def)
qed

text \<open>A constraint that meets the floor is \<open>>=\<close> followed by a dotted version not below the floor.\<close>

lemma meets_floor_iff:
  "meets_floor constraint f \<longleftrightarrow> (\<exists>v xs ys. strip constraint = ''>='' @ v \<and> floor_parse_version (strip v) = Some xs \<and>
     floor_parse_version f = Some ys \<and> ys \<le> xs)"
  by (auto simp: meets_floor_def Let_def tuple_ge_iff prefix_def split: option.splits)

text \<open>\<open>key = "value"\<close> at the front of a text, as HCL spaces it.\<close>

definition hcl_assign :: "string \<Rightarrow> string \<Rightarrow> string \<Rightarrow> string \<Rightarrow> bool" where
  "hcl_assign k v s t = (\<exists>w1 w2. list_all is_ws w1 \<and> list_all is_ws w2 \<and> v \<noteq> [] \<and> list_all (\<lambda>c. c \<noteq> CHR 0x22) v \<and>
     s = k @ w1 @ [CHR ''=''] @ w2 @ [CHR 0x22] @ v @ [CHR 0x22] @ t)"

lemma hcl_assignI:
  "list_all is_ws w1 \<Longrightarrow> list_all is_ws w2 \<Longrightarrow> v \<noteq> [] \<Longrightarrow> list_all (\<lambda>c. c \<noteq> CHR 0x22) v \<Longrightarrow>
     hcl_assign k v (k @ w1 @ CHR ''='' # w2 @ CHR 0x22 # v @ CHR 0x22 # t) t"
  unfolding hcl_assign_def by (intro exI [of _ w1] exI [of _ w2]) simp

lemma in_assignment:
  "(t, c') \<in> set (rmatch (assignment k) (s, c)) \<longleftrightarrow> (\<exists>v. hcl_assign k v s t \<and> c' = AList.update ''1'' v c)"
proof
  assume "(t, c') \<in> set (rmatch (assignment k) (s, c))"
  then show "\<exists>v. hcl_assign k v s t \<and> c' = AList.update ''1'' v c"
    unfolding assignment_def then_matches in_Cls
    by - (elim exE conjE, hypsubst, rule exI, rule conjI, rule hcl_assignI; (assumption | rule refl))
next
  assume "\<exists>v. hcl_assign k v s t \<and> c' = AList.update ''1'' v c"
  then obtain w1 w2 v where h: "list_all is_ws w1" "list_all is_ws w2" "v \<noteq> []" "list_all (\<lambda>c. c \<noteq> CHR 0x22) v" "c' = AList.update ''1'' v c"
    "s = k @ w1 @ CHR ''='' # w2 @ CHR 0x22 # v @ CHR 0x22 # t" unfolding hcl_assign_def by auto
  show "(t, c') \<in> set (rmatch (assignment k) (s, c))" unfolding assignment_def then_matches in_Cls h(5,6)
    by (rule exI, rule conjI [OF refl], rule exI [of _ w1], rule exI, rule conjI [OF h(1)], rule conjI [OF refl],
        rule exI, rule exI, rule conjI [OF refl], rule conjI [OF refl], rule exI [of _ w2], rule exI, rule conjI [OF h(2)], rule conjI [OF refl],
        rule exI, rule exI, rule conjI [OF refl], rule conjI [OF refl], rule exI [of _ v], simp add: h)
qed

section \<open>The version-floor guard\<close>

text \<open>\<open>k = "v"\<close> stands somewhere in \<open>s\<close> and is followed by \<open>t\<close>.\<close>

definition declares :: "string \<Rightarrow> string \<Rightarrow> string \<Rightarrow> string \<Rightarrow> bool" where
  "declares k v s t = (\<exists>pre q. s = pre @ q \<and> hcl_assign k v q t)"

lemma group1_update [simp]: "group1 (t, AList.update ''1'' v c) = v"
  by (simp add: group1_def cap_of_def update_conv')

lemma group1_single [simp]: "group1 (t, [(''1'', v)]) = v"
  by (simp add: group1_def cap_of_def)

lemma search_declares: "re_search (assignment k) s = Some st \<Longrightarrow> declares k (group1 st) s (fst st)"
  using re_search_in [of "assignment k" s st] by (cases st) (auto simp: in_assignment declares_def, blast)

lemma find_declares: "(a, st) \<in> set (find_from A (assignment k) p s) \<Longrightarrow> declares k (group1 st) s (fst st)"
  using find_from_in [of a st A "assignment k" p s] by (cases st) (auto simp: in_assignment declares_def, blast)

text \<open>The meaning of a constraint: \<open>>=\<close> and a version not below the floor.\<close>

definition at_least :: "string \<Rightarrow> string \<Rightarrow> bool" where
  "at_least constraint f = (\<exists>v xs ys. strip constraint = ''>='' @ v \<and> floor_parse_version (strip v) = Some xs \<and>
     floor_parse_version f = Some ys \<and> ys \<le> xs)"

text \<open>A text that declares the Terraform floor and, after the source of the provider, a provider version that meets
  its floor.\<close>

definition meets_floors :: "floor_config \<Rightarrow> string \<Rightarrow> bool" where
  "meets_floors cfg s = ((\<exists>v t. declares ''required_version'' v s t \<and> at_least v (tf_floor cfg)) \<and>
     (\<exists>u w x. declares ''source'' (provider_source cfg) s u \<and> declares ''version'' w u x \<and> at_least w (provider_floor cfg)))"

lemma provider_found:
  assumes "find_provider_version_in_content cfg p s = Inr True"
  shows "\<exists>u w x. declares ''source'' (provider_source cfg) s u \<and> declares ''version'' w u x \<and> at_least w (provider_floor cfg)"
proof -
  let ?ms = "filter (\<lambda>(a, st). group1 st = provider_source cfg) (find_from (\<lambda>_. True) PROVIDER_SOURCE_RE None s)"
  obtain a st rest where m: "?ms = (a, st) # rest" using assms by (auto simp: find_provider_version_in_content_def split: list.splits)
  then have "(a, st) \<in> set ?ms" by simp
  then have st: "(a, st) \<in> set (find_from (\<lambda>_. True) PROVIDER_SOURCE_RE None s)" "group1 st = provider_source cfg" by auto
  obtain v where v: "re_search PROVIDER_VERSION_RE (fst st) = Some v" "meets_floor (group1 v) (provider_floor cfg)"
    using assms m by (auto simp: find_provider_version_in_content_def split: option.splits if_splits)
  have "declares ''source'' (provider_source cfg) s (fst st)" using find_declares st unfolding PROVIDER_SOURCE_RE_def by metis
  moreover have "declares ''version'' (group1 v) (fst st) (fst v)" using search_declares v(1) unfolding PROVIDER_VERSION_RE_def by blast
  ultimately show ?thesis using v(2) unfolding meets_floor_iff at_least_def by blast
qed

lemma versions_text_ok:
  assumes "check_versions_text cfg p s = None"
  shows "meets_floors cfg s"
proof -
  obtain st where st: "re_search REQUIRED_VERSION_RE s = Some st" "meets_floor (group1 st) (tf_floor cfg)"
      "find_provider_version_in_content cfg p s = Inr True"
    using assms by (auto simp: check_versions_text_def split: option.splits if_splits sum.splits)
  have "declares ''required_version'' (group1 st) s (fst st)" using search_declares st(1) unfolding REQUIRED_VERSION_RE_def by blast
  then show ?thesis using provider_found [OF st(3)] st(2) unfolding meets_floors_def meets_floor_iff at_least_def by blast
qed

lemma map_filter_Nil: "List.map_filter id xs = [] \<longleftrightarrow> (\<forall>x \<in> set xs. x = None)"
  by (induction xs) (auto simp: List.map_filter_simps split: option.splits)

lemma mapM_elem: "mapM f xs = Inr ys \<Longrightarrow> x \<in> set xs \<Longrightarrow> \<exists>y \<in> set ys. f x = Inr y"
  by (induction xs arbitrary: ys) (auto simp: bindR_Inr_iff)

lemma floor_guard_files:
  assumes g: "run_version_floor_guard fs roots h cfg = Inr []" and r: "r \<in> set roots"
    and p: "p \<in> set (rglob fs r ''versions.tf'')" "\<not> hidden p"
  shows "\<exists>s. file_text fs p = Inr s \<and> meets_floors cfg s"
proof -
  obtain rs where rs: "mapM (\<lambda>r. bindR (collect_versions_files fs r) (\<lambda>ps. mapM (check_versions_file fs cfg) ps)) roots = Inr rs"
    and n: "List.map_filter id (concat rs) = []" using g by (auto simp: run_version_floor_guard_def bindR_Inr_iff)
  from mapM_elem [OF rs r] obtain fnd ps where ps: "collect_versions_files fs r = Inr ps" "mapM (check_versions_file fs cfg) ps = Inr fnd"
    "fnd \<in> set rs" by (auto simp: bindR_Inr_iff)
  have "p \<in> set ps" using ps(1) p by (auto simp: collect_versions_files_def split: if_splits)
  from mapM_elem [OF ps(2) this] obtain f where f: "f \<in> set fnd" "check_versions_file fs cfg p = Inr f" by blast
  have "f = None" using n f(1) ps(3) unfolding map_filter_Nil by auto
  then show ?thesis using f(2) versions_text_ok by (auto simp: check_versions_file_def bindR_Inr_iff)
qed

text \<open>When the version-floor guard passes, every \<open>versions.tf\<close> below a provider root, hidden directories apart,
  declares a Terraform version not below the floor and, after the source of the AWS provider, a provider version
  not below its floor.\<close>

theorem floor_guard_enforces:
  assumes "version_floor_main fs env repo_root = Inr 0" and "resolve_providers_roots fs env repo_root = Inr roots"
    and "r \<in> set roots" "p \<in> set (rglob fs r ''versions.tf'')" "\<not> hidden p"
  shows "\<exists>s. map_of fs p = Some s \<and> meets_floors (resolve_floor_config env) s"
proof -
  have "run_version_floor_guard fs roots (resolve_root_hcl fs env repo_root) (resolve_floor_config env) = Inr []"
    using assms(1,2) by (auto simp: version_floor_main_def split: sum.splits if_splits)
  from floor_guard_files [OF this assms(3,4,5)] show ?thesis by (auto simp: file_text_def split: option.splits)
qed

text \<open>Between two plain versions the guard decides by comparing their numbers from the left; \<open>~>\<close> never passes.\<close>

lemma strip_gte: "vs \<noteq> [] \<Longrightarrow> strip (''>= '' @ show_version vs) = ''>= '' @ show_version vs"
proof (rule strip_by_id, rule disjI2, rule conjI)
  assume "vs \<noteq> []"
  then have v: "show_version vs \<noteq> []" "strip (show_version vs) = show_version vs"
    using strip_show_version [of vs] by (cases vs; cases "tl vs"; simp add: show_version_def)+
  then show "\<not> is_ws (last (''>= '' @ show_version vs))" using strip_by_last [of is_ws "show_version vs"] by simp
qed (simp add: is_ws_def)

lemma floor_exact:
  assumes "vs \<noteq> []" "fs \<noteq> []"
  shows "meets_floor (''>= '' @ show_version vs) (show_version fs) \<longleftrightarrow> map int fs \<le> map int vs"
proof -
  have "strip ('' '' @ show_version vs) = show_version vs"
    using strip_show_version [OF assms(1)] by (simp add: strip_by_def is_ws_def)
  then show ?thesis unfolding meets_floor_def strip_gte [OF assms(1)] Let_def
    by (simp add: parse_show_version assms tuple_ge_iff)
qed

text \<open>The search for the provider version is not bounded by the block of the provider: an AWS provider without a
  version passes when a later provider declares one.\<close>

definition ex_two_providers :: string where
  "ex_two_providers = ''required_version = '' @ [CHR 0x22] @ ''>= 1.15.5'' @ [CHR 0x22] @ '' aws = { source = '' @ [CHR 0x22] @ ''hashicorp/aws'' @ [CHR 0x22] @
     '' } archive = { version = '' @ [CHR 0x22] @ ''>= 7.0.0'' @ [CHR 0x22] @ '' }''"

lemma floor_other_provider:
  "check_versions_text (resolve_floor_config []) (path_of ''versions.tf'') ex_two_providers = None"
  by code_simp

text \<open>A directory name that starts with a dot anywhere in the path of a root, \<open>..\<close> included, hides every file.\<close>

lemma floor_hidden_root:
  assumes "path_exists fs r" "hidden r"
  shows "collect_versions_files fs r = Inr []"
proof -
  have "hidden p" if "p \<in> set (rglob fs r n)" for p n
    using that assms(2) by (auto simp: rglob_def hidden_def list_ex_iff strict_prefix_def prefix_def)
  then show ?thesis using assms(1) by (simp add: collect_versions_files_def filter_empty_conv)
qed

section \<open>The pinned-source guard\<close>

lemma in_segment:
  "(t, c') \<in> set (rmatch (Seq (Star True (Cls (\<lambda>c. c \<noteq> x))) (Ch x)) (s, c)) \<longleftrightarrow> c' = c \<and> (\<exists>u. list_all (\<lambda>c. c \<noteq> x) u \<and> s = u @ x # t)"
  unfolding seq_star in_Cls by auto

text \<open>A loop over segments that end in \<open>x\<close> consumes nothing or any text that ends in \<open>x\<close>.\<close>

lemma iterate_segments:
  "length s \<le> n \<Longrightarrow> (t, c') \<in> set (iterate g n (rmatch (Seq (Star True (Cls (\<lambda>c. c \<noteq> x))) (Ch x))) (s, c)) \<longleftrightarrow>
     c' = c \<and> (\<exists>u. s = u @ t \<and> (u = [] \<or> last u = x))"
proof (induction n arbitrary: s)
  case 0
  then show ?case by auto
next
  case (Suc n)
  let ?m = "rmatch (Seq (Star True (Cls (\<lambda>c. c \<noteq> x))) (Ch x))"
  have "(t, c') \<in> set (iterate g (Suc n) ?m (s, c)) \<longleftrightarrow>
      (t, c') = (s, c) \<or> (\<exists>r d. (r, d) \<in> set (?m (s, c)) \<and> length r < length s \<and> (t, c') \<in> set (iterate g n ?m (r, d)))"
    by (auto simp: Let_def simp del: rmatch.simps)
  also have "\<dots> \<longleftrightarrow> (t, c') = (s, c) \<or> (\<exists>w r. list_all (\<lambda>c. c \<noteq> x) w \<and> s = w @ x # r \<and> c' = c \<and> (\<exists>u. r = u @ t \<and> (u = [] \<or> last u = x)))"
    unfolding in_segment using Suc by (auto simp del: rmatch.simps)
  also have "\<dots> \<longleftrightarrow> c' = c \<and> (\<exists>u. s = u @ t \<and> (u = [] \<or> last u = x))"
  proof
    assume "(t, c') = (s, c) \<or> (\<exists>w r. list_all (\<lambda>c. c \<noteq> x) w \<and> s = w @ x # r \<and> c' = c \<and> (\<exists>u. r = u @ t \<and> (u = [] \<or> last u = x)))"
    then show "c' = c \<and> (\<exists>u. s = u @ t \<and> (u = [] \<or> last u = x))"
    proof (elim disjE exE conjE)
      fix w r u
      assume "s = w @ x # r" "c' = c" "r = u @ t" "u = []"
      then show ?thesis by (intro conjI exI [of _ "w @ [x]"]) simp_all
    next
      fix w r u
      assume "s = w @ x # r" "c' = c" "r = u @ t" "last u = x"
      then show ?thesis by (intro conjI exI [of _ "w @ x # u"]) simp_all
    qed simp
  next
    assume a: "c' = c \<and> (\<exists>u. s = u @ t \<and> (u = [] \<or> last u = x))"
    then obtain u where u: "s = u @ t" "u = [] \<or> last u = x" by blast
    show "(t, c') = (s, c) \<or> (\<exists>w r. list_all (\<lambda>c. c \<noteq> x) w \<and> s = w @ x # r \<and> c' = c \<and> (\<exists>u. r = u @ t \<and> (u = [] \<or> last u = x)))"
    proof (cases "u = []")
      case False
      then have "x \<in> set u" using u(2) by (metis last_in_set)
      then obtain w v where w: "u = w @ x # v" "x \<notin> set w" by (metis split_list_first)
      have "v = [] \<or> last v = x" using u(2) False w(1) by (cases v) auto
      then show ?thesis using u(1) w a by (intro disjI2 exI [of _ w] exI [of _ "v @ t"]) (auto simp: list_all_iff)
    qed (use u a in simp)
  qed
  finally show ?case .
qed

lemma seq_segments:
  "st \<in> set (rmatch (Seq (Star True (Seq (Star True (Cls (\<lambda>c. c \<noteq> x))) (Ch x))) b) (s, c)) \<longleftrightarrow>
     (\<exists>u t. (u = [] \<or> last u = x) \<and> s = u @ t \<and> st \<in> set (rmatch b (t, c)))"
  using iterate_segments [of s "length s" _ _ True x c] by (simp add: in_Seq del: rmatch.simps(2)) blast

text \<open>A source pinned to a semantic-version tag, and not to the checkout itself.\<close>

definition version_ref :: "string \<Rightarrow> bool" where
  "version_ref z = (\<exists>dirs a b c rest. z = dirs @ [CHR ''v''] @ a @ [CHR ''.''] @ b @ [CHR ''.''] @ c @ rest \<and> (dirs = [] \<or> last dirs = CHR ''/'') \<and>
     a \<noteq> [] \<and> list_all is_digit a \<and> b \<noteq> [] \<and> list_all is_digit b \<and> c \<noteq> [] \<and> list_all is_digit c)"

definition pinned_source :: "string \<Rightarrow> bool" where
  "pinned_source z = (\<not> contains LOCAL_REPO_ROOT z \<and> (\<exists>pre r. z = pre @ ''?ref='' @ r \<and> version_ref r))"

lemma seq_Ch: "st \<in> set (rmatch (Seq (Ch k) b) (s, c)) \<longleftrightarrow> (\<exists>t. s = k # t \<and> st \<in> set (rmatch b (t, c)))"
  unfolding seq_Cls by blast

lemma version_refI:
  "dirs = [] \<or> last dirs = CHR ''/'' \<Longrightarrow> a \<noteq> [] \<Longrightarrow> list_all is_digit a \<Longrightarrow> b \<noteq> [] \<Longrightarrow> list_all is_digit b \<Longrightarrow> c \<noteq> [] \<Longrightarrow>
     list_all is_digit c \<Longrightarrow> version_ref (dirs @ CHR ''v'' # a @ CHR ''.'' # b @ CHR ''.'' # c @ rest)"
  unfolding version_ref_def by (intro exI [of _ dirs] exI [of _ a] exI [of _ b] exI [of _ c] exI [of _ rest]) simp

lemma in_VALID_REF: "(\<exists>st. st \<in> set (rmatch VALID_REF_RE (s, []))) \<longleftrightarrow> (\<exists>r. s = ''?ref='' @ r \<and> version_ref r)"
proof
  assume "\<exists>st. st \<in> set (rmatch VALID_REF_RE (s, []))"
  then obtain t c' where "(t, c') \<in> set (rmatch VALID_REF_RE (s, []))" by fastforce
  then show "\<exists>r. s = ''?ref='' @ r \<and> version_ref r"
    unfolding VALID_REF_RE_def seq_Lit seq_segments seq_plus seq_Ch in_plus_class
    by - (elim exE conjE, hypsubst, rule exI, rule conjI [OF refl], rule version_refI; assumption)
next
  assume "\<exists>r. s = ''?ref='' @ r \<and> version_ref r"
  then obtain u a b c t where h: "s = ''?ref='' @ u @ [CHR ''v''] @ a @ [CHR ''.''] @ b @ [CHR ''.''] @ c @ t" "u = [] \<or> last u = CHR ''/''"
    "a \<noteq> []" "list_all is_digit a" "b \<noteq> []" "list_all is_digit b" "c \<noteq> []" "list_all is_digit c" unfolding version_ref_def by blast
  have s: "s = ''?ref='' @ u @ CHR ''v'' # a @ CHR ''.'' # b @ CHR ''.'' # c @ t" using h(1) by simp
  have "(t, []) \<in> set (rmatch VALID_REF_RE (s, []))"
    unfolding VALID_REF_RE_def seq_Lit seq_segments seq_plus seq_Ch in_plus_class s
    by (rule exI, rule conjI [OF refl], rule exI [of _ u], rule exI, rule conjI [OF h(2)], rule conjI [OF refl],
        rule exI, rule conjI [OF refl], rule exI [of _ a], rule exI, rule conjI [OF h(3)], rule conjI [OF h(4)], rule conjI [OF refl],
        rule exI, rule conjI [OF refl], rule exI [of _ b], rule exI, rule conjI [OF h(5)], rule conjI [OF h(6)], rule conjI [OF refl],
        rule exI, rule conjI [OF refl], rule conjI [OF refl], rule exI [of _ c], simp add: h)
  then show "\<exists>st. st \<in> set (rmatch VALID_REF_RE (s, []))" by blast
qed

lemma valid_ref_search: "re_search VALID_REF_RE z \<noteq> None \<longleftrightarrow> (\<exists>pre r. z = pre @ ''?ref='' @ r \<and> version_ref r)"
  unfolding re_search_iff using in_VALID_REF by metis

lemma local_search: "re_search LOCAL_REPO_ROOT_RE z \<noteq> None \<longleftrightarrow> contains LOCAL_REPO_ROOT z"
  unfolding re_search_iff LOCAL_REPO_ROOT_RE_def contains_iff by (auto simp: rmatch_lit prefix_def split: if_splits)

lemma check_source_pinned: "check_source_string z True \<longleftrightarrow> pinned_source z"
proof -
  have "contains ''?ref='' z" if "z = pre @ ''?ref='' @ r" for pre r using that unfolding contains_iff by blast
  then show ?thesis unfolding check_source_string_def local_search valid_ref_search pinned_source_def by auto
qed

lemma check_source_local: "check_source_string z False \<longleftrightarrow> contains LOCAL_REPO_ROOT z \<or> pinned_source z"
proof -
  have "contains ''?ref='' z" if "z = pre @ ''?ref='' @ r" for pre r using that unfolding contains_iff by blast
  then show ?thesis unfolding check_source_string_def local_search valid_ref_search pinned_source_def by auto
qed

lemma run_source_guard_leaf:
  assumes g: "run_source_guard fs cwd r = Inr []" and p: "p \<in> set (leaf_files fs r)" "file_text fs p = Inr content" "v \<in> set (sources_of content)"
  shows "\<exists>b. resolve_toggle_from_account_hcl fs cwd p r = Inr b \<and> check_source_string (effective_source v b) b"
proof -
  obtain leaves rs where l: "collect_leaf_sources fs r = Inr leaves" "mapM (check_leaf fs cwd r) leaves = Inr rs" "List.map_filter id rs = []"
    using g by (auto simp: run_source_guard_def bindR_Inr_iff)
  obtain ls where ls: "mapM (\<lambda>p. bindR (file_text fs p) (\<lambda>content. Inr (map (Pair p) (sources_of content)))) (leaf_files fs r) = Inr ls" "leaves = concat ls"
    using l(1) by (auto simp: collect_leaf_sources_def bindR_Inr_iff)
  from mapM_elem [OF ls(1) p(1)] have "map (Pair p) (sources_of content) \<in> set ls" using p(2) by auto
  moreover have "(p, v) \<in> set (map (Pair p) (sources_of content))" using p(3) by simp
  ultimately have "(p, v) \<in> set leaves" unfolding ls(2) set_concat by blast
  from mapM_elem [OF l(2) this] obtain f where "f \<in> set rs" "check_leaf fs cwd r (p, v) = Inr f" by blast
  then show ?thesis using l(3) unfolding map_filter_Nil by (auto simp: check_leaf_def bindR_Inr_iff split: if_splits)
qed

text \<open>When the pinned-source guard passes, every leaf unit outside \<open>_envcommon\<close> and \<open>bootstrap\<close> has a governing
  toggle. Where it is on, every source the unit declares (the true branch of a conditional one) is pinned to a
  semantic-version tag and none is the checkout itself; where it is off, a source is the checkout or pinned.\<close>

theorem pinned_guard_enforces:
  assumes "pinned_sources_main fs env cwd repo_root = Inr 0" and "default_terragrunt_root fs env repo_root = Some r"
    and "p \<in> set (leaf_files fs r)" "map_of fs p = Some content" "v \<in> set (sources_of content)"
  shows "\<exists>toggle. resolve_toggle_from_account_hcl fs cwd p r = Inr toggle \<and>
     (if toggle then pinned_source (effective_source v True)
      else contains LOCAL_REPO_ROOT (effective_source v False) \<or> pinned_source (effective_source v False))"
proof -
  have "run_source_guard fs cwd r = Inr []" using assms(1,2) by (auto simp: pinned_sources_main_def split: sum.splits if_splits)
  from run_source_guard_leaf [OF this assms(3) _ assms(5)] assms(4)
  obtain b where "resolve_toggle_from_account_hcl fs cwd p r = Inr b" "check_source_string (effective_source v b) b"
    by (auto simp: file_text_def)
  then show ?thesis using check_source_pinned check_source_local by (cases b) auto
qed

section \<open>The governing account file\<close>

lemma resolve_parts_append: "resolve_parts acc (xs @ ys) = resolve_parts (rev (resolve_parts acc xs)) ys"
  by (induction xs arbitrary: acc) auto

lemma resolve_parts_plain: "''..'' \<notin> set xs \<Longrightarrow> resolve_parts acc xs = rev acc @ xs"
  by (induction xs arbitrary: acc) auto

lemma resolve_relative:
  assumes "anchored p = anchored q" "''..'' \<notin> set (parts p)" "''..'' \<notin> set (parts q)"
  shows "relative_to (path_resolve cwd p) (path_resolve cwd q) = None \<longleftrightarrow> \<not> ancestor q p"
proof (cases "anchored p")
  case True
  then show ?thesis using assms
    by (simp add: path_resolve_def path_join_def resolve_parts_plain relative_to_def ancestor_def)
next
  case False
  let ?b = "resolve_parts [] (parts cwd)"
  have "parts (path_resolve cwd p) = ?b @ parts p" "parts (path_resolve cwd q) = ?b @ parts q"
    using assms False by (simp_all add: path_resolve_def path_join_def resolve_parts_append resolve_parts_plain)
  then show ?thesis using assms by (simp add: relative_to_def ancestor_def path_resolve_def)
qed

lemma account_walk_find_up:
  assumes "ancestor live_root c" "''..'' \<notin> set (parts c)" "parts live_root \<noteq> []"
  shows "account_walk fs cwd live_root c = Some (map_option (\<lambda>d. path_div d ''account.hcl'') (find_up fs live_root ''account.hcl'' c))"
  using assms
proof (induction fs live_root "''account.hcl''" c rule: find_up.induct)
  case (1 fs live_root c)
  have dots: "''..'' \<notin> set (parts live_root)" "anchored c = anchored live_root"
    using "1.prems"(1,2) by (auto simp: ancestor_def prefix_def)
  obtain x where inside: "relative_to (path_resolve cwd c) (path_resolve cwd live_root) = Some x"
    using resolve_relative [OF dots(2) "1.prems"(2) dots(1)] "1.prems"(1) by auto
  show ?case
  proof (cases "path_exists fs (path_div c ''account.hcl'')")
    case True
    then show ?thesis using inside by (simp add: account_walk.simps [of fs cwd live_root c] find_up.simps [of fs live_root _ c])
  next
    case False
    have step: "account_walk fs cwd live_root c = account_walk fs cwd live_root (path_parent c)"
      using False inside by (subst account_walk.simps) simp
    show ?thesis
    proof (cases "c = live_root")
      case True
      have "\<not> ancestor live_root (path_parent live_root)"
        using "1.prems"(3) by (cases "parts live_root" rule: rev_cases) (auto simp: ancestor_def path_parent_def dest!: prefix_length_le)
      then have "relative_to (path_resolve cwd (path_parent live_root)) (path_resolve cwd live_root) = None"
        using resolve_relative [of "path_parent live_root" live_root cwd] dots(1) by (auto simp: path_parent_def dest: in_set_butlastD)
      then have "account_walk fs cwd live_root (path_parent c) = Some None"
        using True by (subst account_walk.simps) simp
      then show ?thesis using step False True by (simp add: find_up.simps [of fs live_root _ live_root])
    next
      case ne: False
      have par: "ancestor live_root (path_parent c)" using ancestor_parent [OF "1.prems"(1)] ne by blast
      have "parts c \<noteq> []" using ne "1.prems"(1) by (cases c; cases live_root) (auto simp: ancestor_def)
      then have np: "path_parent c \<noteq> c" by (cases c; cases "parts c" rule: rev_cases) (auto simp: path_parent_def)
      have "account_walk fs cwd live_root (path_parent c) =
          Some (map_option (\<lambda>d. path_div d ''account.hcl'') (find_up fs live_root ''account.hcl'' (path_parent c)))"
        using "1.hyps" [OF False] ne np par "1.prems"(2,3) by (auto simp: path_parent_def dest: in_set_butlastD)
      then show ?thesis using step False ne np by (simp add: find_up.simps [of fs live_root _ c])
    qed
  qed
qed

text \<open>C28. The walk from a unit towards the live root returns, and finds the \<open>account.hcl\<close> of the nearest directory that
  has one between the unit and the live root, unless the live root is the top of the file system or the working
  directory given as \<open>.\<close>.\<close>

theorem account_walk_nearest:
  assumes "ancestor live_root c" "''..'' \<notin> set (parts c)" "parts live_root \<noteq> []"
  shows "\<exists>r. account_walk fs cwd live_root c = Some r \<and>
     (r = Some q \<longleftrightarrow> (\<exists>d. q = path_div d ''account.hcl'' \<and> ancestor live_root d \<and> ancestor d c \<and> path_exists fs q \<and>
        (\<forall>e. ancestor e c \<and> ancestor d e \<and> path_exists fs (path_div e ''account.hcl'') \<longrightarrow> e = d)))"
proof -
  have w: "account_walk fs cwd live_root c = Some (map_option (\<lambda>d. path_div d ''account.hcl'') (find_up fs live_root ''account.hcl'' c))"
    using account_walk_find_up [OF assms] .
  have "map_option (\<lambda>d. path_div d ''account.hcl'') (find_up fs live_root ''account.hcl'' c) = Some q \<longleftrightarrow>
      (\<exists>d. q = path_div d ''account.hcl'' \<and> find_up fs live_root ''account.hcl'' c = Some d)" by auto
  then have i: "map_option (\<lambda>d. path_div d ''account.hcl'') (find_up fs live_root ''account.hcl'' c) = Some q \<longleftrightarrow>
      (\<exists>d. q = path_div d ''account.hcl'' \<and> ancestor live_root d \<and> ancestor d c \<and> path_exists fs q \<and>
        (\<forall>e. ancestor e c \<and> ancestor d e \<and> path_exists fs (path_div e ''account.hcl'') \<longrightarrow> e = d))"
    unfolding up.walk_Some_iff [OF assms(1)] by (simp cong: conj_cong)
  show ?thesis by (rule exI, rule conjI, rule w, rule i)
qed

text \<open>There the loop has no exit: without an \<open>account.hcl\<close> at the top it never returns.\<close>

lemma account_walk_loops:
  assumes "parts live_root = []" "\<not> path_exists fs (path_div live_root ''account.hcl'')"
  shows "account_walk fs cwd live_root live_root = None"
proof (cases "account_walk fs cwd live_root live_root")
  case (Some y)
  have "live_root = live_root \<longrightarrow> path_exists fs (path_div live_root ''account.hcl'') \<or> parts live_root \<noteq> []"
  proof (rule account_walk.raw_induct [OF _ Some, where P = "\<lambda>fs cwd r c y. c = r \<longrightarrow> path_exists fs (path_div r ''account.hcl'') \<or> parts r \<noteq> []"], rule impI)
    fix w :: "(path, string) dict \<Rightarrow> path \<Rightarrow> path \<Rightarrow> path \<Rightarrow> path option option" and fs cwd r c y
    assume IH: "\<And>fs cwd r c y. w fs cwd r c = Some y \<Longrightarrow> c = r \<longrightarrow> path_exists fs (path_div r ''account.hcl'') \<or> parts r \<noteq> []"
      and b: "(if relative_to (path_resolve cwd c) (path_resolve cwd r) = None then Some None
        else if path_exists fs (path_div c ''account.hcl'') then Some (Some (path_div c ''account.hcl''))
        else w fs cwd r (path_parent c)) = Some y" and c: "c = r"
    have "relative_to (path_resolve cwd r) (path_resolve cwd r) \<noteq> None" by (simp add: relative_to_def)
    moreover have "path_parent r = r" if "parts r = []" using that by (cases r) (simp add: path_parent_def)
    ultimately show "path_exists fs (path_div r ''account.hcl'') \<or> parts r \<noteq> []" using IH [of fs cwd r r y] b c by (auto split: if_splits)
  qed
  with assms show ?thesis by simp
qed simp

section \<open>The action guard\<close>

text \<open>The lines of a workflow that name an action: indentation, an optional dash, \<open>uses:\<close>, a reference without blanks
  and \<open>#\<close>, and optionally a comment.\<close>

definition uses_line :: "string \<Rightarrow> string \<Rightarrow> string \<Rightarrow> bool" where
  "uses_line line ref' rest = (\<exists>w1 d w2 w3. list_all is_ws w1 \<and> (d = [] \<or> d = ''-'') \<and> list_all is_ws w2 \<and> list_all is_ws w3 \<and>
     ref' \<noteq> [] \<and> list_all (\<lambda>c. \<not> is_ws c \<and> c \<noteq> CHR ''#'') ref' \<and> line = w1 @ d @ w2 @ ''uses:'' @ w3 @ ref' @ rest)"

text \<open>A reference that may stand in a workflow: an action of the repository, or one pinned to a commit with a comment.\<close>

definition pinned_action :: "string \<Rightarrow> string \<Rightarrow> bool" where
  "pinned_action ref' rest = (startswith ref' ''./'' \<or>
     (\<exists>name sha w1 comment. ref' = name @ ''@'' @ sha \<and> CHR ''@'' \<notin> set name \<and> length sha = 40 \<and> list_all sha_hex_digit sha \<and>
        list_all is_ws w1 \<and> rest = w1 @ ''#'' @ comment \<and> list_ex (\<lambda>c. \<not> is_ws c) comment))"

lemma in_hex40: "(t, c') \<in> set (rmatch (foldr (\<lambda>_. Seq (Cls P)) xs b) (s, c)) \<longleftrightarrow>
    (\<exists>u r. length u = length xs \<and> list_all P u \<and> s = u @ r \<and> (t, c') \<in> set (rmatch b (r, c)))"
proof (induction xs arbitrary: s)
  case Nil
  then show ?case by simp
next
  case (Cons x xs)
  show ?case unfolding foldr.simps comp_def seq_Cls Cons.IH
  proof
    assume "\<exists>x t'. P x \<and> s = x # t' \<and> (\<exists>u r. length u = length xs \<and> list_all P u \<and> t' = u @ r \<and> (t, c') \<in> set (rmatch b (r, c)))"
    then obtain y u r where "P y" "s = y # u @ r" "length u = length xs" "list_all P u" "(t, c') \<in> set (rmatch b (r, c))" by blast
    then show "\<exists>u r. length u = length (x # xs) \<and> list_all P u \<and> s = u @ r \<and> (t, c') \<in> set (rmatch b (r, c))"
      by (intro exI [of _ "y # u"] exI [of _ r]) simp
  next
    assume "\<exists>u r. length u = length (x # xs) \<and> list_all P u \<and> s = u @ r \<and> (t, c') \<in> set (rmatch b (r, c))"
    then show "\<exists>x t'. P x \<and> s = x # t' \<and> (\<exists>u r. length u = length xs \<and> list_all P u \<and> t' = u @ r \<and> (t, c') \<in> set (rmatch b (r, c)))"
      by (auto simp: length_Suc_conv) blast
  qed
qed

lemma sha40_iff: "CHR 0x0A \<notin> set z \<Longrightarrow> sha40 z \<longleftrightarrow> length z = 40 \<and> list_all sha_hex_digit z"
proof -
  assume z: "CHR 0x0A \<notin> set z"
  have "sha40 z \<longleftrightarrow> (\<exists>t c'. (t, c') \<in> set (rmatch (Seq (foldr (\<lambda>_. Seq (Cls sha_hex_digit)) [0..<40] Eps) EndD) (z, [])))"
    unfolding sha40_def re_match_None by (metis list.set_sel(1) list.set(1) empty_iff prod.collapse)
  also have "\<dots> \<longleftrightarrow> (\<exists>u r. length u = 40 \<and> list_all sha_hex_digit u \<and> z = u @ r \<and> (r = [] \<or> r = [CHR 0x0A]))"
    unfolding in_Seq [of _ "foldr _ _ _"] in_hex40 in_asserts in_Eps by auto
  also have "\<dots> \<longleftrightarrow> length z = 40 \<and> list_all sha_hex_digit z" using z by auto
  finally show ?thesis .
qed

abbreviation ref_char :: "char \<Rightarrow> bool" where "ref_char \<equiv> \<lambda>c. \<not> is_ws c \<and> c \<noteq> CHR ''#''"

text \<open>The reference of such a line is determined by the line.\<close>

definition parse_uses :: "string \<Rightarrow> string \<times> string" where
  "parse_uses line = (let a = dropWhile is_ws line; b = (case a of [] \<Rightarrow> [] | c # t \<Rightarrow> if c = CHR ''-'' then t else c # t);
     f = dropWhile is_ws (drop 5 (dropWhile is_ws b)) in (takeWhile ref_char f, dropWhile ref_char f))"

lemma dropWhile_all: "list_all P u \<Longrightarrow> dropWhile P (u @ t) = dropWhile P t"
  by (induction u) auto

lemma takeWhile_all: "list_all P u \<Longrightarrow> r = [] \<or> \<not> P (hd r) \<Longrightarrow> takeWhile P (u @ r) = u \<and> dropWhile P (u @ r) = r"
  by (induction u) (cases r, auto)+

lemma parse_uses_line:
  assumes "uses_line line ref' rest" "rest = [] \<or> \<not> ref_char (hd rest)"
  shows "parse_uses line = (ref', rest)"
proof -
  obtain w1 d w2 w3 where l: "line = w1 @ d @ w2 @ ''uses:'' @ w3 @ ref' @ rest" and w: "list_all is_ws w1" "list_all is_ws w2" "list_all is_ws w3"
    and d: "d = [] \<or> d = ''-''" and r: "ref' \<noteq> []" "list_all ref_char ref'" using assms(1) by (auto simp: uses_line_def)
  let ?u = "''uses:'' @ w3 @ ref' @ rest"
  have ns: "\<not> is_ws (CHR ''u'')" "\<not> is_ws (CHR ''-'')" by (simp_all add: is_ws_def)
  have u: "dropWhile is_ws (w2 @ ?u) = ?u" using w(2) ns by (simp add: dropWhile_all)
  have b: "(case dropWhile is_ws line of [] \<Rightarrow> [] | c # t \<Rightarrow> if c = CHR ''-'' then t else c # t) \<in> {?u, w2 @ ?u}"
    using d w(1) u ns unfolding l by (auto simp: dropWhile_all)
  have "dropWhile is_ws (case dropWhile is_ws line of [] \<Rightarrow> [] | c # t \<Rightarrow> if c = CHR ''-'' then t else c # t) = ?u"
    using b u ns by auto
  moreover have "dropWhile is_ws (w3 @ ref' @ rest) = ref' @ rest"
    using w(3) r by (cases ref') (simp_all add: dropWhile_all)
  ultimately have "parse_uses line = (takeWhile ref_char (ref' @ rest), dropWhile ref_char (ref' @ rest))"
    unfolding parse_uses_def Let_def by simp
  then show ?thesis using takeWhile_all [OF r(2) assms(2)] by simp
qed

text \<open>What the pattern captures: the reference, and of a comment at least all of its visible characters.\<close>

abbreviation comment_rx :: rx where
  "comment_rx \<equiv> Alt (Seq Spaces (Seq (Ch (CHR ''#'')) (Seq Spaces (Grp ''comment'' (Plus True (Cls dot)))))) Eps"

lemma seq_Opt_Ch: "st \<in> set (rmatch (Seq (Opt (Ch k)) b) (s, c)) \<longleftrightarrow> (\<exists>d t. (d = [] \<or> d = [k]) \<and> s = d @ t \<and> st \<in> set (rmatch b (t, c)))"
proof
  assume "st \<in> set (rmatch (Seq (Opt (Ch k)) b) (s, c))"
  then show "\<exists>d t. (d = [] \<or> d = [k]) \<and> s = d @ t \<and> st \<in> set (rmatch b (t, c))"
    unfolding in_Seq [of st] in_Alt in_Cls in_Eps by auto
next
  assume "\<exists>d t. (d = [] \<or> d = [k]) \<and> s = d @ t \<and> st \<in> set (rmatch b (t, c))"
  then obtain d t where "d = [] \<or> d = [k]" "s = d @ t" "st \<in> set (rmatch b (t, c))" by blast
  then show "st \<in> set (rmatch (Seq (Opt (Ch k)) b) (s, c))"
    unfolding in_Seq [of st] in_Alt in_Cls in_Eps by (intro exI [of _ t] exI [of _ c]) auto
qed

lemma uses_lineI:
  "list_all is_ws w1 \<Longrightarrow> d = [] \<or> d = ''-'' \<Longrightarrow> list_all is_ws w2 \<Longrightarrow> list_all is_ws w3 \<Longrightarrow> ref' \<noteq> [] \<Longrightarrow> list_all ref_char ref' \<Longrightarrow>
     uses_line (w1 @ d @ w2 @ ''uses:'' @ w3 @ ref' @ rest) ref' rest"
  unfolding uses_line_def by blast

lemma in_USES:
  "(t, cs) \<in> set (rmatch USES_PATTERN (line, [])) \<longleftrightarrow> (\<exists>ref' rest. uses_line line ref' rest \<and>
     (t, cs) \<in> set (rmatch (Seq comment_rx (Seq Spaces EndD)) (rest, [(''ref'', ref')])))"
proof
  assume "(t, cs) \<in> set (rmatch USES_PATTERN (line, []))"
  then show "\<exists>ref' rest. uses_line line ref' rest \<and> (t, cs) \<in> set (rmatch (Seq comment_rx (Seq Spaces EndD)) (rest, [(''ref'', ref')]))"
    unfolding USES_PATTERN_def seq_star seq_Lit seq_Grp_plus seq_Opt_Ch update.simps
    by - (elim exE conjE, hypsubst, rule exI, rule exI, rule conjI, rule uses_lineI; assumption)
next
  assume "\<exists>ref' rest. uses_line line ref' rest \<and> (t, cs) \<in> set (rmatch (Seq comment_rx (Seq Spaces EndD)) (rest, [(''ref'', ref')]))"
  then obtain ref' rest w1 d w2 w3 where h: "list_all is_ws w1" "d = [] \<or> d = ''-''" "list_all is_ws w2" "list_all is_ws w3" "ref' \<noteq> []" "list_all ref_char ref'"
    "line = w1 @ d @ w2 @ ''uses:'' @ w3 @ ref' @ rest" "(t, cs) \<in> set (rmatch (Seq comment_rx (Seq Spaces EndD)) (rest, [(''ref'', ref')]))"
    unfolding uses_line_def by blast
  show "(t, cs) \<in> set (rmatch USES_PATTERN (line, []))"
    unfolding USES_PATTERN_def seq_star seq_Lit seq_Grp_plus seq_Opt_Ch update.simps h(7)
    by (rule exI [of _ w1], rule exI, rule conjI [OF h(1)], rule conjI [OF refl], rule exI [of _ d], rule exI, rule conjI [OF h(2)], rule conjI [OF refl],
        rule exI [of _ w2], rule exI, rule conjI [OF h(3)], rule conjI [OF refl], rule exI, rule conjI [OF refl], rule exI [of _ w3], rule exI, rule conjI [OF h(4)],
        rule conjI [OF refl], rule exI [of _ ref'], rule exI, rule conjI [OF h(5)], rule conjI [OF h(6)], rule conjI [OF refl], rule h(8))
qed

text \<open>What may follow the reference: nothing visible, or a comment.\<close>

lemma in_comment_rx:
  "(t, cs) \<in> set (rmatch comment_rx (rest, c)) \<longleftrightarrow> (t, cs) = (rest, c) \<or>
     (\<exists>w w' com. list_all is_ws w \<and> list_all is_ws w' \<and> com \<noteq> [] \<and> list_all dot com \<and>
        rest = w @ CHR ''#'' # w' @ com @ t \<and> cs = AList.update ''comment'' com c)"
proof -
  have "(t, cs) \<in> set (rmatch (Seq Spaces (Seq (Ch (CHR ''#'')) (Seq Spaces (Grp ''comment'' (Plus True (Cls dot)))))) (rest, c)) \<longleftrightarrow>
     (\<exists>w w' com. list_all is_ws w \<and> list_all is_ws w' \<and> com \<noteq> [] \<and> list_all dot com \<and>
        rest = w @ CHR ''#'' # w' @ com @ t \<and> cs = AList.update ''comment'' com c)" (is "?l \<longleftrightarrow> ?r")
  proof
    assume ?l
    then obtain w t1 t2 w' t3 com where "list_all is_ws w" "rest = w @ t1" "t1 = CHR ''#'' # t2" "list_all is_ws w'" "t2 = w' @ t3"
      "com \<noteq> []" "list_all dot com" "t3 = com @ t" "cs = AList.update ''comment'' com c"
      unfolding seq_star seq_Ch in_Grp in_plus_class by auto
    then show ?r by auto
  next
    assume ?r
    then obtain w w' com where h: "list_all is_ws w" "list_all is_ws w'" "com \<noteq> []" "list_all dot com"
      "rest = w @ CHR ''#'' # w' @ com @ t" "cs = AList.update ''comment'' com c" by blast
    show ?l unfolding seq_star seq_Ch in_Grp in_plus_class h(5,6)
      by (rule exI [of _ w], rule exI, rule conjI [OF h(1)], rule conjI [OF refl], rule exI, rule conjI [OF refl], rule exI [of _ w'], rule exI,
          rule conjI [OF h(2)], rule conjI [OF refl], rule exI [of _ com], rule exI [of _ c], simp add: h)
  qed
  then show ?thesis unfolding in_Alt in_Eps by blast
qed

lemma in_comment:
  "(t, cs) \<in> set (rmatch (Seq comment_rx (Seq Spaces EndD)) (rest, c)) \<longleftrightarrow> (t = [] \<or> t = [CHR 0x0A]) \<and>
     (\<exists>u. list_all is_ws u \<and> (u @ t, cs) \<in> set (rmatch comment_rx (rest, c)))"
  unfolding in_Seq [of _ comment_rx] seq_star in_asserts by blast

lemma uses_rest_matches:
  assumes "list_all is_ws rest \<or> (\<exists>w com. list_all is_ws w \<and> com \<noteq> [] \<and> list_all dot com \<and> rest = w @ CHR ''#'' # com)"
  shows "\<exists>cs. ([], cs) \<in> set (rmatch (Seq comment_rx (Seq Spaces EndD)) (rest, c))"
  using assms
proof
  assume "list_all is_ws rest"
  then have "([], c) \<in> set (rmatch (Seq comment_rx (Seq Spaces EndD)) (rest, c))"
    unfolding in_comment in_comment_rx by (intro conjI exI [of _ rest]) simp_all
  then show ?thesis by blast
next
  assume "\<exists>w com. list_all is_ws w \<and> com \<noteq> [] \<and> list_all dot com \<and> rest = w @ CHR ''#'' # com"
  then obtain w com where h: "list_all is_ws w" "com \<noteq> []" "list_all dot com" "rest = w @ CHR ''#'' # com" by blast
  have "([], AList.update ''comment'' com c) \<in> set (rmatch comment_rx (rest, c))"
    unfolding in_comment_rx by (rule disjI2, rule exI [of _ w], rule exI [of _ "[]"], rule exI [of _ com]) (simp add: h)
  then have "([], AList.update ''comment'' com c) \<in> set (rmatch (Seq comment_rx (Seq Spaces EndD)) (rest, c))"
    unfolding in_comment by (intro conjI exI [of _ "[]"]) simp_all
  then show ?thesis by blast
qed

text \<open>What follows the reference of a line that the guard reads: blanks only, or a \<open>#\<close> with at least one character
  after it.\<close>

definition readable_rest :: "string \<Rightarrow> bool" where
  "readable_rest rest = (list_all is_ws rest \<or> (\<exists>w com. list_all is_ws w \<and> com \<noteq> [] \<and> list_all dot com \<and> rest = w @ CHR ''#'' # com))"

lemma newline_ws: "is_ws (CHR 0x0A)" by (simp add: is_ws_def)

lemma readable_rest_hd: "readable_rest rest \<Longrightarrow> rest = [] \<or> \<not> ref_char (hd rest)"
proof -
  have "rest = [] \<or> \<not> ref_char (hd rest)" if "rest = w @ t" "list_all is_ws w" "t = [] \<or> \<not> ref_char (hd t)" for w t
    using that by (cases w) auto
  from this [of rest "[]"] this show "readable_rest rest \<Longrightarrow> rest = [] \<or> \<not> ref_char (hd rest)" unfolding readable_rest_def by fastforce
qed

lemma comment_rest_hd:
  assumes "(t, cs) \<in> set (rmatch (Seq comment_rx (Seq Spaces EndD)) (rest, c))"
  shows "rest = [] \<or> \<not> ref_char (hd rest)"
proof -
  obtain u where u: "t = [] \<or> t = [CHR 0x0A]" "list_all is_ws u" "(u @ t, cs) \<in> set (rmatch comment_rx (rest, c))" using assms unfolding in_comment by blast
  have a: "v = [] \<or> \<not> ref_char (hd v)" if "list_all is_ws v" for v using that by (cases v) auto
  have ut: "list_all is_ws (u @ t)" using u(1,2) newline_ws by auto
  have b: "w @ CHR ''#'' # z = [] \<or> \<not> ref_char (hd (w @ CHR ''#'' # z))" if "list_all is_ws w" for w z using that by (cases w) auto
  show ?thesis using u(3) a [OF ut] b unfolding in_comment_rx by auto
qed

lemma check_uses_line_pinned:
  assumes l: "uses_line line ref' rest" and r: "readable_rest rest" and n: "check_uses_line n line = None"
  shows "pinned_action ref' rest"
proof -
  obtain cs0 where "([], cs0) \<in> set (rmatch (Seq comment_rx (Seq Spaces EndD)) (rest, [(''ref'', ref')]))"
    using uses_rest_matches r unfolding readable_rest_def by blast
  then have "([], cs0) \<in> set (rmatch USES_PATTERN (line, []))" unfolding in_USES using l by blast
  then have "re_match USES_PATTERN line \<noteq> None" unfolding re_match_None by auto
  then obtain t cs where m: "re_match USES_PATTERN line = Some (t, cs)" by auto
  from re_match_in [OF this] obtain ref1 rest1 where u1: "uses_line line ref1 rest1"
    and c1: "(t, cs) \<in> set (rmatch (Seq comment_rx (Seq Spaces EndD)) (rest1, [(''ref'', ref1)]))" unfolding in_USES by blast
  have "(ref1, rest1) = (ref', rest)"
    using parse_uses_line [OF u1 comment_rest_hd [OF c1]] parse_uses_line [OF l readable_rest_hd [OF r]] by simp
  then obtain u where u: "(u @ t, cs) \<in> set (rmatch comment_rx (rest, [(''ref'', ref')]))" using c1 unfolding in_comment by blast
  have ref: "cap_of ''ref'' cs = Some ref'" using u unfolding in_comment_rx by (auto simp: cap_of_def)
  show ?thesis
  proof (cases "is_first_party ref'")
    case True
    then show ?thesis by (simp add: pinned_action_def is_first_party_def)
  next
    case False
    then obtain sha com where s: "extract_sha_from_ref ref' = Some sha" "sha40 sha" "cap_of ''comment'' cs = Some com" "list_ex (\<lambda>c. \<not> is_ws c) com"
      using n m ref by (auto simp: check_uses_line_def Let_def split: option.splits if_splits)
    have at: "CHR ''@'' \<in> set ref'" "sha = tl (dropWhile (\<lambda>c. c \<noteq> CHR ''@'') ref')" using s(1) by (auto simp: extract_sha_from_ref_def split: if_splits)
    then obtain name sha' where ns: "ref' = name @ CHR ''@'' # sha'" "CHR ''@'' \<notin> set name" by (metis split_list_first)
    have "dropWhile (\<lambda>c. c \<noteq> CHR ''@'') (name @ CHR ''@'' # sha') = CHR ''@'' # sha'"
      using ns(2) by (subst dropWhile_append2) auto
    then have "sha = sha'" using at(2) ns(1) by simp
    have "list_all ref_char ref'" using l by (auto simp: uses_line_def)
    then have "CHR 0x0A \<notin> set ref'" unfolding list_all_iff using newline_ws by blast
    then have "CHR 0x0A \<notin> set sha" unfolding ns(1) \<open>sha = sha'\<close> by simp
    then have "length sha = 40" "list_all sha_hex_digit sha" using s(2) sha40_iff by auto
    moreover obtain w w' where w: "list_all is_ws w" "rest = w @ CHR ''#'' # w' @ com @ u @ t" using u s(3) unfolding in_comment_rx by (auto simp: cap_of_def)
    moreover have "list_ex (\<lambda>c. \<not> is_ws c) (w' @ com @ u @ t)" using s(4) by simp
    ultimately have "\<exists>name sha w1 comment. ref' = name @ ''@'' @ sha \<and> CHR ''@'' \<notin> set name \<and> length sha = 40 \<and> list_all sha_hex_digit sha \<and>
        list_all is_ws w1 \<and> rest = w1 @ ''#'' @ comment \<and> list_ex (\<lambda>c. \<not> is_ws c) comment"
      using ns \<open>sha = sha'\<close> by (intro exI [of _ name] exI [of _ sha] exI [of _ w] exI [of _ "w' @ com @ u @ t"]) simp
    then show ?thesis by (simp add: pinned_action_def)
  qed
qed

lemma in_enumerate: "x \<in> set xs \<Longrightarrow> \<exists>n. (n, x) \<in> set (enumerate k xs)"
  by (induction xs arbitrary: k) auto

text \<open>C29. When the action guard passes, every line of every workflow that names an action, with nothing or a comment after
  the name, names an action of the repository or one pinned to a 40-digit commit with a visible comment.\<close>

theorem sha_guard_enforces:
  assumes "sha_pins_main fs d = Inl (SystemExit 0)" and "p \<in> set (workflow_files fs d)" "map_of fs p = Some content"
    and "line \<in> set (splitlines content)" "uses_line line ref' rest" "readable_rest rest"
  shows "pinned_action ref' rest"
proof -
  have "check_file fs q \<noteq> Inl (SystemExit 0)" for q by (simp add: check_file_def file_text_def split: option.splits)
  then have "mapM (check_file fs) (workflow_files fs d) \<noteq> Inl (SystemExit 0)" unfolding mapM_Inl_iff by blast
  then obtain rs where rs: "mapM (check_file fs) (workflow_files fs d) = Inr rs" "concat rs = []"
    using assms(1) by (cases "mapM (check_file fs) (workflow_files fs d)") (simp_all add: sha_pins_main_def split: if_splits)
  from mapM_elem [OF rs(1) assms(2)] obtain vs where "vs \<in> set rs" "check_file fs p = Inr vs" by blast
  then have "List.map_filter (\<lambda>(n, line). check_uses_line n line) (enumerate 1 (splitlines content)) = []"
    using rs(2) assms(3) by (auto simp: check_file_def file_text_def split: if_splits)
  moreover obtain n where "(n, line) \<in> set (enumerate 1 (splitlines content))" using in_enumerate [OF assms(4)] by blast
  ultimately have "check_uses_line n line = None" by (auto simp: List.map_filter_def filter_empty_conv)
  then show ?thesis using check_uses_line_pinned assms(5,6) by blast
qed

text \<open>A bare \<open>#\<close> at the end of the line is not readable: the pattern does not match and the line is skipped.\<close>

lemma bare_hash_skips_action: "check_uses_line 1 ''      - uses: actions/checkout@v4 #'' = None"
  by code_simp

section \<open>Runs of the guards\<close>

definition quoted :: "string \<Rightarrow> string" where "quoted z = CHR 0x22 # z @ [CHR 0x22]"

definition ex_versions :: string where
  "ex_versions = ''required_version = '' @ quoted ''>= 1.15.5'' @ '' aws = { source = '' @ quoted ''hashicorp/aws'' @ '' version = '' @ quoted ''>= 6.49.0'' @ '' }''"

definition ex_guard_files :: "(path, string) dict" where
  "ex_guard_files = [(path_of ''r/providers/aws/primitives/kms/versions.tf'', ex_versions),
     (path_of ''r/terragrunt/prod/account.hcl'', ''use_pinned_module_sources = true''),
     (path_of ''r/terragrunt/prod/kms/terragrunt.hcl'', ''source = '' @ quoted ''git::https://x?ref=kms/v1.2.3''),
     (path_of ''r/.github/workflows/ci.yml'', ''- uses: a/b@0123456789abcdef0123456789abcdef01234567 # v1'')]"

theorem floor_guard_enforces_witness:
  "\<exists>s. map_of ex_guard_files (path_of ''r/providers/aws/primitives/kms/versions.tf'') = Some s \<and> meets_floors (resolve_floor_config []) s"
proof (rule floor_guard_enforces [of ex_guard_files "[]" "path_of ''r''" "[path_of ''r/providers/aws/primitives'']"])
  show "version_floor_main ex_guard_files [] (path_of ''r'') = Inr 0" by code_simp
  show "resolve_providers_roots ex_guard_files [] (path_of ''r'') = Inr [path_of ''r/providers/aws/primitives'']" by code_simp
  show "path_of ''r/providers/aws/primitives'' \<in> set [path_of ''r/providers/aws/primitives'']" by simp
  show "path_of ''r/providers/aws/primitives/kms/versions.tf'' \<in> set (rglob ex_guard_files (path_of ''r/providers/aws/primitives'') ''versions.tf'')" by code_simp
  show "\<not> hidden (path_of ''r/providers/aws/primitives/kms/versions.tf'')" by code_simp
qed

theorem pinned_guard_enforces_witness:
  "\<exists>toggle. resolve_toggle_from_account_hcl ex_guard_files (path_of ''/w'') (path_of ''r/terragrunt/prod/kms/terragrunt.hcl'') (path_of ''r/terragrunt'') = Inr toggle \<and>
     (if toggle then pinned_source (effective_source (LiteralSource ''git::https://x?ref=kms/v1.2.3'') True)
      else contains LOCAL_REPO_ROOT (effective_source (LiteralSource ''git::https://x?ref=kms/v1.2.3'') False) \<or>
        pinned_source (effective_source (LiteralSource ''git::https://x?ref=kms/v1.2.3'') False))"
proof (rule pinned_guard_enforces [of ex_guard_files "[]" "path_of ''/w''" "path_of ''r''" "path_of ''r/terragrunt''" _ "''source = '' @ quoted ''git::https://x?ref=kms/v1.2.3''"])
  show "pinned_sources_main ex_guard_files [] (path_of ''/w'') (path_of ''r'') = Inr 0" by code_simp
  show "default_terragrunt_root ex_guard_files [] (path_of ''r'') = Some (path_of ''r/terragrunt'')" by code_simp
  show "path_of ''r/terragrunt/prod/kms/terragrunt.hcl'' \<in> set (leaf_files ex_guard_files (path_of ''r/terragrunt''))" by code_simp
  show "map_of ex_guard_files (path_of ''r/terragrunt/prod/kms/terragrunt.hcl'') = Some (''source = '' @ quoted ''git::https://x?ref=kms/v1.2.3'')" by code_simp
  show "LiteralSource ''git::https://x?ref=kms/v1.2.3'' \<in> set (sources_of (''source = '' @ quoted ''git::https://x?ref=kms/v1.2.3''))" by code_simp
qed

theorem account_walk_nearest_witness:
  "\<exists>r. account_walk ex_guard_files (path_of ''/w'') (path_of ''r/terragrunt'') (path_of ''r/terragrunt/prod/kms'') = Some r"
proof -
  have "ancestor (path_of ''r/terragrunt'') (path_of ''r/terragrunt/prod/kms'')" "''..'' \<notin> set (parts (path_of ''r/terragrunt/prod/kms''))"
    "parts (path_of ''r/terragrunt'') \<noteq> []" by code_simp+
  from account_walk_nearest [OF this, of ex_guard_files "path_of ''/w''"] show ?thesis by blast
qed

theorem sha_guard_enforces_witness: "pinned_action ''a/b@0123456789abcdef0123456789abcdef01234567'' '' # v1''"
proof (rule sha_guard_enforces [of ex_guard_files "path_of ''r/.github/workflows''" "path_of ''r/.github/workflows/ci.yml''"
      "''- uses: a/b@0123456789abcdef0123456789abcdef01234567 # v1''" "''- uses: a/b@0123456789abcdef0123456789abcdef01234567 # v1''"])
  show "sha_pins_main ex_guard_files (path_of ''r/.github/workflows'') = Inl (SystemExit 0)" by code_simp
  show "path_of ''r/.github/workflows/ci.yml'' \<in> set (workflow_files ex_guard_files (path_of ''r/.github/workflows''))" by code_simp
  show "map_of ex_guard_files (path_of ''r/.github/workflows/ci.yml'') = Some ''- uses: a/b@0123456789abcdef0123456789abcdef01234567 # v1''" by code_simp
  show "''- uses: a/b@0123456789abcdef0123456789abcdef01234567 # v1'' \<in> set (splitlines ''- uses: a/b@0123456789abcdef0123456789abcdef01234567 # v1'')" by code_simp
  show "uses_line ''- uses: a/b@0123456789abcdef0123456789abcdef01234567 # v1'' ''a/b@0123456789abcdef0123456789abcdef01234567'' '' # v1''"
    unfolding uses_line_def by (rule exI [of _ "[]"], rule exI [of _ "''-''"], rule exI [of _ "'' ''"], rule exI [of _ "'' ''"]) (simp add: is_ws_def)
  show "readable_rest '' # v1''" unfolding readable_rest_def
    by (rule disjI2, rule exI [of _ "'' ''"], rule exI [of _ "'' v1''"]) (simp add: is_ws_def dot_def)
qed

end
