(* ===== verification/Sources.thy ===== *)
theory Sources
  imports Guarding
begin

text \<open>
  The guard over the sources of reference modules, \<open>scripts/tf_guard_const_sources.py\<close>, the gate over the examples
  that have a test, \<open>scripts/check_terratest_coverage.py\<close>, and the checks of the git history,
  \<open>scripts/check_git_history.py\<close>.
\<close>

section \<open>Constant module sources\<close>

abbreviation Word :: rx where "Word \<equiv> Plus True (Cls word_char)"

definition BARE_LITERAL_SOURCE_RE :: rx where "BARE_LITERAL_SOURCE_RE = Seq Spaces (assignment ''source'')"

definition VAR_SOURCE_RE :: rx where
  "VAR_SOURCE_RE = Seq Spaces (Seq (Lit ''source'') (Seq Spaces (Seq (Ch (CHR ''='')) (Seq Spaces (Seq (Lit ''var.'') (Grp ''1'' Word))))))"

definition MODULE_BLOCK_START_RE :: rx where
  "MODULE_BLOCK_START_RE = Seq Spaces (Seq (Lit ''module'') (Seq (Plus True (Cls is_ws)) (Seq Quote (Seq (Grp ''1'' Word) (Seq Quote (Seq Spaces (Ch (CHR 0x7B))))))))"

definition VARIABLE_BLOCK_RE :: rx where
  "VARIABLE_BLOCK_RE = Seq (Lit ''variable'') (Seq (Plus True (Cls is_ws)) (Seq Quote (Seq (Grp ''1'' Word) (Seq Quote (Seq Spaces (Seq (Ch (CHR 0x7B))
     (Seq (Grp ''2'' NoBrace) (Ch (CHR 0x7D)))))))))"

definition CONST_TRUE_RE :: rx where
  "CONST_TRUE_RE = Seq (any_case ''const'') (Seq Spaces (Seq (Ch (CHR ''='')) (Seq Spaces (Seq (any_case ''true'') WordEnd))))"

definition DEFAULT_VALUE_RE :: rx where
  "DEFAULT_VALUE_RE = Seq (Lit ''default'') (Seq Spaces (Seq (Ch (CHR ''='')) (Seq Spaces (Seq Quote (Seq (Grp ''1'' (Star True (Cls (\<lambda>c. c \<noteq> CHR 0x22)))) Quote)))))"

definition GIT_URL_RE :: rx where
  "GIT_URL_RE = Alt (any_case ''git::'') (any_case ''github.com'')"

definition DEFAULT_EXTERNAL_HOST :: string where "DEFAULT_EXTERNAL_HOST = ''github.com/caylent-solutions/terraform-modules''"
definition DEFAULT_EXTERNAL_MODULE_NAMES :: string where "DEFAULT_EXTERNAL_MODULE_NAMES = ''budget,dynamodb-table''"

definition parse_external_module_names :: "(string, string) dict \<Rightarrow> string list" where
  "parse_external_module_names env = filter (\<lambda>n. n \<noteq> [])
     (map strip (split_on (CHR '','') (the_default DEFAULT_EXTERNAL_MODULE_NAMES (map_of env ''CONST_SOURCE_GUARD_EXTERNAL_MODULE_NAMES''))))"

datatype const_finding =
    Variable_Ized string string
  | Bare_Literal string
  | Not_Const string
  | Git_Default string string
  | Absolute_Default string string

text \<open>A scan raises its only finding as an exception and returns any other number of them.\<close>

datatype scan = Raised const_finding | Returned "const_finding list"

definition scan_result :: "const_finding list \<Rightarrow> scan" where
  "scan_result all_findings = (case all_findings of [f] \<Rightarrow> Raised f | _ \<Rightarrow> Returned all_findings)"

fun scan_findings :: "scan \<Rightarrow> const_finding list" where
  "scan_findings (Raised f) = [f]"
| "scan_findings (Returned fs) = fs"

text \<open>The last module block that opens before the position \<open>a\<close>, which is what is left of the text there.\<close>

definition owning_module_name :: "string \<Rightarrow> string \<Rightarrow> string option" where
  "owning_module_name content a = (case rev (find_from line_start MODULE_BLOCK_START_RE None (take (length content - length a) content)) of
      [] \<Rightarrow> None | (b, st) # _ \<Rightarrow> Some (group1 st))"

definition variable_ized :: "string list \<Rightarrow> string \<Rightarrow> string \<times> mstate \<Rightarrow> const_finding option" where
  "variable_ized external_names content = (\<lambda>(a, st). case owning_module_name content a of
      None \<Rightarrow> None
    | Some m \<Rightarrow> if m \<noteq> [] \<and> m \<in> set external_names then Some (Variable_Ized m (group1 st)) else None)"

definition bare_literal :: "string \<Rightarrow> string list \<Rightarrow> string \<Rightarrow> string \<times> mstate \<Rightarrow> const_finding option" where
  "bare_literal ext_host external_names content = (\<lambda>(a, st).
     if contains ext_host (group1 st) \<and> (case owning_module_name content a of None \<Rightarrow> False | Some m \<Rightarrow> m \<in> set external_names) then None
     else Some (Bare_Literal (group1 st)))"

definition main_findings :: "string \<Rightarrow> string list \<Rightarrow> string \<Rightarrow> const_finding list" where
  "main_findings ext_host external_names content =
     List.map_filter (variable_ized external_names content) (find_from line_start VAR_SOURCE_RE None content) @
     List.map_filter (bare_literal ext_host external_names content) (find_from line_start BARE_LITERAL_SOURCE_RE None content)"

definition scan_main_tf :: "(path, string) dict \<Rightarrow> (string, string) dict \<Rightarrow> path \<Rightarrow> string list \<Rightarrow> exn + scan" where
  "scan_main_tf fs env p external_names = bindR (file_text fs p) (\<lambda>content.
     Inr (scan_result (main_findings (the_default DEFAULT_EXTERNAL_HOST (map_of env ''CONST_SOURCE_GUARD_EXTERNAL_HOST'')) external_names content)))"

definition has_const :: "string \<Rightarrow> bool" where
  "has_const body = (search_from word_start CONST_TRUE_RE None body \<noteq> None)"

definition not_const :: "string list \<Rightarrow> string \<times> mstate \<Rightarrow> const_finding option" where
  "not_const names = (\<lambda>(a, st). if group1 st \<in> set names \<and> \<not> has_const (group2 st) then Some (Not_Const (group1 st)) else None)"

definition bad_default :: "string list \<Rightarrow> string \<times> mstate \<Rightarrow> const_finding option" where
  "bad_default names = (\<lambda>(a, st). if group1 st \<notin> set names \<or> \<not> has_const (group2 st) then None
     else (case re_search DEFAULT_VALUE_RE (group2 st) of
         None \<Rightarrow> None
       | Some d \<Rightarrow> if re_search GIT_URL_RE (group1 d) \<noteq> None then Some (Git_Default (group1 st) (group1 d))
           else if startswith (group1 d) ''/'' then Some (Absolute_Default (group1 st) (group1 d)) else None))"

definition variables_findings :: "string list \<Rightarrow> string \<Rightarrow> const_finding list" where
  "variables_findings names content = (let blocks = find_from (\<lambda>_. True) VARIABLE_BLOCK_RE None content in
     List.map_filter (not_const names) blocks @ List.map_filter (bad_default names) blocks)"

definition scan_variables_tf :: "(path, string) dict \<Rightarrow> path \<Rightarrow> string list \<Rightarrow> exn + scan" where
  "scan_variables_tf fs p names = bindR (file_text fs p) (\<lambda>content. Inr (scan_result (variables_findings names content)))"

definition extract_source_var_names_from_main :: "(string, string) dict \<Rightarrow> string \<Rightarrow> string list" where
  "extract_source_var_names_from_main env content =
     remdups (filter (\<lambda>n. endswith n (the_default ''_source'' (map_of env ''CONST_SOURCE_GUARD_SOURCE_VAR_SUFFIX'')))
       (map (\<lambda>(a, st). group1 st) (find_from line_start VAR_SOURCE_RE None content)))"

definition collect_findings_for_module_dir :: "(path, string) dict \<Rightarrow> (string, string) dict \<Rightarrow> path \<Rightarrow> string list \<Rightarrow> exn + const_finding list" where
  "collect_findings_for_module_dir fs env module_dir external_names =
     (let main_tf = path_div module_dir ''main.tf''; variables_tf = path_div module_dir ''variables.tf'' in
      bindR (if path_exists fs main_tf then bindR (file_text fs main_tf) (\<lambda>content. Inr (extract_source_var_names_from_main env content)) else Inr []) (\<lambda>names.
      bindR (if path_exists fs main_tf then bindR (scan_main_tf fs env main_tf external_names) (\<lambda>r. Inr (scan_findings r)) else Inr []) (\<lambda>f1.
      bindR (if path_exists fs variables_tf \<and> names \<noteq> [] then bindR (scan_variables_tf fs variables_tf names) (\<lambda>r. Inr (scan_findings r)) else Inr []) (\<lambda>f2.
        Inr (f1 @ f2)))))"

definition discover_module_dirs :: "(path, string) dict \<Rightarrow> (string, string) dict \<Rightarrow> path \<Rightarrow> path list" where
  "discover_module_dirs fs env refs_root = (if \<not> is_dir fs refs_root then [] else
     map (path_div refs_root) (filter (\<lambda>n. is_dir fs (path_div refs_root n) \<and> \<not> startswith n ''.'' \<and>
       n \<noteq> the_default ''examples'' (map_of env ''CONST_SOURCE_GUARD_EXAMPLES_ALLOWLIST_DIR'')) (sort (list_dir fs refs_root))))"

definition run_const_source_guard :: "(path, string) dict \<Rightarrow> (string, string) dict \<Rightarrow> path \<Rightarrow> exn + const_finding list" where
  "run_const_source_guard fs env refs_root = (if \<not> path_exists fs refs_root then Inl FileNotFoundError
     else bindR (mapM (\<lambda>d. collect_findings_for_module_dir fs env d (parse_external_module_names env)) (discover_module_dirs fs env refs_root)) (\<lambda>rs. Inr (concat rs)))"

definition const_sources_main :: "(path, string) dict \<Rightarrow> (string, string) dict \<Rightarrow> string \<Rightarrow> exn + int" where
  "const_sources_main fs env refs_root = (if \<not> path_exists fs (path_of refs_root) then Inr 1
     else (case run_const_source_guard fs env (path_of refs_root) of
         Inl e \<Rightarrow> if e = FileNotFoundError then Inr 1 else Inl e
       | Inr findings \<Rightarrow> Inr (if findings = [] then 0 else 1)))"

section \<open>Examples with a test\<close>

text \<open>\<open>\bRunSingleExample\s*\([^,]+,\s*[^,]+,\s*"([^"]+)"\<close>\<close>

definition EXAMPLE_NAME_RE :: rx where
  "EXAMPLE_NAME_RE = (let Arg = Plus True (Cls (\<lambda>c. c \<noteq> CHR '','')); Comma = Ch (CHR '','') in
     Seq (Lit ''RunSingleExample'') (Seq Spaces (Seq (Ch (CHR ''('')) (Seq Arg (Seq Comma (Seq Spaces (Seq Arg (Seq Comma (Seq Spaces
       (Seq Quote (Seq (Grp ''1'' Unquoted) Quote)))))))))))"

definition collect_modules :: "(path, string) dict \<Rightarrow> path list \<Rightarrow> exn + path list" where
  "collect_modules fs roots = bindR (mapM (\<lambda>r. if \<not> path_exists fs r then Inl CoverageError
     else if is_file fs r then Inl OSError
     else Inr (map (path_div r) (filter (\<lambda>n. is_dir fs (path_div r n) \<and> path_exists fs (path_div (path_div r n) ''go.mod'') \<and>
       is_dir fs (path_div (path_div r n) ''examples'')) (sort (list_dir fs r))))) roots) (\<lambda>ms. Inr (concat ms))"

definition collect_first_party_test_files :: "(path, string) dict \<Rightarrow> path \<Rightarrow> path list" where
  "collect_first_party_test_files fs module_root = (let d = path_div module_root ''tests'' in
     filter (\<lambda>p. anchored p = anchored d \<and> strict_prefix (parts d) (parts p) \<and> endswith (path_name p) ''_test.go'' \<and> ''.terraform'' \<notin> set (parts p)) (tree_entries fs))"

definition covered_names :: "string \<Rightarrow> string list" where
  "covered_names content = map (\<lambda>(a, st). group1 st) (find_from word_start EXAMPLE_NAME_RE None content)"

definition example_names :: "(path, string) dict \<Rightarrow> path \<Rightarrow> string list" where
  "example_names fs module_root = (let d = path_div module_root ''examples'' in sort (filter (\<lambda>n. is_dir fs (path_div d n)) (list_dir fs d)))"

definition check_module_coverage :: "(path, string) dict \<Rightarrow> path \<Rightarrow> exn + string list" where
  "check_module_coverage fs module_root = (if example_names fs module_root = [] then Inr []
     else bindR (mapM (\<lambda>p. bindR (file_text fs p) (\<lambda>t. Inr (covered_names t))) (collect_first_party_test_files fs module_root)) (\<lambda>cs.
       Inr (filter (\<lambda>ex. ex \<notin> set (concat cs)) (example_names fs module_root))))"

definition run_coverage_check :: "(path, string) dict \<Rightarrow> path list \<Rightarrow> exn + (path \<times> string) list" where
  "run_coverage_check fs roots = bindR (collect_modules fs roots) (\<lambda>modules.
     bindR (mapM (\<lambda>m. bindR (check_module_coverage fs m) (\<lambda>gaps. Inr (map (Pair m) gaps))) modules) (\<lambda>gs. Inr (concat gs)))"

definition resolve_roots :: "(path, string) dict \<Rightarrow> (string, string) dict \<Rightarrow> path \<Rightarrow> path list" where
  "resolve_roots fs env cwd = (case the_default [] (map_of env ''TERRATEST_COVERAGE_ROOTS'') of
      [] \<Rightarrow> filter (path_exists fs) [path_div cwd ''providers/aws/primitives'', path_div cwd ''providers/aws/references'']
    | roots \<Rightarrow> map (\<lambda>p. path_of (strip p)) (filter (\<lambda>p. strip p \<noteq> []) (split_on (CHR '','') (replace_char (CHR '':'') (CHR '','') roots))))"

definition coverage_main :: "(path, string) dict \<Rightarrow> (string, string) dict \<Rightarrow> path \<Rightarrow> exn + int" where
  "coverage_main fs env cwd = (let roots = resolve_roots fs env cwd in
     if roots = [] then Inr 1
     else (case run_coverage_check fs roots of
         Inl e \<Rightarrow> if e = CoverageError then Inr 1 else Inl e
       | Inr gaps \<Rightarrow> Inr (if gaps = [] then 0 else 1)))"

section \<open>The git history\<close>

definition walk_line :: "string \<Rightarrow> string \<times> string" where
  "walk_line line = (if CHR '' '' \<notin> set line then (line, line)
     else (let sha = takeWhile (\<lambda>c. c \<noteq> CHR '' '') line; p = strip (tl (dropWhile (\<lambda>c. c \<noteq> CHR '' '') line)) in (sha, if p = [] then sha else p)))"

definition blob_of :: "(string, string) dict \<Rightarrow> string \<Rightarrow> (int \<times> string) option" where
  "blob_of sha_to_path line = (case words_of line of
      sha # typ # size' # _ \<Rightarrow> if typ \<noteq> ''blob'' then None
        else map_option (\<lambda>n. (n, the_default sha (map_of sha_to_path sha))) (py_int size')
    | _ \<Rightarrow> None)"

definition checked_run :: "'w runner \<Rightarrow> command \<Rightarrow> ('w, string) ci" where
  "checked_run runner c = bindC (run_cmd runner c) (\<lambda>r. if returncode r \<noteq> 0 then raise CalledProcessError else ret (stdout r))"

definition rev_list_cmd :: command where
  "rev_list_cmd = Command [''git'', ''rev-list'', ''--objects'', ''--branches''] None"

definition batch_check_cmd :: "string list \<Rightarrow> command" where
  "batch_check_cmd shas = Command [''git'', ''cat-file'', ''--batch-check=%(objectname) %(objecttype) %(objectsize)''] (Some (join [CHR 0x0A] shas @ [CHR 0x0A]))"

definition walk_blobs :: "'w runner \<Rightarrow> ('w, (int \<times> string) list) ci" where
  "walk_blobs runner = bindC (checked_run runner rev_list_cmd) (\<lambda>out.
     let entries = map walk_line (filter (\<lambda>l. l \<noteq> []) (splitlines out)) in
     if entries = [] then ret []
     else bindC (checked_run runner (batch_check_cmd (map fst entries))) (\<lambda>res.
       ret (List.map_filter (blob_of (fold (\<lambda>(k, v) d. AList.update k v d) entries [])) (filter (\<lambda>l. l \<noteq> []) (splitlines res)))))"

definition print_all :: "string list \<Rightarrow> ('w, unit) ci" where
  "print_all ls = (\<lambda>s. (Inr (), s\<lparr>printed := printed s @ ls\<rparr>))"

definition check_max_blob_bytes :: "'w runner \<Rightarrow> int \<Rightarrow> ('w, int) ci" where
  "check_max_blob_bytes runner max_bytes = bindC (walk_blobs runner) (\<lambda>blobs.
     let offenders = filter (\<lambda>(n, p). max_bytes < n) blobs in
     if offenders = [] then ret 0
     else thenC (print_all (map (\<lambda>(n, p). show_int n @ '' '' @ p) offenders)) (ret 1))"

definition REQUIRED_EVIDENCE_KEYS :: "string list" where
  "REQUIRED_EVIDENCE_KEYS = [''pre_tip_commit'', ''pre_tip_tree'', ''post_tip_commit'', ''post_tip_tree'']"

fun require_keys :: "json \<Rightarrow> string list \<Rightarrow> exn + unit" where
  "require_keys data [] = Inr ()"
| "require_keys data (k # ks) = bindR (py_in k data) (\<lambda>b. if b then require_keys data ks else Inl EvidenceVerifyError)"

definition verify_tree_evidence :: "string \<Rightarrow> ('w, int) ci" where
  "verify_tree_evidence evidence_file = (let p = path_of evidence_file in bindC get_files (\<lambda>fs.
     if \<not> path_exists fs p then raise EvidenceVerifyError
     else bindC (try_except (bindC (read_text p) (\<lambda>t. lift (json_loads t))) (\<lambda>e. e = JSONDecodeError) (raise EvidenceVerifyError)) (\<lambda>data.
       thenC (lift (require_keys data REQUIRED_EVIDENCE_KEYS))
       (bindC (lift (json_index data ''pre_tip_tree'')) (\<lambda>pre.
        bindC (lift (json_index data ''post_tip_tree'')) (\<lambda>post. ret (if py_eq pre post then 0 else 1)))))))"

definition check_git_history_main :: "'w runner \<Rightarrow> int option \<Rightarrow> string \<Rightarrow> ('w, int) ci" where
  "check_git_history_main runner max_blob_bytes evidence_file = (case max_blob_bytes of
      Some n \<Rightarrow> check_max_blob_bytes runner n
    | None \<Rightarrow> try_except (verify_tree_evidence evidence_file) (\<lambda>e. e = EvidenceVerifyError) (ret 1))"

section \<open>What the guard over module sources does not see\<close>

lemma module_name_word:
  assumes "(t, cs) \<in> set (rmatch MODULE_BLOCK_START_RE (s, []))"
  shows "list_all word_char (group1 (t, cs))"
proof -
  obtain u where "list_all word_char u" "cs = AList.update ''1'' u []"
    using assms unfolding MODULE_BLOCK_START_RE_def seq_star seq_Lit seq_plus seq_Grp_plus seq_Cls in_Cls
    by (elim exE conjE) simp
  then show ?thesis by (simp add: group1_def cap_of_def)
qed

lemma owning_module_word: "owning_module_name content a = Some m \<Longrightarrow> list_all word_char m"
proof -
  assume "owning_module_name content a = Some m"
  then obtain b st r where "rev (find_from line_start MODULE_BLOCK_START_RE None (take (length content - length a) content)) = (b, st) # r" "m = group1 st"
    by (auto simp: owning_module_name_def split: list.splits)
  moreover from this have "(b, st) \<in> set (find_from line_start MODULE_BLOCK_START_RE None (take (length content - length a) content))"
    by (metis list.set_intros(1) set_rev)
  ultimately show ?thesis using find_from_in module_name_word by (metis prod.collapse)
qed

text \<open>A module whose name has a hyphen is never recognised, so the sanctioned \<open>dynamodb-table\<close> of the default list never
  is: no change of its source to a variable is reported.\<close>

lemma hyphen_never_variable_ized: "Variable_Ized ''dynamodb-table'' v \<notin> set (main_findings h names content)"
proof
  assume "Variable_Ized ''dynamodb-table'' v \<in> set (main_findings h names content)"
  then obtain a where "owning_module_name content a = Some ''dynamodb-table''"
    by (auto simp: main_findings_def in_map_filter variable_ized_def bare_literal_def split: option.splits if_splits)
  then have "word_char (CHR ''-'')" using owning_module_word by (fastforce simp: list_all_iff)
  then show False by code_simp
qed

section \<open>What it enforces\<close>

text \<open>The sources a module may name literally: those of the external host in a sanctioned module.\<close>

lemma scan_findings_result [simp]: "scan_findings (scan_result fs) = fs"
  by (auto simp: scan_result_def split: list.splits)

lemma module_dir_clean:
  assumes "collect_findings_for_module_dir fs env d names = Inr []" "map_of fs (path_div d ''main.tf'') = Some content"
  shows "main_findings (the_default DEFAULT_EXTERNAL_HOST (map_of env ''CONST_SOURCE_GUARD_EXTERNAL_HOST'')) names content = [] \<and>
    (\<forall>vars. map_of fs (path_div d ''variables.tf'') = Some vars \<longrightarrow>
       variables_findings (extract_source_var_names_from_main env content) vars = [] \<or> extract_source_var_names_from_main env content = [])"
  using assms by (auto simp: collect_findings_for_module_dir_def scan_main_tf_def scan_variables_tf_def bindR_Inr_iff file_text_def
      path_exists_def is_file_def Let_def split: if_splits)

definition sources_allowed :: "(string, string) dict \<Rightarrow> string \<Rightarrow> bool" where
  "sources_allowed env content = (
     list_all (\<lambda>(a, st). contains (the_default DEFAULT_EXTERNAL_HOST (map_of env ''CONST_SOURCE_GUARD_EXTERNAL_HOST'')) (group1 st) \<and>
       (\<exists>m \<in> set (parse_external_module_names env). owning_module_name content a = Some m)) (find_from line_start BARE_LITERAL_SOURCE_RE None content) \<and>
     list_all (\<lambda>(a, st). \<not> (\<exists>m \<in> set (parse_external_module_names env). owning_module_name content a = Some m)) (find_from line_start VAR_SOURCE_RE None content))"

text \<open>A block that declares a variable used as a source is constant, and its default is neither a git URL nor absolute.\<close>

definition source_variables_const :: "string list \<Rightarrow> string \<Rightarrow> bool" where
  "source_variables_const names vars = list_all (\<lambda>(a, st). group1 st \<in> set names \<longrightarrow> has_const (group2 st) \<and>
     (case re_search DEFAULT_VALUE_RE (group2 st) of None \<Rightarrow> True | Some d \<Rightarrow> re_search GIT_URL_RE (group1 d) = None \<and> \<not> startswith (group1 d) ''/''))
     (find_from (\<lambda>_. True) VARIABLE_BLOCK_RE None vars)"

lemma map_filter_empty: "List.map_filter f xs = [] \<longleftrightarrow> list_all (\<lambda>x. f x = None) xs"
  by (induction xs) (auto simp: List.map_filter_simps split: option.splits)

lemma external_name_nonempty: "m \<in> set (parse_external_module_names env) \<Longrightarrow> m \<noteq> []"
  by (auto simp: parse_external_module_names_def)

lemma no_main_findings:
  assumes "main_findings (the_default DEFAULT_EXTERNAL_HOST (map_of env ''CONST_SOURCE_GUARD_EXTERNAL_HOST'')) (parse_external_module_names env) content = []"
  shows "sources_allowed env content"
proof -
  have "list_all (\<lambda>x. variable_ized (parse_external_module_names env) content x = None) (find_from line_start VAR_SOURCE_RE None content)"
    "list_all (\<lambda>x. bare_literal (the_default DEFAULT_EXTERNAL_HOST (map_of env ''CONST_SOURCE_GUARD_EXTERNAL_HOST'')) (parse_external_module_names env) content x = None)
       (find_from line_start BARE_LITERAL_SOURCE_RE None content)" using assms by (simp_all add: main_findings_def map_filter_empty)
  then show ?thesis unfolding sources_allowed_def
    by (auto elim!: list.pred_mono_strong simp: variable_ized_def bare_literal_def dest: external_name_nonempty split: option.splits if_splits)
qed

lemma block_const:
  assumes "not_const names x = None" "bad_default names x = None"
  shows "case x of (a, st) \<Rightarrow> group1 st \<in> set names \<longrightarrow> has_const (group2 st) \<and>
     (case re_search DEFAULT_VALUE_RE (group2 st) of None \<Rightarrow> True | Some d \<Rightarrow> re_search GIT_URL_RE (group1 d) = None \<and> \<not> startswith (group1 d) ''/'')"
proof -
  obtain a st where x: "x = (a, st)" by (cases x)
  show ?thesis using assms unfolding x prod.case not_const_def bad_default_def
    by (cases "re_search DEFAULT_VALUE_RE (group2 st)") (auto split: if_splits simp del: not_None_eq)
qed

lemma no_variables_findings: "variables_findings names vars = [] \<Longrightarrow> source_variables_const names vars"
  unfolding source_variables_const_def variables_findings_def Let_def append_is_Nil_conv map_filter_empty list_all_iff
  using block_const by blast

lemma no_source_variables: "source_variables_const [] vars"
  by (simp add: source_variables_const_def list_all_iff split: prod.splits)

text \<open>When the guard over module sources passes, then in every reference module with a \<open>main.tf\<close>: a literal source is one of
  the external host in a sanctioned module, no source of a sanctioned module is a variable, and every block of
  \<open>variables.tf\<close> that declares a variable used as a source has \<open>const = true\<close> and a default that is neither a git
  URL nor absolute.\<close>

theorem const_guard_enforces:
  assumes "const_sources_main fs env refs = Inr 0" and "d \<in> set (discover_module_dirs fs env (path_of refs))"
    and "map_of fs (path_div d ''main.tf'') = Some content" "map_of fs (path_div d ''variables.tf'') = Some vars"
  shows "sources_allowed env content \<and> source_variables_const (extract_source_var_names_from_main env content) vars"
proof -
  obtain rs where rs: "mapM (\<lambda>d. collect_findings_for_module_dir fs env d (parse_external_module_names env)) (discover_module_dirs fs env (path_of refs)) = Inr rs" "concat rs = []"
    using assms(1) by (auto simp: const_sources_main_def run_const_source_guard_def bindR_Inr_iff split: sum.splits if_splits)
  from mapM_elem [OF rs(1) assms(2)] rs(2) have "collect_findings_for_module_dir fs env d (parse_external_module_names env) = Inr []" by auto
  from module_dir_clean [OF this assms(3)] assms(4) show ?thesis
    using no_main_findings [of env content] no_variables_findings [of "extract_source_var_names_from_main env content" vars] no_source_variables by metis
qed

text \<open>When the coverage gate passes, every example of every module with tests is run by a first-party test of the
  module.\<close>

theorem coverage_gate_enforces:
  assumes "coverage_main fs env cwd = Inr 0" and "collect_modules fs (resolve_roots fs env cwd) = Inr modules" "m \<in> set modules"
    and "ex \<in> set (example_names fs m)"
  shows "\<exists>p \<in> set (collect_first_party_test_files fs m). \<exists>t. map_of fs p = Some t \<and> ex \<in> set (covered_names t)"
proof -
  have "run_coverage_check fs (resolve_roots fs env cwd) = Inr []"
    using assms(1) by (auto simp: coverage_main_def Let_def split: sum.splits if_splits)
  then obtain gs where gs: "mapM (\<lambda>m. bindR (check_module_coverage fs m) (\<lambda>gaps. Inr (map (Pair m) gaps))) modules = Inr gs" "concat gs = []"
    using assms(2) by (auto simp: run_coverage_check_def bindR_Inr_iff)
  from mapM_elem [OF gs(1) assms(3)] gs(2) have "check_module_coverage fs m = Inr []" by (auto simp: bindR_Inr_iff)
  then obtain cs where cs: "mapM (\<lambda>p. bindR (file_text fs p) (\<lambda>t. Inr (covered_names t))) (collect_first_party_test_files fs m) = Inr cs"
    "ex \<in> set (concat cs)" using assms(4) by (auto simp: check_module_coverage_def bindR_Inr_iff filter_empty_conv split: if_splits)
  then obtain c where c: "c \<in> set cs" "ex \<in> set c" by auto
  obtain i where i: "i < length cs" "cs ! i = c" using c(1) unfolding in_set_conv_nth by blast
  have l: "list_all2 (\<lambda>p c. bindR (file_text fs p) (\<lambda>t. Inr (covered_names t)) = Inr c) (collect_first_party_test_files fs m) cs"
    using cs(1) unfolding mapM_Inr_iff .
  let ?p = "collect_first_party_test_files fs m ! i"
  have "?p \<in> set (collect_first_party_test_files fs m)" using i(1) list_all2_lengthD [OF l] by simp
  moreover have "bindR (file_text fs ?p) (\<lambda>t. Inr (covered_names t)) = Inr c" using list_all2_nthD2 [OF l i(1)] i(2) by simp
  ultimately show ?thesis using c(2) by (auto simp: bindR_Inr_iff file_text_def split: option.splits)
qed

text \<open>The history check passes exactly when no blob of the listing is larger than the bound, and otherwise prints
  every blob that is.\<close>

theorem blob_check_exact:
  assumes "walk_blobs runner s = (Inr blobs, t)"
  shows "check_max_blob_bytes runner n s = (if list_all (\<lambda>(size', p). size' \<le> n) blobs then (Inr 0, t)
     else (Inr 1, t\<lparr>printed := printed t @ map (\<lambda>(size', p). show_int size' @ '' '' @ p) (filter (\<lambda>(size', p). n < size') blobs)\<rparr>))"
proof -
  have "filter (\<lambda>(size', p). n < size') blobs = [] \<longleftrightarrow> list_all (\<lambda>(size', p). size' \<le> n) blobs"
    by (auto simp: filter_empty_conv list_all_iff not_less)
  then show ?thesis using assms by (simp add: check_max_blob_bytes_def bindC_def Let_def thenC_def print_all_def)
qed

section \<open>Runs\<close>

definition ex_source_files :: "(path, string) dict" where
  "ex_source_files = [(path_of ''refs/app/main.tf'', ''module '' @ quoted ''kms'' @ '' {'' @ [CHR 0x0A] @ ''source = var.kms_source''),
     (path_of ''refs/app/variables.tf'', ''variable '' @ quoted ''kms_source'' @ '' { const = true default = '' @ quoted ''../kms'' @ '' }''),
     (path_of ''refs/app/go.mod'', []), (path_of ''refs/app/examples/basic/main.tf'', []),
     (path_of ''refs/app/tests/m_test.go'', ''RunSingleExample(t, root, '' @ quoted ''basic'' @ '')'')]"

theorem const_guard_enforces_witness:
  "sources_allowed [] (''module '' @ quoted ''kms'' @ '' {'' @ [CHR 0x0A] @ ''source = var.kms_source'') \<and>
   source_variables_const (extract_source_var_names_from_main [] (''module '' @ quoted ''kms'' @ '' {'' @ [CHR 0x0A] @ ''source = var.kms_source''))
     (''variable '' @ quoted ''kms_source'' @ '' { const = true default = '' @ quoted ''../kms'' @ '' }'')"
proof (rule const_guard_enforces [of ex_source_files "[]" "''refs''" "path_of ''refs/app''"])
  show "const_sources_main ex_source_files [] ''refs'' = Inr 0" by code_simp
  show "path_of ''refs/app'' \<in> set (discover_module_dirs ex_source_files [] (path_of ''refs''))" by code_simp
  show "map_of ex_source_files (path_div (path_of ''refs/app'') ''main.tf'') = Some (''module '' @ quoted ''kms'' @ '' {'' @ [CHR 0x0A] @ ''source = var.kms_source'')" by code_simp
  show "map_of ex_source_files (path_div (path_of ''refs/app'') ''variables.tf'') =
    Some (''variable '' @ quoted ''kms_source'' @ '' { const = true default = '' @ quoted ''../kms'' @ '' }'')" by code_simp
qed

theorem coverage_gate_enforces_witness:
  "\<exists>p \<in> set (collect_first_party_test_files ex_source_files (path_of ''refs/app'')). \<exists>t. map_of ex_source_files p = Some t \<and> ''basic'' \<in> set (covered_names t)"
proof (rule coverage_gate_enforces [of ex_source_files "[(''TERRATEST_COVERAGE_ROOTS'', ''refs'')]" "path_of ''/w''" "[path_of ''refs/app'']"])
  show "coverage_main ex_source_files [(''TERRATEST_COVERAGE_ROOTS'', ''refs'')] (path_of ''/w'') = Inr 0" by code_simp
  show "collect_modules ex_source_files (resolve_roots ex_source_files [(''TERRATEST_COVERAGE_ROOTS'', ''refs'')] (path_of ''/w'')) = Inr [path_of ''refs/app'']" by code_simp
  show "path_of ''refs/app'' \<in> set [path_of ''refs/app'']" by simp
  show "''basic'' \<in> set (example_names ex_source_files (path_of ''refs/app''))" by code_simp
qed

end
