(* ===== verification/Digest.thy ===== *)
theory Digest
  imports Prelude "HOL-Library.Word"
begin

text \<open>
  \<open>hashlib.md5(data).hexdigest()\<close> (RFC 1321), which \<open>scripts/tg_bucket_name_unique.py\<close> uses to shorten names.
  Bytes are characters, the words of the computation are 32 bits wide and wrap around.
\<close>

unbundle bit_operations_syntax

section \<open>Padding and words\<close>

text \<open>The low \<open>k\<close> bytes of a number, least significant first.\<close>

fun le_bytes :: "nat \<Rightarrow> int \<Rightarrow> char list" where
  "le_bytes 0 n = []"
| "le_bytes (Suc k) n = char_of (n mod 256) # le_bytes k (n div 256)"

definition md5_pad :: "char list \<Rightarrow> char list" where
  "md5_pad m = m @ [CHR 0x80] @ replicate ((119 - length m mod 64) mod 64) (CHR 0x00) @ le_bytes 8 (8 * int (length m))"

fun le_int :: "char list \<Rightarrow> int" where
  "le_int [] = 0"
| "le_int (c # cs) = of_char c + 256 * le_int cs"

definition md5_word :: "char list \<Rightarrow> nat \<Rightarrow> 32 word" where
  "md5_word block g = of_int (le_int (take 4 (drop (4 * g) block)))"

section \<open>Rounds\<close>

definition md5_K :: "32 word list" where
  "md5_K = [
     0xd76aa478, 0xe8c7b756, 0x242070db, 0xc1bdceee, 0xf57c0faf, 0x4787c62a, 0xa8304613, 0xfd469501,
     0x698098d8, 0x8b44f7af, 0xffff5bb1, 0x895cd7be, 0x6b901122, 0xfd987193, 0xa679438e, 0x49b40821,
     0xf61e2562, 0xc040b340, 0x265e5a51, 0xe9b6c7aa, 0xd62f105d, 0x02441453, 0xd8a1e681, 0xe7d3fbc8,
     0x21e1cde6, 0xc33707d6, 0xf4d50d87, 0x455a14ed, 0xa9e3e905, 0xfcefa3f8, 0x676f02d9, 0x8d2a4c8a,
     0xfffa3942, 0x8771f681, 0x6d9d6122, 0xfde5380c, 0xa4beea44, 0x4bdecfa9, 0xf6bb4b60, 0xbebfbc70,
     0x289b7ec6, 0xeaa127fa, 0xd4ef3085, 0x04881d05, 0xd9d4d039, 0xe6db99e5, 0x1fa27cf8, 0xc4ac5665,
     0xf4292244, 0x432aff97, 0xab9423a7, 0xfc93a039, 0x655b59c3, 0x8f0ccc92, 0xffeff47d, 0x85845dd1,
     0x6fa87e4f, 0xfe2ce6e0, 0xa3014314, 0x4e0811a1, 0xf7537e82, 0xbd3af235, 0x2ad7d2bb, 0xeb86d391]"

definition md5_shifts :: "nat list" where
  "md5_shifts = concat (map (\<lambda>r. concat (replicate 4 r)) [[7, 12, 17, 22], [5, 9, 14, 20], [4, 11, 16, 23], [6, 10, 15, 21]])"

type_synonym md5_state = "32 word \<times> 32 word \<times> 32 word \<times> 32 word"

definition md5_mix :: "nat \<Rightarrow> 32 word \<Rightarrow> 32 word \<Rightarrow> 32 word \<Rightarrow> 32 word \<times> nat" where
  "md5_mix i b c d =
     (if i < 16 then ((b AND c) OR (NOT b AND d), i)
      else if i < 32 then ((d AND b) OR (NOT d AND c), (5 * i + 1) mod 16)
      else if i < 48 then (b XOR c XOR d, (3 * i + 5) mod 16)
      else (c XOR (b OR NOT d), (7 * i) mod 16))"

definition md5_round :: "char list \<Rightarrow> nat \<times> 32 word \<times> nat \<Rightarrow> md5_state \<Rightarrow> md5_state" where
  "md5_round block = (\<lambda>(i, k, n) (a, b, c, d). case md5_mix i b c d of (f, g) \<Rightarrow>
     (d, b + word_rotl n (f + a + k + md5_word block g), b, c))"

definition md5_block :: "char list \<Rightarrow> md5_state \<Rightarrow> md5_state" where
  "md5_block block = (\<lambda>(a0, b0, c0, d0). case fold (md5_round block) (zip [0..<64] (zip md5_K md5_shifts)) (a0, b0, c0, d0) of
     (a, b, c, d) \<Rightarrow> (a0 + a, b0 + b, c0 + c, d0 + d))"

function md5_blocks :: "char list \<Rightarrow> md5_state \<Rightarrow> md5_state" where
  "md5_blocks m st = (if m = [] then st else md5_blocks (drop 64 m) (md5_block (take 64 m) st))"
  by pat_completeness auto
termination by (relation "measure (\<lambda>(m, st). length m)") auto

declare md5_blocks.simps [simp del]

definition hex_char :: "nat \<Rightarrow> char" where
  "hex_char n = (if n < 10 then char_of (48 + n) else char_of (87 + n))"

definition hex_byte :: "char \<Rightarrow> string" where
  "hex_byte c = [hex_char (of_char c div 16), hex_char (of_char c mod 16)]"

definition md5_hexdigest :: "char list \<Rightarrow> string" where
  "md5_hexdigest m = (case md5_blocks (md5_pad m) (0x67452301, 0xefcdab89, 0x98badcfe, 0x10325476) of (a, b, c, d) \<Rightarrow>
     concat (map hex_byte (le_bytes 4 (uint a) @ le_bytes 4 (uint b) @ le_bytes 4 (uint c) @ le_bytes 4 (uint d))))"

section \<open>Facts\<close>

lemma le_bytes_length [simp]: "length (le_bytes k n) = k"
  by (induction k n rule: le_bytes.induct) simp_all

lemma md5_hexdigest_length [simp]: "length (md5_hexdigest m) = 32"
  by (simp add: md5_hexdigest_def hex_byte_def length_concat comp_def sum_list_triv split: prod.split)

lemma md5_round_count: "length (zip [0..<64] (zip md5_K md5_shifts)) = 64"
  by (simp add: md5_K_def md5_shifts_def length_concat sum_list_replicate numeral_eq_Suc)

end
