(* ===== verification/Foundation.thy ===== *)
theory Foundation
  imports Cloud Guards Digest
begin

text \<open>
  The foundation an environment is deployed on: the encryption key of the remote state
  (\<open>scripts/tf_state_preflight.py\<close>), the names of the state buckets (\<open>scripts/tg_bucket_name_unique.py\<close>), the GitHub
  identity provider (\<open>scripts/bootstrap_oidc_provider.py\<close>), the Athena workgroups that have to go before an environment is
  destroyed (\<open>scripts/athena_workgroup_cleanup.py\<close>) and the outputs of a unit (\<open>scripts/tg_output.py\<close>).

  A session or client for a region or profile is \<open>aws\<close> applied to it; a profile that does not exist is an error of
  its first call. The message of a \<open>ClientError\<close> is read off the outside world by \<open>message\<close>.
\<close>

section \<open>The key of the remote state\<close>

definition assert_state_cmk_ready :: "json option \<Rightarrow> exn + unit" where
  "assert_state_cmk_ready describe_key_response = (case describe_key_response of
      None \<Rightarrow> Inl StateKmsKeyNotFoundError
    | Some r \<Rightarrow> (case bindR (json_index r ''KeyMetadata'') (\<lambda>m. json_index m ''KeyState'') of
          Inl e \<Rightarrow> Inl (if e \<in> {KeyError, TypeError} then StateKmsKeyNotEnabledError else e)
        | Inr key_state \<Rightarrow> if key_state \<noteq> JStr ''Enabled'' then Inl StateKmsKeyNotEnabledError else Inr ()))"

definition fetch_state_cmk :: "'v aws \<Rightarrow> string \<Rightarrow> ('v cloud, json option) ci" where
  "fetch_state_cmk aws alias_name =
     try_except (bindC (aws_call aws (''kms'', ''describe_key'') [(''KeyId'', JStr alias_name)]) (\<lambda>r. ret (Some r)))
       (has_code [''NotFoundException'', ''NotFound'']) (ret None)"

definition sts_account_id :: "'v aws \<Rightarrow> ('v cloud, string) ci" where
  "sts_account_id aws = bindC (aws_call aws (''sts'', ''get_caller_identity'') []) (\<lambda>identity.
     bindC (lift (json_index identity ''Account'')) (\<lambda>a. ret (py_str a)))"

definition state_alias :: "string \<Rightarrow> string" where
  "state_alias account_id = ''alias/'' @ account_id @ ''-tfstate''"

definition run_preflight :: "(string \<Rightarrow> 'v aws) \<Rightarrow> string \<Rightarrow> string \<Rightarrow> ('v cloud, unit) ci" where
  "run_preflight aws account_id region =
     bindC (fetch_state_cmk (aws region) (state_alias account_id)) (\<lambda>r. lift (assert_state_cmk_ready r))"

text \<open>\<open>a or b\<close> for optional strings.\<close>

fun or_else :: "string option \<Rightarrow> string \<Rightarrow> string" where
  "or_else None d = d"
| "or_else (Some z) d = (if z = [] then d else z)"

definition preflight_account :: "(string \<Rightarrow> 'v aws) \<Rightarrow> string \<Rightarrow> ('v cloud, string option) ci" where
  "preflight_account aws region = bindC (getenv ''AWS_ACCOUNT_ID'') (\<lambda>a. case or_else a [] of
      [] \<Rightarrow> try_except (bindC (sts_account_id (aws region)) (\<lambda>x. ret (Some x))) is_exception (ret None)
    | account_id \<Rightarrow> ret (Some account_id))"

definition preflight_main :: "(string \<Rightarrow> 'v aws) \<Rightarrow> ('v cloud, int) ci" where
  "preflight_main aws =
     bindC (getenv ''AWS_REGION'') (\<lambda>r1. bindC (getenv ''AWS_DEFAULT_REGION'') (\<lambda>r2.
     let region = or_else r1 (or_else r2 ''us-east-1'') in
     bindC (preflight_account aws region) (\<lambda>a. case a of
         None \<Rightarrow> ret 1
       | Some account_id \<Rightarrow> try_except (thenC (run_preflight aws account_id region) (ret 0))
           (\<lambda>e. e = StateKmsKeyNotFoundError \<or> e = StateKmsKeyNotEnabledError) (ret 1))))"

section \<open>Names of state buckets\<close>

definition MAX_BUCKET_NAME_LENGTH :: nat where "MAX_BUCKET_NAME_LENGTH = 63"

definition ACCOUNT_ID_RE :: rx where
  "ACCOUNT_ID_RE = Seq (Lit ''aws_account_id'') (Seq Spaces (Seq (Ch (CHR ''='')) (Seq Spaces (Seq Quote
     (Seq (Grp ''1'' (foldr (\<lambda>_. Seq (Cls is_digit)) [0..<12] Eps)) Quote)))))"

definition shorten_bucket_name :: "string \<Rightarrow> string \<Rightarrow> string \<Rightarrow> string" where
  "shorten_bucket_name account_id namespace raw_name =
     (if length raw_name \<le> MAX_BUCKET_NAME_LENGTH then raw_name
      else let ns_clean = replace_char (CHR ''_'') (CHR ''-'') namespace; ns_prefix = take 28 ns_clean;
             ns_hash = take 8 (md5_hexdigest (utf8 namespace))
           in lower (account_id @ ''-'' @ ns_prefix @ ''-'' @ ns_hash @ ''-tfstate''))"

text \<open>The first name that repeats an earlier one makes the second loop raise.\<close>

definition assert_bucket_names_unique :: "string list \<Rightarrow> exn + unit" where
  "assert_bucket_names_unique bucket_names =
     (if list_ex (\<lambda>n. MAX_BUCKET_NAME_LENGTH < length n) bucket_names then Inl BucketNameTooLongError
      else if \<not> distinct bucket_names then Inl BucketNameCollisionError else Inr ())"

function account_id_up :: "(path, string) dict \<Rightarrow> path \<Rightarrow> exn + string option" where
  "account_id_up fs candidate =
     (let account_hcl = path_div candidate ''account.hcl'' in
      bindR (if path_exists fs account_hcl then bindR (file_text fs account_hcl) (\<lambda>content. Inr (map_option group1 (re_search ACCOUNT_ID_RE content))) else Inr None) (\<lambda>m.
        case m of
          Some account_id \<Rightarrow> Inr (Some account_id)
        | None \<Rightarrow> if path_parent candidate = candidate then Inr None else account_id_up fs (path_parent candidate)))"
  by pat_completeness auto
termination
proof (relation "measure (\<lambda>(fs, c). length (parts c))", simp)
  fix fs :: "(path, string) dict" and c :: path
  assume "path_parent c \<noteq> c"
  then have "parts c \<noteq> []" by (cases c) (auto simp: path_parent_def)
  then show "((fs, path_parent c), fs, c) \<in> measure (\<lambda>(fs, c). length (parts c))" by (simp add: path_parent_def)
qed

declare account_id_up.simps [simp del]

definition find_account_id_in_ancestors :: "(path, string) dict \<Rightarrow> path \<Rightarrow> exn + string option" where
  "find_account_id_in_ancestors fs hcl_file = account_id_up fs (path_parent hcl_file)"

definition derive_namespace_from_path :: "path \<Rightarrow> path \<Rightarrow> exn + string" where
  "derive_namespace_from_path hcl_file terragrunt_root = (case relative_to (path_parent hcl_file) terragrunt_root of
      None \<Rightarrow> Inl ValueError
    | Some rel \<Rightarrow> (let ps = (case parts rel of p # qs \<Rightarrow> if p = ''live'' then qs else p # qs | [] \<Rightarrow> [])
        in Inr (replace_char (CHR ''_'') (CHR ''-'') (join ''-'' ps))))"

definition bucket_name :: "(path, string) dict \<Rightarrow> path \<Rightarrow> path \<Rightarrow> exn + path \<times> string" where
  "bucket_name fs terragrunt_root hcl_file =
     bindR (find_account_id_in_ancestors fs hcl_file) (\<lambda>a.
     bindR (derive_namespace_from_path hcl_file terragrunt_root) (\<lambda>namespace.
       let account_id = or_else a ''000000000000'' in
       Inr (hcl_file, shorten_bucket_name account_id namespace (account_id @ ''-'' @ namespace @ ''-tfstate''))))"

definition collect_bucket_names :: "(path, string) dict \<Rightarrow> path \<Rightarrow> exn + (path \<times> string) list" where
  "collect_bucket_names fs terragrunt_root =
     mapM (bucket_name fs terragrunt_root) (filter (\<lambda>p. ''_envcommon'' \<notin> set (parts p)) (sort_key parts (rglob fs terragrunt_root HCL)))"

text \<open>The errors found: none or one.\<close>

definition run_bucket_name_guard :: "(path, string) dict \<Rightarrow> path \<Rightarrow> exn + exn list" where
  "run_bucket_name_guard fs terragrunt_root = bindR (collect_bucket_names fs terragrunt_root) (\<lambda>collected.
     case assert_bucket_names_unique (map snd collected) of
       Inr u \<Rightarrow> Inr []
     | Inl e \<Rightarrow> if e = BucketNameCollisionError \<or> e = BucketNameTooLongError then Inr [e] else Inl e)"

definition bucket_names_main :: "(path, string) dict \<Rightarrow> (string, string) dict \<Rightarrow> path \<Rightarrow> exn + int" where
  "bucket_names_main fs env repo_root = (case default_terragrunt_root fs env repo_root of
      None \<Rightarrow> Inr 1
    | Some r \<Rightarrow> if \<not> path_exists fs r then Inr 1
        else bindR (run_bucket_name_guard fs r) (\<lambda>errors. Inr (if errors = [] then 0 else 1)))"

section \<open>The GitHub identity provider\<close>

definition GITHUB_OIDC_URL :: string where "GITHUB_OIDC_URL = ''https://token.actions.githubusercontent.com''"
definition GITHUB_OIDC_AUDIENCE :: string where "GITHUB_OIDC_AUDIENCE = ''sts.amazonaws.com''"
definition GITHUB_OIDC_THUMBPRINT :: string where "GITHUB_OIDC_THUMBPRINT = ''6938fd4d98bab03faadb97b34396831e3780aea1''"
definition FORBIDDEN_ACCOUNT_ROLES :: "string list" where "FORBIDDEN_ACCOUNT_ROLES = [''sandbox'', ''dns-owner'']"
definition FORBIDDEN_PROFILES :: "string list" where "FORBIDDEN_PROFILES = [''sandbox'', ''root'']"

datatype provider_result = CREATED | ALREADY_PRESENT

definition load_accounts_data :: "path \<Rightarrow> ('w, json) ci" where
  "load_accounts_data p = bindC get_files (\<lambda>fs. if \<not> path_exists fs p then raise UsageError
     else bindC (read_text p) (\<lambda>t. case json_loads t of Inl e \<Rightarrow> raise (if e = JSONDecodeError then UsageError else e) | Inr v \<Rightarrow> ret v))"

text \<open>The first row with the profile: the profile, the account id and the role.\<close>

fun account_row :: "string \<Rightarrow> (string, json) dict \<Rightarrow> exn + string \<times> string \<times> json" where
  "account_row env [] = Inl UsageError"
| "account_row env ((account_id, info) # rows) = bindR (json_get info ''aws_profile'') (\<lambda>p.
     if p = JStr env then bindR (json_get_default info ''account_role'' (JStr [])) (\<lambda>role. Inr (env, account_id, role))
     else account_row env rows)"

definition oidc_account_info :: "string \<Rightarrow> json \<Rightarrow> exn + string \<times> string \<times> json" where
  "oidc_account_info env accounts_data = (case accounts_data of JObj rows \<Rightarrow> account_row env rows | _ \<Rightarrow> Inl AttributeError)"

text \<open>Membership in a set of strings: a list or a dict has no hash.\<close>

definition in_string_set :: "json \<Rightarrow> string list \<Rightarrow> exn + bool" where
  "in_string_set v names = (case v of JStr z \<Rightarrow> Inr (z \<in> set names) | JList _ \<Rightarrow> Inl TypeError | JObj _ \<Rightarrow> Inl TypeError | _ \<Rightarrow> Inr False)"

definition check_forbidden_target :: "string \<Rightarrow> json \<Rightarrow> exn + unit" where
  "check_forbidden_target env account_role =
     bindR (if env \<in> set FORBIDDEN_PROFILES then Inr True else in_string_set account_role FORBIDDEN_ACCOUNT_ROLES) (\<lambda>forbidden.
       if forbidden then Inl ForbiddenTargetError else Inr ())"

fun first_github_arn :: "json list \<Rightarrow> exn + json option" where
  "first_github_arn [] = Inr None"
| "first_github_arn (p # ps) = bindR (json_get_default p ''Arn'' (JStr [])) (\<lambda>arn.
     bindR (py_in ''token.actions.githubusercontent.com'' arn) (\<lambda>b. if b then Inr (Some arn) else first_github_arn ps))"

abbreviation list_providers :: op where "list_providers \<equiv> (''iam'', ''list_open_id_connect_providers'')"
abbreviation get_provider :: op where "get_provider \<equiv> (''iam'', ''get_open_id_connect_provider'')"
abbreviation create_provider :: op where "create_provider \<equiv> (''iam'', ''create_open_id_connect_provider'')"

definition find_github_provider_arn :: "'v aws \<Rightarrow> ('v cloud, json option) ci" where
  "find_github_provider_arn iam = bindC (aws_call iam list_providers []) (\<lambda>r.
     lift (bindR (items_of r ''OpenIDConnectProviderList'') first_github_arn))"

definition verify_provider_audience :: "'v aws \<Rightarrow> json \<Rightarrow> ('v cloud, json list) ci" where
  "verify_provider_audience iam provider_arn =
     bindC (aws_call iam get_provider [(''OpenIDConnectProviderArn'', provider_arn)]) (\<lambda>detail. lift (items_of detail ''ClientIDList''))"

definition create_kwargs :: kwargs where
  "create_kwargs = [(''Url'', JStr GITHUB_OIDC_URL), (''ClientIDList'', JList [JStr GITHUB_OIDC_AUDIENCE]),
     (''ThumbprintList'', JList [JStr GITHUB_OIDC_THUMBPRINT])]"

text \<open>With what the listing gave: the audience of the provider is verified, or the provider created.\<close>

definition settle_provider :: "'v aws \<Rightarrow> json option \<Rightarrow> ('v cloud, provider_result) ci" where
  "settle_provider iam existing_arn = (case existing_arn of
      Some arn \<Rightarrow> bindC (verify_provider_audience iam arn) (\<lambda>client_ids.
        if JStr GITHUB_OIDC_AUDIENCE \<notin> set client_ids then raise OidcProviderWrongAudienceError else ret ALREADY_PRESENT)
    | None \<Rightarrow> bindC (try_except (aws_call iam create_provider create_kwargs) is_client_error (raise CredentialError)) (\<lambda>response.
        bindC (lift (json_index response ''OpenIDConnectProviderArn'')) (\<lambda>created_arn. ret CREATED)))"

definition bootstrap_oidc_provider :: "(string \<Rightarrow> 'v aws) \<Rightarrow> string \<Rightarrow> json \<Rightarrow> ('v cloud, provider_result) ci" where
  "bootstrap_oidc_provider aws env accounts_data =
     bindC (lift (oidc_account_info env accounts_data)) (\<lambda>(aws_profile, account_id, account_role).
     thenC (lift (check_forbidden_target env account_role))
     (bindC (try_except (find_github_provider_arn (aws aws_profile)) is_client_error (raise CredentialError)) (\<lambda>existing_arn.
       settle_provider (aws aws_profile) existing_arn)))"

definition oidc_main :: "(string \<Rightarrow> 'v aws) \<Rightarrow> path \<Rightarrow> string \<Rightarrow> ('v cloud, unit) ci" where
  "oidc_main aws accounts_json env =
     bindC (try_except (load_accounts_data accounts_json) (\<lambda>e. e = UsageError) (raise (SystemExit 2))) (\<lambda>accounts_data.
     thenC (try_except
        (try_except (thenC (bootstrap_oidc_provider aws env accounts_data) (ret ()))
           (\<lambda>e. e = ForbiddenTargetError \<or> e = OidcProviderWrongAudienceError \<or> e = CredentialError) (raise (SystemExit 1)))
        (\<lambda>e. e = UsageError) (raise (SystemExit 2)))
       (raise (SystemExit 0)))"

section \<open>Athena workgroups\<close>

text \<open>A name that is no string: only a container can hold both segments, and it has no hash.\<close>

definition analytics_name :: "string \<Rightarrow> string list \<Rightarrow> json \<Rightarrow> exn + string option" where
  "analytics_name env seen grp = bindR (json_get_default grp ''Name'' (JStr [])) (\<lambda>nm.
     bindR (py_in ''analytics'' nm) (\<lambda>a. if \<not> a then Inr None else bindR (py_in env nm) (\<lambda>b. if \<not> b then Inr None
       else (case nm of JStr z \<Rightarrow> Inr (if z \<in> set seen then None else Some z) | _ \<Rightarrow> Inl TypeError))))"

fun analytics_names :: "string \<Rightarrow> json list \<Rightarrow> string list \<Rightarrow> exn + string list" where
  "analytics_names env [] names = Inr names"
| "analytics_names env (g # gs) names = bindR (analytics_name env names g) (\<lambda>m.
     analytics_names env gs (case m of None \<Rightarrow> names | Some z \<Rightarrow> names @ [z]))"

fun discover_analytics_workgroups :: "nat \<Rightarrow> 'v aws \<Rightarrow> string \<Rightarrow> json \<Rightarrow> string list \<Rightarrow> ('v cloud, string list) ci" where
  "discover_analytics_workgroups 0 aws env token names = raise Diverges"
| "discover_analytics_workgroups (Suc fuel) aws env token names =
     bindC (aws_call aws (''athena'', ''list_work_groups'') (if truthy token then [(''NextToken'', token)] else [])) (\<lambda>response.
     bindC (lift (bindR (items_of response ''WorkGroups'') (\<lambda>gs. analytics_names env gs names))) (\<lambda>names'.
     bindC (lift (json_get response ''NextToken'')) (\<lambda>token'.
       if truthy token' then discover_analytics_workgroups fuel aws env token' names' else ret names')))"

definition is_absent_error :: "exn \<Rightarrow> string \<Rightarrow> bool" where
  "is_absent_error e msg = (case e of
      ClientError code \<Rightarrow> code \<in> {''ResourceNotFoundException'', ''EntityNotFoundException''} \<or>
        code = ''InvalidRequestException'' \<and> (contains ''not found'' (lower msg) \<or> contains ''does not exist'' (lower msg))
    | _ \<Rightarrow> False)"

definition delete_workgroup :: "('v \<Rightarrow> string) \<Rightarrow> 'v aws \<Rightarrow> string \<Rightarrow> ('v cloud, bool) ci" where
  "delete_workgroup message aws nm = (\<lambda>s.
     case aws_call aws (''athena'', ''delete_work_group'') [(''WorkGroup'', JStr nm), (''RecursiveDeleteOption'', JBool True)] s of
       (Inr r, s') \<Rightarrow> (Inr True, s')
     | (Inl e, s') \<Rightarrow> if is_absent_error e (message (outside (world s'))) then (Inr False, s') else (Inl e, s'))"

record athena_evidence =
  discovered :: "string list"
  deleted :: "string list"
  already_absent :: "string list"

definition athena_cleanup :: "nat \<Rightarrow> ('v \<Rightarrow> string) \<Rightarrow> 'v aws \<Rightarrow> string \<Rightarrow> ('v cloud, athena_evidence) ci" where
  "athena_cleanup fuel message aws env =
     bindC (discover_analytics_workgroups fuel aws env JNull []) (\<lambda>names.
     bindC (mapC (\<lambda>n. bindC (delete_workgroup message aws n) (\<lambda>b. ret (n, b))) names) (\<lambda>rs.
       ret \<lparr>discovered = names, deleted = map fst (filter snd rs), already_absent = map fst (filter (\<lambda>r. \<not> snd r) rs)\<rparr>))"

definition athena_json :: "string \<Rightarrow> athena_evidence \<Rightarrow> json" where
  "athena_json env e = JObj [(''env'', JStr env), (''discovered'', JList (map JStr (discovered e))),
     (''deleted'', JList (map JStr (deleted e))), (''already_absent'', JList (map JStr (already_absent e)))]"

definition athena_region :: "string option \<Rightarrow> ('w, string) ci" where
  "athena_region aws_region = (case or_else aws_region [] of
      [] \<Rightarrow> bindC (getenv ''AWS_DEFAULT_REGION'') (\<lambda>r. let region = strip (the_default [] r) in
        if region = [] then raise AthenaCleanupUsageError else ret region)
    | region \<Rightarrow> ret region)"

definition athena_main :: "nat \<Rightarrow> ('v \<Rightarrow> string) \<Rightarrow> (string \<Rightarrow> 'v aws) \<Rightarrow> string \<Rightarrow> string option \<Rightarrow> string option \<Rightarrow> ('v cloud, int) ci" where
  "athena_main fuel message aws env aws_region output =
     bindC (try_except (try_except
        (bindC (athena_region aws_region) (\<lambda>region. bindC (athena_cleanup fuel message (aws region) env) (\<lambda>e. ret (Inr e))))
        (\<lambda>e. e = AthenaCleanupUsageError) (ret (Inl 2))) is_exception (ret (Inl 1))) (\<lambda>r. case r of
      Inl rc \<Rightarrow> ret rc
    | Inr evidence \<Rightarrow> (let rendered = dumps_indent 0 (athena_json env evidence) in
        thenC (put_line rendered) (case or_else output [] of
            [] \<Rightarrow> ret 0
          | p \<Rightarrow> thenC (make_parents (path_of p)) (thenC (write_text (path_of p) rendered) (ret 0)))))"

section \<open>Outputs of a unit\<close>

definition parse_raw_output :: "string \<Rightarrow> exn + string" where
  "parse_raw_output raw_value = (let stripped = strip raw_value in if stripped = [] then Inl EmptyOutputValueError else Inr stripped)"

definition output_cmd :: "string \<Rightarrow> command" where
  "output_cmd output_name = Command [''terragrunt'', ''output'', ''-raw'', output_name] None"

text \<open>The command runs in the directory of the unit: \<open>runner d\<close> answers the commands started in \<open>d\<close>.\<close>

definition fetch_terragrunt_output :: "(string \<Rightarrow> 'w runner) \<Rightarrow> string \<Rightarrow> string \<Rightarrow> ('w, string) ci" where
  "fetch_terragrunt_output runner unit_dir output_name =
     bindC (run_cmd (runner unit_dir) (output_cmd output_name)) (\<lambda>r. if returncode r \<noteq> 0 then raise RuntimeError else ret (stdout r))"

definition tg_output_main :: "(string \<Rightarrow> 'w runner) \<Rightarrow> string \<Rightarrow> string \<Rightarrow> string \<Rightarrow> ('w, int) ci" where
  "tg_output_main runner unit_dir n output =
     try_except (bindC (fetch_terragrunt_output runner unit_dir n) (\<lambda>raw_value. bindC (lift (parse_raw_output raw_value)) (\<lambda>v.
       thenC (write_output output n v) (ret 0)))) is_runtime_error (ret 1)"

section \<open>The key is ready\<close>

lemma state_cmk_ready_iff:
  "assert_state_cmk_ready x = Inr () \<longleftrightarrow> (\<exists>r m. x = Some r \<and> json_index r ''KeyMetadata'' = Inr m \<and> json_index m ''KeyState'' = Inr (JStr ''Enabled''))"
proof (cases x)
  case (Some r)
  then show ?thesis
    by (cases "bindR (json_index r ''KeyMetadata'') (\<lambda>m. json_index m ''KeyState'')") (auto simp: assert_state_cmk_ready_def bindR_Inr_iff bindR_Inl_iff split: if_splits)
qed (simp add: assert_state_cmk_ready_def)

text \<open>A preflight that passes made at most the identity call and one description of the key, and the answer to the latter, for the
  alias of the account, was an enabled key.\<close>

theorem preflight_needs_enabled_key:
  assumes "preflight_main aws s = (Inr 0, s')"
  shows "\<exists>region account pre v r m. calls (world s') = calls (world s) @ pre @ [((''kms'', ''describe_key''), [(''KeyId'', JStr (state_alias account))])] \<and>
     (pre = [] \<and> map_of (environ s) ''AWS_ACCOUNT_ID'' = Some account \<or> pre = [((''sts'', ''get_caller_identity''), [])]) \<and>
     aws region (''kms'', ''describe_key'') [(''KeyId'', JStr (state_alias account))] v = (Aws_Ok r, outside (world s')) \<and>
     json_index r ''KeyMetadata'' = Inr m \<and> json_index m ''KeyState'' = Inr (JStr ''Enabled'')"
proof -
  define region where "region = or_else (map_of (environ s) ''AWS_REGION'') (or_else (map_of (environ s) ''AWS_DEFAULT_REGION'') ''us-east-1'')"
  have "\<exists>x t. preflight_account aws region s = (Inr x, t) \<and> (case x of None \<Rightarrow> ret 1
     | Some a \<Rightarrow> try_except (thenC (run_preflight aws a region) (ret 0)) (\<lambda>e. e = StateKmsKeyNotFoundError \<or> e = StateKmsKeyNotEnabledError) (ret 1)) t = (Inr (0 :: int), s')"
    using assms unfolding preflight_main_def Let_def region_def by (simp add: bindC_Inr_iff)
  then obtain a t where a: "preflight_account aws region s = (Inr (Some a), t)" and "run_preflight aws a region t = (Inr (), s')"
    by (auto simp: ci_Inr_iffs split: option.splits)
  then obtain r where f: "fetch_state_cmk (aws region) (state_alias a) t = (Inr (Some r), s')"
    and r: "\<exists>m. json_index r ''KeyMetadata'' = Inr m \<and> json_index m ''KeyState'' = Inr (JStr ''Enabled'')"
    by (auto simp: run_preflight_def bindC_Inr_iff state_cmk_ready_iff)
  from f obtain v where v: "aws region (''kms'', ''describe_key'') [(''KeyId'', JStr (state_alias a))] (outside (world t)) = (Aws_Ok r, v)"
    "s' = t\<lparr>world := \<lparr>outside = v, calls = calls (world t) @ [((''kms'', ''describe_key''), [(''KeyId'', JStr (state_alias a))])]\<rparr>\<rparr>"
    by (auto simp: fetch_state_cmk_def ci_Inr_iffs aws_call_Inr_iff)
  have "\<exists>pre. calls (world t) = calls (world s) @ pre \<and>
     (pre = [] \<and> map_of (environ s) ''AWS_ACCOUNT_ID'' = Some a \<or> pre = [((''sts'', ''get_caller_identity''), [])])"
    using a by (cases "map_of (environ s) ''AWS_ACCOUNT_ID''")
      (auto simp: preflight_account_def bindC_Inr_iff try_except_Inr_iff sts_account_id_def aws_call_Inr_iff split: list.splits if_splits)
  then obtain pre where pre: "calls (world t) = calls (world s) @ pre"
    "pre = [] \<and> map_of (environ s) ''AWS_ACCOUNT_ID'' = Some a \<or> pre = [((''sts'', ''get_caller_identity''), [])]" by blast
  from r obtain m where m: "json_index r ''KeyMetadata'' = Inr m" "json_index m ''KeyState'' = Inr (JStr ''Enabled'')" by blast
  show ?thesis
    by (rule exI [of _ region], rule exI [of _ a], rule exI [of _ pre], rule exI [of _ "outside (world t)"], rule exI [of _ r], rule exI [of _ m])
      (use pre v m in simp)
qed

section \<open>Bucket names fit\<close>

lemma digits_then_length: "(t, c') \<in> set (rmatch (foldr (\<lambda>_. Seq (Cls P)) ns Eps) (s, c)) \<Longrightarrow> c' = c \<and> length s = length t + length ns"
  by (induction ns arbitrary: s) (auto simp: matches)

lemma quoted_group_length:
  assumes D: "\<And>t c c' s. (t, c') \<in> set (rmatch D (s, c)) \<Longrightarrow> c' = c \<and> length s = length t + n"
    and m: "(t, c) \<in> set (rmatch (Seq a (Seq (Grp ''1'' D) Quote)) st0)"
  shows "length (group1 (t, c)) = n"
proof -
  from m obtain st1 where "(t, c) \<in> set (rmatch (Seq (Grp ''1'' D) Quote) st1)" unfolding in_Seq by blast
  moreover obtain s c0 where "st1 = (s, c0)" by fastforce
  ultimately obtain v c2 where v: "(v, c2) \<in> set (rmatch (Grp ''1'' D) (s, c0))" "(t, c) \<in> set (rmatch Quote (v, c2))" unfolding in_Seq by blast
  then have "c = c2" unfolding in_Cls by blast
  with v(1) obtain u c1 where g: "s = u @ v" "(v, c1) \<in> set (rmatch D (s, c0))" "c = AList.update ''1'' u c1" unfolding in_Grp by blast
  from D [OF g(2)] g(1,3) show ?thesis by (simp add: group1_def cap_of_def update_conv')
qed

lemma seq_tail: "st \<in> set (rmatch (Seq a b) st0) \<Longrightarrow> \<exists>st1. st \<in> set (rmatch b st1)"
  unfolding in_Seq by blast

lemma account_id_length: "re_search ACCOUNT_ID_RE content = Some st \<Longrightarrow> length (group1 st) = 12"
proof -
  assume "re_search ACCOUNT_ID_RE content = Some st"
  then obtain q where q: "st \<in> set (rmatch ACCOUNT_ID_RE (q, []))" using re_search_in by blast
  obtain t c where st: "st = (t, c)" by fastforce
  define D where "D = foldr (\<lambda>_. Seq (Cls is_digit)) [0..<12] Eps"
  have "st \<in> set (rmatch (Seq (Lit ''aws_account_id'') (Seq Spaces (Seq (Ch (CHR ''='')) (Seq Spaces (Seq Quote (Seq (Grp ''1'' D) Quote)))))) (q, []))"
    using q unfolding ACCOUNT_ID_RE_def D_def .
  from seq_tail [OF this] obtain st1 where "st \<in> set (rmatch (Seq Spaces (Seq (Ch (CHR ''='')) (Seq Spaces (Seq Quote (Seq (Grp ''1'' D) Quote))))) st1)" ..
  from seq_tail [OF this] obtain st2 where "st \<in> set (rmatch (Seq (Ch (CHR ''='')) (Seq Spaces (Seq Quote (Seq (Grp ''1'' D) Quote)))) st2)" ..
  from seq_tail [OF this] obtain st3 where "st \<in> set (rmatch (Seq Spaces (Seq Quote (Seq (Grp ''1'' D) Quote))) st3)" ..
  from seq_tail [OF this] obtain st4 where "st \<in> set (rmatch (Seq Quote (Seq (Grp ''1'' D) Quote)) st4)" ..
  then show ?thesis unfolding st
    by (rule quoted_group_length [rotated]) (use digits_then_length [where ns = "[0..<12]"] in \<open>simp add: D_def del: upt_conv_Cons_Cons upt_rec_numeral\<close>)
qed

lemma account_id_up_length: "account_id_up fs p = Inr (Some a) \<Longrightarrow> length a = 12"
proof (induction fs p rule: account_id_up.induct)
  case (1 fs p)
  have IH: "path_parent p \<noteq> p \<Longrightarrow> account_id_up fs (path_parent p) = Inr (Some a) \<Longrightarrow> length a = 12" using "1.IH" [OF refl] .
  from "1.prems" show ?case
    unfolding account_id_up.simps [of fs p] Let_def
    by (auto simp: bindR_Inr_iff dest: account_id_length IH split: option.splits if_splits simp del: split_paired_All split_paired_Ex)
qed

lemma lower_length [simp]: "length (lower s) = length s"
  by (simp add: lower_def)

lemma shortened_fits: "length account_id = 12 \<Longrightarrow> length (shorten_bucket_name account_id namespace raw) \<le> 63"
  by (simp add: shorten_bucket_name_def Let_def MAX_BUCKET_NAME_LENGTH_def min_def)

lemma account_or_default_length:
  assumes "account_id_up fs p = Inr a"
  shows "length (or_else a ''000000000000'') = 12"
  using assms account_id_up_length by (cases a) auto

lemma bucket_name_fits: "bucket_name fs r p = Inr (q, n) \<Longrightarrow> q = p \<and> length n \<le> 63"
  by (auto simp: bucket_name_def find_account_id_in_ancestors_def bindR_Inr_iff Let_def intro!: shortened_fits account_or_default_length)

text \<open>C31. No derived bucket name is longer than 63 characters, so the guard never reports a length; it passes exactly when the names of
  all units are distinct.\<close>

theorem bucket_guard_exact:
  assumes "collect_bucket_names fs r = Inr bs"
  shows "list_all (\<lambda>(p, n). length n \<le> 63) bs \<and>
    run_bucket_name_guard fs r = Inr (if distinct (map snd bs) then [] else [BucketNameCollisionError])"
proof -
  have "list_all2 (\<lambda>p b. bucket_name fs r p = Inr b) ps bs \<Longrightarrow> list_all (\<lambda>(p, n). length n \<le> 63) bs" for ps
    by (induction rule: list_all2_induct) (auto dest: bucket_name_fits)
  then have "list_all (\<lambda>(p, n). length n \<le> 63) bs" using assms unfolding collect_bucket_names_def mapM_Inr_iff .
  moreover from this have "\<not> list_ex (\<lambda>n. MAX_BUCKET_NAME_LENGTH < length n) (map snd bs)"
    by (fastforce simp: list_all_iff list_ex_iff MAX_BUCKET_NAME_LENGTH_def)
  ultimately show ?thesis using assms by (simp add: run_bucket_name_guard_def assert_bucket_names_unique_def)
qed

section \<open>The provider is created once and never changed\<close>

lemma first_github_arn_None:
  "first_github_arn ps = Inr None \<longleftrightarrow> list_all (\<lambda>p. \<exists>arn. json_get_default p ''Arn'' (JStr []) = Inr arn \<and>
     py_in ''token.actions.githubusercontent.com'' arn = Inr False) ps"
  by (induction ps) (auto simp: bindR_Inr_iff split: if_splits)

text \<open>What a bootstrap may do: nothing, look, or create the provider when no listed one is of GitHub.\<close>

definition oidc_calls :: "(op \<times> kwargs) list \<Rightarrow> json option \<Rightarrow> bool" where
  "oidc_calls cs listing = (cs = [] \<or> cs = [(list_providers, [])] \<or>
     (\<exists>arn. cs = [(list_providers, []), (get_provider, [(''OpenIDConnectProviderArn'', arn)])]) \<or>
     cs = [(list_providers, []), (create_provider, create_kwargs)] \<and>
       (\<exists>r ps. listing = Some r \<and> items_of r ''OpenIDConnectProviderList'' = Inr ps \<and> first_github_arn ps = Inr None))"

definition listing_of :: "'v aws \<Rightarrow> 'v cloud ci_state \<Rightarrow> json option" where
  "listing_of iam s = (case iam list_providers [] (outside (world s)) of (Aws_Ok r, v) \<Rightarrow> Some r | _ \<Rightarrow> None)"

text \<open>A call is logged whatever the answer.\<close>

lemma aws_call_logs: "aws_call aws f kw s = (q, t) \<Longrightarrow> calls (world t) = calls (world s) @ [(f, kw)]"
  by (auto simp: aws_call_def log_call_def bindC_def Let_def split: prod.splits sum.splits aws_answer.splits)

lemma find_github_provider_logs:
  "find_github_provider_arn iam s = (q, t) \<Longrightarrow> calls (world t) = calls (world s) @ [(list_providers, [])]"
  by (auto simp: find_github_provider_arn_def bindC_def dest: aws_call_logs split: prod.splits sum.splits)

lemma find_github_provider_None:
  "find_github_provider_arn iam s = (Inr None, t) \<Longrightarrow>
     \<exists>r ps. listing_of iam s = Some r \<and> items_of r ''OpenIDConnectProviderList'' = Inr ps \<and> first_github_arn ps = Inr None"
  by (auto simp: find_github_provider_arn_def bindC_Inr_iff bindR_Inr_iff aws_call_Inr_iff listing_of_def)

lemma verify_audience_logs:
  "verify_provider_audience iam arn s = (q, t) \<Longrightarrow> calls (world t) = calls (world s) @ [(get_provider, [(''OpenIDConnectProviderArn'', arn)])]"
  by (auto simp: verify_provider_audience_def bindC_def dest: aws_call_logs split: prod.splits sum.splits)

lemma try_raise_cases:
  "try_except m p (raise e) s = (q, t) \<Longrightarrow> \<exists>q'. m s = (q', t) \<and> (q = q' \<or> (\<exists>e'. q' = Inl e' \<and> q = Inl e))"
  by (auto simp: try_except_def split: prod.splits sum.splits if_splits)

lemma account_profile: "oidc_account_info env data = Inr (p, account, role) \<Longrightarrow> p = env"
proof -
  have "account_row env rows = Inr (p, account, role) \<Longrightarrow> p = env" for rows
    by (induction rows) (auto simp: bindR_Inr_iff split: if_splits)
  then show "oidc_account_info env data = Inr (p, account, role) \<Longrightarrow> p = env" by (auto simp: oidc_account_info_def split: json.splits)
qed

text \<open>An error of the audience lookup is not turned into a credential error.\<close>

lemma oidc_audience_error_escapes: "verify_provider_audience iam arn s = (Inl e, t) \<Longrightarrow> settle_provider iam (Some arn) s = (Inl e, t)"
  by (simp add: settle_provider_def bindC_def)

text \<open>C32. A bootstrap never touches the provider of a forbidden environment or role, never changes an existing provider, and creates one only when the
  service has just listed none of GitHub's.\<close>

theorem oidc_creates_only_when_absent:
  "\<exists>cs. calls (world (snd (bootstrap_oidc_provider aws env data s))) = calls (world s) @ cs \<and>
     (cs = [] \<or> (\<exists>account role. oidc_account_info env data = Inr (env, account, role) \<and> env \<notin> {''sandbox'', ''root''} \<and>
        role \<notin> {JStr ''sandbox'', JStr ''dns-owner''} \<and> oidc_calls cs (listing_of (aws env) s)))"
proof -
  consider (early) e where "bootstrap_oidc_provider aws env data s = (Inl e, s)"
    | (known) account role where "oidc_account_info env data = Inr (env, account, role)" "check_forbidden_target env role = Inr ()"
  proof -
    show thesis
    proof (cases "oidc_account_info env data")
      case (Inl e)
      then show ?thesis using early by (simp add: bootstrap_oidc_provider_def bindC_def)
    next
      case (Inr x)
      then obtain account role where x: "x = (env, account, role)" using account_profile by (cases x) auto
      show ?thesis
      proof (cases "check_forbidden_target env role")
        case (Inl e)
        then show ?thesis using early Inr x by (simp add: bootstrap_oidc_provider_def bindC_def thenC_def)
      next
        case (Inr u)
        then show ?thesis using known \<open>oidc_account_info env data = Inr x\<close> x by simp
      qed
    qed
  qed
  then show ?thesis
  proof cases
    case early
    then show ?thesis by (intro exI [of _ "[]"]) simp
  next
    case known
    have role: "env \<notin> {''sandbox'', ''root''} \<and> role \<notin> {JStr ''sandbox'', JStr ''dns-owner''}"
      using known(2) by (auto simp: check_forbidden_target_def bindR_Inr_iff in_string_set_def FORBIDDEN_PROFILES_def FORBIDDEN_ACCOUNT_ROLES_def split: if_splits json.splits)
    obtain q t where t: "bootstrap_oidc_provider aws env data s = (q, t)" by fastforce
    obtain f u where f: "try_except (find_github_provider_arn (aws env)) is_client_error (raise CredentialError) s = (f, u)" by fastforce
    obtain f' where f': "find_github_provider_arn (aws env) s = (f', u)" "f = f' \<or> (\<exists>e'. f' = Inl e' \<and> f = Inl CredentialError)"
      using try_raise_cases [OF f] by blast
    have u: "calls (world u) = calls (world s) @ [(list_providers, [])]" using find_github_provider_logs [OF f'(1)] .
    have "\<exists>cs. calls (world t) = calls (world s) @ cs \<and> oidc_calls cs (listing_of (aws env) s)"
    proof (cases f)
      case (Inl e)
      then have "t = u" using t known f by (simp add: bootstrap_oidc_provider_def bindC_def thenC_def)
      then show ?thesis using u by (auto simp: oidc_calls_def)
    next
      case (Inr arn)
      show ?thesis
      proof (cases arn)
        case None
        obtain c w where c: "try_except (aws_call (aws env) create_provider create_kwargs) is_client_error (raise CredentialError) u = (c, w)" by fastforce
        then have "calls (world w) = calls (world u) @ [(create_provider, create_kwargs)]" using try_raise_cases aws_call_logs by fast
        moreover have "t = w" using t known f c Inr None by (auto simp: settle_provider_def bootstrap_oidc_provider_def bindC_def thenC_def split: sum.splits)
        moreover have "f' = Inr None" using f' Inr None by auto
        ultimately show ?thesis using u find_github_provider_None [OF f'(1) [unfolded \<open>f' = Inr None\<close>]] by (auto simp: oidc_calls_def)
      next
        case (Some a)
        obtain c w where c: "verify_provider_audience (aws env) a u = (c, w)" by fastforce
        have "t = w" using t known f c Inr Some by (auto simp: settle_provider_def bootstrap_oidc_provider_def bindC_def thenC_def split: sum.splits if_splits)
        then show ?thesis using u verify_audience_logs [OF c] by (auto simp: oidc_calls_def)
      qed
    qed
    then show ?thesis using t known(1) role by auto
  qed
qed

text \<open>A bootstrap that succeeds leaves the account with the provider: the last answer was the audience list of a present one with the audience
  of AWS, or the creation of one.\<close>

theorem oidc_success_has_provider:
  assumes "bootstrap_oidc_provider aws env data s = (Inr r, s')"
  shows "(r = ALREADY_PRESENT \<and> (\<exists>arn d v xs. aws env get_provider [(''OpenIDConnectProviderArn'', arn)] v = (Aws_Ok d, outside (world s')) \<and>
       items_of d ''ClientIDList'' = Inr xs \<and> JStr GITHUB_OIDC_AUDIENCE \<in> set xs)) \<or>
     (r = CREATED \<and> (\<exists>d v arn. aws env create_provider create_kwargs v = (Aws_Ok d, outside (world s')) \<and> json_index d ''OpenIDConnectProviderArn'' = Inr arn))"
proof -
  obtain p account role existing t where a: "oidc_account_info env data = Inr (p, account, role)"
    and t: "find_github_provider_arn (aws p) s = (Inr existing, t)" "settle_provider (aws p) existing t = (Inr r, s')"
    using assms unfolding bootstrap_oidc_provider_def by (auto simp: ci_Inr_iffs)
  note t = t [unfolded account_profile [OF a]]
  show ?thesis
  proof (cases existing)
    case None
    then obtain d v where "aws env create_provider create_kwargs (outside (world t)) = (Aws_Ok d, v)" "outside (world s') = v"
      "\<exists>arn. json_index d ''OpenIDConnectProviderArn'' = Inr arn" "r = CREATED"
      using t(2) by (auto simp: settle_provider_def ci_Inr_iffs aws_call_Inr_iff)
    then show ?thesis by blast
  next
    case (Some arn)
    then obtain d v xs where "aws env get_provider [(''OpenIDConnectProviderArn'', arn)] (outside (world t)) = (Aws_Ok d, v)" "outside (world s') = v"
      "items_of d ''ClientIDList'' = Inr xs" "JStr GITHUB_OIDC_AUDIENCE \<in> set xs" "r = ALREADY_PRESENT"
      using t(2) by (auto simp: settle_provider_def ci_Inr_iffs verify_provider_audience_def aws_call_Inr_iff split: if_splits)
    then show ?thesis by blast
  qed
qed

section \<open>Only the workgroups of the environment are deleted\<close>

text \<open>Listing, or the recursive deletion of a name with both segments.\<close>

definition athena_allowed :: "string \<Rightarrow> op \<times> kwargs \<Rightarrow> bool" where
  "athena_allowed env = (\<lambda>(f, kw). f = (''athena'', ''list_work_groups'') \<or> f = (''athena'', ''delete_work_group'') \<and>
     (\<exists>n. kw = [(''WorkGroup'', JStr n), (''RecursiveDeleteOption'', JBool True)] \<and> contains ''analytics'' n \<and> contains env n))"

definition analytics_ok :: "string \<Rightarrow> string list \<Rightarrow> bool" where
  "analytics_ok env names = (distinct names \<and> list_all (\<lambda>n. contains ''analytics'' n \<and> contains env n) names)"

lemma analytics_name_ok: "analytics_name env seen g = Inr (Some z) \<Longrightarrow> contains ''analytics'' z \<and> contains env z \<and> z \<notin> set seen"
  by (auto simp: analytics_name_def bindR_Inr_iff py_in_def split: if_splits json.splits)

lemma analytics_names_ok: "analytics_ok env names \<Longrightarrow> analytics_names env gs names = Inr names' \<Longrightarrow> analytics_ok env names'"
proof (induction env gs names rule: analytics_names.induct)
  case (2 env g gs names)
  from "2.prems"(2) obtain m where m: "analytics_name env names g = Inr m" "analytics_names env gs (case m of None \<Rightarrow> names | Some z \<Rightarrow> names @ [z]) = Inr names'"
    by (auto simp: bindR_Inr_iff)
  have "analytics_ok env (case m of None \<Rightarrow> names | Some z \<Rightarrow> names @ [z])"
    using "2.prems"(1) m(1) by (cases m) (auto simp: analytics_ok_def dest: analytics_name_ok)
  then show ?case using "2.IH" m by blast
qed simp

lemma discover_ok:
  "analytics_ok env names \<Longrightarrow> discover_analytics_workgroups fuel aws env token names s = (Inr names', s') \<Longrightarrow> analytics_ok env names'"
proof (induction fuel aws env token names arbitrary: s rule: discover_analytics_workgroups.induct)
  case (2 fuel aws env token names)
  from "2.prems"(2) obtain r t gs names1 token1 u where t: "items_of r ''WorkGroups'' = Inr gs" "analytics_names env gs names = Inr names1"
    "(if truthy token1 then discover_analytics_workgroups fuel aws env token1 names1 else ret names1) u = (Inr names', s')"
    by (auto simp: bindC_Inr_iff bindR_Inr_iff)
  have ok: "analytics_ok env names1" using "2.prems"(1) t(2) by (rule analytics_names_ok)
  then show ?case using "2.IH" t(3) by (auto split: if_splits)
qed simp

lemma calls_discover: "calls_only (athena_allowed e) (discover_analytics_workgroups fuel aws env token names)"
proof (induction fuel arbitrary: token names)
  case 0
  show ?case unfolding discover_analytics_workgroups.simps by (rule calls_none)
next
  case (Suc fuel)
  show ?case unfolding discover_analytics_workgroups.simps by (intro calls_intros Suc.IH) (simp add: athena_allowed_def)
qed

lemma calls_delete_workgroup:
  assumes "contains ''analytics'' n" "contains env n"
  shows "calls_only (athena_allowed env) (delete_workgroup message aws n)"
proof (rule calls_onlyI)
  fix s r s'
  assume d: "delete_workgroup message aws n s = (r, s')"
  obtain q t where q: "aws_call aws (''athena'', ''delete_work_group'') [(''WorkGroup'', JStr n), (''RecursiveDeleteOption'', JBool True)] s = (q, t)" by fastforce
  have "s' = t" using d q by (auto simp: delete_workgroup_def split: sum.splits if_splits)
  then show "\<exists>cs. calls (world s') = calls (world s) @ cs \<and> list_all (athena_allowed env) cs"
    using aws_call_logs [OF q] assms by (auto simp: athena_allowed_def)
qed

lemma calls_athena_cleanup: "calls_only (athena_allowed env) (athena_cleanup fuel message aws env)"
  unfolding athena_cleanup_def
proof (rule calls_bind_result [OF calls_discover])
  fix s names s'
  assume "discover_analytics_workgroups fuel aws env JNull [] s = (Inr names, s')"
  then have "analytics_ok env names" by (rule discover_ok [rotated]) (simp add: analytics_ok_def)
  then show "calls_only (athena_allowed env)
     (bindC (mapC (\<lambda>n. bindC (delete_workgroup message aws n) (\<lambda>b. ret (n, b))) names)
        (\<lambda>rs. ret \<lparr>discovered = names, deleted = map fst (filter snd rs), already_absent = map fst (filter (\<lambda>r. \<not> snd r) rs)\<rparr>))"
    by (intro calls_intros calls_delete_workgroup) (auto simp: analytics_ok_def list_all_iff)
qed

text \<open>Whatever the service lists, the cleanup only lists workgroups and deletes those whose name has the analytics and the environment segment.\<close>

theorem athena_deletes_only_env: "calls_only (athena_allowed env) (athena_main fuel message aws env aws_region output)"
proof -
  have "calls_only (athena_allowed env) (athena_region aws_region)"
    unfolding athena_region_def by (cases "or_else aws_region []") (auto intro!: calls_intros)
  moreover have "calls_only (athena_allowed env) (case or_else output [] of [] \<Rightarrow> ret (0 :: int) | p \<Rightarrow> thenC (make_parents (path_of p)) (thenC (write_text (path_of p) t) (ret 0)))" for t
    by (cases "or_else output []") (auto intro!: calls_intros)
  ultimately show ?thesis
    unfolding athena_main_def by (auto intro!: calls_intros calls_athena_cleanup split: sum.splits)
qed

lemma delete_all_result:
  "mapC (\<lambda>n. bindC (delete_workgroup message aws n) (\<lambda>b. ret (n, b))) names s = (Inr rs, s') \<Longrightarrow> map fst rs = names"
  by (induction names arbitrary: s rs) (auto simp: bindC_Inr_iff)

text \<open>The evidence of a finished cleanup lists every discovered workgroup once and puts each among the deleted or the absent ones.\<close>

theorem athena_evidence_complete:
  assumes "athena_cleanup fuel message aws env s = (Inr e, s')"
  shows "distinct (discovered e) \<and> set (deleted e) \<union> set (already_absent e) = set (discovered e) \<and>
    set (deleted e) \<inter> set (already_absent e) = {} \<and> length (deleted e) + length (already_absent e) = length (discovered e)"
proof -
  obtain names t rs where n: "discover_analytics_workgroups fuel aws env JNull [] s = (Inr names, t)"
    and rs: "map fst rs = names" and e: "e = \<lparr>discovered = names, deleted = map fst (filter snd rs), already_absent = map fst (filter (\<lambda>r. \<not> snd r) rs)\<rparr>"
    using assms by (auto simp: athena_cleanup_def bindC_Inr_iff dest: delete_all_result)
  have d: "distinct (map fst rs)" using discover_ok [OF _ n] rs by (simp add: analytics_ok_def)
  then have "set (map fst (filter snd rs)) \<inter> set (map fst (filter (\<lambda>r. \<not> snd r) rs)) = {}" by (auto simp: distinct_map inj_on_def) 
  moreover have "fst ` set (filter snd rs) \<union> fst ` set (filter (\<lambda>r. \<not> snd r) rs) = fst ` set rs"
    unfolding image_Un [symmetric] by (rule arg_cong [where f = "image fst"]) auto
  moreover have "fst ` set rs = set names" "length rs = length names" unfolding rs [symmetric] by simp_all
  ultimately show ?thesis using d rs sum_length_filter_compl [of snd rs] unfolding e by simp
qed

section \<open>Runs\<close>

text \<open>An account that remembers whether the provider was created, and a key service with one enabled key.\<close>

definition ex_iam :: "string \<Rightarrow> bool aws" where
  "ex_iam profile f kw v = (if f = list_providers
      then (Aws_Ok (JObj [(''OpenIDConnectProviderList'', JList (if v then [JObj [(''Arn'', JStr ''arn:oidc-provider/token.actions.githubusercontent.com'')]] else []))]), v)
      else if f = create_provider then (Aws_Ok (JObj [(''OpenIDConnectProviderArn'', JStr ''arn:oidc-provider/token.actions.githubusercontent.com'')]), True)
      else (Aws_Ok (JObj [(''ClientIDList'', JList [JStr GITHUB_OIDC_AUDIENCE])]), v))"

definition ex_oidc_accounts :: json where
  "ex_oidc_accounts = JObj [(''222222222222'', JObj [(''aws_profile'', JStr ''qa''), (''account_role'', JStr ''qa-infra'')])]"

definition ex_oidc_state :: "bool \<Rightarrow> bool cloud ci_state" where
  "ex_oidc_state v = \<lparr>world = \<lparr>outside = v, calls = []\<rparr>, cmds = [], environ = [], files = [], readonly = [], printed = []\<rparr>"

text \<open>The first run creates the provider, a second one finds it.\<close>

lemma oidc_twice:
  "fst (bootstrap_oidc_provider ex_iam ''qa'' ex_oidc_accounts (ex_oidc_state False)) = Inr CREATED"
  "fst (bootstrap_oidc_provider ex_iam ''qa'' ex_oidc_accounts (ex_oidc_state True)) = Inr ALREADY_PRESENT"
  by code_simp+

theorem oidc_success_has_provider_witness:
  "(CREATED = ALREADY_PRESENT \<and> (\<exists>arn d v xs. ex_iam ''qa'' get_provider [(''OpenIDConnectProviderArn'', arn)] v = (Aws_Ok d, True) \<and>
       items_of d ''ClientIDList'' = Inr xs \<and> JStr GITHUB_OIDC_AUDIENCE \<in> set xs)) \<or>
     (CREATED = CREATED \<and> (\<exists>d v arn. ex_iam ''qa'' create_provider create_kwargs v = (Aws_Ok d, True) \<and> json_index d ''OpenIDConnectProviderArn'' = Inr arn))"
proof -
  let ?m = "bootstrap_oidc_provider ex_iam ''qa'' ex_oidc_accounts (ex_oidc_state False)"
  have m: "?m = (Inr CREATED, snd ?m)" using oidc_twice(1) by (metis prod.collapse)
  have o: "outside (world (snd ?m)) = True" by code_simp
  from oidc_success_has_provider [OF m] show ?thesis unfolding o .
qed

definition ex_kms :: "string \<Rightarrow> unit aws" where
  "ex_kms region f kw v = (Aws_Ok (JObj [(''KeyMetadata'', JObj [(''KeyState'', JStr ''Enabled'')])]), v)"

definition ex_kms_state :: "unit cloud ci_state" where
  "ex_kms_state = \<lparr>world = \<lparr>outside = (), calls = []\<rparr>, cmds = [], environ = [(''AWS_ACCOUNT_ID'', ''111111111111'')], files = [], readonly = [], printed = []\<rparr>"

theorem preflight_needs_enabled_key_witness:
  "\<exists>region account pre v r m. [((''kms'', ''describe_key''), [(''KeyId'', JStr ''alias/111111111111-tfstate'')])] = pre @ [((''kms'', ''describe_key''), [(''KeyId'', JStr (state_alias account))])] \<and>
     (pre = [] \<and> Some ''111111111111'' = Some account \<or> pre = [((''sts'', ''get_caller_identity''), [])]) \<and>
     ex_kms region (''kms'', ''describe_key'') [(''KeyId'', JStr (state_alias account))] v = (Aws_Ok r, ()) \<and>
     json_index r ''KeyMetadata'' = Inr m \<and> json_index m ''KeyState'' = Inr (JStr ''Enabled'')"
proof -
  let ?s = "ex_kms_state\<lparr>world := \<lparr>outside = (), calls = [((''kms'', ''describe_key''), [(''KeyId'', JStr ''alias/111111111111-tfstate'')])]\<rparr>\<rparr>"
  have "preflight_main ex_kms ex_kms_state = (Inr 0, ?s)" by code_simp
  from preflight_needs_enabled_key [OF this] show ?thesis by (simp add: ex_kms_state_def)
qed

definition ex_bucket_files :: "(path, string) dict" where
  "ex_bucket_files = [(path_of ''tg/live/qa/account.hcl'', ''aws_account_id = '' @ CHR 0x22 # ''222222222222'' @ [CHR 0x22]),
     (path_of ''tg/live/qa/a_b/terragrunt.hcl'', []), (path_of ''tg/live/qa/a/b/terragrunt.hcl'', [])]"

text \<open>Two units whose directories differ only in how they are split have one name.\<close>

theorem bucket_guard_exact_witness:
  "list_all (\<lambda>(p, n). length n \<le> 63) [(path_of ''tg/live/qa/a/b/terragrunt.hcl'', ''222222222222-qa-a-b-tfstate''), (path_of ''tg/live/qa/a_b/terragrunt.hcl'', ''222222222222-qa-a-b-tfstate'')] \<and>
   run_bucket_name_guard ex_bucket_files (path_of ''tg'') = Inr [BucketNameCollisionError]"
proof -
  have "collect_bucket_names ex_bucket_files (path_of ''tg'') =
    Inr [(path_of ''tg/live/qa/a/b/terragrunt.hcl'', ''222222222222-qa-a-b-tfstate''), (path_of ''tg/live/qa/a_b/terragrunt.hcl'', ''222222222222-qa-a-b-tfstate'')]" by code_simp
  from bucket_guard_exact [OF this] show ?thesis by simp
qed

definition ex_athena :: "nat aws" where
  "ex_athena f kw v = (if f = (''athena'', ''list_work_groups'')
     then (Aws_Ok (JObj [(''WorkGroups'', JList [JObj [(''Name'', JStr ''primary'')], JObj [(''Name'', JStr ''ns-sandbox-analytics'')]])]), v)
     else if v = 0 then (Aws_Raises (ClientError ''InvalidRequestException''), v) else (Aws_Ok JNull, v))"

theorem athena_evidence_complete_witness:
  "distinct [''ns-sandbox-analytics''] \<and> set [] \<union> set [''ns-sandbox-analytics''] = set [''ns-sandbox-analytics''] \<and>
    set [] \<inter> set [''ns-sandbox-analytics''] = {} \<and> length ([] :: string list) + length [''ns-sandbox-analytics''] = length [''ns-sandbox-analytics'']"
proof -
  let ?s = "\<lparr>world = \<lparr>outside = (0 :: nat), calls = []\<rparr>, cmds = [], environ = [], files = [], readonly = [], printed = []\<rparr>"
  let ?m = "athena_cleanup 5 (\<lambda>v. ''WorkGroup is not found.'') ex_athena ''sandbox'' ?s"
  have "fst ?m = Inr \<lparr>discovered = [''ns-sandbox-analytics''], deleted = [], already_absent = [''ns-sandbox-analytics'']\<rparr>" by code_simp
  then have "?m = (Inr \<lparr>discovered = [''ns-sandbox-analytics''], deleted = [], already_absent = [''ns-sandbox-analytics'']\<rparr>, snd ?m)" by (metis prod.collapse)
  from athena_evidence_complete [OF this] show ?thesis by simp
qed

end
