(* ===== verification/Lints.thy ===== *)
theory Lints
  imports Guarding
begin

text \<open>
  Three more guards over the text of the tree: the dependency paths of units (\<open>scripts/tf_validate_dependency_paths.py\<close>), identity
  literals in the live tree (\<open>scripts/tg_no_hardcoded_identity.py\<close>) and the tagging contract of the examples
  (\<open>scripts/check_terratest_tags.py\<close>).
\<close>

section \<open>Dependency paths\<close>

text \<open>\<open>\${[^}]+}\<close>\<close>

definition INTERPOLATION_RE :: rx where
  "INTERPOLATION_RE = Seq (Lit [CHR ''$'', CHR 0x7B]) (Seq (Plus True (Cls (\<lambda>c. c \<noteq> CHR 0x7D))) (Ch (CHR 0x7D)))"

text \<open>\<open>r.sub(rep, s)\<close> for a pattern that never matches the empty string.\<close>

function re_sub :: "rx \<Rightarrow> string \<Rightarrow> string \<Rightarrow> string" where
  "re_sub r rep s = (case s of
      [] \<Rightarrow> []
    | c # t \<Rightarrow> (case re_match r s of
          None \<Rightarrow> c # re_sub r rep t
        | Some (u, cs) \<Rightarrow> if length u < length s then rep @ re_sub r rep u else c # re_sub r rep t))"
  by pat_completeness auto
termination by (relation "measure (\<lambda>(r, rep, s). length s)") auto

declare re_sub.simps [simp del]

text \<open>The directories below \<open>base\<close> that a relative glob with these segments selects.\<close>

fun glob_dirs :: "(path, string) dict \<Rightarrow> string list \<Rightarrow> path \<Rightarrow> path list" where
  "glob_dirs fs [] base = (if is_dir fs base then [base] else [])"
| "glob_dirs fs (seg # segs) base =
     (if seg = ''..'' then glob_dirs fs segs (path_parent base)
      else if seg = ''**'' then concat (map (glob_dirs fs segs) (base # filter (\<lambda>p. anchored p = anchored base \<and> strict_prefix (parts base) (parts p) \<and> is_dir fs p) (tree_entries fs)))
      else concat (map (\<lambda>n. glob_dirs fs segs (Path (anchored base) (parts base @ [n])))
        (filter (\<lambda>n. fnmatch n seg \<and> is_dir fs (Path (anchored base) (parts base @ [n]))) (list_dir fs base))))"

definition validate_dependency_path :: "(path, string) dict \<Rightarrow> path \<Rightarrow> string \<Rightarrow> exn + unit" where
  "validate_dependency_path fs hcl_file raw_config_path =
     (let unit_dir = path_parent hcl_file in
      if re_search INTERPOLATION_RE raw_config_path \<noteq> None
      then let glob_pattern = path_of (re_sub INTERPOLATION_RE ''*'' raw_config_path) in
        if anchored glob_pattern then Inl OtherError
        else if glob_dirs fs (parts glob_pattern) unit_dir = [] then Inl UnresolvableDependencyError else Inr ()
      else if \<not> path_exists fs (resolved (path_div unit_dir raw_config_path)) then Inl UnresolvableDependencyError else Inr ())"

fun each :: "('a \<Rightarrow> exn + unit) \<Rightarrow> 'a list \<Rightarrow> exn + unit" where
  "each f [] = Inr ()"
| "each f (x # xs) = bindR (f x) (\<lambda>_. each f xs)"

definition validate_all_dependencies :: "(path, string) dict \<Rightarrow> path \<Rightarrow> exn + unit" where
  "validate_all_dependencies fs terragrunt_root =
     each (\<lambda>p. bindR (parse_dependency_paths fs p) (\<lambda>raws. each (validate_dependency_path fs p) raws)) (sort_key parts (rglob fs terragrunt_root HCL))"

definition dependency_paths_main :: "(path, string) dict \<Rightarrow> (string, string) dict \<Rightarrow> path \<Rightarrow> exn + int" where
  "dependency_paths_main fs env repo_root = (case default_terragrunt_root fs env repo_root of
      None \<Rightarrow> Inr 1
    | Some r \<Rightarrow> if \<not> path_exists fs r then Inr 1
        else (case validate_all_dependencies fs r of
            Inl e \<Rightarrow> if e = UnresolvableDependencyError then Inr 1 else Inl e
          | Inr u \<Rightarrow> Inr 0))"

section \<open>Identity literals\<close>

datatype identity_rule = Account_Id | Region | Domain_Apex | Cidr | Digit_Config_Path | Declared_Local

record identity_finding =
  if_file :: path
  if_line :: nat
  if_rule :: identity_rule
  if_literal :: string

record scanner_config =
  live_root :: path
  allowlist_patterns :: "string list"
  exempt_account_id_var_names :: "string list"
  exempt_config_path_patterns :: "rx list"

definition MOCK_BLOCK_START_RE :: rx where
  "MOCK_BLOCK_START_RE = Alt (Seq (Lit ''mock_outputs'') (Seq Spaces (Seq (Ch (CHR ''='')) (Seq Spaces (Ch (CHR 0x7B))))))
     (Seq (Lit ''mock_outputs'') (Seq Spaces (Ch (CHR 0x7B))))"

definition ACCOUNT_ID_IN_QUOTES_RE :: rx where
  "ACCOUNT_ID_IN_QUOTES_RE = Seq Quote (Seq (Grp ''1'' (foldr (\<lambda>_. Seq (Cls is_digit)) [0..<12] Eps)) Quote)"

definition REGION_LITERAL_RE :: rx where
  "REGION_LITERAL_RE = Seq Quote (Seq (Grp ''1'' (Alt (Lit ''us-east-1'') (Lit ''useast1''))) Quote)"

definition DOMAIN_APEX_RE :: rx where "DOMAIN_APEX_RE = Lit ''telemetry.example.com''"

definition CIDR_LITERAL_RE :: rx where
  "CIDR_LITERAL_RE = Seq (Lit (CHR 0x22 # ''10.'')) (Seq Digits (Lit (''.0.0/16'' @ [CHR 0x22])))"

definition CONFIG_PATH_VALUE_RE :: rx where
  "CONFIG_PATH_VALUE_RE = Seq (Lit ''config_path'') (Seq Spaces (Seq (Ch (CHR ''='')) (Seq Spaces (Seq Quote
     (Seq (Grp ''1'' (Star True (Cls (\<lambda>c. c \<noteq> CHR 0x22)))) Quote)))))"

text \<open>\<open>/(\d{1,11})(?:/|$)\<close>\<close>

definition DIGIT_PATH_SEGMENT_RE :: rx where
  "DIGIT_PATH_SEGMENT_RE = Seq (Ch (CHR ''/'')) (Seq (Grp ''1'' (Seq (Cls is_digit) (foldr (\<lambda>_ r. Opt (Seq (Cls is_digit) r)) [0..<10] Eps)))
     (Alt (Ch (CHR ''/'')) EndD))"

definition DECLARED_LOCAL_RE :: rx where
  "DECLARED_LOCAL_RE = Seq (Lit ''declared_'') (Seq (Plus True (Cls word_char)) (Seq Spaces (Ch (CHR ''=''))))"

definition ASSIGNMENT_VAR_NAME_RE :: rx where
  "ASSIGNMENT_VAR_NAME_RE = Seq Spaces (Seq (Grp ''1'' (Plus True (Cls word_char))) (Seq Spaces (Ch (CHR ''=''))))"

text \<open>\<open>re.search\<close> with a leading word boundary: the matched text and the groups.\<close>

definition word_search :: "rx \<Rightarrow> string \<Rightarrow> (string \<times> mstate) option" where
  "word_search r s = map_option (\<lambda>(a, u, cs). (take (length a - length u) a, u, cs)) (search_from word_start r None s)"

definition is_allowlisted :: "string \<Rightarrow> string list \<Rightarrow> bool" where
  "is_allowlisted rel_path patterns = (let posix = replace_char (CHR 0x5C) (CHR ''/'') rel_path in
     list_ex (\<lambda>pat. fnmatch posix pat \<or> endswith pat ''/**'' \<and>
       (let stem = take (length pat - 3) pat in startswith posix (stem @ ''/'') \<or> posix = stem)) patterns)"

definition collect_hcl_files :: "(path, string) dict \<Rightarrow> scanner_config \<Rightarrow> exn + path list" where
  "collect_hcl_files fs config =
     (if \<not> path_exists fs (live_root config) \<or> \<not> is_dir fs (live_root config) then Inl ValueError
      else let all_files = sort_key parts (filter (\<lambda>p. anchored p = anchored (live_root config) \<and> strict_prefix (parts (live_root config)) (parts p) \<and>
             endswith (path_name p) ''.hcl'') (tree_entries fs));
           rel = (\<lambda>f. path_str (the_default f (relative_to f (path_parent (live_root config))))) in
        Inr (filter (\<lambda>f. \<not> is_allowlisted (rel f) (allowlist_patterns config)) all_files))"

definition strip_inline_comment :: "string \<Rightarrow> string" where
  "strip_inline_comment line = takeWhile (\<lambda>c. c \<noteq> CHR ''#'') line"

definition check_account_id :: "scanner_config \<Rightarrow> string \<Rightarrow> string option" where
  "check_account_id config code_part = (case re_search ACCOUNT_ID_IN_QUOTES_RE code_part of
      None \<Rightarrow> None
    | Some st \<Rightarrow> if word_search CONFIG_PATH_VALUE_RE code_part \<noteq> None then None
        else (case re_match ASSIGNMENT_VAR_NAME_RE code_part of
            Some m \<Rightarrow> if group1 m \<in> set (exempt_account_id_var_names config) then None else Some (group1 st)
          | None \<Rightarrow> Some (group1 st)))"

definition check_region :: "string \<Rightarrow> string option" where
  "check_region code_part = map_option group1 (re_search REGION_LITERAL_RE code_part)"

text \<open>\<open>m.group(0)\<close> of a search.\<close>

definition matched_text :: "rx \<Rightarrow> string \<Rightarrow> string option" where
  "matched_text r s = map_option (\<lambda>(a, u, cs). take (length a - length u) a) (search_from (\<lambda>_. True) r None s)"

definition check_domain_apex :: "string \<Rightarrow> string option" where "check_domain_apex code_part = matched_text DOMAIN_APEX_RE code_part"
definition check_cidr :: "string \<Rightarrow> string option" where "check_cidr code_part = matched_text CIDR_LITERAL_RE code_part"

definition check_config_path_digit_index :: "scanner_config \<Rightarrow> string \<Rightarrow> string option" where
  "check_config_path_digit_index config code_part = (case word_search CONFIG_PATH_VALUE_RE code_part of
      None \<Rightarrow> None
    | Some (m, st) \<Rightarrow> if list_ex (\<lambda>r. re_search r (group1 st) \<noteq> None) (exempt_config_path_patterns config) then None
        else map_option (\<lambda>d. CHR ''/'' # group1 d) (re_search DIGIT_PATH_SEGMENT_RE (group1 st)))"

definition check_declared_local :: "string \<Rightarrow> string option" where
  "check_declared_local code_part = map_option (\<lambda>(m, st). strip (rev (dropWhile (\<lambda>c. c = CHR ''='' \<or> c = CHR '' '') (rev m)))) (word_search DECLARED_LOCAL_RE code_part)"

definition line_rules :: "scanner_config \<Rightarrow> string \<Rightarrow> (identity_rule \<times> string) list" where
  "line_rules config code_part = List.map_filter (\<lambda>(r, x). map_option (Pair r) x)
     [(Account_Id, check_account_id config code_part), (Region, check_region code_part), (Domain_Apex, check_domain_apex code_part),
      (Cidr, check_cidr code_part), (Digit_Config_Path, check_config_path_digit_index config code_part), (Declared_Local, check_declared_local code_part)]"

text \<open>The loop over the lines, with the flag and the depth of the mock block.\<close>

definition braces :: "string \<Rightarrow> int" where
  "braces line = int (count_list line (CHR 0x7B)) - int (count_list line (CHR 0x7D))"

fun scan_lines :: "(string \<Rightarrow> (identity_rule \<times> string) list) \<Rightarrow> bool \<Rightarrow> int \<Rightarrow> nat \<Rightarrow> string list \<Rightarrow> (nat \<times> identity_rule \<times> string) list" where
  "scan_lines rules in_mock depth lineno [] = []"
| "scan_lines rules in_mock depth lineno (line # lines) =
     (let starts = search_from word_start MOCK_BLOCK_START_RE None line \<noteq> None;
          in_mock' = (in_mock \<or> starts); depth' = (if starts then 0 else depth) + braces line in
      if in_mock' then scan_lines rules (0 < depth') depth' (lineno + 1) lines
      else (if startswith (dropWhile is_ws line) ''#'' then [] else map (Pair lineno) (rules (strip_inline_comment line))) @
        scan_lines rules False depth (lineno + 1) lines)"

definition scan_file :: "(path, string) dict \<Rightarrow> scanner_config \<Rightarrow> path \<Rightarrow> exn + identity_finding list" where
  "scan_file fs config hcl_file = bindR (file_text fs hcl_file) (\<lambda>content.
     Inr (map (\<lambda>(n, r, l). \<lparr>if_file = hcl_file, if_line = n, if_rule = r, if_literal = l\<rparr>) (scan_lines (line_rules config) False 0 1 (splitlines content))))"

definition scan_tree :: "(path, string) dict \<Rightarrow> scanner_config \<Rightarrow> bool \<Rightarrow> exn + identity_finding list" where
  "scan_tree fs config raise_on_findings = bindR (collect_hcl_files fs config) (\<lambda>hcl_files.
     bindR (mapM (scan_file fs config) hcl_files) (\<lambda>rs.
       if raise_on_findings \<and> concat rs \<noteq> [] then Inl HardcodedIdentityError else Inr (concat rs)))"

definition run_scanner :: "(path, string) dict \<Rightarrow> scanner_config \<Rightarrow> exn + int" where
  "run_scanner fs config = (case scan_tree fs config False of
      Inl e \<Rightarrow> if is_value_error e \<or> is_os_error e then Inr 1 else Inl e
    | Inr findings \<Rightarrow> Inr (if findings = [] then 0 else 1))"

definition build_default_config :: "path \<Rightarrow> scanner_config" where
  "build_default_config r = \<lparr>live_root = r, allowlist_patterns = [''common/**'', ''**/terraform.tfvars''],
     exempt_account_id_var_names = [''sandbox_account_id'', ''prod_account_id''],
     exempt_config_path_patterns = [Seq (Ch (CHR ''/'')) (foldr (\<lambda>_. Seq (Cls is_digit)) [0..<12] (Ch (CHR ''/''))), Lit ''/bootstrap/'']\<rparr>"

definition resolve_live_root :: "(path, string) dict \<Rightarrow> (string, string) dict \<Rightarrow> path \<Rightarrow> string option \<Rightarrow> exn + path" where
  "resolve_live_root fs env repo_root root_arg = (case the_default [] root_arg of
      [] \<Rightarrow> (case the_default [] (map_of env ''TG_LIVE_ROOT'') of
          [] \<Rightarrow> (let candidate = path_div repo_root ''terragrunt/live'' in if path_exists fs candidate then Inr candidate else Inl ValueError)
        | p \<Rightarrow> Inr (path_of p))
    | p \<Rightarrow> Inr (path_of p))"

definition identity_main :: "(path, string) dict \<Rightarrow> (string, string) dict \<Rightarrow> path \<Rightarrow> string option \<Rightarrow> exn + int" where
  "identity_main fs env repo_root root_arg = (case resolve_live_root fs env repo_root root_arg of
      Inl e \<Rightarrow> if is_value_error e then Inr 1 else Inl e
    | Inr r \<Rightarrow> run_scanner fs (build_default_config r))"

section \<open>The tagging contract\<close>

definition DEFAULT_TAGS_RE :: rx where "DEFAULT_TAGS_RE = Seq (Lit ''default_tags'') (Seq Spaces (Ch (CHR 0x7B)))"
definition PROJECT_TAG_REF_RE :: rx where "PROJECT_TAG_REF_RE = Seq (Lit ''var.project_tag'') WordEnd"
definition RUN_ID_REF_RE :: rx where "RUN_ID_REF_RE = Seq (Lit ''var.terratest_run_id'') WordEnd"

definition TAG_VARIABLE_RE :: rx where
  "TAG_VARIABLE_RE = Seq (Lit ''variable'') (Seq (Plus True (Cls is_ws)) (Seq Quote (Seq (Grp ''1'' (Alt (Lit ''project_tag'') (Lit ''terratest_run_id'')))
     (Seq Quote (Seq Spaces (Seq (Ch (CHR 0x7B)) (Seq (Grp ''2'' NoBrace) (Ch (CHR 0x7D)))))))))"

definition DEFAULT_ASSIGNMENT_RE :: rx where "DEFAULT_ASSIGNMENT_RE = Seq (Lit ''default'') (Seq Spaces (Ch (CHR ''='')))"
definition PROVIDER_AWS_RE :: rx where
  "PROVIDER_AWS_RE = Seq (Lit ''provider'') (Seq (Plus True (Cls is_ws)) (Seq (Lit (CHR 0x22 # ''aws'' @ [CHR 0x22])) (Seq Spaces (Ch (CHR 0x7B)))))"

text \<open>\<open>^\s*key\s*=\s*"([^"]*)"\<close>\<close>

definition TFVARS_RE :: "string \<Rightarrow> rx" where
  "TFVARS_RE key = Seq Spaces (Seq (Lit key) (Seq Spaces (Seq (Ch (CHR ''='')) (Seq Spaces (Seq Quote
     (Seq (Grp ''1'' (Star True (Cls (\<lambda>c. c \<noteq> CHR 0x22)))) Quote))))))"

datatype tag_element = Tags_Absent | Not_Wired string | Has_Default string | Variable_Absent string | Tfvars_Absent
  | Tfvars_Missing string | Tfvars_Wrong string string | Provider_Absent | Variables_Absent

type_synonym tag_violation = "path \<times> nat \<times> tag_element"

text \<open>The line of the position whose rest of the text is \<open>a\<close>.\<close>

definition line_number :: "string \<Rightarrow> string \<Rightarrow> nat" where
  "line_number content a = count_list (take (length content - length a) content) (CHR 0x0A) + 1"

definition check_default_tags_wiring :: "path \<Rightarrow> string \<Rightarrow> tag_violation list" where
  "check_default_tags_wiring provider_file content = (case search_from (\<lambda>_. True) DEFAULT_TAGS_RE None content of
      None \<Rightarrow> [(provider_file, 1, Tags_Absent)]
    | Some (a, block_content, cs) \<Rightarrow>
        (if re_search PROJECT_TAG_REF_RE block_content = None then [(provider_file, line_number content a, Not_Wired ''project_tag'')] else []) @
        (if re_search RUN_ID_REF_RE block_content = None then [(provider_file, line_number content a, Not_Wired ''terratest_run_id'')] else []))"

definition check_variable_declarations :: "path \<Rightarrow> string \<Rightarrow> tag_violation list" where
  "check_variable_declarations variables_file content = (let blocks = find_from (\<lambda>_. True) TAG_VARIABLE_RE None content in
     List.map_filter (\<lambda>(a, st). if search_from word_start DEFAULT_ASSIGNMENT_RE None (group2 st) \<noteq> None
       then Some (variables_file, line_number content a, Has_Default (group1 st)) else None) blocks @
     map (\<lambda>v. (variables_file, 1, Variable_Absent v)) (filter (\<lambda>v. v \<notin> (group1 \<circ> snd) ` set blocks) [''project_tag'', ''terratest_run_id'']))"

definition check_tfvars_key :: "path \<Rightarrow> string \<Rightarrow> string \<Rightarrow> string \<Rightarrow> tag_violation list" where
  "check_tfvars_key tfvars_path content key expected_value = (case search_from line_start (TFVARS_RE key) None content of
      None \<Rightarrow> [(tfvars_path, 1, Tfvars_Missing key)]
    | Some (a, st) \<Rightarrow> if group1 st \<noteq> expected_value then [(tfvars_path, line_number content a, Tfvars_Wrong key (group1 st))] else [])"

definition check_tfvars_offline_values :: "(path, string) dict \<Rightarrow> path \<Rightarrow> exn + tag_violation list" where
  "check_tfvars_offline_values fs ex_dir = (let p = path_div ex_dir ''terraform.tfvars'' in
     if \<not> path_exists fs p then Inr [(p, 1, Tfvars_Absent)]
     else bindR (file_text fs p) (\<lambda>content.
       Inr (check_tfvars_key p content ''project_tag'' ''telemetry-platform'' @ check_tfvars_key p content ''terratest_run_id'' ''offline-validate'')))"

fun first_provider :: "(path, string) dict \<Rightarrow> path list \<Rightarrow> exn + path option" where
  "first_provider fs [] = Inr None"
| "first_provider fs (p # ps) = bindR (file_text fs p) (\<lambda>content.
     if search_from word_start PROVIDER_AWS_RE None content \<noteq> None then Inr (Some p) else first_provider fs ps)"

definition tf_files :: "(path, string) dict \<Rightarrow> path \<Rightarrow> path list" where
  "tf_files fs ex_dir = map (\<lambda>n. Path (anchored ex_dir) (parts ex_dir @ [n])) (filter (\<lambda>n. endswith n ''.tf'') (list_dir fs ex_dir))"

definition find_provider_file :: "(path, string) dict \<Rightarrow> path \<Rightarrow> exn + path option" where
  "find_provider_file fs ex_dir = first_provider fs (sort_key parts (tf_files fs ex_dir))"

text \<open>A directory lists its entries in the order of the file dictionary.\<close>

definition check_example_dir :: "(path, string) dict \<Rightarrow> path \<Rightarrow> exn + tag_violation list" where
  "check_example_dir fs ex_dir =
     bindR (find_provider_file fs ex_dir) (\<lambda>provider_file.
     bindR (case provider_file of
         Some p \<Rightarrow> bindR (file_text fs p) (\<lambda>content. Inr (check_default_tags_wiring p content))
       | None \<Rightarrow> Inr [(case tf_files fs ex_dir of p # _ \<Rightarrow> p | [] \<Rightarrow> path_div ex_dir ''versions.tf'', 1, Provider_Absent)]) (\<lambda>v1.
     bindR (let p = path_div ex_dir ''variables.tf'' in
         if path_exists fs p then bindR (file_text fs p) (\<lambda>content. Inr (check_variable_declarations p content))
         else Inr [(p, 1, Variables_Absent)]) (\<lambda>v2.
     bindR (check_tfvars_offline_values fs ex_dir) (\<lambda>v3. Inr (v1 @ v2 @ v3)))))"

definition example_dirs_below :: "(path, string) dict \<Rightarrow> path \<Rightarrow> path list" where
  "example_dirs_below fs r = concat (map (\<lambda>c. filter (is_dir fs) (map (\<lambda>n. Path (anchored c) (parts c @ [n])) (sort (list_dir fs c))))
     (filter (\<lambda>c. is_dir fs c \<and> ''.terraform'' \<notin> set (parts c)) (sort_key parts (rglob fs r ''examples''))))"

definition collect_example_dirs :: "(path, string) dict \<Rightarrow> path list \<Rightarrow> exn + path list" where
  "collect_example_dirs fs roots = (if list_ex (\<lambda>r. \<not> path_exists fs r) roots then Inl TagsContractError
     else Inr (concat (map (example_dirs_below fs) roots)))"

definition run_tags_check :: "(path, string) dict \<Rightarrow> path list \<Rightarrow> exn + tag_violation list" where
  "run_tags_check fs roots = bindR (collect_example_dirs fs roots) (\<lambda>ds. bindR (mapM (check_example_dir fs) ds) (\<lambda>rs. Inr (concat rs)))"

definition tags_roots :: "(path, string) dict \<Rightarrow> (string, string) dict \<Rightarrow> path \<Rightarrow> path list" where
  "tags_roots fs env cwd = (case the_default [] (map_of env ''TERRATEST_TAGS_ROOTS'') of
      [] \<Rightarrow> filter (path_exists fs) [path_div cwd ''providers/aws/primitives'', path_div cwd ''providers/aws/references'']
    | roots \<Rightarrow> map (\<lambda>p. path_of (strip p)) (filter (\<lambda>p. strip p \<noteq> []) (split_on (CHR '','') (replace_char (CHR '':'') (CHR '','') roots))))"

definition tags_main :: "(path, string) dict \<Rightarrow> (string, string) dict \<Rightarrow> path \<Rightarrow> exn + int" where
  "tags_main fs env cwd = (case run_tags_check fs (tags_roots fs env cwd) of
      Inl e \<Rightarrow> if e = TagsContractError then Inr 1 else Inl e
    | Inr violations \<Rightarrow> Inr (if violations = [] then 0 else 1))"

end
