(* ===== verification/Linting.thy ===== *)
theory Linting
  imports Lints
begin

text \<open>What the guards of \<open>Lints\<close> enforce.\<close>

section \<open>Dependency paths\<close>

lemma each_Inr: "each f xs = Inr () \<longleftrightarrow> (\<forall>x \<in> set xs. f x = Inr ())"
  by (induction xs) (auto simp: bindR_Inr_iff)

lemma glob_dirs_are_dirs: "d \<in> set (glob_dirs fs segs base) \<Longrightarrow> is_dir fs d"
  by (induction fs segs base rule: glob_dirs.induct) (auto split: if_splits)

lemma validate_dependency_path_Inr:
  "validate_dependency_path fs p raw = Inr () \<longleftrightarrow>
     (if re_search INTERPOLATION_RE raw = None then path_exists fs (resolved (path_div (path_parent p) raw))
      else \<not> anchored (path_of (re_sub INTERPOLATION_RE ''*'' raw)) \<and>
        (\<exists>d \<in> set (glob_dirs fs (parts (path_of (re_sub INTERPOLATION_RE ''*'' raw))) (path_parent p)). is_dir fs d))"
proof -
  let ?g = "glob_dirs fs (parts (path_of (re_sub INTERPOLATION_RE ''*'' raw))) (path_parent p)"
  have "?g \<noteq> [] \<longleftrightarrow> (\<exists>d \<in> set ?g. is_dir fs d)" using glob_dirs_are_dirs list.set_intros(1) by (metis empty_iff empty_set neq_Nil_conv)
  then show ?thesis unfolding validate_dependency_path_def Let_def by (simp split del: if_split) (auto split: if_splits)
qed

text \<open>The dependency guard accepts a tree exactly when the tree is there and every dependency of every unit
  leads somewhere: a plain path exists once resolved against the directory of the unit, and a path with
  interpolations has a directory for some choice of one segment per interpolation.\<close>

theorem dependency_guard_exact:
  "dependency_paths_main fs env repo_root = Inr 0 \<longleftrightarrow>
     (\<exists>r. default_terragrunt_root fs env repo_root = Some r \<and> path_exists fs r \<and>
       (\<forall>p \<in> set (rglob fs r HCL). \<exists>raws. parse_dependency_paths fs p = Inr raws \<and>
         (\<forall>raw \<in> set raws.
           if re_search INTERPOLATION_RE raw = None then path_exists fs (resolved (path_div (path_parent p) raw))
           else \<not> anchored (path_of (re_sub INTERPOLATION_RE ''*'' raw)) \<and>
             (\<exists>d \<in> set (glob_dirs fs (parts (path_of (re_sub INTERPOLATION_RE ''*'' raw))) (path_parent p)). is_dir fs d))))"
proof -
  have a: "validate_all_dependencies fs r = Inr () \<longleftrightarrow> (\<forall>p \<in> set (rglob fs r HCL). \<exists>raws. parse_dependency_paths fs p = Inr raws \<and>
      (\<forall>raw \<in> set raws. validate_dependency_path fs p raw = Inr ()))" for r
    by (simp add: validate_all_dependencies_def each_Inr bindR_Inr_iff)
  have m: "dependency_paths_main fs env repo_root = Inr 0 \<longleftrightarrow>
      (\<exists>r. default_terragrunt_root fs env repo_root = Some r \<and> path_exists fs r \<and> validate_all_dependencies fs r = Inr ())"
    by (auto simp: dependency_paths_main_def split: option.splits sum.splits)
  show ?thesis unfolding m a validate_dependency_path_Inr ..
qed

lemma dependency_guard_exact_witness:
  "let fs = [(Path True [''l'', ''a'', HCL], concat [''dependency '', [CHR 0x22], ''b'', [CHR 0x22, CHR '' '', CHR 0x7B], '' config_path = '', [CHR 0x22], ''../b'', [CHR 0x22, CHR 0x7D]]),
      (Path True [''l'', ''b'', HCL], [])] in
   dependency_paths_main fs [(''TG_LIVE_ROOT'', ''/l'')] (Path True []) = Inr 0 \<and> path_exists fs (resolved (Path True [''l'', ''a'', ''..'', ''b'']))"
  (is "let fs = ?fs in _ fs")
proof -
  have m: "dependency_paths_main ?fs [(''TG_LIVE_ROOT'', ''/l'')] (Path True []) = Inr 0" by code_simp
  have p: "Path True [''l'', ''a'', HCL] \<in> set (rglob ?fs (Path True [''l'']) HCL)" by code_simp
  have r: "default_terragrunt_root ?fs [(''TG_LIVE_ROOT'', ''/l'')] (Path True []) = Some (Path True [''l''])" by code_simp
  have d: "parse_dependency_paths ?fs (Path True [''l'', ''a'', HCL]) = Inr [''../b'']" by code_simp
  have n: "re_search INTERPOLATION_RE ''../b'' = None" by code_simp
  have v: "path_div (path_parent (Path True [''l'', ''a'', HCL])) ''../b'' = Path True [''l'', ''a'', ''..'', ''b'']" by code_simp
  have "path_exists ?fs (resolved (Path True [''l'', ''a'', ''..'', ''b'']))"
    using iffD1 [OF dependency_guard_exact m] p r d n v by force
  with m show ?thesis unfolding Let_def by blast
qed

text \<open>A plain path may lead to a file, though a dependency is a directory.\<close>

lemma dependency_may_be_a_file:
  "validate_dependency_path [(Path True [''u'', ''terragrunt.hcl''], []), (Path True [''n''], [])] (Path True [''u'', ''terragrunt.hcl'']) ''../n'' = Inr ()"
  by code_simp

section \<open>Identity literals\<close>

text \<open>The lines the scanner looks at, without their comments.\<close>

fun seen_lines :: "bool \<Rightarrow> int \<Rightarrow> nat \<Rightarrow> string list \<Rightarrow> (nat \<times> string) list" where
  "seen_lines in_mock depth n [] = []"
| "seen_lines in_mock depth n (line # lines) =
     (let opens = search_from word_start MOCK_BLOCK_START_RE None line \<noteq> None; d = (if opens then 0 else depth) + braces line in
      if in_mock \<or> opens then seen_lines (0 < d) d (n + 1) lines
      else (if startswith (dropWhile is_ws line) ''#'' then [] else [(n, strip_inline_comment line)]) @ seen_lines False depth (n + 1) lines)"

lemma scan_lines_seen: "scan_lines rules m d n ls = concat (map (\<lambda>(n, c). map (Pair n) (rules c)) (seen_lines m d n ls))"
  by (induction rules m d n ls rule: scan_lines.induct) (auto simp: Let_def)

lemma quoted_group_search:
  "re_search (Seq Quote (Seq (Grp n r) Quote)) s = None \<longleftrightarrow>
     \<not> (\<exists>u v x c. s = u @ CHR 0x22 # v @ CHR 0x22 # x \<and> (CHR 0x22 # x, c) \<in> set (rmatch r (v @ CHR 0x22 # x, [])))"
proof -
  have "(\<exists>st. st \<in> set (rmatch (Seq Quote (Seq (Grp n r) Quote)) (q, []))) \<longleftrightarrow>
      (\<exists>v x c. q = CHR 0x22 # v @ CHR 0x22 # x \<and> (CHR 0x22 # x, c) \<in> set (rmatch r (v @ CHR 0x22 # x, [])))" for q
    unfolding seq_Ch in_Seq [of _ "Grp n r"] in_Grp in_Cls split_paired_Ex by blast
  then have "re_search (Seq Quote (Seq (Grp n r) Quote)) s \<noteq> None \<longleftrightarrow>
      (\<exists>p q. s = p @ q \<and> (\<exists>v x c. q = CHR 0x22 # v @ CHR 0x22 # x \<and> (CHR 0x22 # x, c) \<in> set (rmatch r (v @ CHR 0x22 # x, []))))"
    unfolding re_search_iff by metis
  then show ?thesis by auto
qed

lemma quoted_alt_search:
  "re_search (Seq Quote (Seq (Grp n (Alt (Lit a) (Lit b))) Quote)) s = None \<longleftrightarrow>
     \<not> contains (CHR 0x22 # a @ [CHR 0x22]) s \<and> \<not> contains (CHR 0x22 # b @ [CHR 0x22]) s"
  unfolding quoted_group_search in_Alt in_Lit contains_iff by auto

lemma check_region_None: "check_region s = None \<longleftrightarrow>
    \<not> contains (CHR 0x22 # ''us-east-1'' @ [CHR 0x22]) s \<and> \<not> contains (CHR 0x22 # ''useast1'' @ [CHR 0x22]) s"
  unfolding check_region_def REGION_LITERAL_RE_def option.map_disc_iff quoted_alt_search ..

lemma search_from_any: "search_from (\<lambda>_. True) r p s = None \<longleftrightarrow> \<not> (\<exists>u v t c. s = u @ v \<and> (t, c) \<in> set (rmatch r (v, [])))"
proof -
  have "xs \<noteq> [] \<longleftrightarrow> (\<exists>t c. (t, c) \<in> set xs)" for xs :: "mstate list" by (cases xs) auto
  then show ?thesis using search_from_iff [of "\<lambda>_. True" r p s] by metis
qed

lemma lit_search: "search_from (\<lambda>_. True) (Lit l) p s = None \<longleftrightarrow> \<not> contains l s"
  unfolding search_from_any in_Lit contains_iff by auto

lemma check_domain_apex_None: "check_domain_apex s = None \<longleftrightarrow> \<not> contains ''telemetry.example.com'' s"
  unfolding check_domain_apex_def matched_text_def DOMAIN_APEX_RE_def option.map_disc_iff lit_search ..

lemma lit_plus_lit_search: "search_from (\<lambda>_. True) (Seq (Lit a) (Seq (Plus g (Cls P)) (Lit b))) p s = None \<longleftrightarrow>
    \<not> (\<exists>n. n \<noteq> [] \<and> list_all P n \<and> contains (a @ n @ b) s)"
  unfolding search_from_any seq_Lit seq_plus in_Lit contains_iff by (simp only: append.assoc) blast

lemma check_cidr_None: "check_cidr s = None \<longleftrightarrow>
    \<not> (\<exists>n. n \<noteq> [] \<and> list_all is_digit n \<and> contains ((CHR 0x22 # ''10.'') @ n @ (''.0.0/16'' @ [CHR 0x22])) s)"
  unfolding check_cidr_def matched_text_def CIDR_LITERAL_RE_def option.map_disc_iff lit_plus_lit_search ..

text \<open>A word \<open>declared_\<dots>\<close> that is assigned.\<close>

definition declares :: "string \<Rightarrow> bool" where
  "declares s = (\<exists>u w b v. s = u @ ''declared_'' @ w @ b @ ''='' @ v \<and> (u = [] \<or> \<not> word_char (last u)) \<and>
     w \<noteq> [] \<and> list_all word_char w \<and> list_all is_ws b)"

lemma some_match: "rmatch r st \<noteq> [] \<longleftrightarrow> (\<exists>t c. (t, c) \<in> set (rmatch r st))"
  by (cases "rmatch r st") auto

lemma lit_plus_star_ch:
  "rmatch (Seq (Lit l) (Seq (Plus g (Cls P)) (Seq (Star h (Cls Q)) (Ch k)))) (q, c) \<noteq> [] \<longleftrightarrow>
     (\<exists>w b v. q = l @ w @ b @ [k] @ v \<and> w \<noteq> [] \<and> list_all P w \<and> list_all Q b)"
  unfolding some_match seq_Lit seq_plus seq_star in_Cls
proof
  assume "\<exists>w b v. q = l @ w @ b @ [k] @ v \<and> w \<noteq> [] \<and> list_all P w \<and> list_all Q b"
  then obtain w b v where "q = l @ w @ b @ [k] @ v" "w \<noteq> []" "list_all P w" "list_all Q b" by blast
  then show "\<exists>t ca ta. q = l @ ta \<and> (\<exists>u tb. u \<noteq> [] \<and> list_all P u \<and> ta = u @ tb \<and>
      (\<exists>u' tc. list_all Q u' \<and> tb = u' @ tc \<and> ca = c \<and> (\<exists>x. x = k \<and> tc = x # t)))"
    by (intro exI [of _ v] exI [of _ c] exI [of _ "w @ b @ k # v"] conjI exI [of _ w] exI [of _ "b @ k # v"] exI [of _ b] exI [of _ "k # v"] exI [of _ k]) simp_all
qed auto

lemma check_declared_local_None: "check_declared_local s = None \<longleftrightarrow> \<not> declares s"
proof -
  have w: "word_start (if u = [] then None else Some (last u)) \<longleftrightarrow> u = [] \<or> \<not> word_char (last u)" for u
    by (simp add: word_start_def)
  have "search_from word_start DECLARED_LOCAL_RE None s \<noteq> None \<longleftrightarrow> declares s"
    unfolding search_from_iff w DECLARED_LOCAL_RE_def lit_plus_star_ch declares_def by blast
  then show ?thesis unfolding check_declared_local_def word_search_def option.map_disc_iff by blast
qed

text \<open>An account in quotes.\<close>

definition names_account :: "string \<Rightarrow> bool" where
  "names_account s = (\<exists>a. length a = 12 \<and> list_all is_digit a \<and> contains (CHR 0x22 # a @ [CHR 0x22]) s)"

lemma account_search: "re_search ACCOUNT_ID_IN_QUOTES_RE s = None \<longleftrightarrow> \<not> names_account s"
  unfolding ACCOUNT_ID_IN_QUOTES_RE_def quoted_group_search in_hex40 in_Eps names_account_def contains_iff
  by auto

text \<open>A segment of one to eleven digits in a path, and the paths that may have one: those with an account or into the
  bootstrap tree.\<close>

definition digit_segment :: "string \<Rightarrow> bool" where
  "digit_segment p = (\<exists>a d b. p = a @ ''/'' @ d @ b \<and> d \<noteq> [] \<and> length d \<le> 11 \<and> list_all is_digit d \<and>
     (b = [] \<or> b = [CHR 0x0A] \<or> (\<exists>b'. b = CHR ''/'' # b')))"

definition crosses_accounts :: "string \<Rightarrow> bool" where
  "crosses_accounts p = (contains ''/bootstrap/'' p \<or> (\<exists>d. length d = 12 \<and> list_all is_digit d \<and> contains (''/'' @ d @ ''/'') p))"

lemma in_Opts: "(t, c') \<in> set (rmatch (foldr (\<lambda>_ r. Opt (Seq (Cls P) r)) xs Eps) (s, c)) \<longleftrightarrow>
    (\<exists>u. length u \<le> length xs \<and> list_all P u \<and> s = u @ t \<and> c' = c)"
proof (induction xs arbitrary: s)
  case Nil
  show ?case unfolding foldr.simps id_apply in_Eps by auto
next
  case (Cons x xs)
  show ?case unfolding foldr.simps comp_def in_Alt seq_Cls Cons.IH in_Eps
  proof
    assume "(\<exists>x t'. P x \<and> s = x # t' \<and> (\<exists>u. length u \<le> length xs \<and> list_all P u \<and> t' = u @ t \<and> c' = c)) \<or> (t, c') = (s, c)"
    then show "\<exists>u. length u \<le> length (x # xs) \<and> list_all P u \<and> s = u @ t \<and> c' = c"
    proof
      assume "\<exists>x t'. P x \<and> s = x # t' \<and> (\<exists>u. length u \<le> length xs \<and> list_all P u \<and> t' = u @ t \<and> c' = c)"
      then obtain y u where "P y" "s = y # u @ t" "length u \<le> length xs" "list_all P u" "c' = c" by blast
      then show ?thesis by (intro exI [of _ "y # u"]) simp
    qed (auto intro: exI [of _ "[]"])
  next
    assume "\<exists>u. length u \<le> length (x # xs) \<and> list_all P u \<and> s = u @ t \<and> c' = c"
    then obtain u where u: "length u \<le> length (x # xs)" "list_all P u" "s = u @ t" "c' = c" by blast
    then show "(\<exists>x t'. P x \<and> s = x # t' \<and> (\<exists>u. length u \<le> length xs \<and> list_all P u \<and> t' = u @ t \<and> c' = c)) \<or> (t, c') = (s, c)"
      by (cases u) auto
  qed
qed

lemma digit_search: "re_search DIGIT_PATH_SEGMENT_RE p = None \<longleftrightarrow> \<not> digit_segment p"
proof -
  define D where "D = foldr (\<lambda>_ r. Opt (Seq (Cls is_digit) r)) [0..<10] Eps"
  have D: "(t, c') \<in> set (rmatch (Seq (Cls is_digit) D) (s, c)) \<longleftrightarrow> (\<exists>d. d \<noteq> [] \<and> length d \<le> 11 \<and> list_all is_digit d \<and> s = d @ t \<and> c' = c)" for t c' s c
  proof -
    have "(t, c') \<in> set (rmatch (Seq (Cls is_digit) D) (s, c)) \<longleftrightarrow>
        (\<exists>x r. is_digit x \<and> s = x # r \<and> (\<exists>u. length u \<le> 10 \<and> list_all is_digit u \<and> r = u @ t \<and> c' = c))"
      unfolding seq_Cls D_def in_Opts by simp
    also have "\<dots> \<longleftrightarrow> (\<exists>d. d \<noteq> [] \<and> length d \<le> 11 \<and> list_all is_digit d \<and> s = d @ t \<and> c' = c)"
    proof
      assume "\<exists>x r. is_digit x \<and> s = x # r \<and> (\<exists>u. length u \<le> 10 \<and> list_all is_digit u \<and> r = u @ t \<and> c' = c)"
      then obtain x u where "is_digit x" "s = x # u @ t" "length u \<le> 10" "list_all is_digit u" "c' = c" by blast
      then show "\<exists>d. d \<noteq> [] \<and> length d \<le> 11 \<and> list_all is_digit d \<and> s = d @ t \<and> c' = c" by (intro exI [of _ "x # u"]) simp
    next
      assume "\<exists>d. d \<noteq> [] \<and> length d \<le> 11 \<and> list_all is_digit d \<and> s = d @ t \<and> c' = c"
      then obtain d where "d \<noteq> []" "length d \<le> 11" "list_all is_digit d" "s = d @ t" "c' = c" by blast
      then show "\<exists>x r. is_digit x \<and> s = x # r \<and> (\<exists>u. length u \<le> 10 \<and> list_all is_digit u \<and> r = u @ t \<and> c' = c)" by (cases d) auto
    qed
    finally show ?thesis .
  qed
  have G: "(\<exists>c. (t, c) \<in> set (rmatch (Grp ''1'' (Seq (Cls is_digit) D)) (r, []))) \<longleftrightarrow>
      (\<exists>d. d \<noteq> [] \<and> length d \<le> 11 \<and> list_all is_digit d \<and> r = d @ t)" for t r
    unfolding in_Grp D by auto
  have E: "(\<exists>t' c'. (t', c') \<in> set (rmatch (Alt (Ch (CHR ''/'')) EndD) (t, c))) \<longleftrightarrow> t = [] \<or> t = [CHR 0x0A] \<or> (\<exists>b'. t = CHR ''/'' # b')" for t c
    unfolding in_Alt in_Cls in_asserts by auto
  have "(\<exists>st. st \<in> set (rmatch DIGIT_PATH_SEGMENT_RE (q, []))) \<longleftrightarrow>
      (\<exists>d b. q = ''/'' @ d @ b \<and> d \<noteq> [] \<and> length d \<le> 11 \<and> list_all is_digit d \<and> (b = [] \<or> b = [CHR 0x0A] \<or> (\<exists>b'. b = CHR ''/'' # b')))" (is "?L \<longleftrightarrow> ?R") for q
  proof -
    have "?L \<longleftrightarrow> (\<exists>r t c. q = CHR ''/'' # r \<and> (t, c) \<in> set (rmatch (Grp ''1'' (Seq (Cls is_digit) D)) (r, [])) \<and>
        (\<exists>t' c'. (t', c') \<in> set (rmatch (Alt (Ch (CHR ''/'')) EndD) (t, c))))"
      unfolding DIGIT_PATH_SEGMENT_RE_def D_def [symmetric] seq_Ch in_Seq [of _ "Grp ''1'' (Seq (Cls is_digit) D)"] by (simp only: split_paired_Ex) blast
    also have "\<dots> \<longleftrightarrow> (\<exists>r t. q = CHR ''/'' # r \<and> (\<exists>c. (t, c) \<in> set (rmatch (Grp ''1'' (Seq (Cls is_digit) D)) (r, []))) \<and>
        (t = [] \<or> t = [CHR 0x0A] \<or> (\<exists>b'. t = CHR ''/'' # b')))" unfolding E by blast
    also have "\<dots> \<longleftrightarrow> ?R" unfolding G by auto
    finally show ?thesis .
  qed
  note R = this
  have "re_search DIGIT_PATH_SEGMENT_RE p \<noteq> None \<longleftrightarrow> (\<exists>u q. p = u @ q \<and> (\<exists>st. st \<in> set (rmatch DIGIT_PATH_SEGMENT_RE (q, []))))"
    unfolding re_search_iff by blast
  also have "\<dots> \<longleftrightarrow> digit_segment p" unfolding R digit_segment_def by blast
  finally show ?thesis by blast
qed

lemma exempt_search: "list_ex (\<lambda>r. re_search r p \<noteq> None) (exempt_config_path_patterns (build_default_config d)) \<longleftrightarrow> crosses_accounts p"
proof -
  have b: "re_search (Lit ''/bootstrap/'') p \<noteq> None \<longleftrightarrow> contains ''/bootstrap/'' p"
    unfolding re_search_iff split_paired_Ex in_Lit contains_iff by blast
  let ?r = "Seq (Ch (CHR ''/'')) (foldr (\<lambda>_. Seq (Cls is_digit)) [0..<12] (Ch (CHR ''/'')))"
  have R: "(\<exists>st. st \<in> set (rmatch ?r (q, []))) \<longleftrightarrow> (\<exists>d t. length d = 12 \<and> list_all is_digit d \<and> q = ''/'' @ d @ ''/'' @ t)" for q
    unfolding split_paired_Ex seq_Ch in_hex40 in_Cls by auto
  have "re_search ?r p \<noteq> None \<longleftrightarrow> (\<exists>u q. p = u @ q \<and> (\<exists>st. st \<in> set (rmatch ?r (q, []))))"
    unfolding re_search_iff by blast
  also have "\<dots> \<longleftrightarrow> (\<exists>d. length d = 12 \<and> list_all is_digit d \<and> contains (''/'' @ d @ ''/'') p)"
    unfolding R contains_iff by auto
  finally show ?thesis using b by (simp add: build_default_config_def crosses_accounts_def disj_commute)
qed

definition exempt_assignment :: "string \<Rightarrow> bool" where
  "exempt_assignment s = (\<exists>w n b v. s = w @ n @ b @ ''='' @ v \<and> list_all is_ws w \<and> list_all is_ws b \<and> n \<in> {''sandbox_account_id'', ''prod_account_id''})"

lemma assigned_name: "re_match ASSIGNMENT_VAR_NAME_RE s = Some m \<Longrightarrow> \<exists>w n b v. s = w @ n @ b @ ''='' @ v \<and> list_all is_ws w \<and> list_all is_ws b \<and> group1 m = n"
proof -
  assume "re_match ASSIGNMENT_VAR_NAME_RE s = Some m"
  then have "m \<in> set (rmatch ASSIGNMENT_VAR_NAME_RE (s, []))" by (rule re_match_in)
  then obtain t c where m: "m = (t, c)" "(t, c) \<in> set (rmatch ASSIGNMENT_VAR_NAME_RE (s, []))" by (metis surj_pair)
  from m(2) obtain w n b where "s = w @ n @ b @ ''='' @ t" "list_all is_ws w" "list_all is_ws b" "c = AList.update ''1'' n []"
    unfolding ASSIGNMENT_VAR_NAME_RE_def seq_star seq_Grp_plus in_Cls by auto
  then show ?thesis using m(1) by (intro exI [of _ w] exI [of _ n] exI [of _ b] exI [of _ t]) (simp add: group1_def cap_of_def)
qed

lemma check_account_id_None:
  assumes "check_account_id (build_default_config d) s = None" and "names_account s"
  shows "word_search CONFIG_PATH_VALUE_RE s \<noteq> None \<or> exempt_assignment s"
proof (rule ccontr)
  assume n: "\<not> ?thesis"
  obtain st where st: "re_search ACCOUNT_ID_IN_QUOTES_RE s = Some st" using account_search [of s] assms(2) by auto
  with n assms(1) obtain m where m: "re_match ASSIGNMENT_VAR_NAME_RE s = Some m" "group1 m \<in> {''sandbox_account_id'', ''prod_account_id''}"
    by (auto simp: check_account_id_def build_default_config_def split: option.splits if_splits)
  with assigned_name [OF m(1)] n show False unfolding exempt_assignment_def by metis
qed

text \<open>A line without identity literals.\<close>

definition identity_free :: "string \<Rightarrow> bool" where
  "identity_free s = (\<not> contains (CHR 0x22 # ''us-east-1'' @ [CHR 0x22]) s \<and> \<not> contains (CHR 0x22 # ''useast1'' @ [CHR 0x22]) s \<and>
     \<not> contains ''telemetry.example.com'' s \<and>
     \<not> (\<exists>n. n \<noteq> [] \<and> list_all is_digit n \<and> contains ((CHR 0x22 # ''10.'') @ n @ (''.0.0/16'' @ [CHR 0x22])) s) \<and>
     \<not> declares s \<and>
     (names_account s \<longrightarrow> word_search CONFIG_PATH_VALUE_RE s \<noteq> None \<or> exempt_assignment s) \<and>
     (\<forall>m st. word_search CONFIG_PATH_VALUE_RE s = Some (m, st) \<longrightarrow> crosses_accounts (group1 st) \<or> \<not> digit_segment (group1 st)))"

lemma line_rules_identity_free: "line_rules (build_default_config d) s = [] \<Longrightarrow> identity_free s"
proof -
  let ?c = "build_default_config d"
  assume r: "line_rules ?c s = []"
  have n: "check_account_id ?c s = None" "check_region s = None" "check_domain_apex s = None" "check_cidr s = None"
    "check_config_path_digit_index ?c s = None" "check_declared_local s = None"
    using r by (simp_all add: line_rules_def map_filter_simps split: option.splits)
  have "crosses_accounts (group1 st) \<or> \<not> digit_segment (group1 st)" if "word_search CONFIG_PATH_VALUE_RE s = Some (m, st)" for m st
    using n(5) that exempt_search [of "group1 st" d] digit_search [of "group1 st"]
    by (simp add: check_config_path_digit_index_def split: if_splits)
  then show ?thesis using n check_account_id_None [of d s]
    unfolding identity_free_def check_region_None check_domain_apex_None check_cidr_None check_declared_local_None by blast
qed

lemma scan_file_clean:
  assumes "scan_file fs cfg f = Inr fs'"
  shows "\<exists>content. file_text fs f = Inr content \<and> (fs' = [] \<longleftrightarrow> (\<forall>(n, c) \<in> set (seen_lines False 0 1 (splitlines content)). line_rules cfg c = []))"
  using assms by (auto simp: scan_file_def bindR_Inr_iff scan_lines_seen)

lemma run_scanner_clean:
  assumes "run_scanner fs cfg = Inr 0"
  shows "is_dir fs (live_root cfg) \<and> (\<forall>f \<in> set (tree_entries fs). anchored f = anchored (live_root cfg) \<and> strict_prefix (parts (live_root cfg)) (parts f) \<and>
      endswith (path_name f) ''.hcl'' \<and> \<not> is_allowlisted (path_str (the_default f (relative_to f (path_parent (live_root cfg))))) (allowlist_patterns cfg) \<longrightarrow>
      (\<exists>content. file_text fs f = Inr content \<and> (\<forall>(n, c) \<in> set (seen_lines False 0 1 (splitlines content)). line_rules cfg c = [])))"
proof -
  obtain hs rs where h: "collect_hcl_files fs cfg = Inr hs" "mapM (scan_file fs cfg) hs = Inr rs" "concat rs = []"
    using assms by (auto simp: run_scanner_def scan_tree_def bindR_Inr_iff split: sum.splits if_splits)
  have d: "is_dir fs (live_root cfg)" using h(1) by (auto simp: collect_hcl_files_def split: if_splits)
  have hs: "set hs = {f \<in> set (tree_entries fs). anchored f = anchored (live_root cfg) \<and> strict_prefix (parts (live_root cfg)) (parts f) \<and>
      endswith (path_name f) ''.hcl'' \<and> \<not> is_allowlisted (path_str (the_default f (relative_to f (path_parent (live_root cfg))))) (allowlist_patterns cfg)}"
    using h(1) by (auto simp: collect_hcl_files_def Let_def split: if_splits)
  have "\<exists>content. file_text fs f = Inr content \<and> (\<forall>(n, c) \<in> set (seen_lines False 0 1 (splitlines content)). line_rules cfg c = [])" if f: "f \<in> set hs" for f
  proof -
    obtain ys where y: "ys \<in> set rs" "scan_file fs cfg f = Inr ys" using mapM_elem [OF h(2) f] by blast
    then have "ys = []" using h(3) by auto
    with scan_file_clean [OF y(2)] show ?thesis by blast
  qed
  with d hs show ?thesis by blast
qed

text \<open>C33. When the identity scanner passes, the live root is a directory and every HCL file below it that is not
  allowlisted can be read and, on the lines that are neither comments nor within a mock block, has no region, apex,
  network or \<open>declared_\<close> literal, names an account only in a \<open>config_path\<close> or an exempt variable, and has a
  \<open>config_path\<close> with a numbered segment only across accounts or into the bootstrap tree.\<close>

theorem identity_guard_enforces:
  assumes "identity_main fs env repo_root root_arg = Inr 0"
  shows "\<exists>r. resolve_live_root fs env repo_root root_arg = Inr r \<and> is_dir fs r \<and>
    (\<forall>f \<in> set (tree_entries fs). anchored f = anchored r \<and> strict_prefix (parts r) (parts f) \<and> endswith (path_name f) ''.hcl'' \<and>
        \<not> is_allowlisted (path_str (the_default f (relative_to f (path_parent r)))) [''common/**'', ''**/terraform.tfvars''] \<longrightarrow>
      (\<exists>content. file_text fs f = Inr content \<and> (\<forall>(n, c) \<in> set (seen_lines False 0 1 (splitlines content)). identity_free c)))"
proof -
  obtain r where r: "resolve_live_root fs env repo_root root_arg = Inr r" "run_scanner fs (build_default_config r) = Inr 0"
    using assms by (auto simp: identity_main_def split: sum.splits if_splits)
  have c: "live_root (build_default_config r) = r" "allowlist_patterns (build_default_config r) = [''common/**'', ''**/terraform.tfvars'']"
    by (simp_all add: build_default_config_def)
  show ?thesis
    using r(1) run_scanner_clean [OF r(2), unfolded c] line_rules_identity_free [of r] by (intro exI [of _ r] conjI) (simp, blast, fast)
qed

lemma identity_guard_enforces_witness:
  "identity_main [(Path True [''l'', ''a.hcl''], ''x = 1'')] [] (Path True []) (Some ''/l'') = Inr 0 \<and> identity_free ''x = 1''"
proof -
  let ?fs = "[(Path True [''l'', ''a.hcl''], ''x = 1'')]"
  have m: "identity_main ?fs [] (Path True []) (Some ''/l'') = Inr 0" by code_simp
  have r: "resolve_live_root ?fs [] (Path True []) (Some ''/l'') = Inr (Path True [''l''])" by code_simp
  let ?f = "Path True [''l'', ''a.hcl'']"
  have f: "?f \<in> set (tree_entries ?fs)" "anchored ?f = anchored (Path True [''l''])" "strict_prefix (parts (Path True [''l''])) (parts ?f)"
    "endswith (path_name ?f) ''.hcl''"
    "\<not> is_allowlisted (path_str (the_default ?f (relative_to ?f (path_parent (Path True [''l'']))))) [''common/**'', ''**/terraform.tfvars'']" by code_simp+
  have t: "file_text ?fs ?f = Inr ''x = 1''" by code_simp
  have s: "seen_lines False 0 1 (splitlines ''x = 1'') = [(1, ''x = 1'')]" by code_simp
  have "\<exists>content. file_text ?fs ?f = Inr content \<and> (\<forall>(n, c) \<in> set (seen_lines False 0 1 (splitlines content)). identity_free c)"
    using identity_guard_enforces [OF m] r f by (metis Inr_inject)
  then have "identity_free ''x = 1''" using t s by auto
  with m show ?thesis by blast
qed

text \<open>A comment that opens a mock block hides the lines after it.\<close>

lemma commented_mock_hides:
  "scan_lines (line_rules cfg) False 0 1 [''# mock_outputs = '' @ [CHR 0x7B], ''aws_region = '' @ CHR 0x22 # ''us-east-1'' @ [CHR 0x22]] = []"
  by code_simp

section \<open>The tagging contract\<close>

lemma search_from_Some:
  "search_from A r p s = Some (a, st) \<Longrightarrow> \<exists>pre. s = pre @ a \<and> A (if pre = [] then p else Some (last pre)) \<and> st \<in> set (rmatch r (a, []))"
proof (induction A r p s rule: search_from.induct)
  case (1 A r p)
  then show ?case using re_match_in by (auto split: if_splits)
next
  case (2 A r p c s)
  show ?case
  proof (cases "if A p then re_match r (c # s) else None")
    case None
    then obtain pre where "s = pre @ a" "A (if pre = [] then Some c else Some (last pre))" "st \<in> set (rmatch r (a, []))" using 2 by auto
    then show ?thesis by (intro exI [of _ "c # pre"]) (auto split: if_splits)
  next
    case (Some x)
    then show ?thesis using "2.prems" re_match_in [of r "c # s"] by (intro exI [of _ "[]"]) (auto split: if_splits)
  qed
qed

text \<open>The tags of the provider refer to both variables.\<close>

definition wired_tags :: "string \<Rightarrow> bool" where
  "wired_tags content = (\<exists>u b v. content = u @ ''default_tags'' @ b @ CHR 0x7B # v \<and> list_all is_ws b \<and>
     contains ''var.project_tag'' v \<and> contains ''var.terratest_run_id'' v)"

lemma ref_contained: "re_search (Seq (Lit l) WordEnd) s \<noteq> None \<Longrightarrow> contains l s"
  unfolding re_search_iff split_paired_Ex seq_Lit contains_iff by blast

lemma wiring_clean:
  assumes "check_default_tags_wiring p content = []"
  shows "wired_tags content"
proof -
  obtain a v cs where s: "search_from (\<lambda>_. True) DEFAULT_TAGS_RE None content = Some (a, v, cs)"
    and v: "re_search PROJECT_TAG_REF_RE v \<noteq> None" "re_search RUN_ID_REF_RE v \<noteq> None"
    using assms by (auto simp: check_default_tags_wiring_def split: option.splits if_splits)
  from search_from_Some [OF s] obtain u where u: "content = u @ a" "(v, cs) \<in> set (rmatch DEFAULT_TAGS_RE (a, []))" by blast
  from u(2) obtain b where "a = ''default_tags'' @ b @ CHR 0x7B # v" "list_all is_ws b"
    unfolding DEFAULT_TAGS_RE_def seq_Lit seq_star in_Cls by blast
  with u(1) v show ?thesis unfolding wired_tags_def PROJECT_TAG_REF_RE_def RUN_ID_REF_RE_def using ref_contained by blast
qed

text \<open>A variable is declared in a block that gives it no default.\<close>

definition gives_default :: "string \<Rightarrow> bool" where
  "gives_default body = (\<exists>u b v. body = u @ ''default'' @ b @ ''='' @ v \<and> list_all is_ws b \<and> (u = [] \<or> \<not> word_char (last u)))"

definition declared_bare :: "string \<Rightarrow> string \<Rightarrow> bool" where
  "declared_bare content x = (\<exists>u b b' body v. content = u @ ''variable'' @ b @ CHR 0x22 # x @ CHR 0x22 # b' @ CHR 0x7B # body @ CHR 0x7D # v \<and>
     b \<noteq> [] \<and> list_all is_ws b \<and> list_all is_ws b' \<and> CHR 0x7D \<notin> set body \<and> \<not> gives_default body)"

lemma default_search: "search_from word_start DEFAULT_ASSIGNMENT_RE None body = None \<Longrightarrow> \<not> gives_default body"
proof
  assume n: "search_from word_start DEFAULT_ASSIGNMENT_RE None body = None" and "gives_default body"
  then obtain u b v where g: "body = u @ ''default'' @ b @ ''='' @ v" "list_all is_ws b" "u = [] \<or> \<not> word_char (last u)"
    unfolding gives_default_def by blast
  have "(v, []) \<in> set (rmatch DEFAULT_ASSIGNMENT_RE (''default'' @ b @ ''='' @ v, []))"
    unfolding DEFAULT_ASSIGNMENT_RE_def seq_Lit seq_star in_Cls using g(2) by auto
  moreover have "word_start (if u = [] then None else Some (last u))" using g(3) by (cases "u = []") (auto simp: word_start_def)
  ultimately have "search_from word_start DEFAULT_ASSIGNMENT_RE None body \<noteq> None" unfolding search_from_iff using g(1) by (metis empty_iff empty_set)
  with n show False by blast
qed

lemma in_TAG_VARIABLE:
  assumes "(t, c) \<in> set (rmatch TAG_VARIABLE_RE (s, []))"
  shows "\<exists>b b' x body. s = ''variable'' @ b @ CHR 0x22 # x @ CHR 0x22 # b' @ CHR 0x7B # body @ CHR 0x7D # t \<and> b \<noteq> [] \<and> list_all is_ws b \<and>
    list_all is_ws b' \<and> CHR 0x7D \<notin> set body \<and> group1 (t, c) = x \<and> group2 (t, c) = body"
proof -
  from assms obtain b s1 where 1: "s = ''variable'' @ b @ CHR 0x22 # s1" "b \<noteq> []" "list_all is_ws b"
    "(t, c) \<in> set (rmatch (Seq (Grp ''1'' (Alt (Lit ''project_tag'') (Lit ''terratest_run_id''))) (Seq Quote (Seq Spaces (Seq (Ch (CHR 0x7B)) (Seq (Grp ''2'' NoBrace) (Ch (CHR 0x7D))))))) (s1, []))"
    unfolding TAG_VARIABLE_RE_def seq_Lit seq_plus seq_Ch by blast
  from 1(4) obtain s2 c2 where 2: "(s2, c2) \<in> set (rmatch (Grp ''1'' (Alt (Lit ''project_tag'') (Lit ''terratest_run_id''))) (s1, []))"
    "(t, c) \<in> set (rmatch (Seq Quote (Seq Spaces (Seq (Ch (CHR 0x7B)) (Seq (Grp ''2'' NoBrace) (Ch (CHR 0x7D)))))) (s2, c2))"
    unfolding in_Seq [of _ "Grp ''1'' _"] by blast
  from 2(1) obtain x where x: "s1 = x @ s2" "c2 = AList.update ''1'' x []" unfolding in_Grp in_Alt in_Lit by blast
  from 2(2) obtain b' s3 where 3: "s2 = CHR 0x22 # b' @ CHR 0x7B # s3" "list_all is_ws b'" "(t, c) \<in> set (rmatch (Seq (Grp ''2'' NoBrace) (Ch (CHR 0x7D))) (s3, c2))"
    unfolding seq_Ch seq_star by blast
  from 3(3) obtain s4 c4 where 4: "(s4, c4) \<in> set (rmatch (Grp ''2'' NoBrace) (s3, c2))" "(t, c) \<in> set (rmatch (Ch (CHR 0x7D)) (s4, c4))"
    unfolding in_Seq [of _ "Grp ''2'' _"] by blast
  from 4 obtain body where 5: "s3 = body @ CHR 0x7D # t" "list_all (\<lambda>c. c \<noteq> CHR 0x7D) body" "c = AList.update ''2'' body c2"
    unfolding in_Grp in_star_class in_Cls by auto
  have "s = ''variable'' @ b @ CHR 0x22 # x @ CHR 0x22 # b' @ CHR 0x7B # body @ CHR 0x7D # t" unfolding 1(1) x(1) 3(1) 5(1) by simp
  moreover have "CHR 0x7D \<notin> set body" using 5(2) by (auto simp: list_all_iff)
  moreover have "group1 (t, c) = x" "group2 (t, c) = body" unfolding 5(3) x(2) by (simp_all add: group1_def group2_def cap_of_def)
  ultimately show ?thesis using 1(2,3) 3(2) by blast
qed

lemma map_filter_none: "List.map_filter f xs = [] \<longleftrightarrow> (\<forall>x \<in> set xs. f x = None)"
  by (induction xs) (auto simp: map_filter_simps split: option.splits)

lemma declarations_clean:
  assumes "check_variable_declarations p content = []" and x: "x \<in> {''project_tag'', ''terratest_run_id''}"
  shows "declared_bare content x"
proof -
  let ?bs = "find_from (\<lambda>_. True) TAG_VARIABLE_RE None content"
  have e: "List.map_filter (\<lambda>(a, st). if search_from word_start DEFAULT_ASSIGNMENT_RE None (group2 st) \<noteq> None
      then Some (p, line_number content a, Has_Default (group1 st)) else None) ?bs = []"
    and m: "\<forall>v \<in> {''project_tag'', ''terratest_run_id''}. v \<in> (group1 \<circ> snd) ` set ?bs"
    using assms(1) by (auto simp: check_variable_declarations_def Let_def split: if_splits)
  have d: "search_from word_start DEFAULT_ASSIGNMENT_RE None (group2 st) = None" if "(a, st) \<in> set ?bs" for a st
    using bspec [OF e [unfolded map_filter_none] that] unfolding prod.case by (rule contrapos_pp) simp
  from m x obtain a st where b: "(a, st) \<in> set ?bs" "group1 st = x" by fastforce
  obtain t c where st: "st = (t, c)" by fastforce
  from find_from_in [OF b(1)] obtain u where u: "content = u @ a" "(t, c) \<in> set (rmatch TAG_VARIABLE_RE (a, []))" unfolding st by blast
  have "search_from word_start DEFAULT_ASSIGNMENT_RE None (group2 st) = None" using d b(1) by blast
  then have g: "\<not> gives_default (group2 st)" by (rule default_search)
  from in_TAG_VARIABLE [OF u(2)] g b(2) u(1) show ?thesis unfolding declared_bare_def st by blast
qed

text \<open>The first line of the values file that sets a key gives it this value.\<close>

definition sets_value :: "string \<Rightarrow> string \<Rightarrow> string \<Rightarrow> bool" where
  "sets_value content key v = (\<exists>u w b b' t. content = u @ w @ key @ b @ ''='' @ b' @ CHR 0x22 # v @ CHR 0x22 # t \<and>
     list_all is_ws w \<and> list_all is_ws b \<and> list_all is_ws b' \<and> (u = [] \<or> last u = CHR 0x0A))"

lemma tfvars_key_clean:
  assumes "check_tfvars_key p content key v = []"
  shows "sets_value content key v"
proof -
  obtain a st where s: "search_from line_start (TFVARS_RE key) None content = Some (a, st)" "group1 st = v"
    using assms by (auto simp: check_tfvars_key_def split: option.splits if_splits)
  obtain t c where st: "st = (t, c)" by fastforce
  from search_from_Some [OF s(1)] obtain u where u: "content = u @ a" "line_start (if u = [] then None else Some (last u))"
    "(t, c) \<in> set (rmatch (TFVARS_RE key) (a, []))" unfolding st by blast
  from u(3) obtain w b b' a' where 1: "a = w @ key @ b @ CHR ''='' # b' @ CHR 0x22 # a'" "list_all is_ws w" "list_all is_ws b" "list_all is_ws b'"
    "(t, c) \<in> set (rmatch (Seq (Grp ''1'' (Star True (Cls (\<lambda>c. c \<noteq> CHR 0x22)))) Quote) (a', []))"
    unfolding TFVARS_RE_def seq_star seq_Lit seq_Ch by blast
  from 1(5) obtain s4 c4 where 4: "(s4, c4) \<in> set (rmatch (Grp ''1'' (Star True (Cls (\<lambda>c. c \<noteq> CHR 0x22)))) (a', []))" "(t, c) \<in> set (rmatch Quote (s4, c4))"
    unfolding in_Seq [of _ "Grp ''1'' _"] by blast
  from 4 obtain x where x: "a' = x @ CHR 0x22 # t" "c = AList.update ''1'' x []" unfolding in_Grp in_star_class in_Cls by auto
  have "x = v" using s(2) x(2) st by (simp add: group1_def cap_of_def)
  then have "content = u @ w @ key @ b @ ''='' @ b' @ CHR 0x22 # v @ CHR 0x22 # t" using u(1) 1(1) x(1) by simp
  moreover have "u = [] \<or> last u = CHR 0x0A" using u(2) by (auto simp: line_start_def split: if_splits)
  ultimately show ?thesis unfolding sets_value_def using 1(2-4) by blast
qed

lemma first_provider_Some:
  "first_provider fs ps = Inr (Some p) \<Longrightarrow> p \<in> set ps \<and> (\<exists>content. file_text fs p = Inr content \<and> search_from word_start PROVIDER_AWS_RE None content \<noteq> None)"
  by (induction ps) (auto simp: bindR_Inr_iff split: if_splits)

lemma example_dir_clean:
  assumes "check_example_dir fs ex = Inr []"
  shows "(\<exists>p content. p \<in> set (tf_files fs ex) \<and> file_text fs p = Inr content \<and> search_from word_start PROVIDER_AWS_RE None content \<noteq> None \<and> wired_tags content) \<and>
    (\<exists>content. file_text fs (path_div ex ''variables.tf'') = Inr content \<and> declared_bare content ''project_tag'' \<and> declared_bare content ''terratest_run_id'') \<and>
    (\<exists>content. file_text fs (path_div ex ''terraform.tfvars'') = Inr content \<and> sets_value content ''project_tag'' ''telemetry-platform'' \<and>
       sets_value content ''terratest_run_id'' ''offline-validate'')"
proof -
  obtain q where q: "find_provider_file fs ex = Inr (Some q)" "\<exists>content. file_text fs q = Inr content \<and> check_default_tags_wiring q content = []"
    using assms by (auto simp: check_example_dir_def bindR_Inr_iff split: option.splits)
  have "q \<in> set (tf_files fs ex)" "\<exists>content. file_text fs q = Inr content \<and> search_from word_start PROVIDER_AWS_RE None content \<noteq> None"
    using first_provider_Some [OF q(1) [unfolded find_provider_file_def]] by auto
  then have 1: "\<exists>p content. p \<in> set (tf_files fs ex) \<and> file_text fs p = Inr content \<and> search_from word_start PROVIDER_AWS_RE None content \<noteq> None \<and> wired_tags content"
    using q(2) wiring_clean by fastforce
  have "\<exists>content. file_text fs (path_div ex ''variables.tf'') = Inr content \<and> check_variable_declarations (path_div ex ''variables.tf'') content = []"
    using assms by (auto simp: check_example_dir_def bindR_Inr_iff Let_def split: option.splits if_splits)
  then have 2: "\<exists>content. file_text fs (path_div ex ''variables.tf'') = Inr content \<and> declared_bare content ''project_tag'' \<and> declared_bare content ''terratest_run_id''"
    using declarations_clean by (metis insertCI)
  have "check_tfvars_offline_values fs ex = Inr []"
    using assms by (auto simp: check_example_dir_def bindR_Inr_iff)
  then obtain content where "file_text fs (path_div ex ''terraform.tfvars'') = Inr content"
    "check_tfvars_key (path_div ex ''terraform.tfvars'') content ''project_tag'' ''telemetry-platform'' = []"
    "check_tfvars_key (path_div ex ''terraform.tfvars'') content ''terratest_run_id'' ''offline-validate'' = []"
    by (auto simp: check_tfvars_offline_values_def Let_def bindR_Inr_iff split: if_splits)
  then show ?thesis using 1 2 tfvars_key_clean by blast
qed



text \<open>Nothing looks at the type of a variable, and without any root the guard passes on an empty tree.\<close>

lemma type_not_checked:
  "check_variable_declarations p (concat [''variable '', [CHR 0x22], ''project_tag'', [CHR 0x22, CHR '' '', CHR 0x7B], ''type = number'', [CHR 0x7D, CHR 0x0A],
     ''variable '', [CHR 0x22], ''terratest_run_id'', [CHR 0x22, CHR '' '', CHR 0x7B, CHR 0x7D]]) = []"
  by code_simp

lemma empty_scan_passes: "tags_main [] [] cwd = Inr 0"
  by (simp add: tags_main_def tags_roots_def run_tags_check_def collect_example_dirs_def path_exists_def is_dir_def is_file_def)

end
