(* ===== verification/Processes.thy ===== *)
theory Processes
  imports Cloud Units
begin

text \<open>
  Programs that a script starts and waits for with \<open>subprocess.run(\<dots>, capture_output=True, text=True)\<close>. A launch is a
  command line, a working directory and an environment; a launcher answers it and may change the files and the rest
  of the machine. Every launch is logged with its answer.
\<close>

record launch =
  l_argv :: "string list"
  l_cwd :: "string option"
  l_env :: "(string, string) dict option"

datatype answer = Done completed | Timed_Out | Not_Found | Not_Allowed | Undecodable

record 'v host =
  launches :: "(launch \<times> answer) list"
  beyond :: 'v

type_synonym 'v launcher = "launch \<Rightarrow> (path, string) dict \<Rightarrow> 'v \<Rightarrow> answer \<times> (path, string) dict \<times> 'v"

fun answer_result :: "answer \<Rightarrow> exn + completed" where
  "answer_result (Done r) = Inr r"
| "answer_result Timed_Out = Inl TimeoutExpired"
| "answer_result Not_Found = Inl FileNotFoundError"
| "answer_result Not_Allowed = Inl OSError"
| "answer_result Undecodable = Inl ValueError"

definition start_process :: "'v launcher \<Rightarrow> launch \<Rightarrow> ('v host, completed) ci" where
  "start_process start l = (\<lambda>s. let (a, fs, v) = start l (files s) (beyond (world s)) in
     (answer_result a, s\<lparr>files := fs, world := \<lparr>launches = launches (world s) @ [(l, a)], beyond = v\<rparr>\<rparr>))"

text \<open>\<open>invoke_pinned_binary(binary, args, capture_output=True, cwd, env)\<close>.\<close>

definition invoke_captured :: "'v launcher \<Rightarrow> string \<Rightarrow> string list \<Rightarrow> string option \<Rightarrow> (string, string) dict option \<Rightarrow> ('v host, completed) ci" where
  "invoke_captured start binary arguments cwd env = start_process start \<lparr>l_argv = binary # arguments, l_cwd = cwd, l_env = env\<rparr>"

text \<open>\<open>if result.stdout: sys.stdout.write(result.stdout)\<close>.\<close>

definition write_stdout :: "completed \<Rightarrow> ('w, unit) ci" where
  "write_stdout r = (if stdout r = [] then ret () else put_line (stdout r))"

section \<open>Logs of a step\<close>

text \<open>\<open>adds evs P m\<close>: whatever happens, \<open>m\<close> only appends entries that satisfy \<open>P\<close> to the log.\<close>

definition adds :: "('w ci_state \<Rightarrow> 'e list) \<Rightarrow> ('e \<Rightarrow> bool) \<Rightarrow> ('w, 'a) ci \<Rightarrow> bool" where
  "adds evs P m = (\<forall>s. \<exists>es. evs (snd (m s)) = evs s @ es \<and> list_all P es)"

named_theorems adds_intros "closure of adds under the step combinators"

lemma addsD: "adds evs P m \<Longrightarrow> m s = (r, t) \<Longrightarrow> \<exists>es. evs t = evs s @ es \<and> list_all P es"
  unfolding adds_def by (metis snd_conv)

lemma addsI: "(\<And>s r t. m s = (r, t) \<Longrightarrow> \<exists>es. evs t = evs s @ es \<and> list_all P es) \<Longrightarrow> adds evs P m"
  unfolding adds_def by (metis surjective_pairing)

lemma adds_mono: "adds evs P m \<Longrightarrow> (\<And>e. P e \<Longrightarrow> Q e) \<Longrightarrow> adds evs Q m"
  unfolding adds_def by (metis list_all_iff)

lemma adds_two:
  assumes "\<exists>es. u = s @ es \<and> list_all P es" and "\<exists>es. t = u @ es \<and> list_all P es"
  shows "\<exists>es. t = s @ es \<and> list_all P es"
  using assms by (auto intro: exI [of _ "_ @ _"])

lemma adds_bind [adds_intros]:
  assumes m: "adds evs P m" and k: "\<And>x. adds evs P (k x)"
  shows "adds evs P (bindC m k)"
proof (rule addsI)
  fix s r t assume b: "bindC m k s = (r, t)"
  obtain q u where q: "m s = (q, u)" by force
  show "\<exists>es. evs t = evs s @ es \<and> list_all P es"
  proof (cases q)
    case (Inl e)
    then show ?thesis using addsD [OF m q] b q by (simp add: bindC_def)
  next
    case (Inr x)
    then have "k x u = (r, t)" using b q by (simp add: bindC_def)
    from adds_two [OF addsD [OF m q] addsD [OF k this]] show ?thesis .
  qed
qed

lemma adds_then [adds_intros]: "adds evs P m \<Longrightarrow> adds evs P k \<Longrightarrow> adds evs P (thenC m k)"
  unfolding thenC_def by (rule adds_bind)

lemma adds_try [adds_intros]:
  assumes m: "adds evs P m" and h: "adds evs P h"
  shows "adds evs P (try_except m p h)"
proof (rule addsI)
  fix s r t assume b: "try_except m p h s = (r, t)"
  obtain q u where q: "m s = (q, u)" by force
  then consider "t = u" | "h u = (r, t)" using b by (auto simp: try_except_def split: sum.splits if_splits)
  then show "\<exists>es. evs t = evs s @ es \<and> list_all P es"
    using addsD [OF m q] adds_two [OF addsD [OF m q] addsD [OF h]] by cases auto
qed

lemma adds_if [adds_intros]: "(b \<Longrightarrow> adds evs P m) \<Longrightarrow> (\<not> b \<Longrightarrow> adds evs P k) \<Longrightarrow> adds evs P (if b then m else k)"
  by simp

lemma adds_option [adds_intros]:
  "(x = None \<Longrightarrow> adds evs P m) \<Longrightarrow> (\<And>y. x = Some y \<Longrightarrow> adds evs P (k y)) \<Longrightarrow> adds evs P (case x of None \<Rightarrow> m | Some y \<Rightarrow> k y)"
  by (cases x) auto

lemma adds_nothing [adds_intros]:
  "adds evs P (ret x)" "adds evs P (raise e)" "adds evs P (lift r)" "adds evs P die" "adds evs P (getenv n)" "adds evs P get_files"
  "adds evs P (read_text p)" "adds evs P (make_parents p)"
  by (auto simp: adds_def ci_defs read_text_def make_parents_def split: option.splits)

lemma adds_iter [adds_intros]: "(\<And>x. x \<in> set xs \<Longrightarrow> adds evs P (f x)) \<Longrightarrow> adds evs P (iterC f xs)"
  by (induction xs) (auto intro: adds_intros)

text \<open>A log that the files and the output do not belong to.\<close>

locale event_log =
  fixes evs :: "'w ci_state \<Rightarrow> 'e list"
  assumes log_printed: "evs (s\<lparr>printed := x\<rparr>) = evs s"
    and log_files: "evs (s\<lparr>files := y\<rparr>) = evs s"
begin

lemma adds_quiet: "adds evs P (put_line l)" "adds evs P (write_stdout r)" "adds evs P (write_text p u)" "adds evs P (append_text p u)"
  by (auto simp: adds_def write_stdout_def write_text_def append_text_def ci_defs log_printed log_files)

lemma adds_output: "adds evs P (write_output q k v)"
  unfolding write_output_def by (rule adds_quiet)

end

definition launched :: "'v host ci_state \<Rightarrow> (launch \<times> answer) list" where
  "launched s = launches (world s)"

interpretation process_log: event_log launched
  by unfold_locales (simp_all add: launched_def)

lemmas launched_quiet [adds_intros] = process_log.adds_quiet process_log.adds_output

lemma start_process_result: "start_process start l s = (q, t) \<Longrightarrow> \<exists>a. q = answer_result a \<and> launched t = launched s @ [(l, a)]"
  by (auto simp: start_process_def launched_def Let_def split: prod.splits)

lemma start_process_Inr: "start_process start l s = (Inr r, t) \<Longrightarrow> launched t = launched s @ [(l, Done r)]"
  by (drule start_process_result, elim exE conjE, rename_tac a, case_tac a) auto

lemma adds_process [adds_intros]: "(\<And>a. P (l, a)) \<Longrightarrow> adds launched P (start_process start l)"
  by (rule addsI) (use start_process_result in fastforce)

lemma adds_invoke [adds_intros]:
  "(\<And>a. P (\<lparr>l_argv = b # xs, l_cwd = c, l_env = env\<rparr>, a)) \<Longrightarrow> adds launched P (invoke_captured start b xs c env)"
  unfolding invoke_captured_def by (rule adds_process)

end
