(* ===== verification/Wrappers.thy ===== *)
theory Wrappers
  imports Processes Accounts
begin

text \<open>
  The commands behind the make targets, each of which starts a pinned binary: \<open>scripts/run_go.py\<close>, \<open>run_terraform.py\<close>,
  \<open>run_terraform_docs.py\<close>, \<open>run_terragrunt.py\<close>, \<open>run_trivy.py\<close>, \<open>run_actionlint.py\<close> and \<open>run_opa.py\<close>, and the catalog of
  targets, \<open>make_help.py\<close>. A \<open>main\<close> takes the words of its command line and ends in a \<open>SystemExit\<close>, unless another
  exception escapes.
\<close>

section \<open>Go\<close>

definition GO_SUBCOMMANDS :: "string list" where
  "GO_SUBCOMMANDS = [''fmt'', ''lint'', ''vuln'', ''unit-test-coverage'', ''unit-test-coverage-json'']"

definition TERRATEST_BUILD_TAG :: string where "TERRATEST_BUILD_TAG = ''terratest''"

definition discover_gomod_dirs :: "(path, string) dict \<Rightarrow> string \<Rightarrow> exn + string list" where
  "discover_gomod_dirs fs providers_root =
     (let ds = sort (map (\<lambda>p. path_str (path_parent p)) (filter (\<lambda>p. ''.terraform'' \<notin> set (parts p)) (rglob fs (path_of providers_root) ''go.mod'')))
      in if ds = [] then Inl GoCommandError else Inr ds)"

definition has_default_build_packages :: "'v launcher \<Rightarrow> string \<Rightarrow> string \<Rightarrow> ('v host, bool) ci" where
  "has_default_build_packages start go_binary module_dir =
     bindC (invoke_captured start go_binary [''list'', ''./...''] (Some module_dir) None) (\<lambda>r.
       if strip (stdout r) \<noteq> [] then ret True
       else if returncode r = 0 \<or> contains ''matched no packages'' (stderr r) then ret False
       else raise GoCommandError)"

text \<open>The binary and its arguments for a subcommand.\<close>

definition go_launch :: "string \<Rightarrow> string \<Rightarrow> string \<Rightarrow> string \<times> string list" where
  "go_launch go_binary govulncheck_binary subcommand =
     (if subcommand = ''fmt'' then (go_binary, [''fmt'', ''.''])
      else if subcommand = ''lint'' then (go_binary, [''vet'', ''-tags'', TERRATEST_BUILD_TAG, ''./...''])
      else if subcommand = ''vuln'' then (govulncheck_binary, [''-tags'', TERRATEST_BUILD_TAG, ''./...''])
      else if subcommand = ''unit-test-coverage'' then (go_binary, [''test'', ''-v'', ''-coverprofile=coverage.out'', ''./...''])
      else (go_binary, [''test'', ''-v'', ''-coverprofile=coverage.out'', ''-json'', ''./...'']))"

definition go_module :: "'v launcher \<Rightarrow> string \<Rightarrow> string \<Rightarrow> string \<Rightarrow> string \<Rightarrow> ('v host, unit) ci" where
  "go_module start go_binary govulncheck_binary subcommand module_dir =
     bindC (if subcommand \<in> {''unit-test-coverage'', ''unit-test-coverage-json''} then has_default_build_packages start go_binary module_dir else ret True) (\<lambda>has.
       if \<not> has then ret ()
       else case go_launch go_binary govulncheck_binary subcommand of (binary, arguments) \<Rightarrow>
         bindC (invoke_captured start binary arguments (Some module_dir) None) (\<lambda>r.
           thenC (write_stdout r) (if returncode r \<noteq> 0 then raise GoCommandError else ret ())))"

definition run_go_command :: "'v launcher \<Rightarrow> string \<Rightarrow> string list \<Rightarrow> string \<Rightarrow> string \<Rightarrow> string \<Rightarrow> ('v host, unit) ci" where
  "run_go_command start subcommand extra_args providers_root go_binary govulncheck_binary =
     (if subcommand \<notin> set GO_SUBCOMMANDS then raise ValueError
      else bindC get_files (\<lambda>fs. bindC (lift (discover_gomod_dirs fs providers_root)) (\<lambda>gomod_dirs.
        iterC (go_module start go_binary govulncheck_binary subcommand) gomod_dirs)))"

text \<open>\<open>shutil.which\<close> is a parameter.\<close>

type_synonym 'v which = "string \<Rightarrow> (path, string) dict \<Rightarrow> 'v \<Rightarrow> string option"

definition which :: "'v which \<Rightarrow> string \<Rightarrow> ('v host, string option) ci" where
  "which wh name = (\<lambda>s. (Inr (wh name (files s) (beyond (world s))), s))"

definition resolve_govulncheck_binary :: "'v launcher \<Rightarrow> 'v which \<Rightarrow> string \<Rightarrow> ('v host, string) ci" where
  "resolve_govulncheck_binary start wh go_binary = bindC (which wh ''govulncheck'') (\<lambda>w.
     if the_default [] w \<noteq> [] then ret ''govulncheck''
     else bindC (invoke_captured start go_binary [''env'', ''GOPATH''] None None) (\<lambda>r.
       if returncode r \<noteq> 0 \<or> strip (stdout r) = [] then raise GoCommandError
       else let gopath_bin = path_div (path_of (strip (stdout r))) ''bin/govulncheck'' in
         bindC get_files (\<lambda>fs. if \<not> path_exists fs gopath_bin then raise GoCommandError else ret (path_str gopath_bin))))"

definition go_main :: "'v launcher \<Rightarrow> 'v which \<Rightarrow> path \<Rightarrow> string list \<Rightarrow> ('v host, unit) ci" where
  "go_main start wh repo_root argl = (case argl of
      [] \<Rightarrow> raise (SystemExit 2)
    | subcommand # extra_args \<Rightarrow>
        if subcommand \<notin> set GO_SUBCOMMANDS then raise (SystemExit 2)
        else if subcommand = ''unit-test-coverage'' \<and> ''--threshold'' \<notin> set extra_args then raise (SystemExit 2)
        else thenC (try_except
          (bindC (if subcommand = ''vuln'' then resolve_govulncheck_binary start wh ''go'' else ret ''govulncheck'') (\<lambda>govulncheck_binary.
             run_go_command start subcommand extra_args (path_str (path_div repo_root ''providers'')) ''go'' govulncheck_binary))
          (\<lambda>e. e = GoCommandError \<or> e = FileNotFoundError) (raise (SystemExit 1)))
          (raise (SystemExit 0)))"

section \<open>Terraform\<close>

definition TERRAFORM_SUBCOMMANDS :: "string list" where "TERRAFORM_SUBCOMMANDS = [''fmt'', ''lint'', ''validate'', ''plan'']"

definition discover_examples :: "(path, string) dict \<Rightarrow> string \<Rightarrow> string list" where
  "discover_examples fs module_path = (let examples_dir = path_div (path_of module_path) ''examples'' in
     if \<not> is_dir fs examples_dir then []
     else sort (map path_str (filter (is_dir fs) (map (\<lambda>n. path_div examples_dir n) (list_dir fs examples_dir)))))"

definition invoke_and_stream :: "'v launcher \<Rightarrow> string \<Rightarrow> string list \<Rightarrow> ('v host, unit) ci" where
  "invoke_and_stream start binary arguments = bindC (invoke_captured start binary arguments None None) (\<lambda>r.
     thenC (write_stdout r) (if returncode r \<noteq> 0 then raise (TerraformCommandError (returncode r)) else ret ()))"

text \<open>One target of \<open>validate\<close> or \<open>plan\<close>.\<close>

definition terraform_target :: "'v launcher \<Rightarrow> string \<Rightarrow> string \<Rightarrow> string \<Rightarrow> ('v host, unit) ci" where
  "terraform_target start terraform_binary subcommand example_dir =
     thenC (invoke_and_stream start terraform_binary [''-chdir='' @ example_dir, ''init'', ''-backend=false''])
       (invoke_and_stream start terraform_binary [''-chdir='' @ example_dir, subcommand])"

definition run_terraform_command :: "'v launcher \<Rightarrow> string \<Rightarrow> string list \<Rightarrow> string \<Rightarrow> string \<Rightarrow> ('v host, unit) ci" where
  "run_terraform_command start subcommand extra terraform_binary tflint_binary =
     (if subcommand = ''fmt'' then invoke_and_stream start terraform_binary (''fmt'' # extra)
      else if subcommand = ''lint'' then invoke_and_stream start tflint_binary extra
      else if subcommand \<in> {''validate'', ''plan''} then
        let module_path = (case extra of p # ps \<Rightarrow> p | [] \<Rightarrow> ''.'') in
        bindC get_files (\<lambda>fs. let examples = discover_examples fs module_path in
          iterC (terraform_target start terraform_binary subcommand) (if examples = [] then [module_path] else examples))
      else raise ValueError)"

definition terraform_main :: "'v launcher \<Rightarrow> string list \<Rightarrow> ('v host, unit) ci" where
  "terraform_main start argl = (case argl of
      [] \<Rightarrow> raise (SystemExit 2)
    | subcommand # extra_args \<Rightarrow>
        if subcommand \<notin> set TERRAFORM_SUBCOMMANDS then raise (SystemExit 2)
        else (\<lambda>s. case run_terraform_command start subcommand extra_args ''terraform'' ''tflint'' s of
            (Inl (TerraformCommandError n), t) \<Rightarrow> (Inl (SystemExit n), t)
          | (Inl e, t) \<Rightarrow> (Inl (if e = FileNotFoundError then SystemExit 1 else e), t)
          | (Inr u, t) \<Rightarrow> (Inl (SystemExit 0), t)))"

section \<open>Terraform documentation\<close>

text \<open>\<open>source\s*=\s*var\.[A-Za-z_][A-Za-z0-9_]*\<close>\<close>

definition SOURCE_VAR_PATTERN :: rx where
  "SOURCE_VAR_PATTERN = Seq (Lit ''source'') (Seq Spaces (Seq (Ch (CHR ''='')) (Seq Spaces (Seq (Lit ''var.'')
     (Seq (Cls (\<lambda>c. between (CHR ''A'') (CHR ''Z'') c \<or> between (CHR ''a'') (CHR ''z'') c \<or> c = CHR ''_''))
       (Star True (Cls (\<lambda>c. between (CHR ''A'') (CHR ''Z'') c \<or> between (CHR ''a'') (CHR ''z'') c \<or> is_digit c \<or> c = CHR ''_''))))))))"

fun any_text :: "(path, string) dict \<Rightarrow> (string \<Rightarrow> bool) \<Rightarrow> path list \<Rightarrow> exn + bool" where
  "any_text fs P [] = Inr False"
| "any_text fs P (p # ps) = bindR (file_text fs p) (\<lambda>content. if P content then Inr True else any_text fs P ps)"

definition module_uses_variable_source :: "(path, string) dict \<Rightarrow> string \<Rightarrow> exn + bool" where
  "module_uses_variable_source fs module_path = (let module_dir = path_of module_path in
     any_text fs (\<lambda>content. re_search SOURCE_VAR_PATTERN content \<noteq> None)
       (sort_key parts (map (\<lambda>n. Path (anchored module_dir) (parts module_dir @ [n])) (filter (\<lambda>n. endswith n ''.tf'') (list_dir fs module_dir)))))"

definition run_terraform_docs_command :: "'v launcher \<Rightarrow> string \<Rightarrow> string list \<Rightarrow> string \<Rightarrow> ('v host, unit) ci" where
  "run_terraform_docs_command start subcommand extra terraform_docs_binary =
     (if subcommand \<noteq> ''check'' then raise ValueError
      else case extra of
        [module_path] \<Rightarrow> bindC get_files (\<lambda>fs. bindC (lift (module_uses_variable_source fs module_path)) (\<lambda>b.
          if b then ret ()
          else bindC (invoke_captured start terraform_docs_binary [''markdown'', ''table'', ''--output-file'', ''README.md'', ''--output-check'', module_path] None None) (\<lambda>r.
            thenC (write_stdout r) (if returncode r \<noteq> 0 then raise (TerraformDocsCommandError (returncode r)) else ret ()))))
      | _ \<Rightarrow> raise ValueError)"

definition terraform_docs_main :: "'v launcher \<Rightarrow> string list \<Rightarrow> ('v host, unit) ci" where
  "terraform_docs_main start argl = (case argl of
      [] \<Rightarrow> raise (SystemExit 2)
    | subcommand # extra_args \<Rightarrow>
        if subcommand \<noteq> ''check'' \<or> length extra_args \<noteq> 1 then raise (SystemExit 2)
        else (\<lambda>s. case run_terraform_docs_command start subcommand extra_args ''terraform-docs'' s of
            (Inl (TerraformDocsCommandError n), t) \<Rightarrow> (Inl (SystemExit n), t)
          | (Inl e, t) \<Rightarrow> (Inl (if e = FileNotFoundError then SystemExit 1 else e), t)
          | (Inr u, t) \<Rightarrow> (Inl (SystemExit 0), t)))"

section \<open>Terragrunt\<close>

definition TERRAGRUNT_SUBCOMMANDS :: "string list" where
  "TERRAGRUNT_SUBCOMMANDS = [''validate'', ''hcl-format-check'', ''plan'', ''apply'', ''destroy'']"

definition terragrunt_args :: "string \<Rightarrow> string list \<Rightarrow> exn + string list" where
  "terragrunt_args subcommand extra =
     (if subcommand = ''validate'' then Inr ([''hcl'', ''validate''] @ extra)
      else if subcommand = ''hcl-format-check'' then Inr ([''hcl'', ''format'', ''--check''] @ extra)
      else if subcommand = ''plan'' then Inr ([''run'', ''--all'', ''plan''] @ extra)
      else if subcommand = ''apply'' then Inr ([''run'', ''--all'', ''apply'', ''--non-interactive''] @ extra)
      else if subcommand = ''destroy'' then Inr ([''run'', ''--all'', ''destroy'', ''--non-interactive''] @ extra)
      else Inl ValueError)"

definition run_terragrunt_command :: "'v launcher \<Rightarrow> string \<Rightarrow> string list \<Rightarrow> string \<Rightarrow> ('v host, unit) ci" where
  "run_terragrunt_command start subcommand extra_args terragrunt_binary =
     bindC (lift (terragrunt_args subcommand extra_args)) (\<lambda>binary_args.
     bindC (invoke_captured start terragrunt_binary binary_args None None) (\<lambda>r.
       if returncode r \<noteq> 0 then raise TerragruntCommandError else write_stdout r))"

definition terragrunt_main :: "'v launcher \<Rightarrow> string list \<Rightarrow> ('v host, unit) ci" where
  "terragrunt_main start argl = (case argl of
      [] \<Rightarrow> raise (SystemExit 2)
    | subcommand # extra_args \<Rightarrow>
        if subcommand \<notin> set TERRAGRUNT_SUBCOMMANDS then raise (SystemExit 2)
        else thenC (try_except (run_terragrunt_command start subcommand extra_args ''terragrunt'')
            (\<lambda>e. e = TerragruntCommandError \<or> e = FileNotFoundError) (raise (SystemExit 1)))
          (raise (SystemExit 0)))"

section \<open>Trivy and actionlint\<close>

definition OFFLINE_SCAN_RUN_ID :: string where "OFFLINE_SCAN_RUN_ID = ''offline-validate''"

definition scan_env :: "(string, string) dict \<Rightarrow> (string, string) dict" where
  "scan_env env = (if map_of env ''TF_VAR_terratest_run_id'' = None then AList.update ''TF_VAR_terratest_run_id'' OFFLINE_SCAN_RUN_ID env else env)"

definition run_trivy_command :: "'v launcher \<Rightarrow> string list \<Rightarrow> string \<Rightarrow> ('v host, unit) ci" where
  "run_trivy_command start full_args trivy_binary = bindC environ_of (\<lambda>env.
     bindC (invoke_captured start trivy_binary full_args None (Some (scan_env env))) (\<lambda>r.
       thenC (write_stdout r) (if returncode r \<noteq> 0 then raise (TrivyCommandError (returncode r)) else ret ())))"

definition trivy_main :: "'v launcher \<Rightarrow> string list \<Rightarrow> ('v host, unit) ci" where
  "trivy_main start argl = (if argl = [] then raise (SystemExit 2)
     else (\<lambda>s. case run_trivy_command start argl ''trivy'' s of
            (Inl (TrivyCommandError n), t) \<Rightarrow> (Inl (SystemExit n), t)
          | (Inl e, t) \<Rightarrow> (Inl (if e = FileNotFoundError then SystemExit 1 else e), t)
          | (Inr u, t) \<Rightarrow> (Inl (SystemExit 0), t)))"

definition workflow_files :: "(path, string) dict \<Rightarrow> path \<Rightarrow> path list" where
  "workflow_files fs resolved_dir = (let below = (\<lambda>suffix. sort_key parts (map (\<lambda>n. Path (anchored resolved_dir) (parts resolved_dir @ [n]))
       (filter (\<lambda>n. endswith n suffix) (list_dir fs resolved_dir)))) in below ''.yml'' @ below ''.yaml'')"

definition run_actionlint :: "'v launcher \<Rightarrow> path \<Rightarrow> string \<Rightarrow> ('v host, unit) ci" where
  "run_actionlint start resolved_dir actionlint_binary = bindC get_files (\<lambda>fs.
     bindC (invoke_captured start actionlint_binary (map path_str (workflow_files fs resolved_dir)) None None) (\<lambda>r.
       if returncode r \<noteq> 0 then raise ActionlintError else write_stdout r))"

definition actionlint_main :: "'v launcher \<Rightarrow> path \<Rightarrow> ('v host, unit) ci" where
  "actionlint_main start repo_root =
     thenC (try_except (run_actionlint start (path_div repo_root ''.github/workflows'') ''actionlint'') (\<lambda>e. e = ActionlintError) (raise (SystemExit 1)))
       (raise (SystemExit 0))"

section \<open>OPA\<close>

definition run_opa_command :: "'v launcher \<Rightarrow> string \<Rightarrow> string list \<Rightarrow> string \<Rightarrow> ('v host, unit) ci" where
  "run_opa_command start subcommand arguments opa_binary = bindC (invoke_captured start opa_binary (subcommand # arguments) None None) (\<lambda>r.
     if returncode r \<noteq> 0 then raise OpaCommandError else write_stdout r)"

definition POLICIES_BUNDLE :: "path \<Rightarrow> path" where "POLICIES_BUNDLE repo_root = path_div repo_root ''policies/opa/terraform''"

definition module_type_has_policy :: "(path, string) dict \<Rightarrow> path \<Rightarrow> string \<Rightarrow> bool" where
  "module_type_has_policy fs repo_root module_type =
     is_file fs (path_div (path_div (path_div (POLICIES_BUNDLE repo_root) ''provider/aws/module_types'') module_type) ''source_policy.rego'')"

text \<open>The Terraform files in the scope of the source policy.\<close>

definition module_tf_files :: "(path, string) dict \<Rightarrow> path \<Rightarrow> path list" where
  "module_tf_files fs module_dir = sort_key parts (filter (\<lambda>p. anchored p = anchored module_dir \<and> strict_prefix (parts module_dir) (parts p) \<and>
     endswith (path_name p) ''.tf'' \<and> \<not> list_ex (\<lambda>n. n \<in> {''examples'', ''tests''}) (butlast (drop (length (parts module_dir)) (parts p)))) (tree_entries fs))"

definition collect_module_tf_content :: "(path, string) dict \<Rightarrow> path \<Rightarrow> exn + string" where
  "collect_module_tf_content fs module_dir =
     (if \<not> is_dir fs module_dir then Inl ModuleValidateError
      else if module_tf_files fs module_dir = [] then Inl ModuleValidateError
      else bindR (mapM (file_text fs) (module_tf_files fs module_dir)) (\<lambda>ts. Inr (join [CHR 0x0A] ts)))"

definition build_module_input :: "string \<Rightarrow> string \<Rightarrow> json" where
  "build_module_input module_path combined_content =
     JObj [(''module_path'', JStr module_path), (''repo_path'', JStr module_path),
       (''files'', JObj [(module_path @ ''/__module_validate_combined__.tf'', JStr combined_content)])]"

text \<open>\<open>v[0]\<close> of a decoded value that is not empty.\<close>

fun json_first :: "json \<Rightarrow> exn + json" where
  "json_first (JList (x # xs)) = Inr x"
| "json_first (JList []) = Inl IndexError"
| "json_first (JStr (c # cs)) = Inr (JStr [c])"
| "json_first (JStr []) = Inl IndexError"
| "json_first (JObj kvs) = Inl KeyError"
| "json_first v = Inl TypeError"

definition extract_violations :: "string \<Rightarrow> exn + json list" where
  "extract_violations out = (case json_loads out of
      Inl e \<Rightarrow> Inl (if e = JSONDecodeError then ModuleValidateError else e)
    | Inr parsed \<Rightarrow> bindR (json_get parsed ''result'') (\<lambda>v.
        if \<not> truthy v then Inr []
        else bindR (bindR (json_first v) (\<lambda>r. json_get r ''expressions'')) (\<lambda>expressions.
          if \<not> truthy expressions then Inr []
          else bindR (bindR (json_first expressions) (\<lambda>x. json_get x ''value'')) (\<lambda>value'.
            if \<not> truthy value' then Inr [] else json_iter value'))))"

definition forget_file :: "path \<Rightarrow> ('w, unit) ci" where
  "forget_file p = (\<lambda>s. (Inr (), s\<lparr>files := AList.delete p (files s)\<rparr>))"

text \<open>With the temporary file: its name is given.\<close>

definition opa_eval :: "'v launcher \<Rightarrow> path \<Rightarrow> string \<Rightarrow> string \<Rightarrow> json \<Rightarrow> string \<Rightarrow> ('v host, completed) ci" where
  "opa_eval start repo_root opa_binary module_type policy_input input_name =
     thenC (write_text (path_of input_name) (dumps dflt_opts policy_input))
     (bindC (invoke_captured start opa_binary [''eval'', ''--bundle'', path_str (POLICIES_BUNDLE repo_root), ''--input'', input_name, ''--format'', ''json'',
          ''data.terraform.provider.aws.module_types.'' @ module_type @ ''.source.violation''] None None) (\<lambda>r.
       thenC (forget_file (path_of input_name)) (ret r)))"

definition run_module_validate :: "'v launcher \<Rightarrow> path \<Rightarrow> string \<Rightarrow> string \<Rightarrow> string \<Rightarrow> string \<Rightarrow> ('v host, unit) ci" where
  "run_module_validate start repo_root module_path module_type opa_binary input_name = bindC get_files (\<lambda>fs.
     if \<not> module_type_has_policy fs repo_root module_type then ret ()
     else bindC (lift (collect_module_tf_content fs (resolved (path_div repo_root module_path)))) (\<lambda>combined_content.
       bindC (opa_eval start repo_root opa_binary module_type (build_module_input module_path combined_content) input_name) (\<lambda>r.
         if returncode r \<noteq> 0 then raise OpaCommandError
         else bindC (lift (extract_violations (stdout r))) (\<lambda>violations. if violations \<noteq> [] then raise ModuleValidateError else ret ()))))"

definition run_module_validate_cli :: "'v launcher \<Rightarrow> path \<Rightarrow> string \<Rightarrow> string \<Rightarrow> string \<Rightarrow> ('v host, unit) ci" where
  "run_module_validate_cli start repo_root module_path module_type input_name =
     thenC (try_except (run_module_validate start repo_root module_path module_type ''opa'' input_name)
        (\<lambda>e. e = ModuleValidateError \<or> e = OpaCommandError) (raise (SystemExit 1)))
       (raise (SystemExit 0))"

text \<open>The parsed arguments of \<open>module-validate\<close> are given by \<open>parse\<close>, \<open>None\<close> being the usage error.\<close>

definition opa_main :: "'v launcher \<Rightarrow> (string list \<Rightarrow> (string \<times> string) option) \<Rightarrow> path \<Rightarrow> string \<Rightarrow> string list \<Rightarrow> ('v host, unit) ci" where
  "opa_main start parse repo_root input_name argl = (case argl of
      [] \<Rightarrow> raise (SystemExit 2)
    | subcommand # extra_args \<Rightarrow>
        if subcommand = ''module-validate'' then
          (case parse extra_args of None \<Rightarrow> raise (SystemExit 2) | Some (p, t) \<Rightarrow> run_module_validate_cli start repo_root p t input_name)
        else thenC (try_except (run_opa_command start subcommand extra_args ''opa'') (\<lambda>e. e = OpaCommandError) (raise (SystemExit 1)))
          (raise (SystemExit 0)))"

section \<open>The catalog of targets\<close>

definition PHONY_PATTERN :: rx where
  "PHONY_PATTERN = Seq (Lit ''.PHONY:'') (Seq Spaces (Seq (Grp ''1'' (Plus True (Cls dot))) LineEnd))"

definition TARGET_PATTERN :: rx where
  "TARGET_PATTERN = Seq (Grp ''1'' (Seq (Cls (\<lambda>c. between (CHR ''a'') (CHR ''z'') c \<or> between (CHR ''A'') (CHR ''Z'') c \<or> between (CHR ''0'') (CHR ''9'') c \<or> c = CHR ''_'' \<or> c = CHR ''-''))
     (Star True (Cls (\<lambda>c. between (CHR ''a'') (CHR ''z'') c \<or> between (CHR ''A'') (CHR ''Z'') c \<or> between (CHR ''0'') (CHR ''9'') c \<or> c = CHR ''_'' \<or> c = CHR ''.'' \<or> c = CHR ''-''))))) (Ch (CHR '':''))"

fun first_occurrences :: "string list \<Rightarrow> string list \<Rightarrow> string list" where
  "first_occurrences seen [] = []"
| "first_occurrences seen (x # xs) = (if x \<in> set seen then first_occurrences seen xs else x # first_occurrences (x # seen) xs)"

definition all_targets :: "string \<Rightarrow> string list" where
  "all_targets content = first_occurrences []
     (concat (map (\<lambda>(a, st). words_of (the_default [] (cap_of ''1'' (snd st)))) (find_from line_start PHONY_PATTERN None content)) @
      map (\<lambda>(a, st). the_default [] (cap_of ''1'' (snd st))) (find_from line_start TARGET_PATTERN None content))"

definition print_help :: "path \<Rightarrow> ('w, unit) ci" where
  "print_help makefile = bindC get_files (\<lambda>fs.
     if \<not> path_exists fs makefile then raise FileNotFoundError
     else bindC (read_text makefile) (\<lambda>content.
       thenC (put_line ''Available make targets:'') (iterC (\<lambda>t. put_line (''  '' @ t)) (all_targets content))))"

definition help_main :: "path \<Rightarrow> ('w, unit) ci" where
  "help_main makefile = thenC (try_except (print_help makefile) (\<lambda>e. e = FileNotFoundError) (raise (SystemExit 1))) (raise (SystemExit 0))"

end
