(* ===== verification/Provision.thy ===== *)
theory Provision
  imports Wrappers
begin

text \<open>
  The provisioner of the toolchain, \<open>scripts/ensure_tools.py\<close>: the pinned versions, the plan for each release, the
  probes, download and installation, and the command. What the machine offers is a \<open>machine\<close>: starting programs,
  searching the \<open>PATH\<close>, the processor name, the home directory, the temporary directory and the contents of archives.
  A symbolic link is a copy of what it leads to, and the mode of a file is not modelled.
\<close>

record 'v machine =
  launcher_of :: "'v launcher"
  which_of :: "'v which"
  processor :: string
  home_dir :: path
  temp_dir :: "string \<Rightarrow> path"
  zip_members :: "string \<Rightarrow> (string, string) dict option"
  tar_members :: "string \<Rightarrow> (string, string option) dict option"
  tar_tree :: "string \<Rightarrow> (path, string) dict option"

section \<open>Configuration\<close>

definition binary_name_of :: "string \<Rightarrow> string" where "binary_name_of tool = (if tool = ''golang'' then ''go'' else tool)"

definition probe_args :: "string \<Rightarrow> string list" where
  "probe_args tool = the_default [''--version''] (map_of [(''golang'', [''version'']), (''opa'', [''version'']), (''govulncheck'', [''-version''])] tool)"

text \<open>\<open>(?<![\w.])(?:v|go)?(\d+\.\d+(?:\.\d+)?(?:[-+][A-Za-z0-9.+-]+)?)\<close>\<close>

definition VERSION_PATTERN :: rx where
  "VERSION_PATTERN = Seq (Opt (Alt (Ch (CHR ''v'')) (Lit ''go''))) (Grp ''1'' (Seq (Plus True (Cls is_digit)) (Seq (Ch (CHR ''.'')) (Seq (Plus True (Cls is_digit))
     (Seq (Opt (Seq (Ch (CHR ''.'')) (Plus True (Cls is_digit))))
       (Opt (Seq (Cls (\<lambda>c. c = CHR ''-'' \<or> c = CHR ''+''))
         (Plus True (Cls (\<lambda>c. between (CHR ''A'') (CHR ''Z'') c \<or> between (CHR ''a'') (CHR ''z'') c \<or> between (CHR ''0'') (CHR ''9'') c \<or> c \<in> {CHR ''.'', CHR ''+'', CHR ''-''}))))))))))"

definition version_start :: "char option \<Rightarrow> bool" where
  "version_start p = (case p of None \<Rightarrow> True | Some c \<Rightarrow> \<not> word_char c \<and> c \<noteq> CHR ''.'')"

definition SCANNER_PATTERN :: rx where
  "SCANNER_PATTERN = Seq (Lit ''Scanner:'') (Seq Spaces (Seq (Lit ''govulncheck@v'') (Grp ''1'' (Seq (Plus True (Cls is_digit)) (Seq (Ch (CHR ''.''))
     (Seq (Plus True (Cls is_digit)) (Seq (Ch (CHR ''.'')) (Plus True (Cls is_digit)))))))))"

definition extract_version :: "string \<Rightarrow> string \<Rightarrow> string option" where
  "extract_version tool out = (if tool = ''govulncheck'' then map_option (\<lambda>st. the_default [] (cap_of ''1'' (snd st))) (re_search SCANNER_PATTERN out)
     else map_option (\<lambda>(a, st). the_default [] (cap_of ''1'' (snd st))) (search_from version_start VERSION_PATTERN None out))"

definition TOOL_CONFIG :: "(string, string) dict" where
  "TOOL_CONFIG = map (\<lambda>t. (t, ''binary'')) [''terragrunt'', ''opa'', ''tflint'', ''terraform-docs'', ''golangci-lint'', ''yq'', ''golang'', ''actionlint'', ''jq'', ''gh'', ''terraform'', ''trivy''] @
     [(''govulncheck'', ''go-install''), (''pre-commit'', ''uv''), (''python'', ''skip''), (''uv'', ''skip'')]"

definition GO_INSTALL_PACKAGE_MAP :: "(string, string) dict" where
  "GO_INSTALL_PACKAGE_MAP = [(''govulncheck'', ''golang.org/x/vuln/cmd/govulncheck'')]"

datatype archive_kind = Raw | Zip | Tar_Gz

record binary_spec =
  spec_tool :: string
  binary_name :: string
  url :: string
  archive_kind :: archive_kind
  member :: "string option"
  extract_tree :: bool

text \<open>\<open>https://github.com/\<close>\<open>repo\<close>\<open>/releases/download/\<close>\<open>tag\<close>\<open>/\<close>\<open>name\<close>.\<close>

definition release_url :: "string \<Rightarrow> string \<Rightarrow> string \<Rightarrow> string" where
  "release_url repo tag n = concat [''https://github.com/'', repo, ''/releases/download/'', tag, ''/'', n]"

definition release_of :: "string \<Rightarrow> string \<Rightarrow> string \<Rightarrow> (string \<times> archive_kind \<times> string option) option" where
  "release_of tool version arch = (let v = CHR ''v'' # version in map_of
    [(''terragrunt'', (release_url ''gruntwork-io/terragrunt'' v (''terragrunt_linux_'' @ arch), Raw, None)),
     (''opa'', (release_url ''open-policy-agent/opa'' v (concat [''opa_linux_'', arch, ''_static'']), Raw, None)),
     (''yq'', (release_url ''mikefarah/yq'' v (''yq_linux_'' @ arch), Raw, None)),
     (''jq'', (release_url ''jqlang/jq'' (''jq-'' @ version) (''jq-linux-'' @ arch), Raw, None)),
     (''tflint'', (release_url ''terraform-linters/tflint'' v (concat [''tflint_linux_'', arch, ''.zip'']), Zip, Some ''tflint'')),
     (''terraform'', (concat [''https://releases.hashicorp.com/terraform/'', version, ''/terraform_'', version, ''_linux_'', arch, ''.zip''], Zip, Some ''terraform'')),
     (''terraform-docs'', (release_url ''terraform-docs/terraform-docs'' v (concat [''terraform-docs-v'', version, ''-linux-'', arch, ''.tar.gz'']), Tar_Gz, Some ''terraform-docs'')),
     (''golangci-lint'', (release_url ''golangci/golangci-lint'' v (concat [''golangci-lint-'', version, ''-linux-'', arch, ''.tar.gz'']), Tar_Gz,
        Some (concat [''golangci-lint-'', version, ''-linux-'', arch, ''/golangci-lint'']))),
     (''golang'', (concat [''https://go.dev/dl/go'', version, ''.linux-'', arch, ''.tar.gz''], Tar_Gz, Some ''go/bin/go'')),
     (''actionlint'', (release_url ''rhysd/actionlint'' v (concat [''actionlint_'', version, ''_linux_'', arch, ''.tar.gz'']), Tar_Gz, Some ''actionlint'')),
     (''gh'', (release_url ''cli/cli'' v (concat [''gh_'', version, ''_linux_'', arch, ''.tar.gz'']), Tar_Gz, Some (concat [''gh_'', version, ''_linux_'', arch, ''/bin/gh'']))),
     (''trivy'', (release_url ''aquasecurity/trivy'' v (concat [''trivy_'', version, ''_Linux-'',
        the_default arch (map_of [(''amd64'', ''64bit''), (''arm64'', ''ARM64'')] arch), ''.tar.gz'']), Tar_Gz, Some ''trivy''))] tool)"

definition resolve_binary_spec :: "string \<Rightarrow> string \<Rightarrow> string \<Rightarrow> exn + binary_spec" where
  "resolve_binary_spec tool version arch = (case release_of tool version arch of
      None \<Rightarrow> Inl ValueError
    | Some (u, k, m) \<Rightarrow> Inr \<lparr>spec_tool = tool, binary_name = binary_name_of tool, url = u, archive_kind = k, member = m, extract_tree = (tool = ''golang'')\<rparr>)"

section \<open>Pinned versions\<close>

definition version_line :: "string \<Rightarrow> (string \<times> string) option" where
  "version_line line = (let stripped = strip line in
     if stripped = [] \<or> startswith stripped ''#'' then None
     else case words_of stripped of t # v # rest \<Rightarrow> Some (t, v) | _ \<Rightarrow> None)"

definition pinned_versions :: "string \<Rightarrow> (string, string) dict" where
  "pinned_versions content = fold (\<lambda>line d. case version_line line of None \<Rightarrow> d | Some (t, v) \<Rightarrow> AList.update t v d) (splitlines content) []"

definition parse_tool_versions :: "path \<Rightarrow> ('w, (string, string) dict) ci" where
  "parse_tool_versions p = bindC get_files (\<lambda>fs.
     if \<not> path_exists fs p then raise FileNotFoundError else bindC (read_text p) (\<lambda>content. ret (pinned_versions content)))"

definition get_provisioning_method :: "string \<Rightarrow> exn + string" where
  "get_provisioning_method tool = (case map_of TOOL_CONFIG tool of None \<Rightarrow> Inl ValueError | Some m \<Rightarrow> Inr m)"

definition detect_arch :: "'v machine \<Rightarrow> exn + string" where
  "detect_arch m = (let p = lower (processor m) in
     if p \<in> {''x86_64'', ''amd64''} then Inr ''amd64'' else if p \<in> {''aarch64'', ''arm64''} then Inr ''arm64'' else Inl ProvisioningError)"

section \<open>Probes\<close>

definition probe :: "'v machine \<Rightarrow> string \<Rightarrow> string \<Rightarrow> ('v host, string) ci" where
  "probe m binary tool = bindC (invoke_captured (launcher_of m) binary (probe_args tool) None None) (\<lambda>r. ret (strip (stdout r @ stderr r)))"

definition get_installed_version :: "'v machine \<Rightarrow> string \<Rightarrow> ('v host, string) ci" where
  "get_installed_version m tool = bindC (which (which_of m) (binary_name_of tool)) (\<lambda>w. case w of
      None \<Rightarrow> raise FileNotFoundError
    | Some p \<Rightarrow> bindC (try_except (probe m (binary_name_of tool) tool) (\<lambda>e. e = TimeoutExpired) (raise ProvisioningError)) (\<lambda>out.
        case extract_version tool out of None \<Rightarrow> raise ProvisioningError | Some v \<Rightarrow> ret v))"

definition is_version_installed :: "'v machine \<Rightarrow> string \<Rightarrow> string \<Rightarrow> ('v host, bool) ci" where
  "is_version_installed m tool expected_version =
     try_except (bindC (get_installed_version m tool) (\<lambda>v. ret (v = expected_version))) (\<lambda>e. e = FileNotFoundError) (ret False)"

section \<open>Download and installation\<close>

definition resolve_install_dir :: "'v machine \<Rightarrow> ('v host, path) ci" where
  "resolve_install_dir m = bindC (getenv ''ENSURE_TOOLS_INSTALL_DIR'') (\<lambda>o'.
     let p = (case o' of Some (c # cs) \<Rightarrow> path_of (c # cs) | _ \<Rightarrow> path_div (home_dir m) ''.local/bin'') in
     thenC (make_parents p) (bindC get_files (\<lambda>fs. if is_file fs p then raise OSError else ret p)))"

definition env_int :: "string \<Rightarrow> int \<Rightarrow> ('w, int) ci" where
  "env_int n dflt = bindC (getenv n) (\<lambda>o'. case o' of
      None \<Rightarrow> ret dflt
    | Some raw \<Rightarrow> (case py_int raw of None \<Rightarrow> raise ProvisioningError | Some i \<Rightarrow> ret i))"

definition download_timeout_seconds :: "('w, int) ci" where "download_timeout_seconds = env_int ''ENSURE_TOOLS_DOWNLOAD_TIMEOUT'' 300"

definition download_retries :: "('w, int) ci" where
  "download_retries = bindC (env_int ''ENSURE_TOOLS_DOWNLOAD_RETRIES'' 3) (\<lambda>i. if i < 0 then raise ProvisioningError else ret i)"

definition curl_args :: "int \<Rightarrow> path \<Rightarrow> string \<Rightarrow> string list" where
  "curl_args retries dest u = [''--fail'', ''--show-error'', ''--silent'', ''--location'', ''--retry'', show_int retries, ''--retry-connrefused'', ''--retry-all-errors'',
     ''--proto'', ''=https'', ''--output'', path_str dest, u]"

definition download :: "'v machine \<Rightarrow> string \<Rightarrow> path \<Rightarrow> ('v host, unit) ci" where
  "download m u dest = (if \<not> startswith u ''https://'' then raise ValueError
     else bindC (which (which_of m) ''curl'') (\<lambda>w. case w of
         None \<Rightarrow> raise FileNotFoundError
       | Some curl \<Rightarrow> thenC download_timeout_seconds (bindC download_retries (\<lambda>retries.
           bindC (invoke_captured (launcher_of m) curl (curl_args retries dest u) None None) (\<lambda>r.
             if returncode r \<noteq> 0 then raise CalledProcessError else ret ())))))"

text \<open>The content of a member of an archive.\<close>

definition zip_member :: "'v machine \<Rightarrow> binary_spec \<Rightarrow> string \<Rightarrow> exn + string" where
  "zip_member m spec archive = (case member spec of
      None \<Rightarrow> Inl ProvisioningError
    | Some n \<Rightarrow> (case zip_members m archive of
        None \<Rightarrow> Inl OtherError
      | Some ms \<Rightarrow> (case map_of ms n of None \<Rightarrow> Inl ProvisioningError | Some t \<Rightarrow> Inr t)))"

definition tar_member :: "'v machine \<Rightarrow> binary_spec \<Rightarrow> string \<Rightarrow> exn + string" where
  "tar_member m spec archive = (case member spec of
      None \<Rightarrow> Inl ProvisioningError
    | Some n \<Rightarrow> (case tar_members m archive of
        None \<Rightarrow> Inl OtherError
      | Some ms \<Rightarrow> (case map_of ms n of None \<Rightarrow> Inl ProvisioningError | Some None \<Rightarrow> Inl ProvisioningError | Some (Some t) \<Rightarrow> Inr t)))"

definition below :: "path \<Rightarrow> path \<Rightarrow> bool" where "below d p = (anchored p = anchored d \<and> prefix (parts d) (parts p))"

definition replace_tree :: "path \<Rightarrow> (path, string) dict \<Rightarrow> ('w, unit) ci" where
  "replace_tree d tree = (\<lambda>s. (Inr (), s\<lparr>files := map (\<lambda>(p, t). (path_join d p, t)) tree @ filter (\<lambda>(p, t). \<not> below d p) (files s)\<rparr>))"

text \<open>\<open>with tempfile.TemporaryDirectory(\<dots>) as tmp\<close>: the directory is removed whatever happens.\<close>

definition with_temp_dir :: "path \<Rightarrow> ('w, 'a) ci \<Rightarrow> ('w, 'a) ci" where
  "with_temp_dir tmp body = (\<lambda>s. case body s of (r, t) \<Rightarrow> (r, t\<lparr>files := filter (\<lambda>(p, c). \<not> below tmp p) (files t)\<rparr>))"

definition extract_tree_and_symlink :: "'v machine \<Rightarrow> binary_spec \<Rightarrow> string \<Rightarrow> path \<Rightarrow> ('v host, path) ci" where
  "extract_tree_and_symlink m spec archive install_dir = (case member spec of
      None \<Rightarrow> raise ProvisioningError
    | Some n \<Rightarrow> let tree_root = path_div (path_parent install_dir) (spec_tool spec); link = path_div install_dir (binary_name spec) in
        thenC (bindC get_files (\<lambda>fs. if is_file fs tree_root then raise OSError else replace_tree tree_root []))
        (case tar_tree m archive of
          None \<Rightarrow> raise OtherError
        | Some tree \<Rightarrow> thenC (replace_tree tree_root tree)
            (bindC get_files (\<lambda>fs. case map_of fs (path_div tree_root n) of
                None \<Rightarrow> raise ProvisioningError
              | Some content \<Rightarrow> thenC (write_text link content) (ret link)))))"

definition extract_and_install :: "'v machine \<Rightarrow> binary_spec \<Rightarrow> path \<Rightarrow> path \<Rightarrow> ('v host, path) ci" where
  "extract_and_install m spec archive_path install_dir =
     bindC (read_text archive_path) (\<lambda>archive.
       if extract_tree spec then extract_tree_and_symlink m spec archive install_dir
       else let target = path_div install_dir (binary_name spec) in
         bindC (lift (case archive_kind spec of Raw \<Rightarrow> Inr archive | Zip \<Rightarrow> zip_member m spec archive | Tar_Gz \<Rightarrow> tar_member m spec archive)) (\<lambda>content.
           thenC (write_text target content) (ret target)))"

text \<open>\<open>except ProvisioningError: raise; except Exception: raise ProvisioningError\<close>.\<close>

definition as_provisioning :: "('w, 'a) ci \<Rightarrow> ('w, 'a) ci" where
  "as_provisioning m = try_except m is_exception (raise ProvisioningError)"

definition provision_via_binary :: "'v machine \<Rightarrow> string \<Rightarrow> string \<Rightarrow> ('v host, unit) ci" where
  "provision_via_binary m tool version =
     bindC (lift (detect_arch m)) (\<lambda>arch.
     bindC (lift (resolve_binary_spec tool version arch)) (\<lambda>spec.
     bindC (resolve_install_dir m) (\<lambda>install_dir. let tmp = temp_dir m tool; archive_path = path_div tmp ''artifact'' in
     thenC (with_temp_dir tmp (as_provisioning (thenC (download m (url spec) archive_path) (extract_and_install m spec archive_path install_dir))))
     (bindC (is_version_installed m tool version) (\<lambda>b. if b then ret () else raise ProvisioningError)))))"

section \<open>Go tools\<close>

definition resolve_gopath_bin :: "'v machine \<Rightarrow> ('v host, path) ci" where
  "resolve_gopath_bin m = bindC (which (which_of m) ''go'') (\<lambda>w.
     if w = None then raise ProvisioningError
     else bindC (invoke_captured (launcher_of m) ''go'' [''env'', ''GOPATH''] None None) (\<lambda>r. let gopath = strip (stdout r) in
       if returncode r \<noteq> 0 \<or> gopath = [] then raise ProvisioningError else ret (path_div (path_of gopath) ''bin'')))"

definition provision_via_go_install :: "'v machine \<Rightarrow> string \<Rightarrow> string \<Rightarrow> ('v host, unit) ci" where
  "provision_via_go_install m tool version = (case map_of GO_INSTALL_PACKAGE_MAP tool of
      None \<Rightarrow> raise ProvisioningError
    | Some package \<Rightarrow> bindC (which (which_of m) ''go'') (\<lambda>w.
        if w = None then raise ProvisioningError
        else thenC download_timeout_seconds
        (bindC (invoke_captured (launcher_of m) ''go'' [''install'', concat [package, ''@v'', version]] None None) (\<lambda>r.
          if returncode r \<noteq> 0 then raise ProvisioningError
          else bindC (resolve_gopath_bin m) (\<lambda>gopath_bin. let installed_binary = path_div gopath_bin (binary_name_of tool) in
            bindC get_files (\<lambda>fs. if \<not> is_file fs installed_binary then raise ProvisioningError
              else bindC (probe m (path_str installed_binary) tool) (\<lambda>out.
                if extract_version tool out \<noteq> Some version then raise ProvisioningError else ret ())))))))"

definition is_go_install_tool_current :: "'v machine \<Rightarrow> string \<Rightarrow> string \<Rightarrow> ('v host, bool) ci" where
  "is_go_install_tool_current m tool version =
     bindC (try_except (bindC (resolve_gopath_bin m) (\<lambda>p. ret (Some p))) (\<lambda>e. e = ProvisioningError) (ret None)) (\<lambda>b. case b of
         None \<Rightarrow> ret False
       | Some gopath_bin \<Rightarrow> let installed_binary = path_div gopath_bin (binary_name_of tool) in
           bindC get_files (\<lambda>fs. if \<not> is_file fs installed_binary then ret False
             else try_except (bindC (probe m (path_str installed_binary) tool) (\<lambda>out. ret (extract_version tool out = Some version)))
               (\<lambda>e. e = TimeoutExpired) (ret False)))"

section \<open>The command\<close>

definition ensure_tool :: "'v machine \<Rightarrow> string \<Rightarrow> string \<Rightarrow> ('v host, unit) ci" where
  "ensure_tool m tool version = bindC (lift (get_provisioning_method tool)) (\<lambda>method'.
     if method' \<in> {''skip'', ''uv''} then ret ()
     else if method' = ''go-install'' then
       bindC (is_go_install_tool_current m tool version) (\<lambda>current.
         if current then ret () else as_provisioning (provision_via_go_install m tool version))
     else bindC (is_version_installed m tool version) (\<lambda>installed.
       if installed then ret ()
       else if method' = ''binary'' then as_provisioning (provision_via_binary m tool version)
       else raise ProvisioningError))"

definition ensure_main :: "'v machine \<Rightarrow> path \<Rightarrow> ('v host, unit) ci" where
  "ensure_main m p = bindC (try_except (parse_tool_versions p) (\<lambda>e. e = FileNotFoundError) (raise (SystemExit 1))) (\<lambda>tools.
     iterC (\<lambda>(tool, version). try_except (ensure_tool m tool version) (\<lambda>e. e = ProvisioningError \<or> is_value_error e) (raise (SystemExit 1))) tools)"

end
