(* ===== verification/Provisioning.thy ===== *)
theory Provisioning
  imports Provision
begin

text \<open>What the wrappers and the provisioner guarantee.\<close>

section \<open>Steps and their launches\<close>

lemma invoke_Inr: "invoke_captured start b xs c env s = (Inr r, t) \<Longrightarrow> launched t = launched s @ [(\<lparr>l_argv = b # xs, l_cwd = c, l_env = env\<rparr>, Done r)]"
  unfolding invoke_captured_def by (rule start_process_Inr)

lemma invoke_result: "invoke_captured start b xs c env s = (q, t) \<Longrightarrow>
    \<exists>a. q = answer_result a \<and> launched t = launched s @ [(\<lparr>l_argv = b # xs, l_cwd = c, l_env = env\<rparr>, a)]"
  unfolding invoke_captured_def by (rule start_process_result)

lemma write_stdout_result: "write_stdout r s = (q, t) \<Longrightarrow> q = Inr () \<and> launched t = launched s"
  by (auto simp: write_stdout_def launched_def split: if_splits)

lemma which_result: "which wh n s = (q, t) \<Longrightarrow> q = Inr (wh n (files s) (beyond (world s))) \<and> t = s"
  by (auto simp: which_def)

lemma adds_which [adds_intros]: "adds evs P (which wh n)"
  by (simp add: adds_def which_def)

lemma iter_logs:
  assumes "\<And>x s u t. x \<in> set xs \<Longrightarrow> f x s = (Inr u, t) \<Longrightarrow> \<exists>es. launched t = launched s @ es \<and> Q x es"
    and "iterC f xs s = (Inr u, t)"
  shows "\<exists>ess. launched t = launched s @ concat ess \<and> list_all2 Q xs ess"
  using assms
proof (induction xs arbitrary: s)
  case Nil
  then show ?case by auto
next
  case (Cons x xs)
  from Cons.prems(2) obtain v w where 1: "f x s = (Inr v, w)" "iterC f xs w = (Inr u, t)" by (auto simp: thenC_Inr_iff)
  obtain es where es: "launched w = launched s @ es" "Q x es" using Cons.prems(1) [OF _ 1(1)] by auto
  obtain ess where "launched t = launched w @ concat ess" "list_all2 Q xs ess" using Cons.IH [OF Cons.prems(1) 1(2)] by auto
  with es show ?case by (intro exI [of _ "es # ess"]) simp
qed

text \<open>Which exceptions a step may end in.\<close>

definition fails :: "(exn \<Rightarrow> bool) \<Rightarrow> ('w, 'a) ci \<Rightarrow> bool" where
  "fails E m = (\<forall>s e t. m s = (Inl e, t) \<longrightarrow> E e)"

named_theorems fails_intros "closure of fails under the step combinators"

lemma failsD: "fails E m \<Longrightarrow> m s = (Inl e, t) \<Longrightarrow> E e"
  unfolding fails_def by blast

lemma fails_bind [fails_intros]: "fails E m \<Longrightarrow> (\<And>x. fails E (k x)) \<Longrightarrow> fails E (bindC m k)"
  unfolding fails_def bindC_Inl_iff by blast

lemma fails_then [fails_intros]: "fails E m \<Longrightarrow> fails E k \<Longrightarrow> fails E (thenC m k)"
  unfolding fails_def thenC_Inl_iff by blast

lemma fails_if [fails_intros]: "(b \<Longrightarrow> fails E m) \<Longrightarrow> (\<not> b \<Longrightarrow> fails E k) \<Longrightarrow> fails E (if b then m else k)"
  by simp

lemma fails_iter [fails_intros]: "(\<And>x. fails E (f x)) \<Longrightarrow> fails E (iterC f xs)"
proof (induction xs)
  case Nil
  then show ?case by (simp add: fails_def)
next
  case (Cons x xs)
  then show ?case by (simp add: fails_then)
qed

lemma fails_none [fails_intros]: "fails E (ret x)" "fails E get_files" "fails E (write_stdout r)" "E e \<Longrightarrow> fails E (raise e)"
  by (auto simp: fails_def write_stdout_def)

lemma answer_fails: "answer_result a = Inl e \<Longrightarrow> e \<in> {TimeoutExpired, FileNotFoundError, OSError, ValueError}"
  by (cases a) auto

lemma fails_invoke [fails_intros]:
  "E TimeoutExpired \<Longrightarrow> E FileNotFoundError \<Longrightarrow> E OSError \<Longrightarrow> E ValueError \<Longrightarrow> fails E (invoke_captured start b xs c env)"
  unfolding fails_def by (metis answer_fails empty_iff insert_iff invoke_result)

section \<open>Examples\<close>

definition ex_launcher :: "string \<Rightarrow> unit launcher" where
  "ex_launcher out l fs v = (Done \<lparr>returncode = 0, stdout = out, stderr = []\<rparr>, fs, v)"

definition ex_host :: "(path, string) dict \<Rightarrow> unit host ci_state" where
  "ex_host fs = \<lparr>world = \<lparr>launches = [], beyond = ()\<rparr>, cmds = [], environ = [], files = fs, readonly = [], printed = []\<rparr>"

definition ex_machine :: "unit machine" where
  "ex_machine = \<lparr>launcher_of = ex_launcher ''jq-1.7.1'', which_of = (\<lambda>n fs v. Some n), processor = ''x86_64'', home_dir = Path True [''home''],
     temp_dir = (\<lambda>t. Path True [''tmp'', t]), zip_members = (\<lambda>a. None), tar_members = (\<lambda>a. None), tar_tree = (\<lambda>a. None)\<rparr>"

lemma pair_of_fst: "fst x = a \<Longrightarrow> x = (a, snd x)"
  by (metis surjective_pairing)

section \<open>Go modules\<close>

text \<open>What the launches of a module show: its check was run and succeeded, or the build without tags has no packages.\<close>

definition module_checked :: "string \<Rightarrow> string \<Rightarrow> string \<Rightarrow> string \<Rightarrow> (launch \<times> answer) list \<Rightarrow> bool" where
  "module_checked go vuln subcommand d es =
     ((\<exists>r. returncode r = 0 \<and> (\<lparr>l_argv = fst (go_launch go vuln subcommand) # snd (go_launch go vuln subcommand), l_cwd = Some d, l_env = None\<rparr>, Done r) \<in> set es) \<or>
      subcommand \<in> {''unit-test-coverage'', ''unit-test-coverage-json''} \<and>
        (\<exists>r. strip (stdout r) = [] \<and> (\<lparr>l_argv = [go, ''list'', ''./...''], l_cwd = Some d, l_env = None\<rparr>, Done r) \<in> set es))"

lemma default_packages_result:
  assumes "has_default_build_packages start go d s = (Inr b, t)"
  shows "\<exists>r. launched t = launched s @ [(\<lparr>l_argv = [go, ''list'', ''./...''], l_cwd = Some d, l_env = None\<rparr>, Done r)] \<and> (b \<longleftrightarrow> strip (stdout r) \<noteq> [])"
proof -
  obtain r w where "invoke_captured start go [''list'', ''./...''] (Some d) None s = (Inr r, w)"
    and "(if strip (stdout r) \<noteq> [] then ret True else if returncode r = 0 \<or> contains ''matched no packages'' (stderr r) then ret False else raise GoCommandError) w = (Inr b, t)"
    using assms unfolding has_default_build_packages_def bindC_Inr_iff by blast
  then show ?thesis using invoke_Inr by (fastforce split: if_splits)
qed

lemma go_module_checked:
  assumes "go_module start go vuln subcommand d s = (Inr u, t)"
  shows "\<exists>es. launched t = launched s @ es \<and> module_checked go vuln subcommand d es"
proof -
  obtain binary arguments where gl: "go_launch go vuln subcommand = (binary, arguments)" by force
  let ?cov = "subcommand \<in> {''unit-test-coverage'', ''unit-test-coverage-json''}"
  obtain has w where h: "(if ?cov then has_default_build_packages start go d else ret True) s = (Inr has, w)"
    and k: "(if \<not> has then ret () else case go_launch go vuln subcommand of (binary, arguments) \<Rightarrow>
         bindC (invoke_captured start binary arguments (Some d) None) (\<lambda>r. thenC (write_stdout r) (if returncode r \<noteq> 0 then raise GoCommandError else ret ()))) w = (Inr u, t)"
    using assms unfolding go_module_def bindC_Inr_iff by blast
  have first: "\<exists>es. launched w = launched s @ es \<and> (\<not> has \<longrightarrow> module_checked go vuln subcommand d es)"
  proof (cases ?cov)
    case True
    then have "has_default_build_packages start go d s = (Inr has, w)" using h by simp
    from default_packages_result [OF this] True show ?thesis unfolding module_checked_def by fastforce
  next
    case False
    then show ?thesis using h by auto
  qed
  show ?thesis
  proof (cases has)
    case False
    then show ?thesis using k first by simp
  next
    case True
    then obtain r v x where r: "invoke_captured start binary arguments (Some d) None w = (Inr r, v)" "write_stdout r v = (Inr (), x)" "returncode r = 0" "t = x"
      using k by (auto simp: gl bindC_Inr_iff thenC_Inr_iff split: if_splits)
    have "launched t = launched w @ [(\<lparr>l_argv = binary # arguments, l_cwd = Some d, l_env = None\<rparr>, Done r)]"
      using invoke_Inr [OF r(1)] write_stdout_result [OF r(2)] r(4) by simp
    then show ?thesis using first r(3) unfolding module_checked_def gl by fastforce
  qed
qed

lemma run_go_checks:
  assumes "run_go_command start subcommand extra root' go vuln s = (Inr u, t)"
  shows "\<exists>dirs ess. discover_gomod_dirs (files s) root' = Inr dirs \<and> dirs \<noteq> [] \<and> launched t = launched s @ concat ess \<and>
    list_all2 (module_checked go vuln subcommand) dirs ess"
proof -
  obtain dirs where d: "discover_gomod_dirs (files s) root' = Inr dirs" "iterC (go_module start go vuln subcommand) dirs s = (Inr u, t)"
    using assms by (auto simp: run_go_command_def bindC_Inr_iff split: if_splits)
  have "dirs \<noteq> []" using d(1) by (auto simp: discover_gomod_dirs_def Let_def split: if_splits)
  moreover have "\<exists>ess. launched t = launched s @ concat ess \<and> list_all2 (module_checked go vuln subcommand) dirs ess"
    by (rule iter_logs [OF _ d(2)]) (rule go_module_checked)
  ultimately show ?thesis using d(1) by blast
qed

text \<open>The threshold of the coverage gate is demanded but not used.\<close>

lemma threshold_not_used: "run_go_command start subcommand extra root' go vuln = run_go_command start subcommand extra' root' go vuln"
  by (simp add: run_go_command_def)

abbreviation no_exit :: "exn \<Rightarrow> bool" where "no_exit e \<equiv> \<forall>n. e \<noteq> SystemExit n"

lemma ends_zero:
  assumes "thenC (try_except m p (raise (SystemExit 1))) (raise (SystemExit 0)) s = (Inl (SystemExit 0), t)" and "fails no_exit m"
  shows "\<exists>u. m s = (Inr u, t)"
proof (cases "m s")
  case (Pair q v)
  with assms(1) failsD [OF assms(2), of s _ v] show ?thesis
    by (cases q) (auto simp: thenC_def bindC_def try_except_def split: if_splits)
qed

lemma fails_go: "fails no_exit (run_go_command start subcommand extra root' go vuln)"
proof -
  have m: "fails no_exit (go_module start go vuln subcommand d)" for d
    unfolding go_module_def has_default_build_packages_def by (intro fails_intros | simp split: prod.splits add: fails_intros)+
  have d: "fails no_exit (lift (discover_gomod_dirs fs root'))" for fs
    by (auto simp: fails_def discover_gomod_dirs_def Let_def)
  show ?thesis unfolding run_go_command_def by (intro fails_intros m d) auto
qed



section \<open>Terraform examples\<close>

lemma stream_ok:
  assumes "invoke_and_stream start b xs s = (Inr u, t)"
  shows "\<exists>r. returncode r = 0 \<and> launched t = launched s @ [(\<lparr>l_argv = b # xs, l_cwd = None, l_env = None\<rparr>, Done r)]"
proof -
  obtain r v where r: "invoke_captured start b xs None None s = (Inr r, v)" "thenC (write_stdout r) (if returncode r \<noteq> 0 then raise (TerraformCommandError (returncode r)) else ret ()) v = (Inr u, t)"
    using assms unfolding invoke_and_stream_def bindC_Inr_iff by blast
  then obtain x where "write_stdout r v = (Inr x, t)" "returncode r = 0" by (auto simp: thenC_Inr_iff split: if_splits)
  then show ?thesis using invoke_Inr [OF r(1)] write_stdout_result by fastforce
qed

text \<open>The launches for one target: initialised without a backend, then validated or planned.\<close>

definition target_launches :: "string \<Rightarrow> string \<Rightarrow> (launch \<times> answer) list \<Rightarrow> bool" where
  "target_launches subcommand d es = (\<exists>r1 r2. returncode r1 = 0 \<and> returncode r2 = 0 \<and>
     es = [(\<lparr>l_argv = [''terraform'', ''-chdir='' @ d, ''init'', ''-backend=false''], l_cwd = None, l_env = None\<rparr>, Done r1),
           (\<lparr>l_argv = [''terraform'', ''-chdir='' @ d, subcommand], l_cwd = None, l_env = None\<rparr>, Done r2)])"

lemma target_ok: "terraform_target start ''terraform'' subcommand d s = (Inr u, t) \<Longrightarrow> \<exists>es. launched t = launched s @ es \<and> target_launches subcommand d es"
  unfolding terraform_target_def thenC_Inr_iff target_launches_def by (fastforce dest!: stream_ok)

definition terraform_error :: "exn \<Rightarrow> bool" where
  "terraform_error e = (no_exit e \<and> e \<noteq> TerraformCommandError 0)"

lemma fails_terraform: "fails terraform_error (run_terraform_command start subcommand extra tf tflint)"
proof -
  have i: "fails terraform_error (invoke_and_stream start b xs)" for b xs
    unfolding invoke_and_stream_def by (intro fails_intros) (auto simp: terraform_error_def)
  show ?thesis unfolding run_terraform_command_def terraform_target_def Let_def by (intro fails_intros i) (simp add: terraform_error_def)
qed

text \<open>When validating or planning a module ends with status zero, terraform ran exactly twice, successfully, for every
  example of the module, or for the module itself if it has none: first the initialisation without a backend, then the
  subcommand.\<close>

theorem terraform_gate_covers_examples:
  assumes "terraform_main start (subcommand # module_path # rest) s = (Inl (SystemExit 0), t)" and "subcommand = ''validate'' \<or> subcommand = ''plan''"
  shows "\<exists>ess. launched t = launched s @ concat ess \<and> list_all2 (target_launches subcommand)
    (if discover_examples (files s) module_path = [] then [module_path] else discover_examples (files s) module_path) ess"
proof -
  let ?m = "run_terraform_command start subcommand (module_path # rest) ''terraform'' ''tflint''"
  obtain q v where q: "?m s = (q, v)" by force
  have "\<exists>u. q = Inr u \<and> v = t"
  proof (cases q)
    case (Inl e)
    then have "terraform_error e" using failsD [OF fails_terraform] q by blast
    then show ?thesis using assms q Inl by (cases e) (auto simp: terraform_main_def TERRAFORM_SUBCOMMANDS_def terraform_error_def split: if_splits)
  next
    case (Inr u)
    then show ?thesis using assms q by (auto simp: terraform_main_def split: if_splits)
  qed
  then obtain u where "?m s = (Inr u, t)" using q by blast
  then have "iterC (terraform_target start ''terraform'' subcommand)
      (if discover_examples (files s) module_path = [] then [module_path] else discover_examples (files s) module_path) s = (Inr u, t)"
    using assms(2) by (auto simp: run_terraform_command_def bindC_def Let_def)
  from iter_logs [OF _ this] target_ok show ?thesis by blast
qed

lemma terraform_gate_covers_examples_witness:
  "let fs = [(Path False [''m'', ''examples'', ''basic'', ''main.tf''], [])]; t = snd (terraform_main (ex_launcher []) [''validate'', ''m''] (ex_host fs)) in
     \<exists>ess. launched t = launched (ex_host fs) @ concat ess \<and> list_all2 (target_launches ''validate'') [''m/examples/basic''] ess"
proof -
  let ?s = "ex_host [(Path False [''m'', ''examples'', ''basic'', ''main.tf''], [])]"
  have "fst (terraform_main (ex_launcher []) [''validate'', ''m''] ?s) = Inl (SystemExit 0)" by code_simp
  from terraform_gate_covers_examples [OF pair_of_fst [OF this]]
  have "\<exists>ess. launched (snd (terraform_main (ex_launcher []) [''validate'', ''m''] ?s)) = launched ?s @ concat ess \<and> list_all2 (target_launches ''validate'')
      (if discover_examples (files ?s) ''m'' = [] then [''m''] else discover_examples (files ?s) ''m'') ess" by blast
  moreover have "discover_examples (files ?s) ''m'' = [''m/examples/basic'']" by code_simp
  ultimately show ?thesis unfolding Let_def by simp
qed

section \<open>Terragrunt\<close>



section \<open>The source policy of a module\<close>

lemma opa_eval_result:
  assumes "opa_eval start repo_root opa module_type policy_input input_name s = (Inr r, t)"
  shows "launched t = launched s @ [(\<lparr>l_argv = [opa, ''eval'', ''--bundle'', path_str (POLICIES_BUNDLE repo_root), ''--input'', input_name, ''--format'', ''json'',
     ''data.terraform.provider.aws.module_types.'' @ module_type @ ''.source.violation''], l_cwd = None, l_env = None\<rparr>, Done r)]"
proof -
  obtain x v w where 1: "write_text (path_of input_name) (dumps dflt_opts policy_input) s = (Inr x, v)"
    and 2: "invoke_captured start opa [''eval'', ''--bundle'', path_str (POLICIES_BUNDLE repo_root), ''--input'', input_name, ''--format'', ''json'',
      ''data.terraform.provider.aws.module_types.'' @ module_type @ ''.source.violation''] None None v = (Inr r, w)"
    and 3: "forget_file (path_of input_name) w = (Inr (), t)"
    using assms by (auto simp: opa_eval_def thenC_Inr_iff bindC_Inr_iff forget_file_def)
  have "launched v = launched s" using 1 by (auto simp: write_text_def launched_def split: if_splits)
  moreover have "launched t = launched w" using 3 by (auto simp: forget_file_def launched_def)
  ultimately show ?thesis using invoke_Inr [OF 2] by simp
qed



lemma empty_answer_no_violation: "extract_violations [CHR 0x7B, CHR 0x7D] = Inr []"
  by code_simp

lemma violations_found:
  assumes "wf_json (JList vs)"
  shows "extract_violations (dumps dflt_opts (JObj [(''result'', JList [JObj [(''expressions'', JList [JObj [(''value'', JList vs)]])]])])) = Inr vs"
proof -
  let ?v = "JObj [(''result'', JList [JObj [(''expressions'', JList [JObj [(''value'', JList vs)]])]])]"
  have "wf_json ?v" using assms by simp
  then have "loads (dumps dflt_opts ?v) = Some ?v" by (intro loads_dumps) auto
  then have "json_loads (dumps dflt_opts ?v) = Inr ?v" unfolding json_loads_def by (simp only: option.case)
  then show ?thesis unfolding extract_violations_def by (simp only: sum.case) (simp add: json_get_def json_iter_def)
qed

section \<open>The catalog\<close>

lemma first_occurrences_set: "set (first_occurrences seen xs) = set xs - set seen \<and> distinct (first_occurrences seen xs)"
  by (induction seen xs rule: first_occurrences.induct) auto

section \<open>The provisioner\<close>

text \<open>A probe that reported the version of a tool.\<close>

definition reports :: "string \<Rightarrow> string \<Rightarrow> launch \<times> answer \<Rightarrow> bool" where
  "reports tool version e = (\<exists>binary r. e = (\<lparr>l_argv = binary # probe_args tool, l_cwd = None, l_env = None\<rparr>, Done r) \<and>
     extract_version tool (strip (stdout r @ stderr r)) = Some version)"

lemma probe_result:
  assumes "probe m binary tool s = (Inr out, t)"
  shows "\<exists>r. out = strip (stdout r @ stderr r) \<and> launched t = launched s @ [(\<lparr>l_argv = binary # probe_args tool, l_cwd = None, l_env = None\<rparr>, Done r)]"
  using assms invoke_Inr by (fastforce simp: probe_def bindC_Inr_iff)

lemma installed_version_result:
  assumes "get_installed_version m tool s = (Inr v, t)"
  shows "\<exists>e. launched t = launched s @ [e] \<and> reports tool v e"
proof -
  obtain out where "probe m (binary_name_of tool) tool s = (Inr out, t)" "extract_version tool out = Some v"
    using assms by (auto simp: get_installed_version_def bindC_Inr_iff try_except_Inr_iff dest!: which_result split: option.splits)
  with probe_result show ?thesis unfolding reports_def by fastforce
qed

lemma installed_result:
  assumes "is_version_installed m tool version s = (Inr True, t)"
  shows "\<exists>e. launched t = launched s @ [e] \<and> reports tool version e"
proof -
  have "get_installed_version m tool s = (Inr version, t)" using assms by (auto simp: is_version_installed_def bindC_Inr_iff try_except_Inr_iff)
  then show ?thesis by (rule installed_version_result)
qed

text \<open>What ensuring a tool may start: a probe of the tool, the download of its release at the pinned version, the Go
  environment, and the installation of its Go package at the pinned version.\<close>

definition permitted :: "string \<Rightarrow> string \<Rightarrow> launch \<times> answer \<Rightarrow> bool" where
  "permitted tool version e =
     ((\<exists>binary. l_argv (fst e) = binary # probe_args tool) \<or>
      (\<exists>curl retries dest arch spec. resolve_binary_spec tool version arch = Inr spec \<and> startswith (url spec) ''https://'' \<and>
         l_argv (fst e) = curl # curl_args retries dest (url spec)) \<or>
      l_argv (fst e) = [''go'', ''env'', ''GOPATH''] \<or>
      (\<exists>package. map_of GO_INSTALL_PACKAGE_MAP tool = Some package \<and> l_argv (fst e) = [''go'', ''install'', concat [package, ''@v'', version]]))"

lemma adds_lift: "(\<And>x. r = Inr x \<Longrightarrow> adds evs P (k x)) \<Longrightarrow> adds evs P (bindC (lift r) k)"
  by (cases r) (auto simp: adds_def bindC_def)

lemma adds_let: "(\<And>x. x = y \<Longrightarrow> adds evs P (k x)) \<Longrightarrow> adds evs P (let x = y in k x)"
  by simp

lemma adds_files [adds_intros]: "adds launched P (replace_tree d tree)" "adds launched P (with_temp_dir tmp m) = adds launched P m"
  by (auto simp: adds_def replace_tree_def with_temp_dir_def launched_def split: prod.splits) (metis (no_types, lifting) snd_conv surj_pair)+

lemma adds_as_provisioning [adds_intros]: "adds evs P m \<Longrightarrow> adds evs P (as_provisioning m)"
  unfolding as_provisioning_def by (intro adds_intros)

lemma adds_env_int [adds_intros]: "adds evs P (env_int n d)"
  unfolding env_int_def by (intro adds_intros)

lemma adds_download: "(\<And>curl retries a. startswith u ''https://'' \<Longrightarrow> P (\<lparr>l_argv = curl # curl_args retries dest u, l_cwd = None, l_env = None\<rparr>, a)) \<Longrightarrow> adds launched P (download m u dest)"
  unfolding download_def download_timeout_seconds_def download_retries_def by (intro adds_intros) auto

lemma adds_extract: "adds launched P (extract_and_install m spec a d)"
  unfolding extract_and_install_def extract_tree_and_symlink_def Let_def by (intro adds_intros)

lemma adds_probe: "(\<And>b a. P (\<lparr>l_argv = b # probe_args tool, l_cwd = None, l_env = None\<rparr>, a)) \<Longrightarrow> adds launched P (probe m binary tool)"
  unfolding probe_def by (intro adds_intros) auto

lemma adds_installed: "(\<And>b a. P (\<lparr>l_argv = b # probe_args tool, l_cwd = None, l_env = None\<rparr>, a)) \<Longrightarrow> adds launched P (is_version_installed m tool version)"
  unfolding is_version_installed_def get_installed_version_def by (intro adds_intros adds_probe) auto

lemma adds_gopath: "(\<And>a. P (\<lparr>l_argv = [''go'', ''env'', ''GOPATH''], l_cwd = None, l_env = None\<rparr>, a)) \<Longrightarrow> adds launched P (resolve_gopath_bin m)"
  unfolding resolve_gopath_bin_def Let_def by (intro adds_intros) auto

lemma adds_ensure: "adds launched (permitted tool version) (ensure_tool m tool version)"
proof -
  let ?P = "permitted tool version"
  have i: "adds launched ?P (is_version_installed m tool version)" by (rule adds_installed) (auto simp: permitted_def)
  have p: "adds launched ?P (probe m b tool)" for b by (rule adds_probe) (auto simp: permitted_def)
  have g: "adds launched ?P (resolve_gopath_bin m)" by (rule adds_gopath) (auto simp: permitted_def)
  have d: "adds launched ?P (download m (url spec) dest)" if "resolve_binary_spec tool version arch = Inr spec" for arch spec dest
    by (rule adds_download) (use that in \<open>auto simp: permitted_def\<close>)
  have b: "adds launched ?P (provision_via_binary m tool version)"
    unfolding provision_via_binary_def resolve_install_dir_def Let_def adds_files(2)
    by (intro adds_lift adds_intros adds_extract i d | (simp only: adds_files(2)))+
  have o: "adds launched ?P (provision_via_go_install m tool version)"
    unfolding provision_via_go_install_def download_timeout_seconds_def Let_def
    by (intro adds_intros g p) (auto simp: permitted_def)
  have c: "adds launched ?P (is_go_install_tool_current m tool version)"
    unfolding is_go_install_tool_current_def Let_def by (intro adds_intros g p)
  show ?thesis unfolding ensure_tool_def by (intro adds_lift adds_intros i b o c)
qed

lemma parse_versions_result:
  assumes "try_except (parse_tool_versions p) (\<lambda>e. e = FileNotFoundError) (raise (SystemExit 1)) s = (q, t)"
  shows "t = s \<and> (\<forall>x. q = Inr x \<longrightarrow> (\<exists>content. map_of (files s) p = Some content \<and> x = pinned_versions content))"
  using assms by (auto simp: parse_tool_versions_def read_text_def bindC_def try_except_def split: option.splits if_splits)


text \<open>A tool is ensured: the last program started is its probe, and it reported the pinned version.\<close>

lemma last_probe:
  assumes "\<exists>pre. launched w = launched s @ pre" and "\<exists>e. launched t = launched w @ [e] \<and> reports tool version e"
  shows "\<exists>pre e. launched t = launched s @ pre @ [e] \<and> reports tool version e"
  using assms by (metis append.assoc)

lemma adds_extends: "adds launched P m \<Longrightarrow> m s = (r, t) \<Longrightarrow> \<exists>pre. launched t = launched s @ pre"
  using addsD by blast

lemma binary_provisioned:
  assumes "provision_via_binary m tool version s = (Inr u, t)"
  shows "\<exists>pre e. launched t = launched s @ pre @ [e] \<and> reports tool version e"
proof -
  obtain arch spec where a: "detect_arch m = Inr arch" "resolve_binary_spec tool version arch = Inr spec"
    using assms by (auto simp: provision_via_binary_def bindC_Inr_iff)
  define body where "body d = with_temp_dir (temp_dir m tool) (as_provisioning (thenC (download m (url spec) (path_div (temp_dir m tool) ''artifact''))
      (extract_and_install m spec (path_div (temp_dir m tool) ''artifact'') d)))" for d
  have "bindC (resolve_install_dir m) (\<lambda>d. thenC (body d) (bindC (is_version_installed m tool version) (\<lambda>b. if b then ret () else raise ProvisioningError))) s = (Inr u, t)"
    using assms a by (simp add: provision_via_binary_def body_def bindC_def Let_def)
  then obtain d v x w b where 1: "resolve_install_dir m s = (Inr d, v)" "body d v = (Inr x, w)" "is_version_installed m tool version w = (Inr True, t)"
    by (auto simp: bindC_Inr_iff thenC_Inr_iff split: if_splits)
  have "adds launched (\<lambda>_. True) (bindC (resolve_install_dir m) body)"
    unfolding body_def resolve_install_dir_def Let_def by (intro adds_intros adds_extract adds_download | (simp only: adds_files(2)))+
  moreover have "bindC (resolve_install_dir m) body s = (Inr x, w)" using 1 by (auto simp: bindC_def)
  ultimately have "\<exists>pre. launched w = launched s @ pre" by (rule adds_extends)
  from last_probe [OF this installed_result [OF 1(3)]] show ?thesis .
qed

lemma go_probe:
  assumes "probe m binary tool w = (Inr out, t)" "extract_version tool out = Some version"
  shows "\<exists>e. launched t = launched w @ [e] \<and> reports tool version e"
  using probe_result [OF assms(1)] assms(2) unfolding reports_def by blast

lemma go_tool_provisioned:
  assumes "provision_via_go_install m tool version s = (Inr u, t)"
  shows "\<exists>pre e. launched t = launched s @ pre @ [e] \<and> reports tool version e"
proof -
  obtain package w1 w2 w3 w4 x r g out ws where 1: "which (which_of m) ''go'' s = (Inr x, w1)" "download_timeout_seconds w1 = (Inr package, w2)"
    "invoke_captured (launcher_of m) ''go'' ws None None w2 = (Inr r, w3)" "resolve_gopath_bin m w3 = (Inr g, w4)"
    "probe m (path_str (path_div g (binary_name_of tool))) tool w4 = (Inr out, t)" "extract_version tool out = Some version"
    using assms by (auto simp: provision_via_go_install_def bindC_Inr_iff thenC_Inr_iff Let_def split: option.splits if_splits)
  have "launched w2 = launched s" using 1(1,2) which_result [OF 1(1)]
    by (auto simp: download_timeout_seconds_def env_int_def bindC_Inr_iff split: option.splits)
  moreover have "\<exists>pre. launched w3 = launched w2 @ pre" using 1(3) invoke_Inr by blast
  moreover have "\<exists>pre. launched w4 = launched w3 @ pre" by (rule adds_extends [OF adds_gopath [of "\<lambda>_. True"] 1(4)]) simp
  ultimately have "\<exists>pre. launched w4 = launched s @ pre" by (metis append.assoc)
  from last_probe [OF this go_probe [OF 1(5,6)]] show ?thesis .
qed

lemma as_provisioning_Inr: "as_provisioning m s = (Inr u, t) \<Longrightarrow> m s = (Inr u, t)"
  by (auto simp: as_provisioning_def try_except_Inr_iff)

lemma go_tool_current:
  assumes "is_go_install_tool_current m tool version s = (Inr True, t)"
  shows "\<exists>pre e. launched t = launched s @ pre @ [e] \<and> reports tool version e"
proof -
  obtain g w out where 1: "resolve_gopath_bin m s = (Inr g, w)" "probe m (path_str (path_div g (binary_name_of tool))) tool w = (Inr out, t)" "extract_version tool out = Some version"
    using assms by (auto simp: is_go_install_tool_current_def bindC_Inr_iff try_except_Inr_iff Let_def split: option.splits if_splits)
  have "\<exists>pre. launched w = launched s @ pre" by (rule adds_extends [OF adds_gopath [of "\<lambda>_. True"] 1(1)]) simp
  from last_probe [OF this go_probe [OF 1(2,3)]] show ?thesis .
qed

lemma ensured:
  assumes "ensure_tool m tool version s = (Inr u, t)" and "get_provisioning_method tool = Inr method'" "method' \<notin> {''skip'', ''uv''}"
  shows "\<exists>pre e. launched t = launched s @ pre @ [e] \<and> reports tool version e"
proof (cases "method' = ''go-install''")
  case True
  then obtain b w where 1: "is_go_install_tool_current m tool version s = (Inr b, w)" "(if b then ret () else as_provisioning (provision_via_go_install m tool version)) w = (Inr u, t)"
    using assms by (auto simp: ensure_tool_def bindC_def split: prod.splits sum.splits)
  show ?thesis
  proof (cases b)
    case True
    then show ?thesis using 1 go_tool_current by auto
  next
    case False
    have c: "adds launched (\<lambda>_. True) (is_go_install_tool_current m tool version)"
      unfolding is_go_install_tool_current_def Let_def by (intro adds_intros adds_gopath adds_probe) simp_all
    have "\<exists>pre. launched w = launched s @ pre"
      by (rule adds_extends [OF c 1(1)])
    moreover have "provision_via_go_install m tool version w = (Inr u, t)" using as_provisioning_Inr 1(2) False by simp
    then obtain pre e where "launched t = launched w @ pre @ [e]" "reports tool version e" using go_tool_provisioned by blast
    ultimately show ?thesis by (metis append.assoc)
  qed
next
  case False
  then obtain b w where 1: "is_version_installed m tool version s = (Inr b, w)"
    "(if b then ret () else if method' = ''binary'' then as_provisioning (provision_via_binary m tool version) else raise ProvisioningError) w = (Inr u, t)"
    using assms by (auto simp: ensure_tool_def bindC_def split: prod.splits sum.splits)
  show ?thesis
  proof (cases b)
    case True
    then show ?thesis using 1 installed_result by fastforce
  next
    case False
    have "\<exists>pre. launched w = launched s @ pre" by (rule adds_extends [OF adds_installed [of "\<lambda>_. True"] 1(1)]) simp
    moreover have "provision_via_binary m tool version w = (Inr u, t)" using as_provisioning_Inr 1(2) False by (simp split: if_splits)
    then obtain pre e where "launched t = launched w @ pre @ [e]" "reports tool version e" using binary_provisioned by blast
    ultimately show ?thesis by (metis append.assoc)
  qed
qed



end
