(* ===== verification/Templates.thy ===== *)
theory Templates
  imports Lints
begin

text \<open>
  The regression assertions over the shared Terragrunt templates, \<open>scripts/tg_regression.py\<close>.
\<close>

definition REQUIRED_TEMPLATES :: "string list" where
  "REQUIRED_TEMPLATES = [''collector-ingestion.hcl'', ''data-lake.hcl'', ''observability.hcl'', ''dns-prod-zone.hcl'', ''acm-collector.hcl'', ''identity.hcl'', ''oidc-bootstrap.hcl'']"

definition FORBIDDEN_TEMPLATES :: "string list" where "FORBIDDEN_TEMPLATES = [''state-bootstrap.hcl'']"

definition CANONICAL_DOMAIN_INPUTS :: "(string, string list) dict" where
  "CANONICAL_DOMAIN_INPUTS = [(''dns-prod-zone.hcl'', [''prod_hosted_zone_id'']), (''acm-collector.hcl'', [''collector_service_fqdn'', ''collector_pretty_fqdn''])]"

text \<open>\<open>^\s*name\s*=\<close>, and for \<open>zone_id\<close> no comment \<open># ok\<close> in the rest of the line.\<close>

definition assignment_of :: "string \<Rightarrow> rx" where
  "assignment_of n = Seq Spaces (Seq (Lit n) (Seq Spaces (Ch (CHR ''=''))))"

definition OK_COMMENT :: rx where "OK_COMMENT = Seq (Star True (Cls dot)) (Seq (Ch (CHR ''#'')) (Seq Spaces (Lit ''ok'')))"

definition SYNONYM_PATTERNS :: "rx list" where
  "SYNONYM_PATTERNS = [assignment_of ''hosted_zone_id'', assignment_of ''service_fqdn'', assignment_of ''pretty_fqdn'',
     Seq (assignment_of ''zone_id'') (Peek (\<lambda>s. re_match OK_COMMENT s = None)), assignment_of ''collector_fqdn'', assignment_of ''portal_fqdn'']"

text \<open>A literal under \<open>re.IGNORECASE\<close>.\<close>

fun any_case :: "string \<Rightarrow> rx" where
  "any_case [] = Eps"
| "any_case (c # cs) = Seq (Cls (\<lambda>x. lower [x] = lower [c])) (any_case cs)"

definition TODO_PATTERNS :: "rx list" where
  "TODO_PATTERNS = [Seq (any_case ''TODO'') WordEnd, Seq (any_case ''PLACEHOLDER'') WordEnd, Seq (any_case ''FIXME'') WordEnd, Seq (Lit ''XXX'') WordEnd, Seq (any_case ''TBD'') WordEnd]"

definition REQUIRED_ABUSE_LIMIT_PATTERNS :: "(string \<times> rx) list" where
  "REQUIRED_ABUSE_LIMIT_PATTERNS =
     [(''max_request_body_size = 4194304'', Seq (Lit ''max_request_body_size'') (Seq Spaces (Seq (Ch (CHR ''='')) (Seq Spaces (Lit ''4194304''))))),
      (''rate_limit_per_ip = 2000'', Seq (Lit ''rate_limit_per_ip'') (Seq Spaces (Seq (Ch (CHR ''='')) (Seq Spaces (Lit ''2000'')))))]"

definition HARDCODED_PROD_DOMAINS :: "string list" where "HARDCODED_PROD_DOMAINS = [''prod.telemetry.example.com'', ''telemetry.example.com'']"

definition destroy_found :: "string \<Rightarrow> bool" where
  "destroy_found plan =
     (search_from word_start (Seq (any_case ''will be destroyed'') WordEnd) None plan \<noteq> None \<or>
      search_from line_start (Seq Spaces (Seq (Ch (CHR ''-'')) (Seq (Plus True (Cls is_ws)) (Lit ''resource.'')))) None plan \<noteq> None \<or>
      search_from word_start (Seq (Cls (between (CHR ''1'') (CHR ''9''))) (Seq (Star True (Cls is_digit)) (Seq (Plus True (Cls is_ws)) (Seq (any_case ''to'')
        (Seq (Plus True (Cls is_ws)) (Seq (any_case ''destroy'') WordEnd)))))) None plan \<noteq> None)"

datatype template_error = Template_Missing string | Template_Forbidden string | Input_Missing string string | Synonym string | Placeholder string
  | Limit_Missing string | Assume_Role string | Hardcoded_Domain string nat | Planned_Destroy

definition assert_no_planned_destroys :: "string \<Rightarrow> template_error list" where
  "assert_no_planned_destroys plan_output = (if destroy_found plan_output then [Planned_Destroy] else [])"

definition envcommon :: "path \<Rightarrow> string \<Rightarrow> path" where "envcommon repo_root n = path_div (path_div repo_root ''terragrunt/_envcommon'') n"

definition assert_required_templates_exist :: "(path, string) dict \<Rightarrow> path \<Rightarrow> template_error list" where
  "assert_required_templates_exist fs repo_root = map Template_Missing (filter (\<lambda>n. \<not> path_exists fs (envcommon repo_root n)) REQUIRED_TEMPLATES)"

definition assert_no_forbidden_templates :: "(path, string) dict \<Rightarrow> path \<Rightarrow> template_error list" where
  "assert_no_forbidden_templates fs repo_root = map Template_Forbidden (filter (\<lambda>n. path_exists fs (envcommon repo_root n)) FORBIDDEN_TEMPLATES)"

definition assert_canonical_input_names :: "string \<Rightarrow> string \<Rightarrow> template_error list" where
  "assert_canonical_input_names template_name content =
     map (Input_Missing template_name) (filter (\<lambda>n. \<not> contains n content) (the_default [] (map_of CANONICAL_DOMAIN_INPUTS template_name)))"

definition assert_no_synonym_inputs :: "string \<Rightarrow> string \<Rightarrow> template_error list" where
  "assert_no_synonym_inputs template_name content =
     map (\<lambda>r. Synonym template_name) (filter (\<lambda>r. search_from line_start r None content \<noteq> None) SYNONYM_PATTERNS)"

definition assert_no_todo_placeholders :: "string \<Rightarrow> string \<Rightarrow> template_error list" where
  "assert_no_todo_placeholders template_name content =
     map (\<lambda>r. Placeholder template_name) (filter (\<lambda>r. search_from word_start r None content \<noteq> None) TODO_PATTERNS)"

definition assert_abuse_limit_defaults :: "string \<Rightarrow> template_error list" where
  "assert_abuse_limit_defaults content = map (\<lambda>(d, r). Limit_Missing d) (filter (\<lambda>(d, r). re_search r content = None) REQUIRED_ABUSE_LIMIT_PATTERNS)"

definition assert_no_assume_role :: "string \<Rightarrow> string \<Rightarrow> template_error list" where
  "assert_no_assume_role template_name content = (if contains ''assume_role'' content then [Assume_Role template_name] else [])"

text \<open>The first line, other than a comment, with the domain.\<close>

fun domain_line :: "string \<Rightarrow> nat \<Rightarrow> string list \<Rightarrow> nat option" where
  "domain_line dmn i [] = None"
| "domain_line dmn i (line # lines) = (let stripped = strip line in
     if startswith stripped ''#'' then domain_line dmn (i + 1) lines
     else if contains dmn stripped then Some i else domain_line dmn (i + 1) lines)"

definition assert_no_hardcoded_prod_domains :: "string \<Rightarrow> string \<Rightarrow> template_error list" where
  "assert_no_hardcoded_prod_domains template_name content =
     map (Hardcoded_Domain template_name) (List.map_filter (\<lambda>dmn. domain_line dmn 1 (splitlines content)) HARDCODED_PROD_DOMAINS)"

definition content_errors :: "string \<Rightarrow> string \<Rightarrow> template_error list" where
  "content_errors template_name content =
     assert_canonical_input_names template_name content @ assert_no_synonym_inputs template_name content @
     assert_no_todo_placeholders template_name content @ assert_no_assume_role template_name content @
     assert_no_hardcoded_prod_domains template_name content @
     (if template_name = ''collector-ingestion.hcl'' then assert_abuse_limit_defaults content else [])"

definition template_errors :: "(path, string) dict \<Rightarrow> path \<Rightarrow> string \<Rightarrow> exn + template_error list" where
  "template_errors fs repo_root template_name =
     (if \<not> path_exists fs (envcommon repo_root template_name) then Inr []
      else bindR (file_text fs (envcommon repo_root template_name)) (\<lambda>content.
        Inr (content_errors template_name content)))"

definition run_assertions :: "(path, string) dict \<Rightarrow> path \<Rightarrow> exn + template_error list" where
  "run_assertions fs repo_root = bindR (mapM (template_errors fs repo_root) REQUIRED_TEMPLATES) (\<lambda>ess.
     Inr (assert_required_templates_exist fs repo_root @ assert_no_forbidden_templates fs repo_root @ concat ess))"

definition regression_main :: "(path, string) dict \<Rightarrow> path \<Rightarrow> exn + int" where
  "regression_main fs repo_root = bindR (run_assertions fs repo_root) (\<lambda>errors. Inr (if errors = [] then 0 else 1))"

section \<open>What the assertions enforce\<close>

text \<open>A line of the text begins with an assignment to this name.\<close>

definition assigns :: "string \<Rightarrow> string \<Rightarrow> bool" where
  "assigns n content = (\<exists>u w b v. content = u @ w @ n @ b @ ''='' @ v \<and> list_all is_ws w \<and> list_all is_ws b \<and> (u = [] \<or> last u = CHR 0x0A))"

lemma assignment_search: "search_from line_start (assignment_of n) None content = None \<Longrightarrow> \<not> assigns n content"
proof
  assume none: "search_from line_start (assignment_of n) None content = None" and "assigns n content"
  then obtain u w b v where a: "content = u @ w @ n @ b @ ''='' @ v" "list_all is_ws w" "list_all is_ws b" "u = [] \<or> last u = CHR 0x0A"
    unfolding assigns_def by blast
  have "(v, []) \<in> set (rmatch (assignment_of n) (w @ n @ b @ ''='' @ v, []))"
    unfolding assignment_of_def seq_star seq_Lit in_Cls using a(2,3)
    by (intro exI [of _ w] exI [of _ "n @ b @ ''='' @ v"] exI [of _ "b @ ''='' @ v"] conjI exI [of _ b] exI [of _ "''='' @ v"]) auto
  moreover have "line_start (if u = [] then None else Some (last u))" using a(4) by (auto simp: line_start_def)
  ultimately have "search_from line_start (assignment_of n) None content \<noteq> None" unfolding search_from_iff using a(1) by (metis empty_iff empty_set)
  with none show False by blast
qed

lemma domain_line_None: "domain_line dmn i ls = None \<longleftrightarrow> (\<forall>l \<in> set ls. startswith (strip l) ''#'' \<or> \<not> contains dmn (strip l))"
  by (induction dmn i ls rule: domain_line.induct) (auto simp: Let_def)

lemma map_filter_nothing: "List.map_filter f xs = [] \<longleftrightarrow> (\<forall>x \<in> set xs. f x = None)"
  by (induction xs) (auto simp: map_filter_simps split: option.splits)


definition guarded_template :: "string \<Rightarrow> string" where
  "guarded_template n =
     (if n = ''collector-ingestion.hcl'' then ''max_request_body_size = 4194304\<newline>rate_limit_per_ip = 2000''
      else if n = ''dns-prod-zone.hcl'' then ''prod_hosted_zone_id = 1''
      else if n = ''acm-collector.hcl'' then ''collector_service_fqdn = 1\<newline>collector_pretty_fqdn = 2''
      else ''a = 1'')"

definition guarded_templates :: "(path, string) dict" where
  "guarded_templates = map (\<lambda>n. (envcommon (Path False []) n, guarded_template n)) REQUIRED_TEMPLATES"

lemma guarded_ingestion: "content_errors ''collector-ingestion.hcl'' (guarded_template ''collector-ingestion.hcl'') = []"
  by code_simp

lemma guarded_zone: "content_errors ''dns-prod-zone.hcl'' (guarded_template ''dns-prod-zone.hcl'') = []"
  by code_simp

lemma guarded_acm: "content_errors ''acm-collector.hcl'' (guarded_template ''acm-collector.hcl'') = []"
  by code_simp

lemma guarded_others: "list_all (\<lambda>n. content_errors n (guarded_template n) = []) [''data-lake.hcl'', ''observability.hcl'', ''identity.hcl'', ''oidc-bootstrap.hcl'']"
  by code_simp

lemma guarded_no_errors: "list_all (\<lambda>n. content_errors n (guarded_template n) = []) REQUIRED_TEMPLATES"
  using guarded_ingestion guarded_zone guarded_acm guarded_others by (simp add: REQUIRED_TEMPLATES_def)

lemma guarded_present: "list_all (\<lambda>n. path_exists guarded_templates (envcommon (Path False []) n) \<and>
    file_text guarded_templates (envcommon (Path False []) n) = Inr (guarded_template n)) REQUIRED_TEMPLATES"
  by code_simp

lemma guarded_not_forbidden: "assert_no_forbidden_templates guarded_templates (Path False []) = []"
  by code_simp

lemma guarded_templates_pass: "regression_main guarded_templates (Path False []) = Inr 0"
proof -
  have "template_errors guarded_templates (Path False []) n = Inr []" if "n \<in> set REQUIRED_TEMPLATES" for n
    using guarded_no_errors guarded_present that by (simp add: template_errors_def list_all_iff)
  then have "mapM (template_errors guarded_templates (Path False [])) REQUIRED_TEMPLATES = Inr (map (\<lambda>n. []) REQUIRED_TEMPLATES)"
    by (auto simp: REQUIRED_TEMPLATES_def)
  moreover have "assert_required_templates_exist guarded_templates (Path False []) = []"
    using guarded_present by (auto simp: assert_required_templates_exist_def list_all_iff filter_empty_conv)
  ultimately show ?thesis by (simp add: regression_main_def run_assertions_def guarded_not_forbidden)
qed


end
