(* ===== verification/Spec2Isabelle.thy ===== *)
theory Spec2Isabelle
  imports Release Locks Lanes Units Split Waf Running Wiring Sources Foundation Linting Provisioning Templates
begin

text \<open>
  The delivery machinery of the telemetry platform.

  \<^bold>\<open>The program.\<close> The repository deploys an OpenTelemetry collector and a data lake on AWS. Its own
  program logic is Python: the scripts that the CI workflows run (\<open>scripts/\<close>) and the Firehose
  transform of the data lake (\<open>providers/aws/references/data-lake/lambda/cwl_split/index.py\<close>). A pull
  request is classified (scope, title, overrides), its Terragrunt units are detected, filtered and
  split per AWS account for planning and applying, and a merge is released: a version is derived from
  the tags and the title, the branch is locked, the release is published and the branch unlocked.

  \<^bold>\<open>Theories.\<close>
  \<^item> \<open>Prelude\<close>: sums as results, loops that stop at the first error, dictionaries as association lists,
    text operations (\<open>split\<close>, \<open>strip\<close>, \<open>splitlines\<close>), decimal numbers.
  \<^item> \<open>Json\<close>: decoded JSON, \<open>json.dumps\<close>, \<open>json.loads\<close>, \<open>bool\<close>, \<open>str\<close> and \<open>repr\<close> of decoded values. The
    parser is fuelled with twice the length of the text plus two; more fuel never changes its answer,
    and everything \<open>dumps\<close> prints is read back.
  \<^item> \<open>Patterns\<close>: the backtracking semantics of the regular expressions the sources use.
  \<^item> \<open>Runtime\<close>: exceptions, paths, files, environment, output and external commands as a state monad;
    every command a script starts is recorded in the state.
  \<^item> \<open>Numbers\<close>: Python's floats read exactly, iteration and equality of decoded values.
  \<^item> \<open>Titles\<close> (\<open>validate_pr_title.py\<close>), \<open>Versions\<close> (\<open>calculate_version.py\<close>, \<open>ci_calculate_version.py\<close>),
    \<open>Scope\<close> (\<open>detect_scope.py\<close>, \<open>ci_detect_scope.py\<close>, \<open>resolve_module_type.py\<close>,
    \<open>aggregate_required_checks.py\<close>), \<open>Override\<close> (\<open>check_scope_override.py\<close>,
    \<open>check_merged_pr_override.py\<close>): the checks of a pull request.
  \<^item> \<open>Release\<close> (\<open>release_steps.py\<close>, \<open>update_version_files.py\<close>, \<open>check_release_commit.py\<close>,
    \<open>generate_changelog.py\<close>, \<open>ci_generate_changelog.py\<close>, \<open>check_version_immutability.py\<close>,
    \<open>check_staleness.py\<close>, \<open>simulate_merge.py\<close>) and \<open>Locks\<close> (\<open>lock_branch.py\<close>,
    \<open>safety_net_unlock.py\<close>): the release.
  \<^item> \<open>Units\<close> (\<open>detect_terragrunt_units.py\<close>), \<open>Accounts\<close> (\<open>resolve_deploy_role.py\<close>) and \<open>Lanes\<close>
    (\<open>partition_units_by_account.py\<close>, \<open>select_partition_row.py\<close>, \<open>filter_ci_deployable_units.py\<close>,
    \<open>filter_units_with_state.py\<close>): from changed files to the roles that plan and apply them.
  \<^item> \<open>Split\<close> (\<open>cwl_split/index.py\<close>): the Firehose transform.
  \<^item> \<open>Cloud\<close>: calls of AWS clients, recorded in the state, with lemmas on which and how many calls a step
    makes; \<open>Waf\<close> (\<open>perf_waf_allowlist.py\<close>): the firewall rule of the performance tests; \<open>Sweepers\<close> and \<open>Sweep\<close>
    (\<open>terratest_sweep.py\<close>): the sweeper of left-over test resources, with its guarantees in \<open>Sweeping\<close>;
    \<open>Runner\<close> (\<open>run_terratest.py\<close>, \<open>binary_runner.py\<close>): the test runner, with its guarantees in \<open>Running\<close>.
  \<^item> \<open>Guards\<close> (\<open>tf_guard_version_floor.py\<close>, \<open>tf_guard_pinned_sources.py\<close>, \<open>check_action_sha_pins.py\<close>) with what they
    enforce in \<open>Guarding\<close>, \<open>Wiring\<close> (\<open>check_required_var_wiring.py\<close>) and \<open>Sources\<close>
    (\<open>tf_guard_const_sources.py\<close>, \<open>check_terratest_coverage.py\<close>, \<open>check_git_history.py\<close>): the guards that scan
    Terraform, Terragrunt, workflow and Go text.
  \<^item> \<open>Lints\<close> (\<open>tf_validate_dependency_paths.py\<close>, \<open>tg_no_hardcoded_identity.py\<close>, \<open>check_terratest_tags.py\<close>), with what
    they enforce in \<open>Linting\<close>: the lints over units and examples.
  \<^item> \<open>Digest\<close>: MD5 over words of 32 bits, for \<open>Foundation\<close> (\<open>tf_state_preflight.py\<close>, \<open>tg_bucket_name_unique.py\<close>,
    \<open>bootstrap_oidc_provider.py\<close>, \<open>athena_workgroup_cleanup.py\<close>, \<open>tg_output.py\<close>): what an account needs before
    and after a deployment.
  \<^item> \<open>Processes\<close>: programs a script starts and waits for, recorded with their answers; \<open>Wrappers\<close> (\<open>run_go.py\<close>,
    \<open>run_terraform.py\<close>, \<open>run_terraform_docs.py\<close>, \<open>run_terragrunt.py\<close>, \<open>run_trivy.py\<close>, \<open>run_actionlint.py\<close>,
    \<open>run_opa.py\<close>, \<open>make_help.py\<close>): the commands behind the make targets; \<open>Provision\<close> (\<open>ensure_tools.py\<close>): the
    provisioner of the toolchain; what both guarantee is in \<open>Provisioning\<close>.
  \<^item> \<open>Templates\<close> (\<open>tg_regression.py\<close>): the assertions over the shared Terragrunt templates.

  \<^bold>\<open>Correspondence.\<close> A definition has the name of the function it models; a \<open>main\<close> is named after its
  module, and a part of a long function that is modelled on its own has a name of its own. A dict is an
  association list in insertion order, an exception a value of \<open>exn\<close>, a script step a function of the
  machine state. Code outside the repository is a parameter: the external commands (\<open>runner\<close>), S3
  (\<open>head\<close>), the programs the test runner starts (\<open>tools\<close>), those of the wrappers
  and the provisioner (\<open>launcher\<close>, \<open>which\<close>, \<open>machine\<close>), Firehose (\<open>put\<close>), gzip (\<open>gunzip\<close>), the clock, and every other AWS service (\<open>aws\<close>, per
  profile or region where a script opens several clients), which may change between two calls in any way.

  \<^bold>\<open>What is shown.\<close>
  \<^item> Titles and versions: exactly the documented titles are accepted; a derived version exists, is fresh
    and exceeds every published one; it rests on the title the API reports; a failing run writes nothing.
  \<^item> Scope and overrides: the scope follows a table over file classes and only the set of files; an
    override needs the label and a confirmed organisation admin on every path.
  \<^item> Release and locks: publishing keeps its order and stops at the first failure; a derived version can be
    published once; the marker precedes the protection rule, toggling the lock carries the read settings
    over, and the safety net acts on stale locks only.
  \<^item> Units, accounts, lanes: the plan and apply scopes contain exactly the affected units; a unit belongs to
    the account of its tier; the matrix splits a scope without loss; a scope that passed the CI filter never
    meets a forbidden account; no unit is skipped for an error of the state check.
  \<^item> The transform: one status per record; nothing reported as dropped is missing from the stream; no message
    makes the handler fail; messages of body-contract tools are untouched; structured records and metric
    events become complete rows.

  \<^item> The firewall rule: adding it next to other clients loses none of their changes; a run ends within a
    bounded number of calls.
  \<^item> The sweeper: outside the listed accounts it only asks who it is, in check mode it only reads; resources
    of recent runs are spared, with the ages of the ids the test runner generates; every resource of the last
    inventory has an outcome, in the order of dependence; exit status zero means a clean report. The paging
    of the cost API has fuel; it is enough as soon as it exceeds the pages left (\<open>ce_paginate_ends\<close>).
  \<^item> The test runner: it refuses production and DNS-owner accounts before anything but the identity call;
    its sweeps delete only what carries its own run id; exit status zero means that the tests passed and the
    last sweep found nothing of the run; the suite runs every module and exits zero exactly when all do; the
    sweeper reads the run id the runner left behind.
  \<^item> The guards: a guard that passes has checked what it is for: versions at or above the floors, pinned sources
    and actions, new required variables mentioned by every leaf, constant module sources, examples with a test.
    The walk to the \<open>account.hcl\<close> of a leaf is a partial function whose \<open>None\<close> is a loop without end; it ends
    for a live root that is not its own parent (\<open>account_walk_nearest\<close>) and does not for \<open>.\<close> without an
    \<open>account.hcl\<close> (\<open>account_walk_loops\<close>). Masking HCL text keeps every position. Every dependency of a unit leads
    somewhere, no visible line of the live tree holds an identity literal, every example honours the tagging contract.
  \<^item> The foundation: shortened bucket names fit and the guard is exact; the identity provider is created only
    where it is allowed and absent, and a second run changes nothing; the Athena cleanup deletes only workgroups of
    the environment and accounts for each. Its listing is paged with fuel; a listing that outlasts the fuel is an
    error of the model, and the statements hold for every amount of fuel.
  \<^item> The wrappers: a gate that ends with status zero ran its check for every module or example, and OPA reported no
    violation; a terragrunt target starts terragrunt once with the arguments of its subcommand. The provisioner starts
    only probes, HTTPS downloads of the releases at the pinned versions and Go installs of them, and when it returns
    every tool it provisions has reported its pinned version. The template guard enforces the names and domains of
    the shared templates.

  \<^bold>\<open>Interfaces.\<close> \<open>flag_codec\<close> (printing and reading the flags of a scope), \<open>scope_filter\<close> (a filter decides
  unit by unit), \<open>upward_walk\<close> (searching the directories above a path), \<open>event_log\<close> (a
  log that files and output do not belong to) and \<open>acl_edit\<close> (an edit of a rule
  list under optimistic locking) are locales, interpreted on the definitions of the scripts.

  \<^bold>\<open>Not modelled.\<close> The text of error messages and progress lines; the rounding and printing of floats (a
  float keeps its literal); characters above code point 255; symbolic links and empty directories; the
  argument parsers of the scripts, whose results are the arguments of the \<open>main\<close> definitions. Of the other
  Python code: the performance and end-to-end drivers and the trials on copies of the Terragrunt tree, which generate
  load, drive terragrunt and wait for live AWS services. File modes and links are not modelled. Terraform, Terragrunt, Go and the
  policies are not Python.
\<close>

end
